(* ===== verification/Prelude.thy ===== *)
theory Prelude
  imports Main "HOL-Library.Word" "HOL-Library.Signed_Division"
begin

text \<open>
  Shared vocabulary of the glacier development: the C integer types and the casts
  between them, C strings in fixed-size character arrays, the searches and array
  shifts that the C code writes as loops, and loops whose body can fail.

  C's \<open>uint32_t\<close> is \<open>32 word\<close> (arithmetic wraps); C's \<open>int\<close> and \<open>int64_t\<close> are
  HOL \<open>int\<close>, because signed overflow is undefined in C and not a wrap: the predicate
  \<open>in_int\<close> says when a value fits, and the theorems about coordinates say where the
  code's intermediate results do.
\<close>

named_theorems glacier_defs \<open>definitions that component proofs unfold together\<close>

section \<open>Integers\<close>

type_synonym u8 = "8 word"
type_synonym u32 = "32 word"

text \<open>The casts \<open>(int)u\<close> and \<open>(uint32_t)i\<close>, and the range of a 32-bit \<open>int\<close>.\<close>

definition int_of_u32 :: "u32 \<Rightarrow> int" where
  "int_of_u32 u = sint u"

definition u32_of_int :: "int \<Rightarrow> u32" where
  "u32_of_int i = word_of_int i"

definition in_int :: "int \<Rightarrow> bool" where
  "in_int i \<longleftrightarrow> - (2 ^ 31) \<le> i \<and> i < 2 ^ 31"

lemma in_int_int_of_u32 [simp]: "in_int (int_of_u32 u)"
  using sint_range_size [of u] by (simp add: in_int_def int_of_u32_def word_size)

lemma int_of_u32_of_int: "in_int i \<Longrightarrow> int_of_u32 (u32_of_int i) = i"
  by (simp add: in_int_def int_of_u32_def u32_of_int_def sint_word_ariths signed_of_int
      signed_take_bit_int_eq_self)

lemma u32_of_int_of_u32 [simp]: "u32_of_int (int_of_u32 u) = u"
  by (simp add: int_of_u32_def u32_of_int_def)

text \<open>A wrapping increment that does not wrap is a strict increase.\<close>

lemma u32_inc_less: "(n :: u32) + 1 \<noteq> 0 \<Longrightarrow> i < n \<Longrightarrow> i < n + 1"
  by unat_arith

section \<open>C strings in fixed arrays\<close>

text \<open>
  \<open>snprintf(dst, n, "%s", src)\<close> copies \<open>src\<close> up to its terminating NUL, at most
  \<open>n - 1\<close> characters, and terminates. A C string is modelled by its characters
  before the NUL.
\<close>

definition c_str :: "string \<Rightarrow> string" where
  "c_str s = takeWhile (\<lambda>c. c \<noteq> CHR 0x00) s"

definition snprintf_s :: "nat \<Rightarrow> string \<Rightarrow> string" where
  "snprintf_s n s = take (n - 1) (c_str s)"

lemma length_snprintf_s: "0 < n \<Longrightarrow> length (snprintf_s n s) < n"
  by (simp add: snprintf_s_def)

lemma c_str_no_nul: "CHR 0x00 \<notin> set (c_str s)"
  by (auto simp: c_str_def dest: set_takeWhileD)

lemma snprintf_s_no_nul: "CHR 0x00 \<notin> set (snprintf_s n s)"
  using c_str_no_nul [of s] by (auto simp: snprintf_s_def dest: in_set_takeD)

lemma c_str_id: "CHR 0x00 \<notin> set s \<Longrightarrow> c_str s = s"
  by (auto simp: c_str_def takeWhile_eq_all_conv)

lemma snprintf_s_short: "CHR 0x00 \<notin> set s \<Longrightarrow> length s < n \<Longrightarrow> snprintf_s n s = s"
  by (simp add: snprintf_s_def c_str_id)

section \<open>Linear search\<close>

text \<open>\<open>for (i = 0; i < n; i++) if (P(xs[i])) return i;\<close>\<close>

fun find_index :: "('a \<Rightarrow> bool) \<Rightarrow> 'a list \<Rightarrow> nat option" where
  "find_index P [] = None"
| "find_index P (x # xs) = (if P x then Some 0 else map_option Suc (find_index P xs))"

lemma find_index_None_iff: "find_index P xs = None \<longleftrightarrow> (\<forall>x \<in> set xs. \<not> P x)"
  by (induction xs) auto

lemma find_index_SomeD:
  "find_index P xs = Some i \<Longrightarrow> i < length xs \<and> P (xs ! i) \<and> (\<forall>j < i. \<not> P (xs ! j))"
proof (induction xs arbitrary: i)
  case (Cons a xs)
  then show ?case by (auto split: if_splits simp: nth_Cons split: nat.split)
qed simp

lemma find_index_SomeI:
  "i < length xs \<Longrightarrow> P (xs ! i) \<Longrightarrow> (\<And>j. j < i \<Longrightarrow> \<not> P (xs ! j)) \<Longrightarrow> find_index P xs = Some i"
proof (induction xs arbitrary: i)
  case (Cons a xs)
  show ?case
  proof (cases i)
    case 0
    with Cons.prems show ?thesis by simp
  next
    case (Suc k)
    have "\<not> P a" using Cons.prems(3) [of 0] Suc by simp
    moreover have "find_index P xs = Some k"
      using Cons.prems Suc by (intro Cons.IH) (force simp: nth_Cons)+
    ultimately show ?thesis using Suc by simp
  qed
qed simp

lemma find_index_lt: "find_index P xs = Some i \<Longrightarrow> i < length xs"
  by (simp add: find_index_SomeD)

lemma find_index_sat: "find_index P xs = Some i \<Longrightarrow> P (xs ! i)"
  by (simp add: find_index_SomeD)

text \<open>With distinct keys, searching for a key finds the entry that carries it.\<close>

lemma find_index_key:
  assumes "distinct (map key xs)" and "i < length xs"
  shows "find_index (\<lambda>x. key x = key (xs ! i)) xs = Some i"
  using assms by (intro find_index_SomeI) (auto simp: distinct_conv_nth)

lemma find_index_map: "find_index P (map f xs) = find_index (\<lambda>x. P (f x)) xs"
  by (induction xs) auto

lemma map_of_find_index:
  "map_of (map (\<lambda>x. (key x, x)) xs) k =
     (case find_index (\<lambda>x. key x = k) xs of None \<Rightarrow> None | Some i \<Rightarrow> Some (xs ! i))"
  by (induction xs) (auto split: option.splits)

text \<open>Taking one entry out of a list with distinct keys is filtering by its key.\<close>

lemma remove_nth_filter:
  assumes "distinct (map key xs)" and "i < length xs"
  shows "take i xs @ drop (Suc i) xs = filter (\<lambda>x. key x \<noteq> key (xs ! i)) xs"
proof -
  let ?P = "\<lambda>x. key x \<noteq> key (xs ! i)"
  have "filter ?P (take i xs) = take i xs" "filter ?P (drop (Suc i) xs) = drop (Suc i) xs"
    using assms by (auto simp: filter_id_conv in_set_conv_nth distinct_conv_nth)
  then have "filter ?P (take i xs @ xs ! i # drop (Suc i) xs) = take i xs @ drop (Suc i) xs"
    by simp
  then show ?thesis by (simp only: id_take_nth_drop [OF assms(2), symmetric])
qed

section \<open>Array shifts\<close>

text \<open>
  \<open>for (j = i; j < i + n; j++) a[j] = a[j + 1];\<close> and
  \<open>for (j = i; j > 0; j--) a[j] = a[j - 1];\<close>, one assignment at a time.
\<close>

fun shift_left :: "'a list \<Rightarrow> nat \<Rightarrow> nat \<Rightarrow> 'a list" where
  "shift_left a i 0 = a"
| "shift_left a i (Suc n) = shift_left (a[i := a ! Suc i]) (Suc i) n"

fun shift_right :: "'a list \<Rightarrow> nat \<Rightarrow> 'a list" where
  "shift_right a 0 = a"
| "shift_right a (Suc i) = shift_right (a[Suc i := a ! i]) i"

lemma length_shift_left [simp]: "length (shift_left a i n) = length a"
  by (induction a i n rule: shift_left.induct) auto

lemma length_shift_right [simp]: "length (shift_right a i) = length a"
  by (induction a i rule: shift_right.induct) auto

lemma shift_left_nth:
  "i + n < length a \<Longrightarrow> k < length a \<Longrightarrow>
   shift_left a i n ! k = (if i \<le> k \<and> k < i + n then a ! Suc k else a ! k)"
proof (induction a i n arbitrary: k rule: shift_left.induct)
  case (2 a i n)
  then show ?case by (auto simp: nth_list_update)
qed auto

lemma shift_right_nth:
  "i < length a \<Longrightarrow> k < length a \<Longrightarrow>
   shift_right a i ! k = (if 0 < k \<and> k \<le> i then a ! (k - 1) else a ! k)"
proof (induction a i arbitrary: k rule: shift_right.induct)
  case (2 a i)
  then show ?case by (auto simp: nth_list_update le_Suc_eq)
qed auto

text \<open>The shifts as list surgery.\<close>

lemma butlast_shift_left:
  assumes "i < length a"
  shows "butlast (shift_left a i (length a - 1 - i)) = take i a @ drop (Suc i) a"
proof (rule nth_equalityI)
  show "length (butlast (shift_left a i (length a - 1 - i))) = length (take i a @ drop (Suc i) a)"
    using assms by simp
  fix k assume "k < length (butlast (shift_left a i (length a - 1 - i)))"
  then show "butlast (shift_left a i (length a - 1 - i)) ! k = (take i a @ drop (Suc i) a) ! k"
    using assms by (auto simp: nth_butlast shift_left_nth nth_append)
qed

lemma shift_left_to_top:
  assumes "i < length a"
  shows "(shift_left a i (length a - 1 - i))[length a - 1 := a ! i] =
         take i a @ drop (Suc i) a @ [a ! i]"
proof (rule nth_equalityI)
  show "length ((shift_left a i (length a - 1 - i))[length a - 1 := a ! i]) =
        length (take i a @ drop (Suc i) a @ [a ! i])"
    using assms by simp
  fix k assume "k < length ((shift_left a i (length a - 1 - i))[length a - 1 := a ! i])"
  then show "(shift_left a i (length a - 1 - i))[length a - 1 := a ! i] ! k =
             (take i a @ drop (Suc i) a @ [a ! i]) ! k"
    using assms by (auto simp: shift_left_nth nth_append nth_list_update)
qed

lemma shift_right_to_bottom:
  assumes "i < length a"
  shows "(shift_right a i)[0 := a ! i] = a ! i # take i a @ drop (Suc i) a"
proof (rule nth_equalityI)
  show "length ((shift_right a i)[0 := a ! i]) = length (a ! i # take i a @ drop (Suc i) a)"
    using assms by simp
  fix k assume "k < length ((shift_right a i)[0 := a ! i])"
  then show "(shift_right a i)[0 := a ! i] ! k = (a ! i # take i a @ drop (Suc i) a) ! k"
    using assms by (cases k) (auto simp: shift_right_nth nth_append nth_list_update)
qed

section \<open>Loops whose body can fail\<close>

text \<open>\<open>None\<close> is a body that did something undefined, such as an access out of bounds.\<close>

fun foldM :: "('a \<Rightarrow> 's \<Rightarrow> 's option) \<Rightarrow> 'a list \<Rightarrow> 's \<Rightarrow> 's option" where
  "foldM f [] s = Some s"
| "foldM f (x # xs) s = (case f x s of None \<Rightarrow> None | Some s' \<Rightarrow> foldM f xs s')"

lemma foldM_append: "foldM f (xs @ ys) s = (case foldM f xs s of None \<Rightarrow> None | Some s' \<Rightarrow> foldM f ys s')"
  by (induction xs arbitrary: s) (auto split: option.splits)

end
