(* ===== verification/Interfaces.thy ===== *)
theory Interfaces
  imports Prelude
begin

text \<open>
  The contracts between components, as locales over abstract operations.

  \<^item> \<open>handle_store\<close>: a store of objects named by 32-bit handles, as a client of the
    window model sees it (look a handle up, modify the object behind it, destroy it);
    \<open>handle_alloc\<close> adds the allocation of fresh handles.
  \<^item> \<open>slot_table\<close>: a fixed-size table whose free entries are found by a linear search.
  \<^item> \<open>guarded_machine\<close>: a state machine whose steps keep an invariant under a guard.

  Each is interpreted on the model's own definitions in the theory of the component
  that provides the operations.
\<close>

section \<open>Stores of handles\<close>

text \<open>Destroying a list of handles, in the order of the list.\<close>

definition destroy_all :: "('s \<Rightarrow> u32 \<Rightarrow> 's) \<Rightarrow> u32 list \<Rightarrow> 's \<Rightarrow> 's" where
  "destroy_all destroy hs s = fold (\<lambda>i s. destroy s i) hs s"

lemma destroy_all_simps [simp]:
  "destroy_all destroy [] s = s"
  "destroy_all destroy (i # hs) s = destroy_all destroy hs (destroy s i)"
  by (simp_all add: destroy_all_def)

locale handle_store =
  fixes inv :: "'s \<Rightarrow> bool"
    and key :: "'w \<Rightarrow> u32"
    and lookup :: "'s \<Rightarrow> u32 \<Rightarrow> 'w option"
    and modify :: "'s \<Rightarrow> u32 \<Rightarrow> ('w \<Rightarrow> 'w) \<Rightarrow> 's"
    and destroy :: "'s \<Rightarrow> u32 \<Rightarrow> 's"
  assumes lookup_key: "lookup s i = Some w \<Longrightarrow> key w = i"
    and lookup_write: "(\<And>w. key (f w) = key w) \<Longrightarrow>
      lookup (modify s i f) j = (if j = i then map_option f (lookup s i) else lookup s j)"
    and lookup_destroy: "inv s \<Longrightarrow> lookup (destroy s i) j = (if j = i then None else lookup s j)"
    and inv_write: "inv s \<Longrightarrow> (\<And>w. key (f w) = key w) \<Longrightarrow> inv (modify s i f)"
    and inv_destroy: "inv s \<Longrightarrow> inv (destroy s i)"
begin

lemmas store_laws = lookup_write lookup_destroy inv_write inv_destroy

lemma inv_destroy_all: "inv s \<Longrightarrow> inv (destroy_all destroy hs s)"
  by (induction hs arbitrary: s) (simp_all add: inv_destroy)

lemma lookup_destroy_all:
  "inv s \<Longrightarrow> lookup (destroy_all destroy hs s) j = (if j \<in> set hs then None else lookup s j)"
  by (induction hs arbitrary: s) (auto simp: inv_destroy lookup_destroy)

text \<open>Clean-up is final: once a handle is destroyed, writing through it changes nothing.\<close>

lemma write_after_destroy:
  "inv s \<Longrightarrow> (\<And>w. key (f w) = key w) \<Longrightarrow> lookup (modify (destroy s i) i f) j = lookup (destroy s i) j"
  by (simp add: lookup_write lookup_destroy inv_destroy)

end

locale handle_alloc = handle_store +
  fixes create :: "'s \<Rightarrow> 'w \<Rightarrow> u32 \<times> 's"
    and full :: "'s \<Rightarrow> bool"
    and exhausted :: "'s \<Rightarrow> bool"
  assumes create_full: "full s \<Longrightarrow> create s w = (0, s)"
    and create_fresh: "inv s \<Longrightarrow> \<not> full s \<Longrightarrow> create s w = (i, s') \<Longrightarrow> i \<noteq> 0 \<and> lookup s i = None"
    and lookup_create: "inv s \<Longrightarrow> \<not> full s \<Longrightarrow> create s w = (i, s') \<Longrightarrow>
      (\<exists>w'. key w' = i \<and> lookup s' = (lookup s)(i \<mapsto> w'))"
    and inv_create: "inv s \<Longrightarrow> \<not> exhausted s \<Longrightarrow> inv (snd (create s w))"
begin

text \<open>A handle created and destroyed again leaves every other lookup as it was.\<close>

lemma create_destroy:
  assumes "inv s" "\<not> full s" "\<not> exhausted s" "create s w = (i, s')"
  shows "lookup (destroy s' i) = lookup s"
proof -
  obtain w' where "lookup s' = (lookup s)(i \<mapsto> w')"
    using lookup_create [OF assms(1,2,4)] by blast
  moreover have "lookup s i = None"
    using create_fresh [OF assms(1,2,4)] by simp
  moreover have "inv s'"
    using inv_create [OF assms(1,3), of w] assms(4) by simp
  ultimately show ?thesis by (auto simp: lookup_destroy fun_eq_iff)
qed

end

section \<open>Fixed-size tables\<close>

definition free_slot :: "('a \<Rightarrow> bool) \<Rightarrow> 'a list \<Rightarrow> nat option" where
  "free_slot free xs = find_index free xs"

definition in_use :: "('a \<Rightarrow> bool) \<Rightarrow> 'a list \<Rightarrow> nat" where
  "in_use free xs = length (filter (\<lambda>x. \<not> free x) xs)"

lemma in_use_le: "in_use free xs \<le> length xs"
  by (simp add: in_use_def)

lemma in_use_update:
  "i < length xs \<Longrightarrow>
   in_use free (xs[i := x]) + (if free (xs ! i) then 0 else 1) = in_use free xs + (if free x then 0 else 1)"
proof (induction xs arbitrary: i)
  case (Cons a xs)
  show ?case
  proof (cases i)
    case 0
    then show ?thesis by (simp add: in_use_def)
  next
    case (Suc k)
    with Cons.IH [of k] Cons.prems show ?thesis by (simp add: in_use_def split: if_splits)
  qed
qed simp

locale slot_table =
  fixes free :: "'a \<Rightarrow> bool"
    and cleared :: 'a
  assumes free_cleared: "free cleared"
begin

lemma free_slot_None: "free_slot free xs = None \<longleftrightarrow> in_use free xs = length xs"
proof -
  have "in_use free xs = length xs \<longleftrightarrow> (\<forall>x \<in> set xs. \<not> free x)"
    unfolding in_use_def by (metis filter_True length_filter_less nless_le)
  then show ?thesis by (simp add: free_slot_def find_index_None_iff)
qed

lemma free_slot_Some: "free_slot free xs = Some i \<Longrightarrow> i < length xs \<and> free (xs ! i)"
  by (simp add: free_slot_def find_index_SomeD)

lemma in_use_alloc:
  "free_slot free xs = Some i \<Longrightarrow> \<not> free x \<Longrightarrow> in_use free (xs[i := x]) = Suc (in_use free xs)"
  using in_use_update [of i xs free x] free_slot_Some [of xs i] by simp

lemma in_use_clear:
  "i < length xs \<Longrightarrow> \<not> free (xs ! i) \<Longrightarrow> Suc (in_use free (xs[i := cleared])) = in_use free xs"
  using in_use_update [of i xs free cleared] free_cleared by simp

text \<open>A cleared slot can be taken again: the table never loses capacity.\<close>

lemma clear_gives_slot: "i < length xs \<Longrightarrow> free_slot free (xs[i := cleared]) \<noteq> None"
  by (auto simp: free_slot_def find_index_None_iff free_cleared set_update_memI intro!: bexI [where x = cleared])

end

section \<open>State machines with a guarded invariant\<close>

fun guarded_run :: "('e \<Rightarrow> 's \<Rightarrow> 's) \<Rightarrow> ('s \<Rightarrow> 'e \<Rightarrow> bool) \<Rightarrow> 'e list \<Rightarrow> 's \<Rightarrow> bool" where
  "guarded_run step ok [] s = True"
| "guarded_run step ok (e # es) s = (ok s e \<and> guarded_run step ok es (step e s))"

locale guarded_machine =
  fixes step :: "'e \<Rightarrow> 's \<Rightarrow> 's"
    and ok :: "'s \<Rightarrow> 'e \<Rightarrow> bool"
    and inv :: "'s \<Rightarrow> bool"
  assumes step_inv: "inv s \<Longrightarrow> ok s e \<Longrightarrow> inv (step e s)"
begin

lemma run_inv: "inv s \<Longrightarrow> guarded_run step ok es s \<Longrightarrow> inv (fold step es s)"
  by (induction es arbitrary: s) (simp_all add: step_inv)

text \<open>The invariant also holds at every point in between.\<close>

lemma run_inv_prefix:
  assumes "inv s" "guarded_run step ok es s"
  shows "inv (fold step (take n es) s)"
proof -
  have "guarded_run step ok (take n es) s"
    using assms(2) by (induction es arbitrary: s n) (auto simp: take_Cons split: nat.split)
  with assms(1) show ?thesis by (rule run_inv)
qed

end

end
