(* ===== verification/Window.thy ===== *)
theory Window
  imports Interfaces
begin

text \<open>
  The server-owned window model: \<open>src/include/window.h\<close> and \<open>src/src/window.c\<close>.

  The C struct \<open>window_stack\<close> is an array of \<open>WIN_MAX\<close> windows of which the first
  \<open>count\<close> are live; the model keeps the live ones as a list, bottom first, so \<open>count\<close>
  is its length. A \<open>struct window *\<close> returned by \<open>window_by_id\<close> is the value it points
  to; an assignment through it is \<open>window_modify\<close>.
\<close>

section \<open>Data\<close>

datatype win_role = WIN_NORMAL | WIN_DESKTOP | WIN_TASKBAR | WIN_TRAY | WIN_MENU | WIN_TOOLTIP

text \<open>
  Where a window's pixels live: an mmap'd client buffer of the CrystallineLattice
  transport, or the pixel copy a Wayland surface owns. The number names the
  allocation.
\<close>

datatype pixels = Mapping nat | Content nat

record window =
  win_id :: u32
  role :: win_role
  win_x :: int
  win_y :: int
  win_w :: int
  win_h :: int
  mapped :: bool
  color :: u32
  title :: string
  buf :: "pixels option"
  buf_w :: int
  buf_h :: int
  buf_stride :: int
  snapped :: bool
  saved_x :: int
  saved_y :: int
  saved_w :: int
  saved_h :: int
  app_decorated :: bool

definition window_has_ssd :: "window \<Rightarrow> bool" where
  "window_has_ssd w \<longleftrightarrow> role w = WIN_NORMAL \<and> \<not> app_decorated w"

definition WIN_MAX :: nat where [simp]: "WIN_MAX = 64"
definition DECOR_TITLEBAR_H :: int where [simp]: "DECOR_TITLEBAR_H = 28"
definition TITLE_CAP :: nat where [simp]: "TITLE_CAP = 64"

record window_stack =
  windows :: "window list"
  focus_id :: u32
  next_id :: u32

section \<open>Operations\<close>

definition window_stack_init :: window_stack where
  "window_stack_init = \<lparr>windows = [], focus_id = 0, next_id = 1\<rparr>"

text \<open>
  The new entry is zeroed by \<open>memset\<close> before its fields are set. \<open>next_id++\<close> wraps
  at 32 bits.
\<close>

definition window_create ::
  "window_stack \<Rightarrow> win_role \<Rightarrow> int \<Rightarrow> int \<Rightarrow> int \<Rightarrow> int \<Rightarrow> u32 \<Rightarrow> string option \<Rightarrow> u32 \<times> window_stack"
where
  "window_create s r x y w h col t =
     (if length (windows s) \<ge> WIN_MAX then (0, s)
      else (let win = \<lparr>win_id = next_id s, role = r, win_x = x, win_y = y, win_w = w, win_h = h,
                       mapped = True, color = col,
                       title = (case t of None \<Rightarrow> [] | Some str \<Rightarrow> snprintf_s TITLE_CAP str),
                       buf = None, buf_w = 0, buf_h = 0, buf_stride = 0,
                       snapped = False, saved_x = 0, saved_y = 0, saved_w = 0, saved_h = 0,
                       app_decorated = False\<rparr>
            in (win_id win, s\<lparr>windows := windows s @ [win], next_id := next_id s + 1\<rparr>)))"

definition window_index :: "window_stack \<Rightarrow> u32 \<Rightarrow> int" where
  "window_index s i =
     (case find_index (\<lambda>w. win_id w = i) (windows s) of None \<Rightarrow> -1 | Some k \<Rightarrow> int k)"

definition window_by_id :: "window_stack \<Rightarrow> u32 \<Rightarrow> window option" where
  "window_by_id s i =
     (let k = window_index s i in if k < 0 then None else Some (windows s ! nat k))"

definition window_modify :: "window_stack \<Rightarrow> u32 \<Rightarrow> (window \<Rightarrow> window) \<Rightarrow> window_stack" where
  "window_modify s i f =
     (let k = window_index s i
      in if k < 0 then s else s\<lparr>windows := (windows s)[nat k := f (windows s ! nat k)]\<rparr>)"

definition window_destroy :: "window_stack \<Rightarrow> u32 \<Rightarrow> window_stack" where
  "window_destroy s i =
     (let idx = window_index s i
      in if idx < 0 then s
         else (let ws = butlast (shift_left (windows s) (nat idx) (length (windows s) - 1 - nat idx));
                   s' = s\<lparr>windows := ws\<rparr>
               in if focus_id s = i
                  then s'\<lparr>focus_id := (if length ws \<noteq> 0 then win_id (ws ! (length ws - 1)) else 0)\<rparr>
                  else s'))"

definition hit :: "int \<Rightarrow> int \<Rightarrow> window \<Rightarrow> bool" where
  "hit gx gy w \<longleftrightarrow> gx \<ge> win_x w \<and> gx < win_x w + win_w w \<and> gy \<ge> win_y w \<and> gy < win_y w + win_h w"

fun window_at_from :: "window list \<Rightarrow> int \<Rightarrow> int \<Rightarrow> nat \<Rightarrow> window option" where
  "window_at_from ws gx gy 0 = None"
| "window_at_from ws gx gy (Suc i) =
     (let w = ws ! i
      in if \<not> mapped w then window_at_from ws gx gy i
         else if hit gx gy w then Some w
         else window_at_from ws gx gy i)"

definition window_at :: "window_stack \<Rightarrow> int \<Rightarrow> int \<Rightarrow> window option" where
  "window_at s gx gy = window_at_from (windows s) gx gy (length (windows s))"

definition move_to_top :: "window_stack \<Rightarrow> int \<Rightarrow> window_stack" where
  "move_to_top s idx =
     (let count = length (windows s)
      in if idx < 0 \<or> idx \<ge> int count - 1 then s
         else (let tmp = windows s ! nat idx;
                   ws = shift_left (windows s) (nat idx) (count - 1 - nat idx)
               in s\<lparr>windows := ws[count - 1 := tmp]\<rparr>))"

definition move_to_bottom :: "window_stack \<Rightarrow> int \<Rightarrow> window_stack" where
  "move_to_bottom s idx =
     (if idx \<le> 0 \<or> idx \<ge> int (length (windows s)) then s
      else (let tmp = windows s ! nat idx
            in s\<lparr>windows := (shift_right (windows s) (nat idx))[0 := tmp]\<rparr>))"

definition window_raise :: "window_stack \<Rightarrow> u32 \<Rightarrow> window_stack" where
  "window_raise s i = move_to_top s (window_index s i)"

definition window_lower :: "window_stack \<Rightarrow> u32 \<Rightarrow> window_stack" where
  "window_lower s i = move_to_bottom s (window_index s i)"

definition window_move :: "window_stack \<Rightarrow> u32 \<Rightarrow> int \<Rightarrow> int \<Rightarrow> window_stack" where
  "window_move s i x y = window_modify s i (\<lambda>w. w\<lparr>win_x := x, win_y := y\<rparr>)"

definition window_set_geometry :: "window_stack \<Rightarrow> u32 \<Rightarrow> int \<Rightarrow> int \<Rightarrow> int \<Rightarrow> int \<Rightarrow> window_stack" where
  "window_set_geometry s i x y w h =
     window_modify s i (\<lambda>win.
       win\<lparr>win_x := x, win_y := y,
           win_w := (if w > 0 then w else win_w win),
           win_h := (if h > 0 then h else win_h win)\<rparr>)"

definition window_focus :: "window_stack \<Rightarrow> u32 \<Rightarrow> window_stack" where
  "window_focus s i =
     (case window_by_id s i of
        None \<Rightarrow> s
      | Some w \<Rightarrow>
          (let s' = s\<lparr>focus_id := i\<rparr>
           in if role w \<noteq> WIN_DESKTOP then window_raise s' i else s'))"

definition window_focused :: "window_stack \<Rightarrow> window option" where
  "window_focused s = (if focus_id s \<noteq> 0 then window_by_id s (focus_id s) else None)"

text \<open>The loop of \<open>window_focus_cycle\<close>: \<open>n\<close> counts up, the last argument is what is left.\<close>

fun focus_cycle_loop :: "window_stack \<Rightarrow> int \<Rightarrow> int \<Rightarrow> int \<Rightarrow> nat \<Rightarrow> window_stack" where
  "focus_cycle_loop s start step n 0 = s"
| "focus_cycle_loop s start step n (Suc left) =
     (let c = int (length (windows s));
          i = ((start + step * n) smod c + c) smod c;
          w = windows s ! nat i
      in if role w = WIN_NORMAL \<and> mapped w then window_focus s (win_id w)
         else focus_cycle_loop s start step (n + 1) left)"

definition window_focus_cycle :: "window_stack \<Rightarrow> int \<Rightarrow> window_stack" where
  "window_focus_cycle s dir =
     (if length (windows s) = 0 then s
      else focus_cycle_loop s (window_index s (focus_id s)) (if dir \<ge> 0 then 1 else -1) 1
             (length (windows s)))"


section \<open>Well-formed stacks\<close>

text \<open>The handles in z-order, bottom first.\<close>

definition z_order :: "window_stack \<Rightarrow> u32 list" where
  "z_order s = map win_id (windows s)"

lemma length_z_order [simp]: "length (z_order s) = length (windows s)"
  by (simp add: z_order_def)

definition stack_wf :: "window_stack \<Rightarrow> bool" where
  "stack_wf s \<longleftrightarrow>
     length (windows s) \<le> WIN_MAX \<and> distinct (z_order s) \<and>
     (\<forall>i \<in> set (z_order s). i \<noteq> 0 \<and> i < next_id s) \<and> next_id s \<noteq> 0 \<and>
     (focus_id s = 0 \<or> focus_id s \<in> set (z_order s))"

text \<open>The handle counter is about to wrap to zero.\<close>

definition ids_exhausted :: "window_stack \<Rightarrow> bool" where
  "ids_exhausted s \<longleftrightarrow> next_id s + 1 = 0"

lemma stack_wfD:
  assumes "stack_wf s"
  shows "length (windows s) \<le> 64" and "distinct (map win_id (windows s))"
    and "w \<in> set (windows s) \<Longrightarrow> win_id w \<noteq> 0 \<and> win_id w < next_id s"
    and "focus_id s = 0 \<or> focus_id s \<in> win_id ` set (windows s)"
  using assms by (auto simp: stack_wf_def z_order_def)

lemma window_by_id_map_of:
  "window_by_id s i = map_of (map (\<lambda>w. (win_id w, w)) (windows s)) i"
  by (auto simp: window_by_id_def window_index_def map_of_find_index Let_def split: option.splits)

lemma window_by_id_SomeD: "window_by_id s i = Some w \<Longrightarrow> win_id w = i \<and> w \<in> set (windows s)"
  by (auto simp: window_by_id_map_of dest: map_of_SomeD)

lemma window_by_id_None: "window_by_id s i = None \<longleftrightarrow> i \<notin> set (z_order s)"
  by (auto simp: window_by_id_map_of map_of_eq_None_iff z_order_def image_image)

lemma window_by_id_iff:
  "stack_wf s \<Longrightarrow> window_by_id s i = Some w \<longleftrightarrow> w \<in> set (windows s) \<and> win_id w = i"
  using map_of_eq_Some_iff [of "map (\<lambda>w. (win_id w, w)) (windows s)" i w]
  by (auto simp: window_by_id_map_of stack_wf_def z_order_def comp_def)

lemma window_by_id_zero: "stack_wf s \<Longrightarrow> window_by_id s 0 = None"
  by (auto simp: window_by_id_None stack_wf_def)

lemma window_index_neg: "window_index s i < 0 \<longleftrightarrow> i \<notin> set (z_order s)"
proof (cases "find_index (\<lambda>w. win_id w = i) (windows s)")
  case None
  then have "i \<notin> set (z_order s)" by (auto simp: find_index_None_iff z_order_def)
  with None show ?thesis by (simp add: window_index_def)
next
  case (Some k)
  from find_index_SomeD [OF this] have "i \<in> set (z_order s)"
    unfolding z_order_def using nth_mem [of k "windows s"] by force
  with Some show ?thesis by (simp add: window_index_def)
qed

lemma window_index_nth:
  assumes "stack_wf s" and "k < length (windows s)"
  shows "window_index s (win_id (windows s ! k)) = int k"
  using find_index_key [of win_id "windows s" k] assms
  by (simp add: window_index_def stack_wf_def z_order_def)

lemma window_indexE:
  assumes "i \<in> set (z_order s)"
  obtains k where "k < length (windows s)" "window_index s i = int k" "win_id (windows s ! k) = i"
proof (cases "find_index (\<lambda>w. win_id w = i) (windows s)")
  case None
  with assms show ?thesis by (auto simp: find_index_None_iff z_order_def)
next
  case (Some k)
  with that [of k] show ?thesis by (auto simp: window_index_def dest: find_index_SomeD)
qed

section \<open>The loops as list operations\<close>

text \<open>
  Entries other than the one asked for, in their order. The array shifts of
  \<open>window_destroy\<close>, \<open>move_to_top\<close> and \<open>move_to_bottom\<close> come down to it.
\<close>

definition without :: "u32 \<Rightarrow> window list \<Rightarrow> window list" where
  "without i ws = filter (\<lambda>w. win_id w \<noteq> i) ws"

lemma windows_destroy:
  assumes "stack_wf s"
  shows "windows (window_destroy s i) = without i (windows s)"
proof (cases "i \<in> set (z_order s)")
  case True
  then obtain k where k: "k < length (windows s)" "window_index s i = int k" "win_id (windows s ! k) = i"
    by (rule window_indexE)
  have "take k (windows s) @ drop (Suc k) (windows s) = without i (windows s)"
    unfolding without_def using remove_nth_filter [OF stack_wfD(2) [OF assms] k(1)] k(3) by simp
  then show ?thesis
    using k butlast_shift_left [OF k(1)] by (simp add: window_destroy_def Let_def)
next
  case False
  then have "filter (\<lambda>w. win_id w \<noteq> i) (windows s) = windows s"
    by (auto simp: z_order_def filter_id_conv)
  with False show ?thesis
    by (simp add: window_destroy_def without_def window_index_neg [of s i, symmetric] Let_def)
qed

lemma windows_raise:
  assumes "stack_wf s" and "window_by_id s i = Some w"
  shows "windows (window_raise s i) = without i (windows s) @ [w]"
proof -
  have "i \<in> set (z_order s)" using assms(2) by (metis option.distinct(1) window_by_id_None)
  then obtain k where k: "k < length (windows s)" "window_index s i = int k" "win_id (windows s ! k) = i"
    by (rule window_indexE)
  have w: "w = windows s ! k" using assms k by (auto simp: window_by_id_def Let_def)
  have wo: "without i (windows s) = take k (windows s) @ drop (Suc k) (windows s)"
    unfolding without_def using remove_nth_filter [OF stack_wfD(2) [OF assms(1)] k(1)] k(3) by simp
  show ?thesis
  proof (cases "k = length (windows s) - 1")
    case True
    then have "drop (Suc k) (windows s) = []" using k(1) by simp
    with True k w wo show ?thesis
      using id_take_nth_drop [OF k(1)] by (simp add: window_raise_def move_to_top_def Let_def)
  next
    case False
    with k(1) have "int k < int (length (windows s)) - 1" by simp
    with k w wo show ?thesis
      using shift_left_to_top [OF k(1)] by (simp add: window_raise_def move_to_top_def Let_def)
  qed
qed

lemma windows_lower:
  assumes "stack_wf s" and "window_by_id s i = Some w"
  shows "windows (window_lower s i) = w # without i (windows s)"
proof -
  have "i \<in> set (z_order s)" using assms(2) by (metis option.distinct(1) window_by_id_None)
  then obtain k where k: "k < length (windows s)" "window_index s i = int k" "win_id (windows s ! k) = i"
    by (rule window_indexE)
  have w: "w = windows s ! k" using assms k by (auto simp: window_by_id_def Let_def)
  have wo: "without i (windows s) = take k (windows s) @ drop (Suc k) (windows s)"
    unfolding without_def using remove_nth_filter [OF stack_wfD(2) [OF assms(1)] k(1)] k(3) by simp
  show ?thesis
  proof (cases "k = 0")
    case True
    with k w wo show ?thesis
      using id_take_nth_drop [OF k(1)] by (simp add: window_lower_def move_to_bottom_def)
  next
    case False
    with k w wo show ?thesis
      using shift_right_to_bottom [OF k(1)] by (simp add: window_lower_def move_to_bottom_def Let_def)
  qed
qed

lemma windows_modify:
  assumes "stack_wf s"
  shows "windows (window_modify s i f) = map (\<lambda>w. if win_id w = i then f w else w) (windows s)"
proof (cases "i \<in> set (z_order s)")
  case True
  then obtain k where k: "k < length (windows s)" "window_index s i = int k" "win_id (windows s ! k) = i"
    by (rule window_indexE)
  have "(windows s)[k := f (windows s ! k)] = map (\<lambda>w. if win_id w = i then f w else w) (windows s)"
    using k stack_wfD(2) [OF assms]
    by (intro nth_equalityI) (auto simp: nth_list_update distinct_conv_nth)
  with k show ?thesis by (simp add: window_modify_def Let_def)
next
  case False
  then have "map (\<lambda>w. if win_id w = i then f w else w) (windows s) = windows s"
    by (intro map_idI) (auto simp: z_order_def)
  with False show ?thesis by (simp add: window_modify_def Let_def window_index_neg [of s i, symmetric])
qed

text \<open>What the operations leave alone.\<close>

lemma window_ops_frame [simp]:
  "next_id (window_destroy s i) = next_id s"
  "next_id (window_modify s i f) = next_id s"
  "focus_id (window_modify s i f) = focus_id s"
  "next_id (window_raise s i) = next_id s"
  "focus_id (window_raise s i) = focus_id s"
  "next_id (window_lower s i) = next_id s"
  "focus_id (window_lower s i) = focus_id s"
  "windows (s\<lparr>focus_id := j\<rparr>) = windows s"
  by (simp_all add: window_destroy_def window_modify_def window_raise_def window_lower_def
      move_to_top_def move_to_bottom_def Let_def)

lemma raise_absent: "window_by_id s i = None \<Longrightarrow> window_raise s i = s"
  by (simp add: window_by_id_None window_index_neg [symmetric] window_raise_def move_to_top_def Let_def)

lemma lower_absent: "window_by_id s i = None \<Longrightarrow> window_lower s i = s"
  by (simp add: window_by_id_None window_index_neg [symmetric] window_lower_def move_to_bottom_def)

end
