(* ===== verification/Window_Spec.thy ===== *)
theory Window_Spec
  imports Window
begin

text \<open>
  What the window model promises: an abstract desktop (handles in z-order, what each
  handle stands for, the active handle), the operations of \<open>window.c\<close> as operations
  on it, the proof that the array code implements them, and the invariants of the
  stack. The client interfaces \<open>handle_store\<close> and \<open>handle_alloc\<close> are interpreted on
  the stack at the end.
\<close>

section \<open>The abstract desktop\<close>

record desk =
  order :: "u32 list"
  obj :: "u32 \<rightharpoonup> window"
  active :: "u32 option"

definition abs_stack :: "window_stack \<Rightarrow> desk" where
  "abs_stack s = \<lparr>order = z_order s, obj = window_by_id s,
                  active = (if focus_id s = 0 then None else Some (focus_id s))\<rparr>"

definition desk_open :: "window \<Rightarrow> desk \<Rightarrow> desk" where
  "desk_open w d = d\<lparr>order := order d @ [win_id w], obj := (obj d)(win_id w \<mapsto> w)\<rparr>"

definition desk_close :: "u32 \<Rightarrow> desk \<Rightarrow> desk" where
  "desk_close i d =
     (let rest = removeAll i (order d)
      in d\<lparr>order := rest, obj := (obj d)(i := None),
           active := (if active d = Some i then (if rest = [] then None else Some (last rest))
                      else active d)\<rparr>)"

definition desk_raise :: "u32 \<Rightarrow> desk \<Rightarrow> desk" where
  "desk_raise i d = (if i \<in> set (order d) then d\<lparr>order := removeAll i (order d) @ [i]\<rparr> else d)"

definition desk_lower :: "u32 \<Rightarrow> desk \<Rightarrow> desk" where
  "desk_lower i d = (if i \<in> set (order d) then d\<lparr>order := i # removeAll i (order d)\<rparr> else d)"

definition desk_update :: "u32 \<Rightarrow> (window \<Rightarrow> window) \<Rightarrow> desk \<Rightarrow> desk" where
  "desk_update i f d = d\<lparr>obj := (obj d)(i := map_option f (obj d i))\<rparr>"

definition desk_focus :: "u32 \<Rightarrow> desk \<Rightarrow> desk" where
  "desk_focus i d =
     (case obj d i of
        None \<Rightarrow> d
      | Some w \<Rightarrow> (if role w = WIN_DESKTOP then id else desk_raise i) (d\<lparr>active := Some i\<rparr>))"

lemmas desk_defs = desk_open_def desk_close_def desk_raise_def desk_lower_def desk_update_def
  desk_focus_def

section \<open>Lists without an entry\<close>

lemma map_id_without: "map win_id (without i ws) = removeAll i (map win_id ws)"
  by (induction ws) (auto simp: without_def)

lemma without_noop: "i \<notin> win_id ` set ws \<Longrightarrow> without i ws = ws"
  by (auto simp: without_def filter_id_conv)

lemma map_of_without:
  "map_of (map (\<lambda>w. (win_id w, w)) (without i ws)) = (map_of (map (\<lambda>w. (win_id w, w)) ws))(i := None)"
  by (induction ws) (auto simp: without_def fun_eq_iff)

lemma removeAll_distinct_set: "distinct xs \<Longrightarrow> i \<in> set xs \<Longrightarrow> set (removeAll i xs @ [i]) = set xs"
  by auto

lemma z_order_ops:
  assumes "stack_wf s"
  shows "z_order (window_destroy s i) = removeAll i (z_order s)"
    and "z_order (window_raise s i) =
           (if i \<in> set (z_order s) then removeAll i (z_order s) @ [i] else z_order s)"
    and "z_order (window_lower s i) =
           (if i \<in> set (z_order s) then i # removeAll i (z_order s) else z_order s)"
    and "(\<And>w. win_id (f w) = win_id w) \<Longrightarrow> z_order (window_modify s i f) = z_order s"
proof -
  show "z_order (window_destroy s i) = removeAll i (z_order s)"
    using assms by (simp add: z_order_def windows_destroy map_id_without)
  show "z_order (window_raise s i) =
          (if i \<in> set (z_order s) then removeAll i (z_order s) @ [i] else z_order s)"
  proof (cases "window_by_id s i")
    case None
    then show ?thesis by (simp add: raise_absent window_by_id_None)
  next
    case (Some w)
    then have "i \<in> set (z_order s)" by (metis option.distinct(1) window_by_id_None)
    with Some show ?thesis
      using windows_raise [OF assms Some] window_by_id_SomeD [OF Some]
      by (simp add: z_order_def map_id_without)
  qed
  show "z_order (window_lower s i) =
          (if i \<in> set (z_order s) then i # removeAll i (z_order s) else z_order s)"
  proof (cases "window_by_id s i")
    case None
    then show ?thesis by (simp add: lower_absent window_by_id_None)
  next
    case (Some w)
    then have "i \<in> set (z_order s)" by (metis option.distinct(1) window_by_id_None)
    with Some show ?thesis
      using windows_lower [OF assms Some] window_by_id_SomeD [OF Some]
      by (simp add: z_order_def map_id_without)
  qed
  show "(\<And>w. win_id (f w) = win_id w) \<Longrightarrow> z_order (window_modify s i f) = z_order s"
    using assms by (simp add: z_order_def windows_modify)
qed

section \<open>Lookups after operations\<close>

lemma by_id_destroy:
  "stack_wf s \<Longrightarrow> window_by_id (window_destroy s i) = (window_by_id s)(i := None)"
  by (simp add: fun_eq_iff window_by_id_map_of windows_destroy map_of_without)

lemma by_id_raise:
  assumes "stack_wf s" shows "window_by_id (window_raise s i) = window_by_id s"
proof (cases "window_by_id s i")
  case (Some w)
  have "window_by_id (window_raise s i) j = window_by_id s j" for j
    using Some window_by_id_SomeD [OF Some]
    by (cases "j = i") (auto simp: window_by_id_map_of windows_raise [OF assms Some] map_of_without map_add_def
          split: option.split)
  then show ?thesis by (simp add: fun_eq_iff)
qed (simp add: raise_absent)

lemma by_id_lower:
  assumes "stack_wf s" shows "window_by_id (window_lower s i) = window_by_id s"
proof (cases "window_by_id s i")
  case (Some w)
  have "window_by_id (window_lower s i) j = window_by_id s j" for j
    using Some window_by_id_SomeD [OF Some]
    by (cases "j = i") (simp_all add: window_by_id_map_of windows_lower [OF assms Some] map_of_without)
  then show ?thesis by (simp add: fun_eq_iff)
qed (simp add: lower_absent)

lemma by_id_focus_update [simp]: "window_by_id (s\<lparr>focus_id := j\<rparr>) = window_by_id s"
  by (simp add: fun_eq_iff window_by_id_map_of)

lemma z_order_modify: "(\<And>w. win_id (f w) = win_id w) \<Longrightarrow> z_order (window_modify s i f) = z_order s"
proof -
  assume k: "\<And>w. win_id (f w) = win_id w"
  show ?thesis
    using k find_index_SomeD [of "\<lambda>w. win_id w = i" "windows s"]
    by (auto simp: window_modify_def window_index_def z_order_def map_update list_update_same_conv Let_def
        split: option.split)
qed

lemma by_id_modify:
  assumes "\<And>w. win_id (f w) = win_id w"
  shows "window_by_id (window_modify s i f) = (window_by_id s)(i := map_option f (window_by_id s i))"
proof (cases "find_index (\<lambda>w. win_id w = i) (windows s)")
  case None
  then have "window_modify s i f = s" "window_by_id s i = None"
    by (simp_all add: window_modify_def window_index_def window_by_id_def)
  then show ?thesis by (auto simp: fun_eq_iff)
next
  case (Some k)
  let ?ws = "windows s" and ?y = "f (windows s ! k)"
  have k: "k < length ?ws" "win_id (?ws ! k) = i" using find_index_SomeD [OF Some] by auto
  have same: "map win_id (?ws[k := ?y]) = map win_id ?ws"
    using k assms by (simp add: map_update list_update_same_conv)
  have idx: "find_index (\<lambda>w. win_id w = j) (?ws[k := ?y]) = find_index (\<lambda>w. win_id w = j) ?ws" for j
    using find_index_map [of "\<lambda>h. h = j" win_id "?ws[k := ?y]"]
      find_index_map [of "\<lambda>h. h = j" win_id ?ws] same by simp
  have "window_by_id (window_modify s i f) j = ((window_by_id s)(i := map_option f (window_by_id s i))) j" for j
    using Some k find_index_SomeD [of "\<lambda>w. win_id w = j" ?ws]
    by (auto simp: window_by_id_def window_modify_def window_index_def idx Let_def nth_list_update
        split: option.splits)
  then show ?thesis by (simp add: fun_eq_iff)
qed

lemma by_id_create:
  assumes "stack_wf s" and "length (windows s) < 64"
    and "window_create s r x y w h col t = (i, s')"
  shows "i = next_id s" and "\<exists>win. win_id win = i \<and> windows s' = windows s @ [win] \<and>
          window_by_id s' = (window_by_id s)(i \<mapsto> win)" and "window_by_id s i = None"
proof -
  show i: "i = next_id s" using assms(2,3) by (auto simp: window_create_def Let_def)
  have "next_id s \<notin> win_id ` set (windows s)" using stack_wfD(3) [OF assms(1)] by fastforce
  then show fresh: "window_by_id s i = None"
    using i by (simp add: window_by_id_None z_order_def)
  define win where "win = last (windows s')"
  have win: "win_id win = i" "windows s' = windows s @ [win]"
    using assms(2,3) by (auto simp: win_def window_create_def Let_def)
  have "window_by_id s' j = ((window_by_id s)(i \<mapsto> win)) j" for j
    using fresh win by (cases "j = i") (auto simp: window_by_id_map_of map_add_def split: option.splits)
  with win show "\<exists>win. win_id win = i \<and> windows s' = windows s @ [win] \<and>
          window_by_id s' = (window_by_id s)(i \<mapsto> win)" by blast
qed

section \<open>Every operation keeps the stack well-formed\<close>

lemma stack_wf_init: "stack_wf window_stack_init"
  by (simp add: stack_wf_def window_stack_init_def z_order_def)

lemma stack_wf_create:
  assumes "stack_wf s" and "\<not> ids_exhausted s"
  shows "stack_wf (snd (window_create s r x y w h col t))"
proof (cases "length (windows s) \<ge> 64")
  case False
  have "i < next_id s + 1" if "i < next_id s \<or> i = next_id s" for i
    using that assms(2) unfolding ids_exhausted_def by unat_arith
  with False assms show ?thesis
    by (auto simp: stack_wf_def z_order_def window_create_def ids_exhausted_def Let_def)
qed (use assms(1) in \<open>simp add: window_create_def\<close>)


text \<open>Reordering the handles, or pointing the focus at a live one, keeps the stack well-formed.\<close>

lemma stack_wf_reorder:
  assumes "stack_wf s" and "distinct (z_order s')" and "set (z_order s') = set (z_order s)"
    and "next_id s' = next_id s" and "focus_id s' = 0 \<or> focus_id s' \<in> set (z_order s)"
  shows "stack_wf s'"
proof -
  have "length (z_order s') = length (z_order s)"
    using assms(1-3) distinct_card [of "z_order s"] distinct_card [of "z_order s'"]
    by (simp add: stack_wf_def)
  with assms show ?thesis by (simp add: stack_wf_def z_order_def)
qed

lemma stack_wf_raise: "stack_wf s \<Longrightarrow> stack_wf (window_raise s i)"
  by (rule stack_wf_reorder [of s]) (auto simp: z_order_ops stack_wf_def distinct_removeAll)

lemma stack_wf_lower: "stack_wf s \<Longrightarrow> stack_wf (window_lower s i)"
  by (rule stack_wf_reorder [of s]) (auto simp: z_order_ops stack_wf_def distinct_removeAll)

lemma stack_wf_modify:
  "stack_wf s \<Longrightarrow> (\<And>w. win_id (f w) = win_id w) \<Longrightarrow> stack_wf (window_modify s i f)"
  by (rule stack_wf_reorder [of s]) (auto simp: z_order_ops stack_wf_def)

lemma stack_wf_set_focus:
  "stack_wf s \<Longrightarrow> i = 0 \<or> i \<in> set (z_order s) \<Longrightarrow> stack_wf (s\<lparr>focus_id := i\<rparr>)"
  by (rule stack_wf_reorder [of s]) (auto simp: stack_wf_def z_order_def)

lemma focus_destroy:
  assumes "stack_wf s"
  shows "focus_id (window_destroy s i) =
    (if focus_id s = i \<and> i \<noteq> 0
     then (if windows (window_destroy s i) = [] then 0 else win_id (last (windows (window_destroy s i))))
     else focus_id s)"
proof (cases "i \<in> set (z_order s)")
  case True
  then have "i \<noteq> 0" using assms by (auto simp: stack_wf_def)
  define ws where
    "ws = butlast (shift_left (windows s) (nat (window_index s i))
                    (length (windows s) - 1 - nat (window_index s i)))"
  have "window_destroy s i =
      (if focus_id s = i
       then s\<lparr>windows := ws, focus_id := (if length ws \<noteq> 0 then win_id (ws ! (length ws - 1)) else 0)\<rparr>
       else s\<lparr>windows := ws\<rparr>)"
    using True window_index_neg [of s i] by (auto simp: window_destroy_def Let_def ws_def)
  with \<open>i \<noteq> 0\<close> show ?thesis by (cases "ws = []") (simp_all add: last_conv_nth)
next
  case False
  then have "focus_id s \<noteq> i \<or> i = 0" using assms by (auto simp: stack_wf_def)
  with False show ?thesis using window_index_neg [of s i] by (auto simp: window_destroy_def Let_def)
qed

lemma stack_wf_destroy:
  assumes "stack_wf s" shows "stack_wf (window_destroy s i)"
proof -
  have z: "z_order (window_destroy s i) = removeAll i (z_order s)"
    using assms by (rule z_order_ops(1))
  have "focus_id (window_destroy s i) = 0 \<or> focus_id (window_destroy s i) \<in> set (removeAll i (z_order s))"
  proof (cases "focus_id s = i \<and> i \<noteq> 0")
    case True
    then have "focus_id (window_destroy s i) =
        (if z_order (window_destroy s i) = [] then 0 else last (z_order (window_destroy s i)))"
      using focus_destroy [OF assms, of i] by (simp add: z_order_def last_map)
    then show ?thesis using z last_in_set [of "removeAll i (z_order s)"] by (auto split: if_splits)
  next
    case False
    then show ?thesis using focus_destroy [OF assms, of i] assms by (auto simp: stack_wf_def)
  qed
  moreover have "length (removeAll i (z_order s)) \<le> 64"
    using assms length_filter_le [of "\<lambda>x. i \<noteq> x" "z_order s"]
    by (simp add: stack_wf_def removeAll_filter_not_eq)
  ultimately show ?thesis
    using assms z length_z_order [of "window_destroy s i", unfolded z]
    by (auto simp: stack_wf_def distinct_removeAll)
qed

lemma stack_wf_focus:
  assumes "stack_wf s" shows "stack_wf (window_focus s i)"
proof (cases "window_by_id s i")
  case (Some w)
  then have "i \<in> set (z_order s)" by (metis option.distinct(1) window_by_id_None)
  then have "stack_wf (s\<lparr>focus_id := i\<rparr>)" using assms by (simp add: stack_wf_set_focus)
  with Some show ?thesis by (simp add: window_focus_def Let_def stack_wf_raise)
qed (use assms in \<open>simp add: window_focus_def\<close>)

lemma stack_wf_focus_cycle_loop: "stack_wf s \<Longrightarrow> stack_wf (focus_cycle_loop s start step n left)"
  by (induction s start step n left rule: focus_cycle_loop.induct) (auto simp: Let_def stack_wf_focus)

lemma stack_wf_focus_cycle: "stack_wf s \<Longrightarrow> stack_wf (window_focus_cycle s dir)"
  by (simp add: window_focus_cycle_def stack_wf_focus_cycle_loop)

lemma stack_wf_move: "stack_wf s \<Longrightarrow> stack_wf (window_move s i x y)"
  by (simp add: window_move_def stack_wf_modify)

lemma stack_wf_set_geometry: "stack_wf s \<Longrightarrow> stack_wf (window_set_geometry s i x y w h)"
  by (simp add: window_set_geometry_def stack_wf_modify)

lemmas stack_wf_ops = stack_wf_create stack_wf_destroy stack_wf_raise stack_wf_lower stack_wf_modify
  stack_wf_focus stack_wf_focus_cycle stack_wf_move stack_wf_set_geometry


section \<open>The array code implements the abstract desktop\<close>

lemma abs_destroy: "stack_wf s \<Longrightarrow> abs_stack (window_destroy s i) = desk_close i (abs_stack s)"
proof -
  assume wf: "stack_wf s"
  have z: "z_order (window_destroy s i) = removeAll i (z_order s)"
    using wf by (rule z_order_ops(1))
  have top: "windows (window_destroy s i) \<noteq> [] \<Longrightarrow>
      win_id (last (windows (window_destroy s i))) = last (removeAll i (z_order s))"
    unfolding z [symmetric] by (simp add: z_order_def last_map)
  have emp: "windows (window_destroy s i) = [] \<longleftrightarrow> removeAll i (z_order s) = []"
    unfolding z [symmetric] by (simp add: z_order_def)
  have nz: "removeAll i (z_order s) \<noteq> [] \<Longrightarrow> last (removeAll i (z_order s)) \<noteq> 0"
    using last_in_set [of "removeAll i (z_order s)"] wf by (auto simp: stack_wf_def)
  show ?thesis
    using wf nz by (auto simp: abs_stack_def desk_close_def z by_id_destroy focus_destroy top emp Let_def)
qed

lemma abs_raise: "stack_wf s \<Longrightarrow> abs_stack (window_raise s i) = desk_raise i (abs_stack s)"
  by (simp add: abs_stack_def desk_raise_def z_order_ops by_id_raise)

lemma abs_lower: "stack_wf s \<Longrightarrow> abs_stack (window_lower s i) = desk_lower i (abs_stack s)"
  by (simp add: abs_stack_def desk_lower_def z_order_ops by_id_lower)

lemma abs_modify:
  "stack_wf s \<Longrightarrow> (\<And>w. win_id (f w) = win_id w) \<Longrightarrow>
   abs_stack (window_modify s i f) = desk_update i f (abs_stack s)"
  by (simp add: abs_stack_def desk_update_def z_order_ops by_id_modify)

lemma abs_focus: "stack_wf s \<Longrightarrow> abs_stack (window_focus s i) = desk_focus i (abs_stack s)"
proof (cases "window_by_id s i")
  case None
  then show ?thesis by (simp add: window_focus_def desk_focus_def abs_stack_def)
next
  case (Some w)
  assume wf: "stack_wf s"
  from Some have i: "i \<in> set (z_order s)" by (metis option.distinct(1) window_by_id_None)
  with wf have "i \<noteq> 0" by (auto simp: stack_wf_def)
  moreover have "stack_wf (s\<lparr>focus_id := i\<rparr>)" using wf i by (simp add: stack_wf_set_focus)
  ultimately show ?thesis using Some i wf
    by (simp add: window_focus_def desk_focus_def abs_raise Let_def)
       (simp add: abs_stack_def z_order_def desk_raise_def)
qed

lemma abs_create:
  assumes "stack_wf s" and "length (windows s) < WIN_MAX"
  shows "\<exists>win. fst (window_create s r x y w h col t) = win_id win \<and>
    abs_stack (snd (window_create s r x y w h col t)) = desk_open win (abs_stack s) \<and>
    win_id win = next_id s \<and> role win = r \<and> mapped win \<and> buf win = None \<and> \<not> snapped win \<and>
    \<not> app_decorated win \<and> (win_x win, win_y win, win_w win, win_h win) = (x, y, w, h)"
proof -
  obtain i s' where c: "window_create s r x y w h col t = (i, s')" by fastforce
  obtain win where win: "win_id win = i" "windows s' = windows s @ [win]"
      "window_by_id s' = (window_by_id s)(i \<mapsto> win)"
    using by_id_create(2) [OF assms(1) _ c] assms(2) by auto
  have last: "win = last (windows s')" using win(2) by simp
  have foc: "focus_id s' = focus_id s"
    using c assms(2) by (auto simp: window_create_def Let_def)
  have fields: "role win = r \<and> mapped win \<and> buf win = None \<and> \<not> snapped win \<and>
      \<not> app_decorated win \<and> (win_x win, win_y win, win_w win, win_h win) = (x, y, w, h)"
    using c assms(2) unfolding last by (auto simp: window_create_def Let_def)
  have "abs_stack s' = desk_open win (abs_stack s)"
    by (simp add: abs_stack_def desk_open_def z_order_def win foc)
  moreover have "win_id win = next_id s"
    using win(1) by_id_create(1) [OF assms(1) _ c] assms(2) by simp
  ultimately show ?thesis using c win(1) fields by (intro exI [where x = win]) simp
qed

section \<open>Hit-testing\<close>

lemma window_at_from_find:
  "i \<le> length ws \<Longrightarrow>
   window_at_from ws gx gy i = find (\<lambda>w. mapped w \<and> hit gx gy w) (rev (take i ws))"
  by (induction i) (auto simp: take_Suc_conv_app_nth Let_def)

lemma window_at_find: "window_at s gx gy = find (\<lambda>w. mapped w \<and> hit gx gy w) (rev (windows s))"
  by (simp add: window_at_def window_at_from_find)

lemma find_rev_SomeI:
  "k < length ws \<Longrightarrow> P (ws ! k) \<Longrightarrow> (\<And>j. k < j \<Longrightarrow> j < length ws \<Longrightarrow> \<not> P (ws ! j)) \<Longrightarrow>
   find P (rev ws) = Some (ws ! k)"
proof (induction ws rule: rev_induct)
  case (snoc w ws)
  show ?case
  proof (cases "k = length ws")
    case True
    with snoc.prems show ?thesis by simp
  next
    case False
    then have k: "k < length ws" using snoc.prems(1) by simp
    have "\<not> P w" using snoc.prems(3) [of "length ws"] k by simp
    moreover have "find P (rev ws) = Some (ws ! k)"
      using k snoc.prems(2) by (intro snoc.IH) (auto simp: nth_append dest: snoc.prems(3))
    ultimately show ?thesis using k by (simp add: nth_append)
  qed
qed simp

lemma find_rev_SomeD:
  "find P (rev ws) = Some w \<Longrightarrow>
   \<exists>k < length ws. ws ! k = w \<and> P w \<and> (\<forall>j. k < j \<and> j < length ws \<longrightarrow> \<not> P (ws ! j))"
proof (induction ws rule: rev_induct)
  case (snoc v ws)
  show ?case
  proof (cases "P v")
    case True
    with snoc.prems show ?thesis by (intro exI [where x = "length ws"]) auto
  next
    case False
    with snoc obtain k where "k < length ws" "ws ! k = w" "P w"
        "\<forall>j. k < j \<and> j < length ws \<longrightarrow> \<not> P (ws ! j)"
      by auto
    with False show ?thesis by (intro exI [where x = k]) (auto simp: nth_append less_Suc_eq)
  qed
qed simp

section \<open>Alt-Tab\<close>

text \<open>
  \<open>((a % c) + c) % c\<close> with C's truncating remainder is the mathematical remainder
  when \<open>c\<close> is positive.
\<close>

lemma smod_wrap:
  assumes "(c::int) > 0" shows "(a smod c + c) smod c = a mod c"
proof (cases "0 \<le> a")
  case True
  with assms show ?thesis by (simp add: smod_mod_positive)
next
  case False
  then have "a smod c = - ((- a) mod c)"
    using assms by (simp add: smod_int_alt_def sgn_if abs_if)
  moreover have "0 \<le> c - (- a) mod c"
    using pos_mod_bound [OF assms, of "- a"] by simp
  ultimately have "(a smod c + c) smod c = (c - (- a) mod c) mod c"
    using assms by (simp add: smod_mod_positive)
  also have "\<dots> = (c - (- a)) mod c" by (rule mod_diff_right_eq)
  finally show ?thesis by simp
qed


lemma focus_cycle_loop_find:
  assumes "windows s \<noteq> []"
  shows "focus_cycle_loop s start step n left =
    (case find (\<lambda>w. role w = WIN_NORMAL \<and> mapped w)
            (map (\<lambda>k. windows s ! nat ((start + step * (n + int k)) mod int (length (windows s)))) [0..<left]) of
       None \<Rightarrow> s | Some w \<Rightarrow> window_focus s (win_id w))"
proof (induction left arbitrary: n)
  case (Suc left)
  have c: "int (length (windows s)) > 0" using assms by simp
  have shift: "map (\<lambda>k. windows s ! nat ((start + step * (n + int k)) mod int (length (windows s)))) [0..<Suc left]
      = windows s ! nat ((start + step * n) mod int (length (windows s))) #
        map (\<lambda>k. windows s ! nat ((start + step * (n + 1 + int k)) mod int (length (windows s)))) [0..<left]"
    by (simp add: upt_conv_Cons map_Suc_upt [symmetric] comp_def algebra_simps del: upt_Suc)
  show ?case
    unfolding shift using Suc.IH [of "n + 1"] by (simp add: Let_def smod_wrap [OF c])
qed simp

text \<open>Counting \<open>count\<close> steps up or down from anywhere passes every index.\<close>

lemma cycle_covers:
  assumes "c > 0" and "step = 1 \<or> step = (- 1 :: int)" and "0 \<le> t" and "t < c"
  shows "\<exists>k. 0 \<le> k \<and> k < c \<and> (start + step * (1 + k)) mod c = t"
proof (intro exI conjI)
  let ?k = "(step * (t - start) - 1) mod c"
  show "0 \<le> ?k" "?k < c" using assms(1) by simp_all
  have up: "(start + 1 + (t - start - 1) mod c) mod c = (start + 1 + (t - start - 1)) mod c"
    by (rule mod_add_right_eq)
  have down: "(start - 1 - (start - t - 1) mod c) mod c = (start - 1 - (start - t - 1)) mod c"
    by (rule mod_diff_right_eq)
  from assms(2) show "(start + step * (1 + ?k)) mod c = t"
  proof
    assume "step = 1"
    with up assms(3,4) show ?thesis by (simp add: add.assoc)
  next
    assume "step = - 1"
    with down assms(3,4) show ?thesis by (simp add: algebra_simps)
  qed
qed

lemma focus_cycle_finds:
  assumes "w \<in> set (windows s)" "role w = WIN_NORMAL" "mapped w"
  shows "\<exists>v \<in> set (windows s). role v = WIN_NORMAL \<and> mapped v \<and>
           window_focus_cycle s dir = window_focus s (win_id v)"
proof -
  let ?c = "int (length (windows s))" and ?P = "\<lambda>w. role w = WIN_NORMAL \<and> mapped w"
  let ?step = "if dir \<ge> 0 then 1 else - 1 :: int" and ?start = "window_index s (focus_id s)"
  let ?ws = "map (\<lambda>k. windows s ! nat ((?start + ?step * (1 + int k)) mod ?c)) [0..<length (windows s)]"
  have ne: "windows s \<noteq> []" using assms(1) by auto
  then have c: "?c > 0" by simp
  obtain t where t: "t < length (windows s)" "windows s ! t = w"
    using assms(1) by (auto simp: in_set_conv_nth)
  obtain k where k: "0 \<le> k" "k < ?c" "(?start + ?step * (1 + k)) mod ?c = int t"
  proof -
    have "?step = 1 \<or> ?step = - 1" by simp
    from cycle_covers [OF c this, of "int t" ?start] t(1) that show ?thesis by auto
  qed
  have "?ws ! nat k = w" "nat k < length ?ws" using k t by simp_all
  then have "w \<in> set ?ws" by (metis nth_mem)
  then have "find ?P ?ws \<noteq> None" using assms(2,3) by (auto simp: find_None_iff)
  then obtain v where v: "find ?P ?ws = Some v" by blast
  then have "v \<in> set ?ws" "?P v" by (auto simp: find_Some_iff in_set_conv_nth)
  moreover have "set ?ws \<subseteq> set (windows s)" using c by (auto intro!: nth_mem simp: nat_less_iff)
  moreover have "window_focus_cycle s dir = window_focus s (win_id v)"
    using ne v by (simp add: window_focus_cycle_def focus_cycle_loop_find [OF ne])
  ultimately show ?thesis by blast
qed


text \<open>The windows Alt-Tab visits, bottom first, and the situation \<open>window_focus\<close> leaves behind.\<close>

definition tab_windows :: "window_stack \<Rightarrow> window list" where
  "tab_windows s = filter (\<lambda>w. role w = WIN_NORMAL \<and> mapped w) (windows s)"

definition focus_on_top :: "window_stack \<Rightarrow> bool" where
  "focus_on_top s \<longleftrightarrow> windows s \<noteq> [] \<and> focus_id s = win_id (last (windows s))"

lemma focus_normal:
  assumes "stack_wf s" "v \<in> set (windows s)" "role v = WIN_NORMAL"
  shows "windows (window_focus s (win_id v)) = without (win_id v) (windows s) @ [v]"
    and "focus_id (window_focus s (win_id v)) = win_id v"
proof -
  have v: "window_by_id s (win_id v) = Some v" using assms(1,2) by (simp add: window_by_id_iff)
  have wf: "stack_wf (s\<lparr>focus_id := win_id v\<rparr>)"
    using assms(1,2) by (simp add: stack_wf_set_focus z_order_def)
  show "windows (window_focus s (win_id v)) = without (win_id v) (windows s) @ [v]"
    using v assms(3) windows_raise [OF wf, of "win_id v" v] by (simp add: window_focus_def Let_def)
  show "focus_id (window_focus s (win_id v)) = win_id v"
    using v assms(3) by (simp add: window_focus_def Let_def)
qed

lemma focus_cycle_from_top:
  assumes "stack_wf s" "focus_on_top s"
  shows "window_focus_cycle s 1 =
    (case tab_windows s of [] \<Rightarrow> s | v # _ \<Rightarrow> window_focus s (win_id v))"
proof -
  let ?n = "length (windows s)"
  have ne: "windows s \<noteq> []" using assms(2) by (simp add: focus_on_top_def)
  then have "focus_id s = win_id (windows s ! (?n - 1))" "?n - 1 < ?n"
    using assms(2) by (simp_all add: focus_on_top_def last_conv_nth)
  then have start: "window_index s (focus_id s) = int ?n - 1"
    using window_index_nth [OF assms(1)] ne by (simp add: of_nat_diff Suc_leI)
  have "map (\<lambda>k. windows s ! nat ((int ?n - 1 + 1 * (1 + int k)) mod int ?n)) [0..<?n] = windows s"
    by (intro nth_equalityI) (simp_all add: algebra_simps)
  then have "window_focus_cycle s 1 =
      (case find (\<lambda>w. role w = WIN_NORMAL \<and> mapped w) (windows s) of
         None \<Rightarrow> s | Some w \<Rightarrow> window_focus s (win_id w))"
    using ne focus_cycle_loop_find [OF ne, of "int ?n - 1" 1 1 ?n]
    by (simp add: window_focus_cycle_def start)
  moreover have "find P xs = (case filter P xs of [] \<Rightarrow> None | v # _ \<Rightarrow> Some v)" for P and xs :: "window list"
    by (induction xs) auto
  ultimately show ?thesis by (simp add: tab_windows_def split: list.split)
qed

lemma focus_cycle_rotates:
  assumes "stack_wf s" "focus_on_top s" "tab_windows s = v # vs"
  shows "tab_windows (window_focus_cycle s 1) = vs @ [v]"
    and "focus_id (window_focus_cycle s 1) = win_id v"
    and "focus_on_top (window_focus_cycle s 1)"
proof -
  have cyc: "window_focus_cycle s 1 = window_focus s (win_id v)"
    using assms focus_cycle_from_top by simp
  have v: "v \<in> set (windows s)" "role v = WIN_NORMAL" "mapped v"
    using assms(3) by (auto simp: tab_windows_def filter_eq_Cons_iff)
  note f = focus_normal [OF assms(1) v(1,2)]
  have "tab_windows s = v # vs \<Longrightarrow> distinct (map win_id (windows s)) \<Longrightarrow>
      filter (\<lambda>w. role w = WIN_NORMAL \<and> mapped w) (without (win_id v) (windows s)) = vs"
  proof -
    assume tw: "tab_windows s = v # vs" and d: "distinct (map win_id (windows s))"
    have "filter (\<lambda>w. role w = WIN_NORMAL \<and> mapped w) (without (win_id v) (windows s)) =
          filter (\<lambda>w. win_id w \<noteq> win_id v) (tab_windows s)"
      by (simp add: without_def tab_windows_def conj_commute)
    also have "\<dots> = filter (\<lambda>w. win_id w \<noteq> win_id v) vs" by (simp add: tw)
    also have "\<dots> = vs"
    proof -
      have "distinct (map win_id (tab_windows s))"
        using d by (simp add: tab_windows_def distinct_map_filter)
      then show ?thesis by (auto simp: tw filter_id_conv) (metis imageI)
    qed
    finally show ?thesis .
  qed
  then show "tab_windows (window_focus_cycle s 1) = vs @ [v]"
    using assms(3) stack_wfD(2) [OF assms(1)] v by (simp add: cyc tab_windows_def f)
  show "focus_id (window_focus_cycle s 1) = win_id v" "focus_on_top (window_focus_cycle s 1)"
    by (simp_all add: cyc f focus_on_top_def)
qed

lemma focus_cycle_power:
  assumes "stack_wf s" "focus_on_top s"
  shows "tab_windows (((\<lambda>s. window_focus_cycle s 1) ^^ j) s) = rotate j (tab_windows s) \<and>
    stack_wf (((\<lambda>s. window_focus_cycle s 1) ^^ j) s) \<and> focus_on_top (((\<lambda>s. window_focus_cycle s 1) ^^ j) s)"
proof (induction j)
  case 0
  show ?case using assms by simp
next
  case (Suc j)
  let ?t = "((\<lambda>s. window_focus_cycle s 1) ^^ j) s"
  have wf: "stack_wf ?t" "focus_on_top ?t" and rot: "tab_windows ?t = rotate j (tab_windows s)"
    using Suc.IH by auto
  show ?case
  proof (cases "tab_windows ?t")
    case Nil
    then have "window_focus_cycle ?t 1 = ?t" using focus_cycle_from_top [OF wf] by simp
    with Nil wf rot show ?thesis by (simp add: rotate_def)
  next
    case (Cons v vs)
    note r = focus_cycle_rotates [OF wf Cons]
    have "rotate (Suc j) (tab_windows s) = vs @ [v]"
      by (subst rotate_Suc, subst rot [symmetric]) (simp add: Cons)
    with r wf show ?thesis by (simp add: stack_wf_focus_cycle)
  qed
qed

section \<open>The stack as a store of handles\<close>

text \<open>Opening a window with the attributes of \<open>w\<close>.\<close>

definition window_open :: "window_stack \<Rightarrow> window \<Rightarrow> u32 \<times> window_stack" where
  "window_open s w =
     window_create s (role w) (win_x w) (win_y w) (win_w w) (win_h w) (color w) (Some (title w))"

interpretation ws: handle_alloc stack_wf win_id window_by_id window_modify window_destroy
  window_open "\<lambda>s. length (windows s) \<ge> WIN_MAX" ids_exhausted
proof (unfold_locales, goal_cases)
  case (1 s i w)
  then show ?case by (simp add: window_by_id_SomeD)
next
  case (2 f s i j)
  then show ?case by (simp add: by_id_modify)
next
  case (3 s i j)
  then show ?case by (simp add: by_id_destroy)
next
  case (4 s f i)
  then show ?case by (simp add: stack_wf_modify)
next
  case (5 s i)
  then show ?case by (simp add: stack_wf_destroy)
next
  case (6 s w)
  then show ?case by (simp add: window_open_def window_create_def)
next
  case (7 s w i s')
  then have "i = next_id s" "window_by_id s i = None"
    using by_id_create(1,3) [of s] by (auto simp: window_open_def)
  then show ?case using 7(1) by (simp add: stack_wf_def)
next
  case (8 s w i s')
  then show ?case using by_id_create(2) [of s] by (fastforce simp: window_open_def)
next
  case (9 s w)
  then show ?case by (simp add: window_open_def stack_wf_create)
qed

section \<open>A concrete desktop\<close>

definition demo_open :: "win_role \<Rightarrow> int \<times> int \<times> int \<times> int \<Rightarrow> string \<Rightarrow> window_stack \<Rightarrow> window_stack" where
  "demo_open r g t s = (case g of (x, y, w, h) \<Rightarrow> snd (window_create s r x y w h 0 (Some t)))"

definition demo_stack :: window_stack where
  "demo_stack = demo_open WIN_NORMAL (300, 200, 400, 300) ''B''
     (demo_open WIN_NORMAL (100, 100, 400, 300) ''A''
       (demo_open WIN_DESKTOP (0, 0, 1920, 1080) ''desktop'' window_stack_init))"

lemmas demo_stack_defs = demo_stack_def demo_open_def window_create_def window_stack_init_def

lemma demo_stack_wf: "stack_wf demo_stack"
  by (simp add: demo_stack_defs stack_wf_def z_order_def Let_def)

lemma demo_not_exhausted: "\<not> ids_exhausted demo_stack"
  by (simp add: demo_stack_defs ids_exhausted_def Let_def)

section \<open>Any sequence of operations on the stack\<close>

datatype stack_op =
    Create win_role int int int int u32 "string option"
  | Destroy u32
  | Raise u32
  | Lower u32
  | Move u32 int int
  | Set_Geometry u32 int int int int
  | Focus u32
  | Focus_Cycle int

fun stack_step :: "stack_op \<Rightarrow> window_stack \<Rightarrow> window_stack" where
  "stack_step (Create r x y w h c t) s = snd (window_create s r x y w h c t)"
| "stack_step (Destroy i) s = window_destroy s i"
| "stack_step (Raise i) s = window_raise s i"
| "stack_step (Lower i) s = window_lower s i"
| "stack_step (Move i x y) s = window_move s i x y"
| "stack_step (Set_Geometry i x y w h) s = window_set_geometry s i x y w h"
| "stack_step (Focus i) s = window_focus s i"
| "stack_step (Focus_Cycle d) s = window_focus_cycle s d"

lemma stack_step_wf: "stack_wf s \<Longrightarrow> \<not> ids_exhausted s \<Longrightarrow> stack_wf (stack_step p s)"
  by (cases p) (simp_all add: stack_wf_ops)

interpretation stack_machine: guarded_machine stack_step "\<lambda>s _. \<not> ids_exhausted s" stack_wf
  by unfold_locales (rule stack_step_wf)

lemma next_id_focus [simp]: "next_id (window_focus s i) = next_id s"
  by (simp add: window_focus_def Let_def split: option.split)

lemma next_id_focus_loop [simp]: "next_id (focus_cycle_loop s start step n left) = next_id s"
  by (induction s start step n left rule: focus_cycle_loop.induct) (simp_all add: Let_def)

lemma next_id_step: "next_id (stack_step p s) = next_id s \<or> next_id (stack_step p s) = next_id s + 1"
  by (cases p) (simp_all add: window_create_def window_move_def window_set_geometry_def
      window_focus_cycle_def Let_def)

lemma unat_next_id_step: "unat (next_id (stack_step p s)) \<le> Suc (unat (next_id s))"
proof -
  have "unat (next_id s + 1) \<le> Suc (unat (next_id s))" by unat_arith
  then show ?thesis using next_id_step [of p s] by auto
qed

lemma short_run_guarded:
  "unat (next_id s) + length ps < 2 ^ 32 \<Longrightarrow> guarded_run stack_step (\<lambda>s _. \<not> ids_exhausted s) ps s"
proof (induction ps arbitrary: s)
  case (Cons p ps)
  have "\<not> ids_exhausted s"
    unfolding ids_exhausted_def using Cons.prems by (simp add: unat_eq_zero [symmetric] unat_word_ariths)
  moreover have "guarded_run stack_step (\<lambda>s _. \<not> ids_exhausted s) ps (stack_step p s)"
    using Cons.prems unat_next_id_step [of p s] by (intro Cons.IH) simp
  ultimately show ?case by simp
qed simp

section \<open>Properties\<close>

text \<open>
  C14: From the empty stack, any sequence of fewer than 2^32 - 1 window operations, in any
  order and with any arguments, keeps the stack well-formed: at most 64 windows, distinct
  non-zero handles below the counter, and a focus that names a live window or nothing.
\<close>

theorem stack_run_wf:
  assumes "length ps < 2 ^ 32 - 1"
  shows "stack_wf (fold stack_step ps window_stack_init)"
proof -
  have "guarded_run stack_step (\<lambda>s _. \<not> ids_exhausted s) ps window_stack_init"
    using assms by (intro short_run_guarded) (simp add: window_stack_init_def)
  with stack_wf_init show ?thesis by (rule stack_machine.run_inv)
qed

theorem stack_run_wf_witness:
  "stack_wf (fold stack_step [Create WIN_NORMAL 0 0 10 10 0 None, Focus 1, Raise 7, Focus_Cycle (-1), Destroy 1]
     window_stack_init)"
  by (rule stack_run_wf) simp

text \<open>
  C9: The array operations implement the abstract desktop: looking only at the z-order of
  handles, the window behind each handle and the active handle, opening appends on top,
  destroying removes the handle and gives the activation to the topmost survivor, raising
  and lowering permute, focusing activates and raises all but the desktop, and moving and
  resizing rewrite one window in place.
\<close>

theorem window_ops_refine:
  assumes "stack_wf s"
  shows "abs_stack (window_destroy s i) = desk_close i (abs_stack s) \<and>
    abs_stack (window_raise s i) = desk_raise i (abs_stack s) \<and>
    abs_stack (window_lower s i) = desk_lower i (abs_stack s) \<and>
    abs_stack (window_focus s i) = desk_focus i (abs_stack s) \<and>
    abs_stack (window_move s i x y) = desk_update i (\<lambda>w. w\<lparr>win_x := x, win_y := y\<rparr>) (abs_stack s) \<and>
    abs_stack (window_set_geometry s i x y w h) =
      desk_update i (\<lambda>v. v\<lparr>win_x := x, win_y := y, win_w := (if w > 0 then w else win_w v),
                            win_h := (if h > 0 then h else win_h v)\<rparr>) (abs_stack s) \<and>
    (length (windows s) < WIN_MAX \<longrightarrow>
       (\<exists>win. fst (window_create s r x y w h c t) = win_id win \<and> win_id win = next_id s \<and>
         abs_stack (snd (window_create s r x y w h c t)) = desk_open win (abs_stack s) \<and>
         role win = r \<and> (win_x win, win_y win, win_w win, win_h win) = (x, y, w, h)))"
  using assms abs_create [OF assms, of r x y w h c t]
  by (auto simp: abs_destroy abs_raise abs_lower abs_focus abs_modify window_move_def window_set_geometry_def)

theorem window_ops_refine_witness:
  "abs_stack (window_raise demo_stack 2) = desk_raise 2 (abs_stack demo_stack) \<and>
   abs_stack (window_destroy demo_stack 3) = desk_close 3 (abs_stack demo_stack)"
  using window_ops_refine [OF demo_stack_wf, of 2] window_ops_refine [OF demo_stack_wf, of 3] by simp

text \<open>
  The hit-test returns a window exactly when it is mapped, contains the point and no
  mapped window above it contains the point; it returns nothing exactly when no mapped
  window contains the point.
\<close>

theorem window_at_topmost:
  "(window_at s gx gy = Some w) =
     (\<exists>k. k < length (windows s) \<and> windows s ! k = w \<and> mapped w \<and> hit gx gy w \<and>
        (\<forall>j. k < j \<and> j < length (windows s) \<longrightarrow> \<not> (mapped (windows s ! j) \<and> hit gx gy (windows s ! j)))) \<and>
   (window_at s gx gy = None) = (\<forall>w \<in> set (windows s). \<not> (mapped w \<and> hit gx gy w))"
proof -
  let ?P = "\<lambda>w. mapped w \<and> hit gx gy w"
  have "(window_at s gx gy = Some w) =
     (\<exists>k. k < length (windows s) \<and> windows s ! k = w \<and> mapped w \<and> hit gx gy w \<and>
        (\<forall>j. k < j \<and> j < length (windows s) \<longrightarrow> \<not> ?P (windows s ! j)))"
    unfolding window_at_find
    using find_rev_SomeI [of _ "windows s" ?P] find_rev_SomeD [of ?P "windows s" w] by blast
  moreover have "(window_at s gx gy = None) = (\<forall>w \<in> set (windows s). \<not> ?P w)"
    by (auto simp: window_at_find find_None_iff)
  ultimately show ?thesis by blast
qed

theorem window_at_topmost_witness:
  "window_at demo_stack 350 250 = Some (windows demo_stack ! 2) \<and> window_at demo_stack 5000 0 = None"
proof
  show "window_at demo_stack 350 250 = Some (windows demo_stack ! 2)"
    unfolding window_at_topmost [THEN conjunct1]
    by (intro exI [where x = 2]) (simp add: demo_stack_defs hit_def Let_def)
  show "window_at demo_stack 5000 0 = None"
    unfolding window_at_topmost [of _ _ _ "windows demo_stack ! 0", THEN conjunct2]
    by (simp add: demo_stack_defs hit_def Let_def)
qed

text \<open>
  Alt-Tab never gets stuck on shell surfaces: when any mapped application window is
  open, cycling in either direction activates a mapped application window and puts it on
  top, whatever had the focus before.
\<close>

theorem alt_tab_activates:
  assumes "stack_wf s" and "w \<in> set (windows s)" "role w = WIN_NORMAL" "mapped w"
  shows "\<exists>v \<in> set (windows s). role v = WIN_NORMAL \<and> mapped v \<and>
    focus_id (window_focus_cycle s dir) = win_id v \<and>
    windows (window_focus_cycle s dir) = without (win_id v) (windows s) @ [v]"
proof -
  obtain v where v: "v \<in> set (windows s)" "role v = WIN_NORMAL" "mapped v"
      "window_focus_cycle s dir = window_focus s (win_id v)"
    using focus_cycle_finds [OF assms(2-4)] by blast
  then show ?thesis using focus_normal [OF assms(1) v(1,2)] by auto
qed

theorem alt_tab_activates_witness:
  "\<exists>v \<in> set (windows demo_stack). focus_id (window_focus_cycle demo_stack (-1)) = win_id v"
proof -
  have "windows demo_stack ! 1 \<in> set (windows demo_stack)" "role (windows demo_stack ! 1) = WIN_NORMAL"
      "mapped (windows demo_stack ! 1)"
    by (simp_all add: demo_stack_defs Let_def)
  from alt_tab_activates [OF demo_stack_wf this, of "-1"] show ?thesis by blast
qed

text \<open>
  C35: Alt-Tab is a round robin: from a state where the active window is on top, the j-th
  press activates the j-th application window in z-order, counting round, so that as many
  presses as there are application windows bring the first order back.
\<close>

theorem alt_tab_round_robin:
  assumes "stack_wf s" and "focus_on_top s" and "tab_windows s \<noteq> []"
  shows "focus_id (((\<lambda>s. window_focus_cycle s 1) ^^ Suc j) s) =
           win_id (tab_windows s ! (j mod length (tab_windows s))) \<and>
         tab_windows (((\<lambda>s. window_focus_cycle s 1) ^^ length (tab_windows s)) s) = tab_windows s"
proof -
  let ?t = "((\<lambda>s. window_focus_cycle s 1) ^^ j) s"
  from focus_cycle_power [OF assms(1,2), of j]
  have t: "tab_windows ?t = rotate j (tab_windows s)" "stack_wf ?t" "focus_on_top ?t" by auto
  obtain v vs where v: "tab_windows ?t = v # vs"
    using t(1) assms(3) by (metis list.exhaust rotate_is_Nil_conv)
  have "v = rotate j (tab_windows s) ! 0" using v t(1) by (metis nth_Cons_0)
  also have "\<dots> = tab_windows s ! (j mod length (tab_windows s))"
    using assms(3) by (subst nth_rotate) simp_all
  finally show ?thesis
    using focus_cycle_rotates(2) [OF t(2,3) v] focus_cycle_power [OF assms(1,2), of "length (tab_windows s)"]
    by simp
qed

theorem alt_tab_round_robin_witness:
  "focus_id (((\<lambda>s. window_focus_cycle s 1) ^^ Suc 4) (demo_stack\<lparr>focus_id := 3\<rparr>)) = 2"
proof -
  let ?s = "demo_stack\<lparr>focus_id := 3\<rparr>"
  have "stack_wf ?s" "focus_on_top ?s" and tw: "map win_id (tab_windows ?s) = [2, 3]"
    using demo_stack_wf
    by (simp_all add: demo_stack_defs stack_wf_def z_order_def focus_on_top_def tab_windows_def Let_def)
  moreover have ne: "tab_windows ?s \<noteq> []" and len: "length (tab_windows ?s) = 2"
    using tw by (auto dest: arg_cong [where f = length])
  ultimately have "focus_id (((\<lambda>s. window_focus_cycle s 1) ^^ Suc 4) ?s) = win_id (tab_windows ?s ! 0)"
    using alt_tab_round_robin [of ?s 4] by simp
  also have "\<dots> = map win_id (tab_windows ?s) ! 0" using len by simp
  finally show ?thesis by (simp add: tw)
qed

text \<open>
  The handle counter is not guarded: after handle 2^32 - 1 has been given out the
  next window is pushed on the stack with handle 0, the value that means \<open>full\<close>, and
  the one after it reuses handle 1.
\<close>

theorem window_create_id_wraps:
  assumes "next_id s = 0xffffffff" and "length (windows s) < 62"
  shows "let (i, s1) = window_create s r x y w h c t; (j, s2) = window_create s1 r x y w h c t;
             (k, s3) = window_create s2 r x y w h c t
         in j = 0 \<and> k = 1 \<and> length (windows s3) = length (windows s) + 3"
  using assms by (simp add: window_create_def Let_def)

theorem window_create_id_wraps_witness:
  "let (i, s1) = window_create (window_stack_init\<lparr>next_id := 0xffffffff\<rparr>) WIN_NORMAL 0 0 1 1 0 None;
       (j, s2) = window_create s1 WIN_NORMAL 0 0 1 1 0 None;
       (k, s3) = window_create s2 WIN_NORMAL 0 0 1 1 0 None
   in j = 0 \<and> k = 1 \<and> length (windows s3) = 3"
  using window_create_id_wraps [of "window_stack_init\<lparr>next_id := 0xffffffff\<rparr>" WIN_NORMAL 0 0 1 1 0 None]
  by (simp add: window_stack_init_def)

end
