(* ===== verification/WM.thy ===== *)
theory WM
  imports Complex_Main Window_Spec
begin

text \<open>
  The window-manager policy: \<open>src/include/wm.h\<close> and \<open>src/src/wm.c\<close>. The C struct
  holds a pointer to the shared window stack; here the stack is passed beside the
  \<open>wm\<close> record and returned updated. A \<open>double\<close> delta is a real number (a finite
  double), and the cast \<open>(int)\<close> truncates it towards zero; C's \<open>/\<close> is \<open>sdiv\<close>.
\<close>

section \<open>State\<close>

definition WM_BTN_LEFT :: u32 where [simp]: "WM_BTN_LEFT = 0x110"
definition WM_KEY_TAB :: u32 where [simp]: "WM_KEY_TAB = 0xff09"
definition SNAP_EDGE :: int where [simp]: "SNAP_EDGE = 16"

record wm =
  screen_w :: int
  screen_h :: int
  cursor_x :: int
  cursor_y :: int
  moving :: bool
  move_id :: u32
  grab_dx :: int
  grab_dy :: int
  reconfigured_id :: u32

definition clampi :: "int \<Rightarrow> int \<Rightarrow> int \<Rightarrow> int" where
  "clampi v lo hi = (if v < lo then lo else if v > hi then hi else v)"

definition c_trunc :: "real \<Rightarrow> int" where
  "c_trunc d = (if d \<ge> 0 then \<lfloor>d\<rfloor> else \<lceil>d\<rceil>)"

text \<open>\<open>wm_init\<close> assigns every field but \<open>reconfigured_id\<close>; \<open>m\<close> is the memory it is given.\<close>

definition wm_init :: "wm \<Rightarrow> int \<Rightarrow> int \<Rightarrow> wm" where
  "wm_init m sw sh =
     m\<lparr>screen_w := sw, screen_h := sh, cursor_x := sw sdiv 2, cursor_y := sh sdiv 2,
       moving := False, move_id := 0, grab_dx := 0, grab_dy := 0\<rparr>"

section \<open>Pointer motion\<close>

definition drag_grabbed :: "wm \<Rightarrow> window_stack \<Rightarrow> window_stack" where
  "drag_grabbed m s =
     (if moving m then window_move s (move_id m) (cursor_x m - grab_dx m) (cursor_y m - grab_dy m)
      else s)"

definition wm_pointer_motion :: "wm \<Rightarrow> window_stack \<Rightarrow> real \<Rightarrow> real \<Rightarrow> wm \<times> window_stack" where
  "wm_pointer_motion m s dx dy =
     (let m' = m\<lparr>cursor_x := clampi (cursor_x m + c_trunc dx) 0 (screen_w m - 1),
                 cursor_y := clampi (cursor_y m + c_trunc dy) 0 (screen_h m - 1)\<rparr>
      in (m', drag_grabbed m' s))"

definition wm_pointer_motion_abs :: "wm \<Rightarrow> window_stack \<Rightarrow> real \<Rightarrow> real \<Rightarrow> wm \<times> window_stack" where
  "wm_pointer_motion_abs m s ax ay =
     (let m' = m\<lparr>cursor_x := clampi (c_trunc ax) 0 (screen_w m - 1),
                 cursor_y := clampi (c_trunc ay) 0 (screen_h m - 1)\<rparr>
      in (m', drag_grabbed m' s))"

section \<open>Work area and Aero Snap\<close>

type_synonym rect = "int \<times> int \<times> int \<times> int"

text \<open>The body of the taskbar branch of \<open>wm_work_area\<close>, on the current area.\<close>

definition dock :: "wm \<Rightarrow> window \<Rightarrow> rect \<Rightarrow> rect" where
  "dock m t r =
     (case r of (x, y, w, h) \<Rightarrow>
        let full_w = win_w t \<ge> screen_w m * 3 sdiv 4;
            full_h = win_h t \<ge> screen_h m * 3 sdiv 4
        in if full_w \<and> win_y t \<le> 0 then
             (let b = win_y t + win_h t in if b > y then (x, b, w, h - (b - y)) else r)
           else if full_w then
             (if win_y t < y + h then (x, y, w, win_y t - y) else r)
           else if full_h \<and> win_x t \<le> 0 then
             (let e = win_x t + win_w t in if e > x then (e, y, w - (e - x), h) else r)
           else if full_h then
             (if win_x t < x + w then (x, y, win_x t - x, h) else r)
           else r)"

fun dock_loop :: "wm \<Rightarrow> window list \<Rightarrow> rect \<Rightarrow> rect" where
  "dock_loop m [] r = r"
| "dock_loop m (t # ts) r =
     (if role t \<noteq> WIN_TASKBAR \<or> \<not> mapped t then dock_loop m ts r else dock m t r)"

definition wm_work_area :: "wm \<Rightarrow> window_stack \<Rightarrow> rect" where
  "wm_work_area m s =
     (case dock_loop m (windows s) (0, 0, screen_w m, screen_h m) of
        (x, y, w, h) \<Rightarrow>
          (x, y, if w < 1 then screen_w m else w, if h < 1 then screen_h m else h))"

text \<open>The rectangle for the edge the cursor reached, top first, or \<open>None\<close> away from the edges.\<close>

definition snap_rect :: "wm \<Rightarrow> rect \<Rightarrow> rect option" where
  "snap_rect m a =
     (case a of (ax, ay, aw, ah) \<Rightarrow>
        if cursor_y m \<le> SNAP_EDGE then Some (ax, ay, aw, ah)
        else if cursor_x m \<le> SNAP_EDGE then Some (ax, ay, aw sdiv 2, ah)
        else if cursor_x m \<ge> screen_w m - SNAP_EDGE then
          (let nw = aw sdiv 2 in Some (ax + aw - nw, ay, nw, ah))
        else None)"

definition wm_snap_on_release :: "wm \<Rightarrow> window_stack \<Rightarrow> u32 \<Rightarrow> wm \<times> window_stack" where
  "wm_snap_on_release m s i =
     (case window_by_id s i of
        None \<Rightarrow> (m, s)
      | Some w \<Rightarrow>
          if \<not> window_has_ssd w then (m, s)
          else (case snap_rect m (wm_work_area m s) of
                  None \<Rightarrow> (m, s)
                | Some (nx, ny, nw, nh) \<Rightarrow>
                    (let s1 = (if \<not> snapped w
                               then window_modify s i (\<lambda>v. v\<lparr>saved_x := win_x v, saved_y := win_y v,
                                                            saved_w := win_w v, saved_h := win_h v\<rparr>)
                               else s);
                         s2 = window_modify s1 i (\<lambda>v. v\<lparr>snapped := True\<rparr>);
                         s3 = window_set_geometry s2 i nx ny nw nh
                     in (m\<lparr>reconfigured_id := i\<rparr>, s3))))"

section \<open>Buttons and keys\<close>

text \<open>The left button goes down over a window: focus it, and grab it if the press is on its title bar.\<close>

definition wm_press :: "wm \<Rightarrow> window_stack \<Rightarrow> wm \<times> window_stack" where
  "wm_press m s =
     (case window_at s (cursor_x m) (cursor_y m) of
        None \<Rightarrow> (m, s)
      | Some w0 \<Rightarrow>
          (let i = win_id w0; s1 = window_focus s i
           in case window_by_id s1 i of
                None \<Rightarrow> (m, s1)
              | Some w \<Rightarrow>
                  if \<not> window_has_ssd w then (m, s1)
                  else if cursor_y m - win_y w \<ge> DECOR_TITLEBAR_H then (m, s1)
                  else if snapped w then
                    (let nw = (if saved_w w > 0 then saved_w w else win_w w);
                         nh = (if saved_h w > 0 then saved_h w else win_h w);
                         x1 = cursor_x m - nw sdiv 2;
                         y1 = cursor_y m - DECOR_TITLEBAR_H sdiv 2;
                         x2 = (if x1 < 0 then 0 else x1);
                         y2 = (if y1 < 0 then 0 else y1);
                         s2 = window_set_geometry s1 i x2 y2 nw nh;
                         s3 = window_modify s2 i (\<lambda>v. v\<lparr>snapped := False\<rparr>)
                     in (m\<lparr>reconfigured_id := i, moving := True, move_id := i,
                           grab_dx := cursor_x m - x2, grab_dy := cursor_y m - y2\<rparr>, s3))
                  else (m\<lparr>moving := True, move_id := i,
                          grab_dx := cursor_x m - win_x w, grab_dy := cursor_y m - win_y w\<rparr>, s1)))"

definition wm_pointer_button :: "wm \<Rightarrow> window_stack \<Rightarrow> u32 \<Rightarrow> bool \<Rightarrow> wm \<times> window_stack" where
  "wm_pointer_button m s button pressed =
     (if button \<noteq> WM_BTN_LEFT then (m, s)
      else if \<not> pressed then
        (if moving m then wm_snap_on_release (m\<lparr>moving := False, move_id := 0\<rparr>) s (move_id m)
         else (m, s))
      else wm_press m s)"

definition wm_key :: "window_stack \<Rightarrow> u32 \<Rightarrow> bool \<Rightarrow> bool \<Rightarrow> bool \<times> window_stack" where
  "wm_key s keysym pressed alt_down =
     (if pressed \<and> alt_down \<and> keysym = WM_KEY_TAB then (True, window_focus_cycle s 1) else (False, s))"

section \<open>The window manager as a machine over input events\<close>

datatype wm_event = Motion real real | Motion_Abs real real | Button u32 bool | Key u32 bool bool

fun wm_step :: "wm_event \<Rightarrow> wm \<times> window_stack \<Rightarrow> wm \<times> window_stack" where
  "wm_step (Motion dx dy) (m, s) = wm_pointer_motion m s dx dy"
| "wm_step (Motion_Abs ax ay) (m, s) = wm_pointer_motion_abs m s ax ay"
| "wm_step (Button b p) (m, s) = wm_pointer_button m s b p"
| "wm_step (Key k p alt) (m, s) = (m, snd (wm_key s k p alt))"

text \<open>
  The stack is well-formed, the cursor is on the screen, and a drag names a window
  exactly while it is in progress.
\<close>

definition wm_inv :: "wm \<times> window_stack \<Rightarrow> bool" where
  "wm_inv ms \<longleftrightarrow>
     (case ms of (m, s) \<Rightarrow>
        stack_wf s \<and> 0 \<le> cursor_x m \<and> cursor_x m < screen_w m \<and>
        0 \<le> cursor_y m \<and> cursor_y m < screen_h m \<and> (moving m \<longleftrightarrow> move_id m \<noteq> 0))"

lemma clampi_range: "lo \<le> hi \<Longrightarrow> lo \<le> clampi v lo hi \<and> clampi v lo hi \<le> hi"
  by (simp add: clampi_def)

lemma drag_wf: "stack_wf s \<Longrightarrow> stack_wf (drag_grabbed m s)"
  by (simp add: drag_grabbed_def stack_wf_move)

lemma wm_inv_motion: "wm_inv (m, s) \<Longrightarrow> wm_inv (wm_pointer_motion m s dx dy)"
  using clampi_range [of 0 "screen_w m - 1" "cursor_x m + c_trunc dx"]
    clampi_range [of 0 "screen_h m - 1" "cursor_y m + c_trunc dy"]
  by (simp add: wm_inv_def wm_pointer_motion_def Let_def drag_wf)

lemma wm_inv_motion_abs: "wm_inv (m, s) \<Longrightarrow> wm_inv (wm_pointer_motion_abs m s ax ay)"
  using clampi_range [of 0 "screen_w m - 1" "c_trunc ax"] clampi_range [of 0 "screen_h m - 1" "c_trunc ay"]
  by (simp add: wm_inv_def wm_pointer_motion_abs_def Let_def drag_wf)

lemma wm_inv_snap: "wm_inv (m, s) \<Longrightarrow> wm_inv (wm_snap_on_release m s i)"
  by (simp add: wm_inv_def wm_snap_on_release_def Let_def stack_wf_modify stack_wf_set_geometry
      split: option.split prod.split)

lemma wm_inv_press: "wm_inv (m, s) \<Longrightarrow> wm_inv (wm_press m s)"
proof -
  assume inv: "wm_inv (m, s)"
  then have wf: "stack_wf (window_focus s i)" for i
    by (simp add: wm_inv_def stack_wf_focus)
  have nz: "window_by_id (window_focus s i) i = Some w \<Longrightarrow> i \<noteq> 0" for i w
    using window_by_id_zero [OF wf, of i] by auto
  show ?thesis
    using inv wf nz
    by (auto simp: wm_inv_def wm_press_def Let_def stack_wf_modify stack_wf_set_geometry split: option.split)
qed

lemma wm_inv_button: "wm_inv (m, s) \<Longrightarrow> wm_inv (wm_pointer_button m s b p)"
  by (auto simp: wm_pointer_button_def wm_inv_press intro!: wm_inv_snap) (simp add: wm_inv_def)

lemma wm_inv_step: "wm_inv ms \<Longrightarrow> wm_inv (wm_step e ms)"
proof (induction e ms rule: wm_step.induct)
  case (4 k p alt m s)
  then show ?case by (simp add: wm_inv_def wm_key_def stack_wf_focus_cycle)
qed (simp_all add: wm_inv_motion wm_inv_motion_abs wm_inv_button)

interpretation wm_machine: guarded_machine wm_step "\<lambda>_ _. True" wm_inv
  by unfold_locales (rule wm_inv_step)

lemma guarded_run_True: "guarded_run step (\<lambda>_ _. True) es s"
  by (induction es arbitrary: s) auto

end
