(* ===== verification/WM_Spec.thy ===== *)
theory WM_Spec
  imports WM
begin

text \<open>
  What the window-manager policy guarantees: the cursor and the drag state over any
  sequence of input events, the geometry of interactive moves and of Aero Snap, and
  which presses start a drag.
\<close>

section \<open>Helper facts\<close>

lemma sdiv_2: "0 \<le> (a::int) \<Longrightarrow> a sdiv 2 = a div 2"
  by (simp add: signed_divide_int_def sgn_if)

lemma sdiv_4: "0 \<le> (a::int) \<Longrightarrow> a sdiv 4 = a div 4"
  by (simp add: signed_divide_int_def sgn_if)

definition taskbar :: "window_stack \<Rightarrow> window option" where
  "taskbar s = find (\<lambda>t. role t = WIN_TASKBAR \<and> mapped t) (windows s)"

lemma dock_loop_find:
  "dock_loop m ws r = (case find (\<lambda>t. role t = WIN_TASKBAR \<and> mapped t) ws of None \<Rightarrow> r | Some t \<Rightarrow> dock m t r)"
  by (induction ws) auto

lemma wm_work_area_taskbar:
  "wm_work_area m s =
     (case (case taskbar s of None \<Rightarrow> (0, 0, screen_w m, screen_h m)
            | Some t \<Rightarrow> dock m t (0, 0, screen_w m, screen_h m)) of
        (x, y, w, h) \<Rightarrow> (x, y, if w < 1 then screen_w m else w, if h < 1 then screen_h m else h))"
  by (simp add: wm_work_area_def dock_loop_find taskbar_def)

lemma area_drag_fields [simp]:
  "wm_work_area (m\<lparr>moving := b, move_id := i\<rparr>) s = wm_work_area m s"
  "snap_rect (m\<lparr>moving := b, move_id := i\<rparr>) a = snap_rect m a"
  by (simp_all add: wm_work_area_taskbar dock_def snap_rect_def Let_def split: option.split prod.split)

text \<open>The rectangle of a window, and the one it remembers from before a snap.\<close>

definition geometry :: "window \<Rightarrow> rect" where
  "geometry w = (win_x w, win_y w, win_w w, win_h w)"

definition saved_geometry :: "window \<Rightarrow> rect" where
  "saved_geometry w = (saved_x w, saved_y w, saved_w w, saved_h w)"

definition inside :: "int \<Rightarrow> int \<Rightarrow> rect \<Rightarrow> bool" where
  "inside gx gy r = (case r of (x, y, w, h) \<Rightarrow> x \<le> gx \<and> gx < x + w \<and> y \<le> gy \<and> gy < y + h)"

lemma hit_inside: "hit gx gy w = inside gx gy (geometry w)"
  by (auto simp: hit_def inside_def geometry_def)

lemma by_id_set_geometry:
  "window_by_id (window_set_geometry s i x y w h) = (window_by_id s)(i :=
     map_option (\<lambda>v. v\<lparr>win_x := x, win_y := y, win_w := (if w > 0 then w else win_w v),
                      win_h := (if h > 0 then h else win_h v)\<rparr>) (window_by_id s i))"
  unfolding window_set_geometry_def by (rule by_id_modify) simp

lemma by_id_focus: "stack_wf s \<Longrightarrow> window_by_id (window_focus s i) = window_by_id s"
proof (cases "window_by_id s i")
  case (Some w)
  assume "stack_wf s"
  moreover from Some have "i \<in> set (z_order s)" by (metis option.distinct(1) window_by_id_None)
  ultimately have "stack_wf (s\<lparr>focus_id := i\<rparr>)" by (simp add: stack_wf_set_focus)
  then show ?thesis by (simp add: window_focus_def Some Let_def by_id_raise)
qed (simp add: window_focus_def)

section \<open>Any sequence of input events\<close>

text \<open>
  From \<open>wm_init\<close> on, and from any good state in between, whatever pointer, button and
  key events arrive, the cursor stays on the virtual screen, the window stack stays
  well-formed, and a drag names a window exactly while it is in progress.
\<close>

theorem wm_run_invariant:
  assumes "0 < sw" "0 < sh" "stack_wf s"
  shows "wm_inv (fold wm_step es (wm_init m sw sh, s)) \<and>
    (\<forall>ms. wm_inv ms \<longrightarrow> wm_inv (fold wm_step es ms))"
proof -
  have "wm_inv (wm_init m sw sh, s)"
    using assms pos_imp_zdiv_nonneg_iff [of 2] by (auto simp: wm_inv_def wm_init_def sdiv_2)
  then show ?thesis using wm_machine.run_inv [OF _ guarded_run_True] by blast
qed

definition demo_wm :: wm where
  "demo_wm = \<lparr>screen_w = 1920, screen_h = 1080, cursor_x = 650, cursor_y = 205,
              moving = False, move_id = 0, grab_dx = 0, grab_dy = 0, reconfigured_id = 0\<rparr>"

lemmas demo_defs = demo_wm_def demo_stack_defs

lemma demo_inv: "wm_inv (demo_wm, demo_stack)"
  by (simp add: wm_inv_def demo_defs stack_wf_def z_order_def Let_def)

theorem wm_run_invariant_witness:
  "wm_inv (fold wm_step [Button 0x110 True, Motion 25 (-10), Button 0x110 False, Key 0xff09 True True]
     (wm_init demo_wm 1920 1080, demo_stack))"
  by (rule wm_run_invariant [OF _ _ demo_stack_wf, THEN conjunct1]) simp_all

section \<open>Interactive move\<close>

text \<open>
  While a drag is in progress, every pointer motion puts the dragged window where the
  grabbed point stays under the cursor, keeps its size, and touches no other window and
  no z-order.
\<close>

theorem wm_drag_tracks_cursor:
  assumes "wm_inv (m, s)" and "moving m" and "window_by_id s (move_id m) = Some w"
    and "wm_pointer_motion m s dx dy = (m', s')"
  shows "\<exists>w'. window_by_id s' = (window_by_id s)(move_id m \<mapsto> w') \<and>
    cursor_x m' - win_x w' = grab_dx m \<and> cursor_y m' - win_y w' = grab_dy m \<and>
    win_w w' = win_w w \<and> win_h w' = win_h w \<and> z_order s' = z_order s"
proof -
  let ?f = "\<lambda>w. w\<lparr>win_x := cursor_x m' - grab_dx m, win_y := cursor_y m' - grab_dy m\<rparr>"
  have s': "s' = window_modify s (move_id m) ?f" and "grab_dx m' = grab_dx m"
    using assms(2,4) by (auto simp: wm_pointer_motion_def drag_grabbed_def window_move_def Let_def)
  then show ?thesis
    using assms(3) by_id_modify [of ?f s "move_id m"] z_order_modify [of ?f s "move_id m"]
    by (intro exI [where x = "?f w"]) simp
qed

theorem wm_drag_tracks_cursor_witness:
  "\<exists>w'. window_by_id (snd (wm_pointer_motion (demo_wm\<lparr>moving := True, move_id := 3, grab_dx := 350, grab_dy := 5\<rparr>)
             demo_stack 25 (-10))) 3 = Some w' \<and> win_w w' = 400 \<and>
         cursor_x (fst (wm_pointer_motion (demo_wm\<lparr>moving := True, move_id := 3, grab_dx := 350, grab_dy := 5\<rparr>)
             demo_stack 25 (-10))) - win_x w' = 350"
proof -
  let ?m = "demo_wm\<lparr>moving := True, move_id := 3, grab_dx := 350, grab_dy := 5\<rparr>"
  have inv: "wm_inv (?m, demo_stack)" using demo_inv by (simp add: wm_inv_def)
  obtain w where w: "window_by_id demo_stack (move_id ?m) = Some w" and "win_w w = 400"
    by (simp add: demo_defs window_by_id_def window_index_def Let_def)
  obtain m' s' where r: "wm_pointer_motion ?m demo_stack 25 (-10) = (m', s')" by fastforce
  from wm_drag_tracks_cursor [OF inv _ w r] obtain w' where
    "window_by_id s' = (window_by_id demo_stack)(3 \<mapsto> w')" "cursor_x m' - win_x w' = 350" "win_w w' = win_w w"
    by auto
  with r \<open>win_w w = 400\<close> show ?thesis by (intro exI [where x = w']) simp
qed

section \<open>Aero Snap\<close>

lemma snapped_size: "snap_rect m a = Some (x, y, W, H) \<Longrightarrow> a = (ax, ay, aw, ah) \<Longrightarrow>
    y = ay \<and> H = ah \<and> (W = aw \<and> x = ax \<or> W = aw sdiv 2 \<and> (x = ax \<or> x = ax + aw - W))"
  by (auto simp: snap_rect_def Let_def split: if_splits)

lemma map_option_upd_idem: "f i = None \<Longrightarrow> f(i := None) = f"
  by auto

text \<open>What \<open>wm_snap_on_release\<close> writes into the window.\<close>

definition snap_to :: "rect \<Rightarrow> window \<Rightarrow> window" where
  "snap_to r w = (case r of (x, y, W, H) \<Rightarrow>
     (if snapped w then w
      else w\<lparr>saved_x := win_x w, saved_y := win_y w, saved_w := win_w w, saved_h := win_h w\<rparr>)
     \<lparr>snapped := True, win_x := x, win_y := y,
      win_w := (if W > 0 then W else win_w w), win_h := (if H > 0 then H else win_h w)\<rparr>)"

lemma win_id_snap_to [simp]: "win_id (snap_to r w) = win_id w"
  by (simp add: snap_to_def split: prod.split)

lemma snap_on_release:
  assumes "window_by_id s i = Some w" "window_has_ssd w" "snap_rect m (wm_work_area m s) = Some r"
    and "wm_snap_on_release m s i = (m', s')"
  shows "m' = m\<lparr>reconfigured_id := i\<rparr>" and "window_by_id s' = (window_by_id s)(i \<mapsto> snap_to r w)"
    and "z_order s' = z_order s"
proof -
  obtain x y W H where r: "r = (x, y, W, H)" by (cases r)
  show "m' = m\<lparr>reconfigured_id := i\<rparr>" "window_by_id s' = (window_by_id s)(i \<mapsto> snap_to r w)"
    "z_order s' = z_order s"
    using assms
    by (auto simp: wm_snap_on_release_def r Let_def by_id_set_geometry by_id_modify z_order_modify
        window_set_geometry_def snap_to_def fun_eq_iff split: if_splits)
qed

text \<open>
  The work area by its edges: a docked taskbar moves one edge of the screen inwards. Which
  one it is docked to is read off its shape and its place; only the first mapped taskbar
  counts. An area with nothing left in a direction gets the length of the screen instead.
\<close>

definition free_edges :: "wm \<Rightarrow> window_stack \<Rightarrow> int \<times> int \<times> int \<times> int" where
  "free_edges m s =
     (case find (\<lambda>t. role t = WIN_TASKBAR \<and> mapped t) (windows s) of
        None \<Rightarrow> (0, 0, screen_w m, screen_h m)
      | Some t \<Rightarrow>
          if screen_w m * 3 sdiv 4 \<le> win_w t
          then (if win_y t \<le> 0 then (0, max 0 (win_y t + win_h t), screen_w m, screen_h m)
                else (0, 0, screen_w m, min (win_y t) (screen_h m)))
          else if screen_h m * 3 sdiv 4 \<le> win_h t
          then (if win_x t \<le> 0 then (max 0 (win_x t + win_w t), 0, screen_w m, screen_h m)
                else (0, 0, min (win_x t) (screen_w m), screen_h m))
          else (0, 0, screen_w m, screen_h m))"

definition room :: "int \<Rightarrow> int \<Rightarrow> int \<Rightarrow> int" where
  "room lo hi full = (if hi - lo < 1 then full else hi - lo)"

lemma dock_edges:
  assumes "wide \<longleftrightarrow> screen_w m * 3 sdiv 4 \<le> win_w t" "tall \<longleftrightarrow> screen_h m * 3 sdiv 4 \<le> win_h t"
  shows "dock m t (0, 0, screen_w m, screen_h m) =
    (if wide then (if win_y t \<le> 0 then (0, max 0 (win_y t + win_h t), screen_w m, screen_h m - max 0 (win_y t + win_h t))
                   else (0, 0, screen_w m, min (win_y t) (screen_h m)))
     else if tall then (if win_x t \<le> 0 then (max 0 (win_x t + win_w t), 0, screen_w m - max 0 (win_x t + win_w t), screen_h m)
                   else (0, 0, min (win_x t) (screen_w m), screen_h m))
     else (0, 0, screen_w m, screen_h m))"
  unfolding dock_def Let_def prod.case assms [symmetric] by (cases wide; cases tall) (auto simp: max_def min_def)

lemma work_area_edges:
  assumes "free_edges m s = (l, t, r, b)"
  shows "wm_work_area m s = (l, t, room l r (screen_w m), room t b (screen_h m))"
proof (cases "find (\<lambda>t. role t = WIN_TASKBAR \<and> mapped t) (windows s)")
  case None
  with assms show ?thesis by (auto simp: wm_work_area_def dock_loop_find free_edges_def room_def)
next
  case (Some u)
  define wide tall where w: "wide \<longleftrightarrow> screen_w m * 3 sdiv 4 \<le> win_w u" "tall \<longleftrightarrow> screen_h m * 3 sdiv 4 \<le> win_h u"
  have e: "free_edges m s =
      (if wide then (if win_y u \<le> 0 then (0, max 0 (win_y u + win_h u), screen_w m, screen_h m)
                     else (0, 0, screen_w m, min (win_y u) (screen_h m)))
       else if tall then (if win_x u \<le> 0 then (max 0 (win_x u + win_w u), 0, screen_w m, screen_h m)
                     else (0, 0, min (win_x u) (screen_w m), screen_h m))
       else (0, 0, screen_w m, screen_h m))"
    unfolding free_edges_def Some option.case w ..
  show ?thesis
    using assms unfolding e wm_work_area_def dock_loop_find Some option.case dock_edges [OF w] room_def
    by (cases wide; cases tall) (auto split: if_splits)
qed

text \<open>
  C37: Releasing the drag of a live window. If the server decorates the window and the cursor is at the top
  edge, the window gets the whole work area; else at the left edge, the left half of it; else
  at the right edge, the right half, flush with its right side. The area is the screen less the
  docked taskbar. Exactly the dragged window changes; it keeps the floating rectangle it had before the first
  snap (and its own length where the half of the area has none), is marked snapped and reported to be
  reconfigured, the drag ends, and no z-order changes. Away from those edges, or when the
  window is not decorated, the release only ends the drag.
\<close>

theorem snap_release_exact:
  assumes "moving m" and "window_by_id s (move_id m) = Some w"
    and "wm_pointer_button m s WM_BTN_LEFT False = (m', s')" and "free_edges m s = (l, t, r, b)"
    and "W = room l r (screen_w m)" "H = room t b (screen_h m)"
  shows "case (if \<not> window_has_ssd w then None
               else if cursor_y m \<le> SNAP_EDGE then Some (l, t, W, H)
               else if cursor_x m \<le> SNAP_EDGE then Some (l, t, W sdiv 2, H)
               else if screen_w m - SNAP_EDGE \<le> cursor_x m then Some (l + W - W sdiv 2, t, W sdiv 2, H)
               else None) of
      None \<Rightarrow> m' = m\<lparr>moving := False, move_id := 0\<rparr> \<and> s' = s
    | Some (x, y, nw, nh) \<Rightarrow>
        m' = m\<lparr>moving := False, move_id := 0, reconfigured_id := move_id m\<rparr> \<and> z_order s' = z_order s \<and>
        window_by_id s' = (window_by_id s)(move_id m \<mapsto>
          (if snapped w then w
           else w\<lparr>saved_x := win_x w, saved_y := win_y w, saved_w := win_w w, saved_h := win_h w\<rparr>)
          \<lparr>snapped := True, win_x := x, win_y := y, win_w := (if 0 < nw then nw else win_w w),
           win_h := (if 0 < nh then nh else win_h w)\<rparr>)"
proof -
  let ?m = "m\<lparr>moving := False, move_id := 0\<rparr>"
  let ?r = "if cursor_y m \<le> SNAP_EDGE then Some (l, t, W, H)
    else if cursor_x m \<le> SNAP_EDGE then Some (l, t, W sdiv 2, H)
    else if screen_w m - SNAP_EDGE \<le> cursor_x m then Some (l + W - W sdiv 2, t, W sdiv 2, H) else None"
  have rel: "wm_snap_on_release ?m s (move_id m) = (m', s')"
    using assms(1,3) by (simp add: wm_pointer_button_def)
  have snap: "snap_rect ?m (wm_work_area ?m s) = ?r"
    using work_area_edges [OF assms(4)] assms(5,6) by (simp add: snap_rect_def Let_def)
  show ?thesis
  proof (cases "window_has_ssd w")
    case False
    then have "m' = ?m \<and> s' = s" using rel assms(2) by (simp add: wm_snap_on_release_def)
    with False show ?thesis by simp
  next
    case True
    show ?thesis
    proof (cases ?r)
      case None
      then have "m' = ?m \<and> s' = s" using rel assms(2) True snap by (simp add: wm_snap_on_release_def)
      then show ?thesis unfolding None using True by simp
    next
      case (Some q)
      obtain x y nw nh where q: "q = (x, y, nw, nh)" by (cases q)
      note res = snap_on_release [OF assms(2) True snap [unfolded Some q] rel]
      show ?thesis unfolding Some q using res True by (simp add: snap_to_def)
    qed
  qed
qed

text \<open>Released at the left edge of a screen of 1920 by 1080 without a taskbar.\<close>

theorem snap_release_exact_witness:
  "\<exists>w'. window_by_id (snd (wm_pointer_button (demo_wm\<lparr>cursor_x := 0, moving := True, move_id := 3\<rparr>)
            demo_stack WM_BTN_LEFT False)) 3 = Some w' \<and>
         geometry w' = (0, 0, 960, 1080) \<and> saved_geometry w' = (300, 200, 400, 300)"
proof -
  let ?m = "demo_wm\<lparr>cursor_x := 0, moving := True, move_id := 3\<rparr>"
  obtain w where w: "window_by_id demo_stack (move_id ?m) = Some w" "window_has_ssd w" "\<not> snapped w"
      "geometry w = (300, 200, 400, 300)"
    by (simp add: demo_defs window_by_id_def window_index_def window_has_ssd_def geometry_def Let_def)
  obtain m' s' where r: "wm_pointer_button ?m demo_stack WM_BTN_LEFT False = (m', s')" by fastforce
  have e: "free_edges ?m demo_stack = (0, 0, 1920, 1080)" by (simp add: demo_defs free_edges_def)
  have at: "\<not> cursor_y ?m \<le> SNAP_EDGE" "cursor_x ?m \<le> SNAP_EDGE" "(1920 :: int) sdiv 2 = 960" "room 0 1920 (screen_w ?m) = 1920"
      "room 0 1080 (screen_h ?m) = 1080"
    by (simp_all add: demo_defs sdiv_2 room_def)
  have "moving ?m" by simp
  from snap_release_exact [OF this w(1) r e refl refl] w(2,3) at
  have s': "window_by_id s' = (window_by_id demo_stack)(3 \<mapsto>
      w\<lparr>saved_x := win_x w, saved_y := win_y w, saved_w := win_w w, saved_h := win_h w,
        snapped := True, win_x := 0, win_y := 0, win_w := 960, win_h := 1080\<rparr>)" by simp
  show ?thesis
    unfolding r snd_conv s' using w(4) by (simp add: geometry_def saved_geometry_def)
qed

text \<open>
  The left and the right snap rectangle of a work area at least two pixels wide lie
  inside the area, do not overlap, are equally large, and leave at most one column of
  pixels between them uncovered.
\<close>

theorem snap_halves_tile:
  assumes "a = (ax, ay, aw, ah)" and "2 \<le> aw"
    and "SNAP_EDGE < cursor_y ml" "cursor_x ml \<le> SNAP_EDGE"
    and "SNAP_EDGE < cursor_y mr" "SNAP_EDGE < cursor_x mr" "screen_w mr - SNAP_EDGE \<le> cursor_x mr"
  shows "\<exists>l r. snap_rect ml a = Some l \<and> snap_rect mr a = Some r \<and>
    (\<forall>gx gy. inside gx gy l \<or> inside gx gy r \<longrightarrow> inside gx gy a) \<and>
    (\<forall>gx gy. \<not> (inside gx gy l \<and> inside gx gy r)) \<and> snd (snd l) = snd (snd r) \<and>
    (\<forall>gx gy. inside gx gy a \<longrightarrow> inside gx gy l \<or> inside gx gy r \<or> gx = ax + aw div 2)"
proof (intro exI conjI)
  show "snap_rect ml a = Some (ax, ay, aw div 2, ah)"
    using assms by (simp add: snap_rect_def sdiv_2)
  show "snap_rect mr a = Some (ax + aw - aw div 2, ay, aw div 2, ah)"
    using assms by (simp add: snap_rect_def sdiv_2 Let_def)
  show "\<forall>gx gy. inside gx gy (ax, ay, aw div 2, ah) \<or> inside gx gy (ax + aw - aw div 2, ay, aw div 2, ah) \<longrightarrow>
      inside gx gy a"
    using assms(1,2) by (auto simp: inside_def)
  show "\<forall>gx gy. \<not> (inside gx gy (ax, ay, aw div 2, ah) \<and> inside gx gy (ax + aw - aw div 2, ay, aw div 2, ah))"
    by (auto simp: inside_def)
  show "\<forall>gx gy. inside gx gy a \<longrightarrow> inside gx gy (ax, ay, aw div 2, ah) \<or>
      inside gx gy (ax + aw - aw div 2, ay, aw div 2, ah) \<or> gx = ax + aw div 2"
    using assms(1) by (auto simp: inside_def)
qed simp

theorem snap_halves_tile_witness:
  "\<exists>l r. snap_rect (demo_wm\<lparr>cursor_x := 0\<rparr>) (0, 0, 1921, 1040) = Some l \<and>
         snap_rect (demo_wm\<lparr>cursor_x := 1919\<rparr>) (0, 0, 1921, 1040) = Some r \<and>
         (\<forall>gx gy. \<not> (inside gx gy l \<and> inside gx gy r))"
  using snap_halves_tile [of "(0, 0, 1921, 1040)" 0 0 1921 1040 "demo_wm\<lparr>cursor_x := 0\<rparr>" "demo_wm\<lparr>cursor_x := 1919\<rparr>"]
  unfolding demo_wm_def by auto

section \<open>Presses\<close>

lemma window_at_live: "window_at s gx gy = Some w \<Longrightarrow> w \<in> set (windows s) \<and> mapped w \<and> hit gx gy w"
  using find_rev_SomeD [of _ "windows s" w] by (fastforce simp: window_at_find)

text \<open>What the press does to the window under the cursor, once that window is focused.\<close>

definition grab_origin :: "wm \<Rightarrow> window \<Rightarrow> int \<times> int" where
  "grab_origin m w =
     (if snapped w
      then (max 0 (cursor_x m - (if saved_w w > 0 then saved_w w else win_w w) sdiv 2),
            max 0 (cursor_y m - 14))
      else (win_x w, win_y w))"

definition unsnap :: "wm \<Rightarrow> window \<Rightarrow> window" where
  "unsnap m w =
     (if snapped w
      then w\<lparr>win_x := fst (grab_origin m w), win_y := snd (grab_origin m w),
             win_w := (if saved_w w > 0 then saved_w w else win_w w),
             win_h := (if saved_h w > 0 then saved_h w else win_h w), snapped := False\<rparr>
      else w)"

lemma win_id_unsnap [simp]: "win_id (unsnap m w) = win_id w"
  by (simp add: unsnap_def)

lemma press_cases:
  assumes "stack_wf s" and "window_at s (cursor_x m) (cursor_y m) = Some w"
    and "wm_pointer_button m s WM_BTN_LEFT True = (m', s')"
  shows "if window_has_ssd w \<and> cursor_y m - win_y w < 28
    then moving m' \<and> move_id m' = win_id w \<and> cursor_x m' = cursor_x m \<and> cursor_y m' = cursor_y m \<and>
         grab_dx m' = cursor_x m - fst (grab_origin m w) \<and> grab_dy m' = cursor_y m - snd (grab_origin m w) \<and>
         reconfigured_id m' = (if snapped w then win_id w else reconfigured_id m) \<and>
         window_by_id s' = (window_by_id s)(win_id w \<mapsto> unsnap m w) \<and>
         z_order s' = z_order (window_focus s (win_id w)) \<and> focus_id s' = win_id w
    else m' = m \<and> s' = window_focus s (win_id w)"
proof -
  have w: "window_by_id s (win_id w) = Some w"
    using window_at_live [OF assms(2)] by (simp add: window_by_id_iff [OF assms(1)])
  then have f: "window_by_id (window_focus s (win_id w)) = window_by_id s"
    and foc: "focus_id (window_focus s (win_id w)) = win_id w"
    by (simp_all add: by_id_focus [OF assms(1)]) (simp add: window_focus_def Let_def)
  have m14: "(28::int) sdiv 2 = 14" by (simp add: sdiv_2)
  define t where "t = window_focus s (win_id w)"
  have tw: "window_by_id t (win_id w) = Some w" "focus_id t = win_id w" "window_by_id t = window_by_id s"
    using f foc w by (simp_all add: t_def)
  have press: "wm_press m s = (m', s')" using assms(3) by (simp add: wm_pointer_button_def)
  note unfolded = press [unfolded wm_press_def assms(2) option.case Let_def, folded t_def, unfolded tw(1) option.case]
  show ?thesis
  proof (cases "window_has_ssd w \<and> cursor_y m - win_y w < 28")
    case False
    then have "m' = m \<and> s' = t" using unfolded by (cases "window_has_ssd w") auto
    with False show ?thesis by (auto simp: t_def)
  next
    case True
    then have nt: "\<not> (\<not> window_has_ssd w)" "\<not> (DECOR_TITLEBAR_H \<le> cursor_y m - win_y w)" by simp_all
    show ?thesis
    proof (cases "snapped w")
      case False
      then have "m' = m\<lparr>moving := True, move_id := win_id w, grab_dx := cursor_x m - win_x w,
          grab_dy := cursor_y m - win_y w\<rparr>" "s' = t"
        using True unfolded by auto
      with False True tw w show ?thesis by (simp add: t_def [symmetric] unsnap_def grab_origin_def fun_upd_idem)
    next
      case snapped: True
      define gx gy nw nh where "gx = fst (grab_origin m w)" and "gy = snd (grab_origin m w)"
        and "nw = (if saved_w w > 0 then saved_w w else win_w w)"
        and "nh = (if saved_h w > 0 then saved_h w else win_h w)"
      have mx: "(if a < 0 then 0 else a) = max 0 a" for a :: int by simp
      have g: "gx = max 0 (cursor_x m - nw sdiv 2)" "gy = max 0 (cursor_y m - 14)"
        using snapped by (simp_all add: gx_def gy_def nw_def grab_origin_def)
      have "m' = m\<lparr>reconfigured_id := win_id w, moving := True, move_id := win_id w,
                    grab_dx := cursor_x m - gx, grab_dy := cursor_y m - gy\<rparr>"
        and s': "s' = window_modify (window_set_geometry t (win_id w) gx gy nw nh) (win_id w)
                    (\<lambda>v. v\<lparr>snapped := False\<rparr>)"
        using nt snapped unfolded [unfolded mx, folded nw_def nh_def]
        by (simp_all only: if_False if_True prod.inject g DECOR_TITLEBAR_H_def m14)
      moreover have "(if nw > 0 then nw else win_w w) = nw" "(if nh > 0 then nh else win_h w) = nh"
        by (simp_all add: nw_def nh_def)
      then have "window_by_id s' = (window_by_id s)(win_id w \<mapsto> unsnap m w)"
        using snapped tw w unfolding s'
        by (simp add: by_id_modify by_id_set_geometry unsnap_def gx_def gy_def nw_def nh_def)
      moreover have "z_order s' = z_order t" "focus_id s' = win_id w"
        using tw(2) unfolding s' by (simp_all add: z_order_modify window_set_geometry_def)
      ultimately show ?thesis using True snapped by (simp add: t_def gx_def gy_def)
    qed
  qed
qed

lemma press_nothing:
  "window_at s (cursor_x m) (cursor_y m) = None \<Longrightarrow> wm_pointer_button m s WM_BTN_LEFT True = (m, s)"
  by (simp add: wm_pointer_button_def wm_press_def)

text \<open>
  A left press over a window focuses it, and it starts a drag exactly when that window
  is server-decorated and the press is on its title bar: client-drawn windows, shell
  surfaces and presses on content are never dragged, and a press over no window does
  nothing.
\<close>

theorem press_starts_drag:
  assumes "stack_wf s" and "\<not> moving m" and "wm_pointer_button m s WM_BTN_LEFT True = (m', s')"
  shows "(moving m' \<longleftrightarrow> (\<exists>w. window_at s (cursor_x m) (cursor_y m) = Some w \<and>
            role w = WIN_NORMAL \<and> \<not> app_decorated w \<and> cursor_y m - win_y w < DECOR_TITLEBAR_H)) \<and>
    (case window_at s (cursor_x m) (cursor_y m) of
       None \<Rightarrow> m' = m \<and> s' = s
     | Some w \<Rightarrow> focus_id s' = win_id w \<and> (moving m' \<longrightarrow> move_id m' = win_id w))"
proof (cases "window_at s (cursor_x m) (cursor_y m)")
  case None
  with press_nothing [OF None] assms(2,3) show ?thesis by simp
next
  case (Some w)
  have "window_by_id s (win_id w) = Some w"
    using window_at_live [OF Some] by (simp add: window_by_id_iff [OF assms(1)])
  then have "focus_id (window_focus s (win_id w)) = win_id w" by (simp add: window_focus_def Let_def)
  with press_cases [OF assms(1) Some assms(3)] assms(2) Some show ?thesis
    by (auto simp: window_has_ssd_def split: if_splits)
qed

theorem press_starts_drag_witness:
  "moving (fst (wm_pointer_button demo_wm demo_stack WM_BTN_LEFT True)) \<and>
   focus_id (snd (wm_pointer_button demo_wm demo_stack WM_BTN_LEFT True)) = 3"
proof -
  obtain m' s' where r: "wm_pointer_button demo_wm demo_stack WM_BTN_LEFT True = (m', s')" by fastforce
  have "window_at demo_stack (cursor_x demo_wm) (cursor_y demo_wm) = Some (windows demo_stack ! 2)"
    by (simp add: window_at_def demo_defs hit_def Let_def eval_nat_numeral)
  moreover have "\<not> moving demo_wm" by (simp add: demo_wm_def)
  moreover have "role (windows demo_stack ! 2) = WIN_NORMAL" "\<not> app_decorated (windows demo_stack ! 2)"
    "cursor_y demo_wm - win_y (windows demo_stack ! 2) < 28" "win_id (windows demo_stack ! 2) = 3"
    by (simp_all add: demo_defs Let_def)
  ultimately have "moving m' \<and> focus_id s' = 3"
    using press_starts_drag [OF demo_stack_wf _ r] by simp
  then show ?thesis unfolding r by simp
qed

text \<open>
  C23: Snapping loses nothing: when a floating window is snapped on release and then
  grabbed again by its title bar, it gets its floating size back, is no longer snapped,
  and its title bar is under the cursor.
\<close>

theorem snap_unsnap_roundtrip:
  assumes wf: "stack_wf s" and w: "moving m" "window_by_id s (move_id m) = Some w"
    and floating: "window_has_ssd w" "\<not> snapped w" "0 < win_w w" "0 < win_h w"
    and edge: "snap_rect m (wm_work_area m s) \<noteq> None"
    and rel: "wm_pointer_button m s WM_BTN_LEFT False = (m1, s1)"
    and grab: "window_at s1 (cursor_x m2) (cursor_y m2) = Some w1" "win_id w1 = move_id m"
      "cursor_y m2 - win_y w1 < DECOR_TITLEBAR_H" "0 \<le> cursor_x m2" "0 \<le> cursor_y m2"
    and press: "wm_pointer_button m2 s1 WM_BTN_LEFT True = (m3, s3)"
  shows "\<exists>w3. window_by_id s3 (move_id m) = Some w3 \<and> win_w w3 = win_w w \<and> win_h w3 = win_h w \<and>
    \<not> snapped w3 \<and> moving m3 \<and> move_id m3 = move_id m \<and> win_x w3 \<le> cursor_x m3 \<and>
    cursor_x m3 < win_x w3 + win_w w3 \<and> win_y w3 \<le> cursor_y m3 \<and> cursor_y m3 < win_y w3 + DECOR_TITLEBAR_H"
proof -
  let ?m = "m\<lparr>moving := False, move_id := 0\<rparr>"
  obtain r where r: "snap_rect m (wm_work_area m s) = Some r" using edge by auto
  then have r': "snap_rect ?m (wm_work_area ?m s) = Some r" by simp
  have rel': "wm_snap_on_release ?m s (move_id m) = (m1, s1)"
    using rel w(1) by (simp add: wm_pointer_button_def)
  note snap = snap_on_release [OF w(2) floating(1) r' rel']
  have wf1: "stack_wf s1"
    using wf rel' by (auto simp: wm_snap_on_release_def Let_def stack_wf_modify stack_wf_set_geometry
        split: option.splits prod.splits if_splits)
  have "w1 = snap_to r w"
    using window_at_live [OF grab(1)] grab(2) snap(2) window_by_id_iff [OF wf1, of "move_id m" w1] by simp
  then have w1: "snapped w1" "saved_w w1 = win_w w" "saved_h w1 = win_h w" "window_has_ssd w1"
    using floating by (auto simp: snap_to_def window_has_ssd_def split: prod.split)
  have "window_has_ssd w1 \<and> cursor_y m2 - win_y w1 < 28" using w1(4) grab(3) by simp
  with press_cases [OF wf1 grab(1) press] have p:
    "moving m3" "move_id m3 = win_id w1" "cursor_x m3 = cursor_x m2" "cursor_y m3 = cursor_y m2"
    "window_by_id s3 = (window_by_id s1)(win_id w1 \<mapsto> unsnap m2 w1)"
    by auto
  with w1 floating(3,4) grab(2,4,5) show ?thesis
    by (intro exI [where x = "unsnap m2 w1"]) (auto simp: unsnap_def grab_origin_def sdiv_2 max_def)
qed

definition demo_drag :: wm where
  "demo_drag = demo_wm\<lparr>cursor_y := 3, moving := True, move_id := 3\<rparr>"

theorem snap_unsnap_roundtrip_witness:
  "\<exists>w3. window_by_id (snd (wm_pointer_button demo_drag (snd (wm_pointer_button demo_drag demo_stack WM_BTN_LEFT False))
          WM_BTN_LEFT True)) 3 = Some w3 \<and> win_w w3 = 400 \<and> win_h w3 = 300 \<and> \<not> snapped w3"
proof -
  obtain w where w: "window_by_id demo_stack (move_id demo_drag) = Some w" "window_has_ssd w" "\<not> snapped w"
      "win_w w = 400" "win_h w = 300"
    by (simp add: demo_drag_def demo_defs window_by_id_def window_index_def window_has_ssd_def Let_def)
  obtain m1 s1 where r: "wm_pointer_button demo_drag demo_stack WM_BTN_LEFT False = (m1, s1)" by fastforce
  obtain m3 s3 where p: "wm_pointer_button demo_drag s1 WM_BTN_LEFT True = (m3, s3)" by fastforce
  have m: "moving demo_drag" "move_id demo_drag = 3" "cursor_x demo_drag = 650" "cursor_y demo_drag = 3"
    by (simp_all add: demo_drag_def demo_wm_def)
  have e: "snap_rect demo_drag (wm_work_area demo_drag demo_stack) = Some (0, 0, 1920, 1080)"
    by (simp add: demo_drag_def demo_defs snap_rect_def wm_work_area_def Let_def)
  have "window_at s1 650 3 = Some (windows s1 ! 2) \<and> win_id (windows s1 ! 2) = 3 \<and> win_y (windows s1 ! 2) = 0"
    using r [symmetric]
    by (simp add: wm_pointer_button_def wm_snap_on_release_def demo_drag_def demo_defs snap_rect_def
        wm_work_area_def window_by_id_def window_index_def window_has_ssd_def window_modify_def
        window_set_geometry_def window_at_def hit_def eval_nat_numeral Let_def)
  then have "\<exists>w3. window_by_id s3 (move_id demo_drag) = Some w3 \<and> win_w w3 = win_w w \<and> win_h w3 = win_h w \<and> \<not> snapped w3"
    using snap_unsnap_roundtrip [OF demo_stack_wf m(1) w(1-3) _ _ _ r _ _ _ _ _ p] w e m by auto
  then show ?thesis using w(4,5) m(2) unfolding r p snd_conv by simp
qed

section \<open>The work area\<close>

definition docked_wide :: "wm \<Rightarrow> window \<Rightarrow> bool" where
  "docked_wide m t \<longleftrightarrow> win_w t \<ge> screen_w m * 3 sdiv 4"

definition docked_tall :: "wm \<Rightarrow> window \<Rightarrow> bool" where
  "docked_tall m t \<longleftrightarrow> \<not> docked_wide m t \<and> win_h t \<ge> screen_h m * 3 sdiv 4"

text \<open>
  With a taskbar along one edge of the screen that leaves some of the screen free, the
  work area is a non-empty rectangle of the screen and no pixel of it is under the taskbar.
\<close>

theorem work_area_avoids_taskbar:
  assumes "0 < screen_w m" "0 < screen_h m" and "taskbar s = Some t"
    and dock: "docked_wide m t \<or> docked_tall m t"
    and room: "docked_wide m t \<and> win_y t \<le> 0 \<longrightarrow> win_y t + win_h t < screen_h m"
      "docked_tall m t \<and> win_x t \<le> 0 \<longrightarrow> win_x t + win_w t < screen_w m"
  shows "\<exists>x y w h. wm_work_area m s = (x, y, w, h) \<and> 0 < w \<and> 0 < h \<and>
    0 \<le> x \<and> 0 \<le> y \<and> x + w \<le> screen_w m \<and> y + h \<le> screen_h m \<and>
    (\<forall>gx gy. \<not> (inside gx gy (x, y, w, h) \<and> inside gx gy (geometry t)))"
  using assms
  by (auto simp: wm_work_area_taskbar dock_def docked_wide_def docked_tall_def inside_def geometry_def Let_def)

text \<open>
  A taskbar docked to the top that is at least as tall as the screen is not treated as
  leaving no room: the height is reset to the whole screen but the origin stays below it,
  so the work area, and every window maximised into it, is entirely off the screen.
\<close>

theorem work_area_off_screen:
  assumes "taskbar s = Some t" and "docked_wide m t" and "win_y t \<le> 0"
    and "0 < screen_h m" and "screen_h m \<le> win_y t + win_h t"
  shows "\<exists>w h. wm_work_area m s = (0, win_y t + win_h t, w, h) \<and>
    (\<forall>gx gy. inside gx gy (wm_work_area m s) \<longrightarrow> screen_h m \<le> gy)"
  using assms
  by (auto simp: wm_work_area_taskbar dock_def docked_wide_def inside_def Let_def)

definition bar_stack :: "int \<Rightarrow> int \<Rightarrow> window_stack" where
  "bar_stack y h = demo_open WIN_TASKBAR (0, y, 1920, h) ''bar'' demo_stack"

lemma bar_taskbar: "\<exists>t. taskbar (bar_stack y h) = Some t \<and> geometry t = (0, y, 1920, h)"
  by (simp add: taskbar_def bar_stack_def demo_defs geometry_def Let_def)

theorem work_area_avoids_taskbar_witness:
  "\<exists>w h. wm_work_area demo_wm (bar_stack 1040 40) = (0, 0, w, h) \<and> 0 < w \<and> h \<le> 1040"
proof -
  obtain t where t: "taskbar (bar_stack 1040 40) = Some t" "geometry t = (0, 1040, 1920, 40)"
    using bar_taskbar by blast
  then have "docked_wide demo_wm t" "\<not> docked_tall demo_wm t"
    by (simp_all add: docked_wide_def docked_tall_def geometry_def demo_wm_def sdiv_4)
  then obtain x y w h where a: "wm_work_area demo_wm (bar_stack 1040 40) = (x, y, w, h)" "0 < w" "0 < h"
      "0 \<le> x" "0 \<le> y" "x + w \<le> 1920"
      "\<forall>gx gy. \<not> (inside gx gy (x, y, w, h) \<and> inside gx gy (geometry t))"
    using work_area_avoids_taskbar [of demo_wm "bar_stack 1040 40" t] t
    by (auto simp: geometry_def demo_wm_def)
  have "x = 0" "y = 0"
    using a(1) by (simp_all add: wm_work_area_def bar_stack_def demo_defs dock_def sdiv_4 Let_def)
  moreover have "h \<le> 1040"
  proof (rule ccontr)
    assume "\<not> h \<le> 1040"
    with a(2) \<open>x = 0\<close> \<open>y = 0\<close> a(6) have "inside 0 1040 (x, y, w, h) \<and> inside 0 1040 (geometry t)"
      by (simp add: inside_def t(2))
    with a(7) show False by blast
  qed
  ultimately show ?thesis using a(1,2) by auto
qed

theorem work_area_off_screen_witness:
  "\<exists>w h. wm_work_area demo_wm (bar_stack 0 1080) = (0, 1080, w, h)"
proof -
  obtain t where t: "taskbar (bar_stack 0 1080) = Some t" "geometry t = (0, 0, 1920, 1080)"
    using bar_taskbar by blast
  then have "docked_wide demo_wm t" "win_y t + win_h t = 1080"
    by (simp_all add: docked_wide_def geometry_def demo_wm_def sdiv_4)
  with work_area_off_screen [OF t(1), of demo_wm] t(2) show ?thesis
    by (auto simp: geometry_def demo_wm_def)
qed

end
