(* ===== verification/Kernel.thy ===== *)
theory Kernel
  imports Prelude
begin

text \<open>
  The operating system as the server sees it: file descriptors are integers, a mapping
  made by \<open>mmap\<close> is named by a fresh number, and every system call the modelled code
  makes is recorded, in order, in a trace. The memory mappings that exist are state,
  because the code's safety depends on them; everything else the kernel decides (whether a
  call succeeds, what it returns) is an argument of the operation that makes the call.
\<close>

type_synonym fd = int

datatype 'm kcall =
    K_Close fd
  | K_Poll fd int
  | K_Mmap fd nat
  | K_Munmap nat nat
  | K_Send fd 'm
  | K_Epoll_Add fd
  | K_Epoll_Del fd
  | K_Nonblock fd
  | K_Unlink string

record 'm kern =
  maps :: "nat \<rightharpoonup> nat"
  next_map :: nat
  trace :: "'m kcall list"

definition kcall :: "'m kcall \<Rightarrow> 'm kern \<Rightarrow> 'm kern" where
  "kcall c k = k\<lparr>trace := trace k @ [c]\<rparr>"

text \<open>\<open>mmap\<close> of a descriptor; \<open>ok\<close> is whether the kernel can map that many bytes of it.\<close>

definition k_mmap :: "fd \<Rightarrow> nat \<Rightarrow> bool \<Rightarrow> 'm kern \<Rightarrow> nat option \<times> 'm kern" where
  "k_mmap fd len ok k =
     (let k' = kcall (K_Mmap fd len) k
      in if ok \<and> 0 < len
         then (Some (next_map k), k'\<lparr>maps := (maps k)(next_map k \<mapsto> len), next_map := Suc (next_map k)\<rparr>)
         else (None, k'))"

definition k_munmap :: "nat \<Rightarrow> nat \<Rightarrow> 'm kern \<Rightarrow> 'm kern" where
  "k_munmap base len k = (kcall (K_Munmap base len) k)\<lparr>maps := (maps k)(base := None)\<rparr>"

definition k_close :: "fd \<Rightarrow> 'm kern \<Rightarrow> 'm kern" where
  "k_close fd = kcall (K_Close fd)"

definition k_send :: "fd \<Rightarrow> 'm \<Rightarrow> 'm kern \<Rightarrow> 'm kern" where
  "k_send fd m = kcall (K_Send fd m)"

text \<open>The descriptors closed along a trace.\<close>

fun closed :: "'m kcall list \<Rightarrow> fd list" where
  "closed [] = []"
| "closed (K_Close fd # cs) = fd # closed cs"
| "closed (_ # cs) = closed cs"

text \<open>The messages sent along a trace, with the socket each went to.\<close>

fun sent :: "'m kcall list \<Rightarrow> (fd \<times> 'm) list" where
  "sent [] = []"
| "sent (K_Send fd m # cs) = (fd, m) # sent cs"
| "sent (_ # cs) = sent cs"

lemma closed_append [simp]: "closed (xs @ ys) = closed xs @ closed ys"
  by (induction xs rule: closed.induct) auto

lemma sent_append [simp]: "sent (xs @ ys) = sent xs @ sent ys"
  by (induction xs rule: sent.induct) auto

lemma kcall_sel [simp]:
  "maps (kcall c k) = maps k" "next_map (kcall c k) = next_map k" "trace (kcall c k) = trace k @ [c]"
  by (simp_all add: kcall_def)

lemma k_close_sel [simp]:
  "maps (k_close fd k) = maps k" "next_map (k_close fd k) = next_map k"
  "trace (k_close fd k) = trace k @ [K_Close fd]"
  by (simp_all add: k_close_def)

lemma k_send_sel [simp]:
  "maps (k_send fd m k) = maps k" "next_map (k_send fd m k) = next_map k"
  "trace (k_send fd m k) = trace k @ [K_Send fd m]"
  by (simp_all add: k_send_def)

lemma k_munmap_sel [simp]:
  "maps (k_munmap b n k) = (maps k)(b := None)" "next_map (k_munmap b n k) = next_map k"
  "trace (k_munmap b n k) = trace k @ [K_Munmap b n]"
  by (simp_all add: k_munmap_def)

end
