(* ===== verification/Protocol.thy ===== *)
theory Protocol
  imports Kernel
begin

text \<open>
  CrystallineLattice, the client/server wire format: \<open>src/include/protocol.h\<close> and
  \<open>src/src/protocol.c\<close>. Every message is a C struct sent as one datagram; the model has
  one record per struct (without its constant \<open>type\<close> word), the little-endian layout
  the compiler gives it, and the framed send and receive with descriptor passing.
\<close>

unbundle bit_operations_syntax

section \<open>Constants\<close>

definition CL_MAGIC :: u32 where [simp]: "CL_MAGIC = 0x4C435243"
definition CL_VERSION :: u32 where [simp]: "CL_VERSION = 2"
definition CL_MIN_VERSION :: u32 where [simp]: "CL_MIN_VERSION = 1"
definition CL_MAX_FDS :: nat where [simp]: "CL_MAX_FDS = 2"
definition CL_TITLE_MAX :: nat where [simp]: "CL_TITLE_MAX = 64"
definition CL_FORMAT_XRGB8888 :: u32 where [simp]: "CL_FORMAT_XRGB8888 = 0x34325258"
definition CL_BUF_SHM :: u32 where [simp]: "CL_BUF_SHM = 0"
definition CL_SOCKET_NAME :: string where [simp]: "CL_SOCKET_NAME = ''glacier-0''"

datatype cl_msg_type =
    CL_HELLO | CL_CREATE_WINDOW | CL_SET_TITLE | CL_COMMIT | CL_DESTROY_WINDOW
  | CL_SET_GEOMETRY | CL_SET_CURSOR
  | CL_WELCOME | CL_CONFIGURE | CL_FOCUS | CL_CLOSE | CL_INPUT | CL_SCREEN

fun type_code :: "cl_msg_type \<Rightarrow> u32" where
  "type_code CL_HELLO = 1"
| "type_code CL_CREATE_WINDOW = 2"
| "type_code CL_SET_TITLE = 3"
| "type_code CL_COMMIT = 4"
| "type_code CL_DESTROY_WINDOW = 5"
| "type_code CL_SET_GEOMETRY = 6"
| "type_code CL_SET_CURSOR = 7"
| "type_code CL_WELCOME = 128"
| "type_code CL_CONFIGURE = 129"
| "type_code CL_FOCUS = 130"
| "type_code CL_CLOSE = 131"
| "type_code CL_INPUT = 132"
| "type_code CL_SCREEN = 133"

datatype cl_input_kind = CL_IN_MOTION | CL_IN_BUTTON | CL_IN_KEY

fun input_code :: "cl_input_kind \<Rightarrow> u32" where
  "input_code CL_IN_MOTION = 0"
| "input_code CL_IN_BUTTON = 1"
| "input_code CL_IN_KEY = 2"

section \<open>Messages\<close>

record cl_buffer =
  b_kind :: u32
  b_width :: u32
  b_height :: u32
  b_stride :: u32
  b_format :: u32
  b_modifier :: "64 word"
  b_has_fence :: u32
  b_pad :: u32

record cl_hello =
  he_magic :: u32
  he_version :: u32
  he_min_version :: u32
  he_reconnect_token :: u32

record cl_welcome =
  we_magic :: u32
  we_version :: u32
  we_screen_w :: u32
  we_screen_h :: u32
  we_reconnect_token :: u32

record cl_create_window =
  cr_wid :: u32
  cr_role :: u32
  cr_x :: int
  cr_y :: int
  cr_w :: u32
  cr_h :: u32

record cl_set_title =
  ti_wid :: u32
  ti_title :: "u8 list"

record cl_commit =
  co_wid :: u32
  co_buffer :: cl_buffer

record cl_destroy_window =
  de_wid :: u32

record cl_set_geometry =
  ge_wid :: u32
  ge_x :: int
  ge_y :: int
  ge_w :: u32
  ge_h :: u32

record cl_set_cursor =
  cu_width :: u32
  cu_height :: u32
  cu_hotspot_x :: int
  cu_hotspot_y :: int
  cu_hide :: u32

record cl_configure =
  cf_wid :: u32
  cf_x :: int
  cf_y :: int
  cf_w :: u32
  cf_h :: u32

record cl_focus =
  fo_wid :: u32
  fo_focused :: u32

record cl_close =
  clo_wid :: u32

record cl_input =
  in_wid :: u32
  in_kind :: cl_input_kind
  in_x :: int
  in_y :: int
  in_code :: u32
  in_pressed :: u32

record cl_screen =
  sc_w :: u32
  sc_h :: u32

text \<open>Client requests and server events.\<close>

datatype cl_request =
    Hello cl_hello | Create_Window cl_create_window | Set_Title cl_set_title | Commit cl_commit
  | Destroy_Window cl_destroy_window | Set_Geom cl_set_geometry | Set_Cursor cl_set_cursor

datatype cl_event =
    Welcome cl_welcome | Configure cl_configure | Focus_Ev cl_focus | Close_Ev cl_close
  | Input_Ev cl_input | Screen cl_screen

section \<open>Little-endian layout\<close>

definition le32 :: "u32 \<Rightarrow> u8 list" where
  "le32 w = [ucast w, ucast (drop_bit 8 w), ucast (drop_bit 16 w), ucast (drop_bit 24 w)]"

definition le_words :: "u32 list \<Rightarrow> u8 list" where
  "le_words ws = concat (map le32 ws)"

text \<open>Reading a \<open>uint32_t\<close>, an \<open>int32_t\<close> and a \<open>uint64_t\<close> at a byte offset of the buffer.\<close>

definition rd32 :: "u8 list \<Rightarrow> nat \<Rightarrow> u32" where
  "rd32 bs off = ucast (bs ! off) OR push_bit 8 (ucast (bs ! (off + 1))) OR
     push_bit 16 (ucast (bs ! (off + 2))) OR push_bit 24 (ucast (bs ! (off + 3)))"

definition rd_int :: "u8 list \<Rightarrow> nat \<Rightarrow> int" where
  "rd_int bs off = int_of_u32 (rd32 bs off)"

definition rd64 :: "u8 list \<Rightarrow> nat \<Rightarrow> 64 word" where
  "rd64 bs off = ucast (rd32 bs off) OR push_bit 32 (ucast (rd32 bs (off + 4)))"

definition lo32 :: "64 word \<Rightarrow> u32" where "lo32 m = ucast m"
definition hi32 :: "64 word \<Rightarrow> u32" where "hi32 m = ucast (drop_bit 32 m)"

lemma length_le32 [simp]: "length (le32 w) = 4"
  by (simp add: le32_def)

lemma le_words_simps [simp]: "le_words [] = []" "le_words (w # ws) = le32 w @ le_words ws"
  by (simp_all add: le_words_def)

lemma length_le_words [simp]: "length (le_words ws) = 4 * length ws"
  by (induction ws) simp_all

lemma le_words_nth:
  "i < length ws \<Longrightarrow> j < 4 \<Longrightarrow> (le_words ws @ r) ! (4 * i + j) = le32 (ws ! i) ! j"
proof (induction ws arbitrary: i)
  case (Cons w ws)
  show ?case
  proof (cases i)
    case 0
    with Cons.prems(2) show ?thesis by (simp add: nth_append)
  next
    case (Suc k)
    with Cons.IH [of k] Cons.prems show ?thesis by (simp add: nth_append)
  qed
qed simp

lemma le32_glue:
  "ucast (ucast w :: u8) OR push_bit 8 (ucast (ucast (drop_bit 8 w) :: u8)) OR
   push_bit 16 (ucast (ucast (drop_bit 16 w) :: u8)) OR push_bit 24 (ucast (ucast (drop_bit 24 w) :: u8))
   = (w :: u32)"
proof (rule bit_word_eqI)
  fix n assume "n < LENGTH(32)"
  then have n: "n < 32" by simp
  have b: "bit (push_bit k (ucast (ucast (drop_bit k w) :: u8) :: u32)) n \<longleftrightarrow> k \<le> n \<and> n < k + 8 \<and> bit w n" for k
    using n by (auto simp: bit_push_bit_iff bit_ucast_iff bit_drop_bit_eq)
  have b0: "bit (ucast (ucast w :: u8) :: u32) n \<longleftrightarrow> n < 8 \<and> bit w n"
    using n by (auto simp: bit_ucast_iff)
  show "bit (ucast (ucast w :: u8) OR push_bit 8 (ucast (ucast (drop_bit 8 w) :: u8)) OR
      push_bit 16 (ucast (ucast (drop_bit 16 w) :: u8)) OR push_bit 24 (ucast (ucast (drop_bit 24 w) :: u8)) :: u32) n
      = bit w n"
    unfolding bit_or_iff b b0 using n by auto
qed

lemma le32_nth:
  "le32 w ! 0 = ucast w" "le32 w ! 1 = ucast (drop_bit 8 w)" "le32 w ! 2 = ucast (drop_bit 16 w)"
  "le32 w ! 3 = ucast (drop_bit 24 w)"
  by (simp_all add: le32_def)

lemma rd32_le_words:
  assumes "i < length ws"
  shows "rd32 (le_words ws @ r) (4 * i) = ws ! i"
proof -
  note w = le_words_nth [OF assms, of _ r]
  have "(le_words ws @ r) ! (4 * i) = le32 (ws ! i) ! 0" using w [of 0] by simp
  moreover have "(le_words ws @ r) ! (4 * i + 1) = le32 (ws ! i) ! 1" by (rule w) simp
  moreover have "(le_words ws @ r) ! (4 * i + 2) = le32 (ws ! i) ! 2" by (rule w) simp
  moreover have "(le_words ws @ r) ! (4 * i + 3) = le32 (ws ! i) ! 3" by (rule w) simp
  ultimately show ?thesis by (simp only: rd32_def le32_nth le32_glue)
qed

lemma rd64_lo_hi: "ucast (lo32 m) OR push_bit 32 (ucast (hi32 m)) = m"
proof (rule bit_word_eqI)
  fix n assume "n < LENGTH(64)"
  then show "bit (ucast (lo32 m) OR push_bit 32 (ucast (hi32 m)) :: 64 word) n = bit m n"
    by (cases "n < 32") (auto simp: bit_simps lo32_def hi32_def)
qed

section \<open>The struct layouts\<close>

text \<open>
  The bytes of each request in memory. The C code has no encoder: a client passes the
  address and the \<open>sizeof\<close> of its struct to \<open>cl_send\<close>, so what is sent is the image of
  the struct, and that is what this function gives: its fields in memory order, little-endian.
  \<open>struct cl_commit\<close> has four bytes of alignment padding before the 64-bit modifier.
\<close>

fun encode_request :: "cl_request \<Rightarrow> u8 list" where
  "encode_request (Hello h) =
     le_words [type_code CL_HELLO, he_magic h, he_version h, he_min_version h, he_reconnect_token h]"
| "encode_request (Create_Window m) =
     le_words [type_code CL_CREATE_WINDOW, cr_wid m, cr_role m, u32_of_int (cr_x m), u32_of_int (cr_y m),
               cr_w m, cr_h m]"
| "encode_request (Set_Title m) = le_words [type_code CL_SET_TITLE, ti_wid m] @ ti_title m"
| "encode_request (Commit m) =
     (let b = co_buffer m
      in le_words [type_code CL_COMMIT, co_wid m, b_kind b, b_width b, b_height b, b_stride b, b_format b, 0,
                   lo32 (b_modifier b), hi32 (b_modifier b), b_has_fence b, b_pad b])"
| "encode_request (Destroy_Window m) = le_words [type_code CL_DESTROY_WINDOW, de_wid m]"
| "encode_request (Set_Geom m) =
     le_words [type_code CL_SET_GEOMETRY, ge_wid m, u32_of_int (ge_x m), u32_of_int (ge_y m), ge_w m, ge_h m]"
| "encode_request (Set_Cursor m) =
     le_words [type_code CL_SET_CURSOR, cu_width m, cu_height m, u32_of_int (cu_hotspot_x m),
               u32_of_int (cu_hotspot_y m), cu_hide m]"

fun encode_event :: "cl_event \<Rightarrow> u8 list" where
  "encode_event (Welcome m) =
     le_words [type_code CL_WELCOME, we_magic m, we_version m, we_screen_w m, we_screen_h m,
               we_reconnect_token m]"
| "encode_event (Configure m) =
     le_words [type_code CL_CONFIGURE, cf_wid m, u32_of_int (cf_x m), u32_of_int (cf_y m), cf_w m, cf_h m]"
| "encode_event (Focus_Ev m) = le_words [type_code CL_FOCUS, fo_wid m, fo_focused m]"
| "encode_event (Close_Ev m) = le_words [type_code CL_CLOSE, clo_wid m]"
| "encode_event (Input_Ev m) =
     le_words [type_code CL_INPUT, in_wid m, input_code (in_kind m), u32_of_int (in_x m), u32_of_int (in_y m),
               in_code m, in_pressed m]"
| "encode_event (Screen m) = le_words [type_code CL_SCREEN, sc_w m, sc_h m]"

text \<open>\<open>sizeof\<close> of the request structs.\<close>

definition sizeof_hello :: nat where [simp]: "sizeof_hello = 20"
definition offsetof_reconnect_token :: nat where [simp]: "offsetof_reconnect_token = 16"
definition sizeof_create_window :: nat where [simp]: "sizeof_create_window = 28"
definition sizeof_set_title :: nat where [simp]: "sizeof_set_title = 72"
definition sizeof_commit :: nat where [simp]: "sizeof_commit = 48"
definition sizeof_destroy_window :: nat where [simp]: "sizeof_destroy_window = 8"
definition sizeof_set_geometry :: nat where [simp]: "sizeof_set_geometry = 24"
definition sizeof_set_cursor :: nat where [simp]: "sizeof_set_cursor = 24"

text \<open>The receiver's view: the cast of the receive buffer to the struct the type names.\<close>

definition get_hello :: "u8 list \<Rightarrow> cl_hello" where
  "get_hello b = \<lparr>he_magic = rd32 b 4, he_version = rd32 b 8, he_min_version = rd32 b 12,
                 he_reconnect_token = rd32 b 16\<rparr>"

definition get_create_window :: "u8 list \<Rightarrow> cl_create_window" where
  "get_create_window b = \<lparr>cr_wid = rd32 b 4, cr_role = rd32 b 8, cr_x = rd_int b 12, cr_y = rd_int b 16,
                         cr_w = rd32 b 20, cr_h = rd32 b 24\<rparr>"

definition get_set_title :: "u8 list \<Rightarrow> cl_set_title" where
  "get_set_title b = \<lparr>ti_wid = rd32 b 4, ti_title = take CL_TITLE_MAX (drop 8 b)\<rparr>"

definition get_commit :: "u8 list \<Rightarrow> cl_commit" where
  "get_commit b = \<lparr>co_wid = rd32 b 4, co_buffer =
     \<lparr>b_kind = rd32 b 8, b_width = rd32 b 12, b_height = rd32 b 16, b_stride = rd32 b 20,
      b_format = rd32 b 24, b_modifier = rd64 b 32, b_has_fence = rd32 b 40, b_pad = rd32 b 44\<rparr>\<rparr>"

definition get_destroy_window :: "u8 list \<Rightarrow> cl_destroy_window" where
  "get_destroy_window b = \<lparr>de_wid = rd32 b 4\<rparr>"

definition get_set_geometry :: "u8 list \<Rightarrow> cl_set_geometry" where
  "get_set_geometry b = \<lparr>ge_wid = rd32 b 4, ge_x = rd_int b 8, ge_y = rd_int b 12,
                        ge_w = rd32 b 16, ge_h = rd32 b 20\<rparr>"

definition get_set_cursor :: "u8 list \<Rightarrow> cl_set_cursor" where
  "get_set_cursor b = \<lparr>cu_width = rd32 b 4, cu_height = rd32 b 8, cu_hotspot_x = rd_int b 12,
                      cu_hotspot_y = rd_int b 16, cu_hide = rd32 b 20\<rparr>"

definition get_welcome :: "u8 list \<Rightarrow> cl_welcome" where
  "get_welcome b = \<lparr>we_magic = rd32 b 4, we_version = rd32 b 8, we_screen_w = rd32 b 12,
                   we_screen_h = rd32 b 16, we_reconnect_token = rd32 b 20\<rparr>"

lemmas get_defs = get_hello_def get_create_window_def get_set_title_def get_commit_def
  get_destroy_window_def get_set_geometry_def get_set_cursor_def get_welcome_def rd_int_def rd64_def

text \<open>Reading word by word, with the byte offsets the structs have.\<close>

lemma rd32_at: "off = 4 * i \<Longrightarrow> i < length ws \<Longrightarrow> rd32 (le_words ws @ r) off = ws ! i"
  by (simp add: rd32_le_words)

text \<open>
  A notion of the proofs, not a function of the program: which request the handlers of the
  transport read out of a datagram. (They also take a version-1 hello of 16 bytes, which
  \<open>dispatch_hello\<close> models.)
\<close>

definition decode_request :: "u8 list \<Rightarrow> cl_request option" where
  "decode_request b =
     (if length b < 4 then None
      else let t = rd32 b 0; n = length b
           in if t = type_code CL_HELLO then (if n < sizeof_hello then None else Some (Hello (get_hello b)))
              else if t = type_code CL_CREATE_WINDOW
                then (if n < sizeof_create_window then None else Some (Create_Window (get_create_window b)))
              else if t = type_code CL_SET_TITLE
                then (if n < sizeof_set_title then None else Some (Set_Title (get_set_title b)))
              else if t = type_code CL_COMMIT
                then (if n < sizeof_commit then None else Some (Commit (get_commit b)))
              else if t = type_code CL_DESTROY_WINDOW
                then (if n < sizeof_destroy_window then None else Some (Destroy_Window (get_destroy_window b)))
              else if t = type_code CL_SET_GEOMETRY
                then (if n < sizeof_set_geometry then None else Some (Set_Geom (get_set_geometry b)))
              else if t = type_code CL_SET_CURSOR
                then (if n < sizeof_set_cursor then None else Some (Set_Cursor (get_set_cursor b)))
              else None)"

text \<open>The values a C struct can hold: 32-bit signed coordinates and a 64-byte title array.\<close>

fun wf_request :: "cl_request \<Rightarrow> bool" where
  "wf_request (Create_Window m) = (in_int (cr_x m) \<and> in_int (cr_y m))"
| "wf_request (Set_Title m) = (length (ti_title m) = CL_TITLE_MAX)"
| "wf_request (Set_Geom m) = (in_int (ge_x m) \<and> in_int (ge_y m))"
| "wf_request (Set_Cursor m) = (in_int (cu_hotspot_x m) \<and> in_int (cu_hotspot_y m))"
| "wf_request _ = True"

lemma decode_words:
  "rd32 (le_words (w # ws) @ r) 0 = w"
  "length ws > 0 \<Longrightarrow> rd32 (le_words (w # ws) @ r) 4 = ws ! 0"
  "length ws > 1 \<Longrightarrow> rd32 (le_words (w # ws) @ r) 8 = ws ! 1"
  "length ws > 2 \<Longrightarrow> rd32 (le_words (w # ws) @ r) 12 = ws ! 2"
  "length ws > 3 \<Longrightarrow> rd32 (le_words (w # ws) @ r) 16 = ws ! 3"
  "length ws > 4 \<Longrightarrow> rd32 (le_words (w # ws) @ r) 20 = ws ! 4"
  "length ws > 5 \<Longrightarrow> rd32 (le_words (w # ws) @ r) 24 = ws ! 5"
  "length ws > 7 \<Longrightarrow> rd32 (le_words (w # ws) @ r) 32 = ws ! 7"
  "length ws > 8 \<Longrightarrow> rd32 (le_words (w # ws) @ r) 36 = ws ! 8"
  "length ws > 9 \<Longrightarrow> rd32 (le_words (w # ws) @ r) 40 = ws ! 9"
  "length ws > 10 \<Longrightarrow> rd32 (le_words (w # ws) @ r) 44 = ws ! 10"
  using rd32_at [of 0 0 "w # ws" r] rd32_at [of 4 1 "w # ws" r] rd32_at [of 8 2 "w # ws" r]
    rd32_at [of 12 3 "w # ws" r] rd32_at [of 16 4 "w # ws" r] rd32_at [of 20 5 "w # ws" r]
    rd32_at [of 24 6 "w # ws" r] rd32_at [of 32 8 "w # ws" r] rd32_at [of 36 9 "w # ws" r]
    rd32_at [of 40 10 "w # ws" r] rd32_at [of 44 11 "w # ws" r]
  by (simp_all del: le_words_simps)

lemma decode_encode: "wf_request r \<Longrightarrow> decode_request (encode_request r @ extra) = Some r"
proof (cases r)
  case (Commit m)
  obtain wid b where m: "m = \<lparr>co_wid = wid, co_buffer = b\<rparr>" by (cases m)
  show ?thesis
    using Commit m
    by (cases b) (simp add: decode_request_def get_commit_def rd64_def Let_def decode_words rd64_lo_hi
        del: le_words_simps)
qed (auto simp: decode_request_def Let_def decode_words get_defs int_of_u32_of_int
    simp del: le_words_simps)

section \<open>Sending and receiving\<close>

datatype errno = EINTR | EAGAIN | E_Other

text \<open>
  The outcomes of successive \<open>sendmsg\<close> calls are a list; \<open>None\<close> is a call that has not
  returned because every attempt so far was interrupted.
\<close>

fun retry_eintr :: "errno option list \<Rightarrow> int option" where
  "retry_eintr [] = None"
| "retry_eintr (Some EINTR # rs) = retry_eintr rs"
| "retry_eintr (Some _ # rs) = Some (-1)"
| "retry_eintr (None # rs) = Some 0"

definition cl_send :: "int \<Rightarrow> errno option list \<Rightarrow> int option" where
  "cl_send nfds outcomes =
     (if nfds < 0 \<or> nfds > int CL_MAX_FDS then Some (-1) else retry_eintr outcomes)"

text \<open>
  What one \<open>recvmsg\<close> returns: the datagram, cut to the buffer, the control messages
  (\<open>SCM_RIGHTS\<close> or another kind, with the descriptors the kernel installed), and whether
  the control data was truncated.
\<close>

record datagram =
  dg_data :: "u8 list"
  dg_cmsgs :: "(bool \<times> fd list) list"
  dg_ctrunc :: bool

datatype recvmsg = Recv_Err errno | Recv datagram

fun rights_fds :: "(bool \<times> fd list) list \<Rightarrow> fd list \<Rightarrow> fd list" where
  "rights_fds [] got = got"
| "rights_fds ((is_rights, fs) # cs) got =
     rights_fds cs (if is_rights then take CL_MAX_FDS fs else got)"

fun close_fds :: "fd list \<Rightarrow> 'm kern \<Rightarrow> 'm kern" where
  "close_fds [] k = k"
| "close_fds (f # fs) k = close_fds fs (k_close f k)"

datatype recv_ret = Ret_Err errno | Ret_Data "u8 list" "fd list"

text \<open>
  \<open>cl_recv\<close> consumes \<open>recvmsg\<close> outcomes until one is not an interruption. The list
  holds what arrives before the non-blocking socket is drained, so its end is \<open>EAGAIN\<close>.
  A return value of 0 comes with no descriptors.
\<close>

fun cl_recv :: "nat \<Rightarrow> recvmsg list \<Rightarrow> 'm kern \<Rightarrow> recv_ret \<times> recvmsg list \<times> 'm kern" where
  "cl_recv cap [] k = (Ret_Err EAGAIN, [], k)"
| "cl_recv cap (Recv_Err e # rs) k =
     (if e = EINTR then cl_recv cap rs k else (Ret_Err e, rs, k))"
| "cl_recv cap (Recv d # rs) k =
     (let data = take cap (dg_data d)
      in if data = [] then (Ret_Data [] [], rs, k)
         else (let got = rights_fds (dg_cmsgs d) []
               in if dg_ctrunc d then (Ret_Data data [], rs, close_fds got k)
                  else (Ret_Data data got, rs, k)))"

lemma close_fds_sel [simp]:
  "maps (close_fds fs k) = maps k" "next_map (close_fds fs k) = next_map k"
  "trace (close_fds fs k) = trace k @ map K_Close fs"
  by (induction fs arbitrary: k) simp_all

lemma closed_K_Close [simp]: "closed (map K_Close fs) = fs"
  by (induction fs) simp_all

lemma sent_K_Close [simp]: "sent (map K_Close fs) = []"
  by (induction fs) simp_all

lemma cl_recv_rest: "cl_recv cap rs k = (Ret_Data d fs, rest, k') \<Longrightarrow> length rest < length rs"
  by (induction cap rs k rule: cl_recv.induct) (auto simp: Let_def split: if_splits)

lemma cl_recv_shrinks: "(Ret_Data d fs, y) = cl_recv cap rs k \<Longrightarrow> length (fst y) < length rs"
  by (metis cl_recv_rest prod.collapse)

text \<open>\<open>cl_default_socket_path\<close>: the two environment variables it reads are arguments.\<close>

definition cl_default_socket_path :: "string option \<Rightarrow> string option \<Rightarrow> nat \<Rightarrow> string" where
  "cl_default_socket_path override rt len =
     (if (case override of None \<Rightarrow> False | Some p \<Rightarrow> c_str p \<noteq> []) then snprintf_s len (the override)
      else if (case rt of None \<Rightarrow> False | Some p \<Rightarrow> c_str p \<noteq> [])
        then snprintf_s len (c_str (the rt) @ ''/'' @ CL_SOCKET_NAME)
      else snprintf_s len (''/tmp/'' @ CL_SOCKET_NAME))"

section \<open>Properties\<close>

text \<open>
  Receiving a datagram with descriptors loses none of them: when the kernel hands over
  at most two in one control message, each is either returned to the caller or, when the
  control data was truncated, closed, never both.
\<close>

theorem recv_keeps_fds:
  assumes "dg_cmsgs d = [(True, fs)]" and "length fs \<le> CL_MAX_FDS" and "dg_data d \<noteq> []" and "0 < cap"
    and "cl_recv cap (Recv d # rs) k = (Ret_Data data got, rest, k')"
  shows "data = take cap (dg_data d) \<and> rest = rs \<and>
    got @ drop (length (closed (trace k))) (closed (trace k')) = fs \<and> (got = [] \<or> trace k' = trace k)"
  using assms by (auto simp: Let_def split: if_splits)

theorem recv_keeps_fds_witness:
  "fst (cl_recv 256 [Recv \<lparr>dg_data = [1, 0, 0, 0], dg_cmsgs = [(True, [7])], dg_ctrunc = False\<rparr>]
          (\<lparr>maps = Map.empty, next_map = 0, trace = []\<rparr> :: nat kern)) = Ret_Data [1, 0, 0, 0] [7]"
proof -
  let ?d = "\<lparr>dg_data = [1, 0, 0, 0], dg_cmsgs = [(True, [7])], dg_ctrunc = False\<rparr>"
  let ?k = "\<lparr>maps = Map.empty, next_map = 0, trace = []\<rparr> :: nat kern"
  have "cl_recv 256 (Recv ?d # []) ?k = (Ret_Data [1, 0, 0, 0] [7], [], ?k)" by simp
  with recv_keeps_fds [of ?d "[7]" 256 "[]" ?k "[1, 0, 0, 0]" "[7]" "[]" ?k] show ?thesis by simp
qed

text \<open>
  An empty datagram that carries descriptors leaks them: \<open>cl_recv\<close> returns 0, which the
  callers read as an orderly shutdown, and neither returns nor closes what the kernel has
  already installed.
\<close>

lemma recv_empty_leaks_fds:
  "dg_data d = [] \<Longrightarrow> cl_recv cap (Recv d # rs) k = (Ret_Data [] [], rs, k)"
  by simp

end
