(* ===== verification/Transport.thy ===== *)
theory Transport
  imports Protocol Window_Spec
begin

text \<open>
  The server side of CrystallineLattice: \<open>src/src/transport.c\<close>. A client's requests
  become windows of the shared stack; the transport keeps, per client, a table from the
  client's window ids to server handles and to the mapped buffers it owns.

  A pointer into the client table is its index. The transport, the shared stack and the
  kernel are one \<open>world\<close>, passed explicitly. What the kernel answers is read off an
  \<open>os\<close> record, indexed by how many system calls have been made so far; a mapped file is
  assumed to cover its mapping.
\<close>

section \<open>State\<close>

definition CL_MAX_CLIENTS :: nat where [simp]: "CL_MAX_CLIENTS = 16"
definition CL_RECONNECT_GRACE_MS :: int where [simp]: "CL_RECONNECT_GRACE_MS = 5000"
definition CL_CURSOR_MAX :: int where [simp]: "CL_CURSOR_MAX = 64"
definition RECV_CAP :: nat where [simp]: "RECV_CAP = 256"

record cl_win =
  client_wid :: u32
  server_id :: u32
  cw_buf :: "nat option"
  cw_len :: nat

record cl_client =
  c_fd :: fd
  c_hello :: bool
  c_token :: u32
  c_wins :: "cl_win list"

record cl_orphan =
  o_token :: u32
  o_deadline :: int
  o_wins :: "cl_win list"

record cl_cursor =
  cur_custom :: bool
  cur_hidden :: bool
  cur_w :: int
  cur_h :: int
  cur_hotspot_x :: int
  cur_hotspot_y :: int
  cur_argb :: "u32 list"

record transport =
  x_sw :: int
  x_sh :: int
  x_epoll :: fd
  x_listen :: fd
  x_path :: string
  clients :: "cl_client list"
  orphans :: "cl_orphan list"
  focused_server_id :: u32
  next_token :: u32
  x_cursor :: cl_cursor

record world =
  xp :: transport
  stk :: window_stack
  ker :: "cl_event kern"

record os =
  os_now :: "nat \<Rightarrow> int"
  os_map_ok :: "nat \<Rightarrow> bool"
  os_pixels :: "nat \<Rightarrow> nat \<Rightarrow> u32"
  os_epoll_ok :: "nat \<Rightarrow> bool"

text \<open>The zeroed structs that \<open>memset\<close> and \<open>calloc\<close> leave.\<close>

definition no_win :: cl_win where
  "no_win = \<lparr>client_wid = 0, server_id = 0, cw_buf = None, cw_len = 0\<rparr>"

definition no_client :: cl_client where
  "no_client = \<lparr>c_fd = -1, c_hello = False, c_token = 0, c_wins = replicate WIN_MAX no_win\<rparr>"

definition no_orphan :: cl_orphan where
  "no_orphan = \<lparr>o_token = 0, o_deadline = 0, o_wins = replicate WIN_MAX no_win\<rparr>"

definition no_cursor :: cl_cursor where
  "no_cursor = \<lparr>cur_custom = False, cur_hidden = False, cur_w = 0, cur_h = 0,
                cur_hotspot_x = 0, cur_hotspot_y = 0, cur_argb = replicate 4096 0\<rparr>"

definition call_no :: "world \<Rightarrow> nat" where
  "call_no w = length (trace (ker w))"

definition set_client :: "nat \<Rightarrow> cl_client \<Rightarrow> world \<Rightarrow> world" where
  "set_client ci c w = w\<lparr>xp := (xp w)\<lparr>clients := (clients (xp w))[ci := c]\<rparr>\<rparr>"

definition set_orphan :: "nat \<Rightarrow> cl_orphan \<Rightarrow> world \<Rightarrow> world" where
  "set_orphan oi c w = w\<lparr>xp := (xp w)\<lparr>orphans := (orphans (xp w))[oi := c]\<rparr>\<rparr>"

definition set_win :: "nat \<Rightarrow> nat \<Rightarrow> cl_win \<Rightarrow> world \<Rightarrow> world" where
  "set_win ci k cw w =
     (let c = clients (xp w) ! ci in set_client ci (c\<lparr>c_wins := (c_wins c)[k := cw]\<rparr>) w)"

definition the_win :: "nat \<Rightarrow> nat \<Rightarrow> world \<Rightarrow> cl_win" where
  "the_win ci k w = c_wins (clients (xp w) ! ci) ! k"

definition send_to :: "fd \<Rightarrow> cl_event \<Rightarrow> world \<Rightarrow> world" where
  "send_to f ev w = w\<lparr>ker := k_send f ev (ker w)\<rparr>"

section \<open>Small helpers\<close>

definition role_from_wire :: "u32 \<Rightarrow> win_role" where
  "role_from_wire r =
     (if r = 1 then WIN_DESKTOP else if r = 2 then WIN_TASKBAR else if r = 3 then WIN_TRAY
      else if r = 4 then WIN_MENU else if r = 5 then WIN_TOOLTIP else WIN_NORMAL)"

definition free_win :: "cl_win \<Rightarrow> bool" where
  "free_win cw \<longleftrightarrow> client_wid cw = 0"

definition win_find :: "cl_client \<Rightarrow> u32 \<Rightarrow> nat option" where
  "win_find c wid = (if wid = 0 then None else find_index (\<lambda>cw. client_wid cw = wid) (c_wins c))"

definition win_alloc :: "cl_client \<Rightarrow> nat option" where
  "win_alloc c = free_slot free_win (c_wins c)"

definition win_drop_buffer ::
  "cl_win \<Rightarrow> window_stack \<times> cl_event kern \<Rightarrow> cl_win \<times> window_stack \<times> cl_event kern" where
  "win_drop_buffer cw sk =
     (case cw_buf cw of
        None \<Rightarrow> (cw, sk)
      | Some b \<Rightarrow> (cw\<lparr>cw_buf := None, cw_len := 0\<rparr>,
                   window_modify (fst sk) (server_id cw) (\<lambda>v. v\<lparr>buf := None\<rparr>),
                   k_munmap b (cw_len cw) (snd sk)))"

section \<open>Reconnect and crash resilience\<close>

text \<open>\<open>do { tok = ++t->next_token; } while (tok == 0);\<close>\<close>

function next_nonzero :: "u32 \<Rightarrow> u32" where
  "next_nonzero n = (let tok = n + 1 in if tok = 0 then next_nonzero tok else tok)"
  by pat_completeness auto

termination
  by (relation "measure (\<lambda>n. if n + 1 = 0 then 1 else 0)") auto

declare next_nonzero.simps [simp del]

definition assign_token :: "world \<Rightarrow> u32 \<times> world" where
  "assign_token w =
     (let tok = next_nonzero (next_token (xp w)) in (tok, w\<lparr>xp := (xp w)\<lparr>next_token := tok\<rparr>\<rparr>))"

text \<open>The loop body shared by \<open>orphan_destroy\<close> and \<open>client_drop\<close>: drop the buffer, destroy the window.\<close>

definition reap_win :: "cl_win \<Rightarrow> window_stack \<times> cl_event kern \<Rightarrow> window_stack \<times> cl_event kern" where
  "reap_win cw sk =
     (if client_wid cw \<noteq> 0
      then (let (_, s, k) = win_drop_buffer cw sk in (window_destroy s (server_id cw), k))
      else sk)"

definition reap_wins :: "cl_win list \<Rightarrow> world \<Rightarrow> world" where
  "reap_wins cws w = (let (s, k) = fold reap_win cws (stk w, ker w) in w\<lparr>stk := s, ker := k\<rparr>)"

definition orphan_destroy :: "nat \<Rightarrow> world \<Rightarrow> world" where
  "orphan_destroy oi w = set_orphan oi no_orphan (reap_wins (o_wins (orphans (xp w) ! oi)) w)"

fun expire_loop :: "int \<Rightarrow> nat list \<Rightarrow> world \<Rightarrow> bool \<times> world" where
  "expire_loop now [] w = (False, w)"
| "expire_loop now (i # rest) w =
     (let p = orphans (xp w) ! i
      in if o_token p \<noteq> 0 \<and> now \<ge> o_deadline p then (True, snd (expire_loop now rest (orphan_destroy i w)))
         else expire_loop now rest w)"

definition orphans_expire :: "int \<Rightarrow> world \<Rightarrow> bool \<times> world" where
  "orphans_expire now w = expire_loop now [0..<CL_MAX_CLIENTS] w"

definition client_reclaim :: "nat \<Rightarrow> u32 \<Rightarrow> world \<Rightarrow> nat \<times> world" where
  "client_reclaim ci tok w =
     (if tok = 0 then (0, w)
      else (case find_index (\<lambda>p. o_token p = tok) (orphans (xp w)) of
              None \<Rightarrow> (0, w)
            | Some oi \<Rightarrow>
                (let p = orphans (xp w) ! oi; c = clients (xp w) ! ci
                 in (in_use free_win (o_wins p),
                     set_orphan oi no_orphan (set_client ci (c\<lparr>c_wins := o_wins p, c_token := tok\<rparr>) w)))))"

section \<open>Events to clients\<close>

definition find_in_client :: "cl_client \<Rightarrow> u32 \<Rightarrow> nat option" where
  "find_in_client c sid =
     (if c_fd c < 0 then None
      else find_index (\<lambda>cw. client_wid cw \<noteq> 0 \<and> server_id cw = sid) (c_wins c))"

fun find_in_clients :: "cl_client list \<Rightarrow> nat \<Rightarrow> u32 \<Rightarrow> (nat \<times> nat) option" where
  "find_in_clients [] i sid = None"
| "find_in_clients (c # cs) i sid =
     (case find_in_client c sid of
        Some j \<Rightarrow> Some (i, j)
      | None \<Rightarrow> find_in_clients cs (Suc i) sid)"

definition find_by_server_id :: "world \<Rightarrow> u32 \<Rightarrow> (nat \<times> nat) option" where
  "find_by_server_id w sid = (if sid = 0 then None else find_in_clients (clients (xp w)) 0 sid)"

definition send_welcome :: "fd \<Rightarrow> u32 \<Rightarrow> world \<Rightarrow> world" where
  "send_welcome f tok w =
     send_to f (Welcome \<lparr>we_magic = CL_MAGIC, we_version = CL_VERSION,
                         we_screen_w = u32_of_int (x_sw (xp w)), we_screen_h = u32_of_int (x_sh (xp w)),
                         we_reconnect_token = tok\<rparr>) w"

text \<open>Sending an event to the client that owns a server window, if one does.\<close>

definition send_owner :: "u32 \<Rightarrow> (u32 \<Rightarrow> cl_event) \<Rightarrow> world \<Rightarrow> world" where
  "send_owner sid ev w =
     (case find_by_server_id w sid of
        None \<Rightarrow> w
      | Some (ci, k) \<Rightarrow> send_to (c_fd (clients (xp w) ! ci)) (ev (client_wid (the_win ci k w))) w)"

definition focus_event :: "u32 \<Rightarrow> u32 \<Rightarrow> cl_event" where
  "focus_event gained wid = Focus_Ev \<lparr>fo_wid = wid, fo_focused = gained\<rparr>"

definition notify_focus :: "u32 \<Rightarrow> world \<Rightarrow> world" where
  "notify_focus new_focus w =
     (if new_focus = focused_server_id (xp w) then w
      else (let w1 = send_owner (focused_server_id (xp w)) (focus_event 0) w;
                w2 = w1\<lparr>xp := (xp w1)\<lparr>focused_server_id := new_focus\<rparr>\<rparr>
            in send_owner new_focus (focus_event 1) w2))"

definition configure_event :: "u32 \<Rightarrow> window \<Rightarrow> cl_event" where
  "configure_event wid v =
     Configure \<lparr>cf_wid = wid, cf_x = win_x v, cf_y = win_y v,
                cf_w = u32_of_int (win_w v), cf_h = u32_of_int (win_h v)\<rparr>"

section \<open>Request handlers\<close>

text \<open>The placement policy by role, applied to a window just created.\<close>

definition place_by_role :: "win_role \<Rightarrow> u32 \<Rightarrow> int \<Rightarrow> int \<Rightarrow> window_stack \<Rightarrow> window_stack" where
  "place_by_role r i screen_w screen_h s =
     (if r = WIN_NORMAL then window_focus s i
      else if r = WIN_DESKTOP then window_lower (window_set_geometry s i 0 0 screen_w screen_h) i
      else s)"

text \<open>
  \<open>on_create_window\<close> in three parts: the call that creates the window with the requested
  or the default size, the bookkeeping and placement once it exists, and the events that
  tell the clients.
\<close>

definition create_args :: "cl_create_window \<Rightarrow> window_stack \<Rightarrow> u32 \<times> window_stack" where
  "create_args m s =
     window_create s (role_from_wire (cr_role m)) (cr_x m) (cr_y m)
       (if cr_w m \<noteq> 0 then int_of_u32 (cr_w m) else 320) (if cr_h m \<noteq> 0 then int_of_u32 (cr_h m) else 240)
       0x00202020 (Some ''client'')"

definition created :: "nat \<Rightarrow> nat \<Rightarrow> cl_create_window \<Rightarrow> u32 \<Rightarrow> window_stack \<Rightarrow> world \<Rightarrow> world" where
  "created ci k m i s1 w =
     (let w1 = set_win ci k ((the_win ci k w)\<lparr>client_wid := cr_wid m, server_id := i\<rparr>) w;
          s2 = window_modify s1 i (\<lambda>v. v\<lparr>app_decorated := True\<rparr>);
          s3 = place_by_role (role_from_wire (cr_role m)) i (x_sw (xp w)) (x_sh (xp w)) s2
      in w1\<lparr>stk := s3\<rparr>)"

definition announce :: "nat \<Rightarrow> cl_create_window \<Rightarrow> u32 \<Rightarrow> world \<Rightarrow> world" where
  "announce ci m i w2 =
     (let w3 = (case window_by_id (stk w2) i of
                  None \<Rightarrow> w2
                | Some v \<Rightarrow> send_to (c_fd (clients (xp w2) ! ci)) (configure_event (cr_wid m) v) w2)
      in if role_from_wire (cr_role m) = WIN_NORMAL then notify_focus i w3 else w3)"

definition on_create_window :: "nat \<Rightarrow> cl_create_window \<Rightarrow> world \<Rightarrow> world" where
  "on_create_window ci m w =
     (let c = clients (xp w) ! ci
      in if win_find c (cr_wid m) \<noteq> None then w
         else (case win_alloc c of
                 None \<Rightarrow> w
               | Some k \<Rightarrow>
                   (let (i, s1) = create_args m (stk w)
                    in if i = 0 then w\<lparr>stk := s1\<rparr>
                       else announce ci m i (created ci k m i s1 w))))"

definition title_of_bytes :: "u8 list \<Rightarrow> string" where
  "title_of_bytes bs = snprintf_s TITLE_CAP (map (\<lambda>b. char_of (unat b)) (bs[CL_TITLE_MAX - 1 := 0]))"

definition on_set_title :: "nat \<Rightarrow> cl_set_title \<Rightarrow> world \<Rightarrow> world" where
  "on_set_title ci m w =
     (case win_find (clients (xp w) ! ci) (ti_wid m) of
        None \<Rightarrow> w
      | Some k \<Rightarrow> w\<lparr>stk := window_modify (stk w) (server_id (the_win ci k w))
                               (\<lambda>v. v\<lparr>title := title_of_bytes (ti_title m)\<rparr>)\<rparr>)"

text \<open>
  \<open>on_commit\<close> first waits for and closes the fence when the message says there is one,
  then either maps the buffer and swaps it in or closes it.
\<close>

definition wait_fence :: "cl_buffer \<Rightarrow> fd list \<Rightarrow> cl_event kern \<Rightarrow> fd list \<times> cl_event kern" where
  "wait_fence b fds k =
     (if b_has_fence b \<noteq> 0 \<and> length fds \<ge> 2
      then (take 1 fds, k_close (fds ! 1) (kcall (K_Poll (fds ! 1) 100) k))
      else (fds, k))"

definition buffer_ok :: "cl_buffer \<Rightarrow> bool" where
  "buffer_ok b \<longleftrightarrow> b_format b = CL_FORMAT_XRGB8888 \<and> b_stride b \<noteq> 0 \<and> b_height b \<noteq> 0"

definition buffer_len :: "cl_buffer \<Rightarrow> nat" where
  "buffer_len b = unat (b_stride b) * unat (b_height b)"

definition attach_buffer :: "cl_buffer \<Rightarrow> nat \<Rightarrow> window \<Rightarrow> window" where
  "attach_buffer b base v =
     v\<lparr>buf := Some (Mapping base), buf_w := int_of_u32 (b_width b), buf_h := int_of_u32 (b_height b),
       buf_stride := int_of_u32 (b_stride b)\<rparr>"

text \<open>The new mapping replaces the one of the previous frame in slot \<open>k\<close> and in the window.\<close>

definition install_buffer :: "nat \<Rightarrow> nat \<Rightarrow> cl_buffer \<Rightarrow> nat \<Rightarrow> world \<Rightarrow> world" where
  "install_buffer ci k b base w =
     (let (cw, s, kr) = win_drop_buffer (the_win ci k w) (stk w, ker w)
      in set_win ci k (cw\<lparr>cw_buf := Some base, cw_len := buffer_len b\<rparr>)
           (w\<lparr>stk := window_modify s (server_id cw) (attach_buffer b base), ker := kr\<rparr>))"

definition on_commit :: "os \<Rightarrow> nat \<Rightarrow> cl_commit \<Rightarrow> fd list \<Rightarrow> world \<Rightarrow> world" where
  "on_commit e ci m fds0 w0 =
     (let b = co_buffer m;
          found = win_find (clients (xp w0) ! ci) (co_wid m);
          (fds, k1) = wait_fence b fds0 (ker w0);
          w1 = w0\<lparr>ker := k1\<rparr>
      in case fds of
           [] \<Rightarrow> w1
         | buf_fd # _ \<Rightarrow>
             (let reject = w1\<lparr>ker := k_close buf_fd k1\<rparr>
              in case found of
                   None \<Rightarrow> reject
                 | Some k \<Rightarrow>
                     if b_kind b \<noteq> CL_BUF_SHM then reject
                     else if window_by_id (stk w1) (server_id (the_win ci k w1)) = None \<or> \<not> buffer_ok b
                       then reject
                     else (let (base, k2) = k_mmap buf_fd (buffer_len b) (os_map_ok e (call_no w1)) k1;
                               w2 = w1\<lparr>ker := k_close buf_fd k2\<rparr>
                           in case base of None \<Rightarrow> w2 | Some a \<Rightarrow> install_buffer ci k b a w2)))"

definition on_destroy_window :: "nat \<Rightarrow> cl_destroy_window \<Rightarrow> world \<Rightarrow> world" where
  "on_destroy_window ci m w =
     (case win_find (clients (xp w) ! ci) (de_wid m) of
        None \<Rightarrow> w
      | Some k \<Rightarrow>
          (let cw = the_win ci k w; (_, s, kr) = win_drop_buffer cw (stk w, ker w)
           in set_win ci k no_win (w\<lparr>stk := window_destroy s (server_id cw), ker := kr\<rparr>)))"

definition on_set_geometry :: "nat \<Rightarrow> cl_set_geometry \<Rightarrow> world \<Rightarrow> world" where
  "on_set_geometry ci m w =
     (case win_find (clients (xp w) ! ci) (ge_wid m) of
        None \<Rightarrow> w
      | Some k \<Rightarrow>
          (let i = server_id (the_win ci k w)
           in if (case window_by_id (stk w) i of None \<Rightarrow> False | Some v \<Rightarrow> role v = WIN_DESKTOP) then w
              else w\<lparr>stk := window_set_geometry (stk w) i (ge_x m) (ge_y m)
                              (int_of_u32 (ge_w m)) (int_of_u32 (ge_h m))\<rparr>))"

definition set_cursor_state :: "cl_cursor \<Rightarrow> world \<Rightarrow> world" where
  "set_cursor_state c w = w\<lparr>xp := (xp w)\<lparr>x_cursor := c\<rparr>\<rparr>"

definition on_set_cursor :: "os \<Rightarrow> cl_set_cursor \<Rightarrow> fd list \<Rightarrow> world \<Rightarrow> world" where
  "on_set_cursor e m fds w =
     (let cw = int_of_u32 (cu_width m); ch = int_of_u32 (cu_height m); cur = x_cursor (xp w);
          closing = w\<lparr>ker := close_fds fds (ker w)\<rparr>
      in if cu_hide m \<noteq> 0 \<or> fds = [] then
           set_cursor_state (cur\<lparr>cur_custom := False, cur_hidden := (cu_hide m \<noteq> 0)\<rparr>) closing
         else if cw \<le> 0 \<or> ch \<le> 0 \<or> cw > CL_CURSOR_MAX \<or> ch > CL_CURSOR_MAX then closing
         else (let n = nat cw * nat ch;
                   (base, k1) = k_mmap (fds ! 0) (n * 4) (os_map_ok e (call_no w)) (ker w);
                   w1 = w\<lparr>ker := close_fds fds k1\<rparr>
               in case base of
                    None \<Rightarrow> w1
                  | Some a \<Rightarrow>
                      set_cursor_state
                        (cur\<lparr>cur_argb := map (os_pixels e (call_no w)) [0..<n] @ drop n (cur_argb cur),
                             cur_w := cw, cur_h := ch, cur_hotspot_x := cu_hotspot_x m,
                             cur_hotspot_y := cu_hotspot_y m, cur_custom := True, cur_hidden := False\<rparr>)
                        (w1\<lparr>ker := k_munmap a (n * 4) (ker w1)\<rparr>)))"

section \<open>Dispatch\<close>

text \<open>
  The result is whether the client is kept, whether \<open>*dirty\<close> was set, and the new world.
  \<open>drop_msg\<close> and \<open>keep_msg\<close> close the descriptors that came with the message.
\<close>

type_synonym outcome = "bool \<times> bool \<times> world"

definition close_all :: "fd list \<Rightarrow> world \<Rightarrow> world" where
  "close_all fds w = w\<lparr>ker := close_fds fds (ker w)\<rparr>"

definition drop_msg :: "fd list \<Rightarrow> world \<Rightarrow> outcome" where
  "drop_msg fds w = (False, False, close_all fds w)"

text \<open>The handshake: \<open>n\<close> bytes of hello, of which version 1 clients send only the first 16.\<close>

definition hello_ok :: "cl_hello \<Rightarrow> bool" where
  "hello_ok h \<longleftrightarrow>
     (let neg = (if he_version h < CL_VERSION then he_version h else CL_VERSION)
      in he_magic h = CL_MAGIC \<and> \<not> neg < CL_MIN_VERSION \<and> \<not> neg < he_min_version h)"

definition dispatch_hello :: "nat \<Rightarrow> u8 list \<Rightarrow> fd list \<Rightarrow> world \<Rightarrow> outcome" where
  "dispatch_hello ci bs fds w =
     (if rd32 bs 0 \<noteq> type_code CL_HELLO then drop_msg fds w
      else if length bs < offsetof_reconnect_token then drop_msg fds w
      else if \<not> hello_ok (get_hello bs) then drop_msg fds w
      else (let rtok = (if length bs \<ge> sizeof_hello then he_reconnect_token (get_hello bs) else 0);
                w1 = set_client ci ((clients (xp w) ! ci)\<lparr>c_hello := True\<rparr>) w;
                (reclaimed, w2) = client_reclaim ci rtok w1;
                w3 = (if reclaimed = 0
                      then (let (tok, w') = assign_token w2
                            in set_client ci ((clients (xp w') ! ci)\<lparr>c_token := tok\<rparr>) w')
                      else w2);
                c = clients (xp w3) ! ci
            in (True, True, close_all fds (send_welcome (c_fd c) (c_token c) w3))))"

definition dispatch_request :: "os \<Rightarrow> nat \<Rightarrow> u8 list \<Rightarrow> fd list \<Rightarrow> world \<Rightarrow> outcome" where
  "dispatch_request e ci bs fds w =
     (let t = rd32 bs 0; n = length bs
      in if t = type_code CL_CREATE_WINDOW then
           (if n < sizeof_create_window then drop_msg fds w
            else (True, True, close_all fds (on_create_window ci (get_create_window bs) w)))
         else if t = type_code CL_SET_TITLE then
           (if n < sizeof_set_title then drop_msg fds w
            else (True, False, close_all fds (on_set_title ci (get_set_title bs) w)))
         else if t = type_code CL_COMMIT then
           (if n < sizeof_commit then drop_msg fds w
            else (True, True, on_commit e ci (get_commit bs) fds w))
         else if t = type_code CL_DESTROY_WINDOW then
           (if n < sizeof_destroy_window then drop_msg fds w
            else (True, True, close_all fds (on_destroy_window ci (get_destroy_window bs) w)))
         else if t = type_code CL_SET_GEOMETRY then
           (if n < sizeof_set_geometry then drop_msg fds w
            else (True, True, close_all fds (on_set_geometry ci (get_set_geometry bs) w)))
         else if t = type_code CL_SET_CURSOR then
           (if n < sizeof_set_cursor then drop_msg fds w
            else (True, True, on_set_cursor e (get_set_cursor bs) fds w))
         else (True, False, close_all fds w))"

definition dispatch :: "os \<Rightarrow> nat \<Rightarrow> u8 list \<Rightarrow> fd list \<Rightarrow> world \<Rightarrow> outcome" where
  "dispatch e ci bs fds w =
     (if length bs < 4 then drop_msg fds w
      else if \<not> c_hello (clients (xp w) ! ci) then dispatch_hello ci bs fds w
      else dispatch_request e ci bs fds w)"

section \<open>Client lifecycle\<close>

definition client_by_fd :: "world \<Rightarrow> fd \<Rightarrow> nat option" where
  "client_by_fd w f = find_index (\<lambda>c. c_fd c = f) (clients (xp w))"

definition shell_role :: "win_role \<Rightarrow> bool" where
  "shell_role r \<longleftrightarrow> r = WIN_TASKBAR \<or> r = WIN_DESKTOP \<or> r = WIN_TRAY"

definition is_shell :: "window_stack \<Rightarrow> cl_win list \<Rightarrow> bool" where
  "is_shell s cws =
     list_ex (\<lambda>cw. client_wid cw \<noteq> 0 \<and>
       (case window_by_id s (server_id cw) of None \<Rightarrow> False | Some v \<Rightarrow> shell_role (role v))) cws"

text \<open>The orphan slot the windows of a dying client are parked in, if they are.\<close>

definition park_slot :: "cl_client \<Rightarrow> world \<Rightarrow> nat option" where
  "park_slot c w =
     (if in_use free_win (c_wins c) \<noteq> 0 \<and> c_token c \<noteq> 0 \<and> is_shell (stk w) (c_wins c)
      then free_slot (\<lambda>p. o_token p = 0) (orphans (xp w)) else None)"

definition client_drop :: "os \<Rightarrow> nat \<Rightarrow> world \<Rightarrow> world" where
  "client_drop e ci w =
     (let c = clients (xp w) ! ci;
          w1 = (case park_slot c w of
                  Some oi \<Rightarrow> set_orphan oi \<lparr>o_token = c_token c,
                               o_deadline = os_now e (call_no w) + CL_RECONNECT_GRACE_MS,
                               o_wins = c_wins c\<rparr> w
                | None \<Rightarrow> reap_wins (c_wins c) w)
      in set_client ci no_client
           (w1\<lparr>ker := k_close (c_fd c) (kcall (K_Epoll_Del (c_fd c)) (ker w1))\<rparr>))"

text \<open>The drain loop; the boolean is \<open>*dirty\<close>.\<close>

function client_readable :: "os \<Rightarrow> nat \<Rightarrow> recvmsg list \<Rightarrow> bool \<Rightarrow> world \<Rightarrow> bool \<times> world" where
  "client_readable e ci rs dirty w =
     (case cl_recv RECV_CAP rs (ker w) of
        (Ret_Err err, _, k) \<Rightarrow>
          (let w1 = w\<lparr>ker := k\<rparr> in if err = EAGAIN then (dirty, w1) else (True, client_drop e ci w1))
      | (Ret_Data bs fds, rest, k) \<Rightarrow>
          (let w1 = w\<lparr>ker := k\<rparr>
           in if bs = [] then (True, client_drop e ci w1)
              else (case dispatch e ci bs fds w1 of
                      (keep, d, w2) \<Rightarrow>
                        if keep then client_readable e ci rest (dirty \<or> d) w2
                        else (True, client_drop e ci w2))))"
  by pat_completeness auto

termination
  apply (relation "measure (\<lambda>(e, ci, rs, d, w). length rs)")
   apply simp
  apply simp
  apply (drule cl_recv_shrinks)
  apply (metis fst_conv)
  done

declare client_readable.simps [simp del]

section \<open>The public interface\<close>

definition transport_create :: "int \<Rightarrow> int \<Rightarrow> fd \<Rightarrow> transport option" where
  "transport_create sw0 sh0 epfd =
     (if epfd < 0 then None
      else Some \<lparr>x_sw = sw0, x_sh = sh0, x_epoll = epfd, x_listen = -1, x_path = [],
                 clients = replicate CL_MAX_CLIENTS no_client, orphans = replicate CL_MAX_CLIENTS no_orphan,
                 focused_server_id = 0, next_token = 0, x_cursor = no_cursor\<rparr>)"

definition transport_add_client :: "os \<Rightarrow> fd \<Rightarrow> world \<Rightarrow> int \<times> world" where
  "transport_add_client e f w =
     (case client_by_fd w (-1) of
        None \<Rightarrow> (-1, w\<lparr>ker := k_close f (ker w)\<rparr>)
      | Some ci \<Rightarrow>
          (let k1 = kcall (K_Epoll_Add f) (kcall (K_Nonblock f) (ker w))
           in if os_epoll_ok e (call_no w)
              then (0, set_client ci (no_client\<lparr>c_fd := f\<rparr>) (w\<lparr>ker := k1\<rparr>))
              else (-1, set_client ci no_client (w\<lparr>ker := k_close f k1\<rparr>))))"

definition win_titlebar :: "window \<Rightarrow> int" where
  "win_titlebar v = (if window_has_ssd v then DECOR_TITLEBAR_H else 0)"

text \<open>Pointer events go to the owner of the topmost window, in window-local content coordinates.\<close>

definition pointer_event :: "cl_input_kind \<Rightarrow> u32 \<Rightarrow> u32 \<Rightarrow> int \<Rightarrow> int \<Rightarrow> world \<Rightarrow> world" where
  "pointer_event kind code pressed cx cy w =
     (case window_at (stk w) cx cy of
        None \<Rightarrow> w
      | Some v \<Rightarrow>
          if cy < win_y v + win_titlebar v then w
          else send_owner (win_id v)
                 (\<lambda>wid. Input_Ev \<lparr>in_wid = wid, in_kind = kind, in_x = cx - win_x v,
                                 in_y = cy - win_y v - win_titlebar v, in_code = code, in_pressed = pressed\<rparr>) w)"

definition transport_pointer_motion :: "int \<Rightarrow> int \<Rightarrow> world \<Rightarrow> world" where
  "transport_pointer_motion cx cy w = pointer_event CL_IN_MOTION 0 0 cx cy w"

definition transport_pointer_button :: "u32 \<Rightarrow> bool \<Rightarrow> int \<Rightarrow> int \<Rightarrow> world \<Rightarrow> world" where
  "transport_pointer_button button pressed cx cy w =
     pointer_event CL_IN_BUTTON button (of_bool pressed) cx cy w"

definition transport_keyboard_key :: "u32 \<Rightarrow> u32 \<Rightarrow> bool \<Rightarrow> world \<Rightarrow> world" where
  "transport_keyboard_key focus keysym pressed w =
     send_owner focus (\<lambda>wid. Input_Ev \<lparr>in_wid = wid, in_kind = CL_IN_KEY, in_x = 0, in_y = 0,
                                       in_code = keysym, in_pressed = of_bool pressed\<rparr>) w"

definition transport_update_focus :: "u32 \<Rightarrow> world \<Rightarrow> world" where
  "transport_update_focus focus w = notify_focus focus w"

definition transport_notify_geometry :: "u32 \<Rightarrow> world \<Rightarrow> world" where
  "transport_notify_geometry sid w =
     (case (find_by_server_id w sid, window_by_id (stk w) sid) of
        (Some _, Some v) \<Rightarrow> send_owner sid (\<lambda>wid. configure_event wid v) w
      | _ \<Rightarrow> w)"

definition transport_set_screen :: "int \<Rightarrow> int \<Rightarrow> world \<Rightarrow> world" where
  "transport_set_screen nw nh w = w\<lparr>xp := (xp w)\<lparr>x_sw := nw, x_sh := nh\<rparr>\<rparr>"

definition transport_broadcast_screen :: "int \<Rightarrow> int \<Rightarrow> world \<Rightarrow> world" where
  "transport_broadcast_screen nw nh w =
     fold (\<lambda>c w. if c_fd c \<ge> 0 \<and> c_hello c
                 then send_to (c_fd c) (Screen \<lparr>sc_w = u32_of_int nw, sc_h = u32_of_int nh\<rparr>) w else w)
       (clients (xp w)) (transport_set_screen nw nh w)"

section \<open>One round of events\<close>

text \<open>
  An epoll event: its descriptor, its flags, and what the kernel has in store for the
  system calls of its handler (the connections \<open>accept4\<close> returns, the datagrams queued).
\<close>

record epoll_event =
  ev_fd :: fd
  ev_hup :: bool
  ev_in :: bool
  ev_accepts :: "fd list"
  ev_recv :: "recvmsg list"

definition accept_pending :: "os \<Rightarrow> fd list \<Rightarrow> world \<Rightarrow> world" where
  "accept_pending e fs w = fold (\<lambda>f w. snd (transport_add_client e f w)) fs w"

definition handle_event :: "os \<Rightarrow> epoll_event \<Rightarrow> bool \<times> world \<Rightarrow> bool \<times> world" where
  "handle_event e ev dw =
     (case dw of (dirty, w) \<Rightarrow>
        if ev_fd ev = x_listen (xp w) then (dirty, accept_pending e (ev_accepts ev) w)
        else (case client_by_fd w (ev_fd ev) of
                None \<Rightarrow> (dirty, w)
              | Some ci \<Rightarrow>
                  if ev_hup ev then (True, client_drop e ci w)
                  else if ev_in ev then client_readable e ci (ev_recv ev) dirty w
                  else (dirty, w)))"

definition transport_process :: "os \<Rightarrow> epoll_event list \<Rightarrow> world \<Rightarrow> bool \<times> world" where
  "transport_process e evs w = fold (handle_event e) evs (orphans_expire (os_now e (call_no w)) w)"

text \<open>Shutting down: every client is dropped, then every parked orphan reaped.\<close>

definition drop_live :: "os \<Rightarrow> nat \<Rightarrow> world \<Rightarrow> world" where
  "drop_live e ci w = (if c_fd (clients (xp w) ! ci) \<ge> 0 then client_drop e ci w else w)"

definition reap_parked :: "nat \<Rightarrow> world \<Rightarrow> world" where
  "reap_parked oi w = (if o_token (orphans (xp w) ! oi) \<noteq> 0 then orphan_destroy oi w else w)"

definition transport_destroy :: "os \<Rightarrow> world \<Rightarrow> world" where
  "transport_destroy e w =
     (let w1 = fold (drop_live e) [0..<CL_MAX_CLIENTS] w;
          w2 = fold reap_parked [0..<CL_MAX_CLIENTS] w1;
          k1 = (if x_listen (xp w2) \<ge> 0 then k_close (x_listen (xp w2)) (ker w2) else ker w2);
          k2 = (if x_path (xp w2) \<noteq> [] then kcall (K_Unlink (x_path (xp w2))) k1 else k1);
          k3 = (if x_epoll (xp w2) \<ge> 0 then k_close (x_epoll (xp w2)) k2 else k2)
      in w2\<lparr>ker := k3\<rparr>)"

end
