(* ===== verification/Transport_Own.thy ===== *)
theory Transport_Own
  imports Transport "HOL-Library.Multiset"
begin

text \<open>
  Who owns what. The slots in use, of connected clients and of parked orphans together,
  form a multiset; ownership says that they name distinct live windows, that a window's
  pixels are the mapping its slot owns, and that the mappings that exist are exactly the
  owned ones: nothing leaks and nothing dangles. This theory proves that the steps the
  handlers are made of keep it.
\<close>

section \<open>Slots in use\<close>

definition used :: "cl_win list \<Rightarrow> cl_win multiset" where
  "used cws = filter_mset (\<lambda>cw. \<not> free_win cw) (mset cws)"

definition own :: "world \<Rightarrow> cl_win multiset" where
  "own w = (\<Sum>c\<leftarrow>clients (xp w). used (c_wins c)) + (\<Sum>p\<leftarrow>orphans (xp w). used (o_wins p))"

definition uniq :: "('a \<Rightarrow> 'b) \<Rightarrow> 'a multiset \<Rightarrow> bool" where
  "uniq f L \<longleftrightarrow> (\<forall>x. count (image_mset f L) x \<le> 1)"

lemma uniq_empty [simp]: "uniq f {#}"
  by (simp add: uniq_def)

lemma uniq_add [simp]: "uniq f (add_mset c L) \<longleftrightarrow> uniq f L \<and> f c \<notin> f ` set_mset L"
proof -
  have "(\<forall>x. count (add_mset (f c) (image_mset f L)) x \<le> 1) \<longleftrightarrow>
        (\<forall>x. count (image_mset f L) x \<le> 1) \<and> count (image_mset f L) (f c) = 0"
    by (auto simp: le_Suc_eq split: if_splits)
  moreover have "count (image_mset f L) (f c) = 0 \<longleftrightarrow> f c \<notin> f ` set_mset L"
    by (simp add: count_eq_zero_iff)
  ultimately show ?thesis by (simp add: uniq_def)
qed

lemma uniq_inj: "uniq f L \<Longrightarrow> a \<in># L \<Longrightarrow> b \<in># L \<Longrightarrow> f a = f b \<Longrightarrow> a = b"
proof (rule ccontr)
  assume u: "uniq f L" and ab: "a \<in># L" "b \<in># L" "f a = f b" "a \<noteq> b"
  then obtain M where "L = add_mset a M" by (meson mset_add)
  with u ab show False by (auto simp: image_iff)
qed

section \<open>Ownership\<close>

text \<open>What the transport can see of a handle: whether the window lives, and its pixels.\<close>

definition pix :: "window_stack \<Rightarrow> u32 \<Rightarrow> pixels option option" where
  "pix s i = map_option buf (window_by_id s i)"

definition mapped_slots :: "cl_win multiset \<Rightarrow> cl_win multiset" where
  "mapped_slots L = filter_mset (\<lambda>cw. cw_buf cw \<noteq> None) L"

definition owns :: "cl_win multiset \<Rightarrow> (u32 \<Rightarrow> pixels option option) \<Rightarrow> (nat \<rightharpoonup> nat) \<Rightarrow> nat \<Rightarrow> bool" where
  "owns L f m n \<longleftrightarrow>
     uniq server_id L \<and> uniq cw_buf (mapped_slots L) \<and>
     (\<forall>cw \<in># L. f (server_id cw) = Some (map_option Mapping (cw_buf cw))) \<and>
     (\<forall>i b. f i = Some (Some (Mapping b)) \<longrightarrow> i \<in> server_id ` set_mset L) \<and>
     (\<forall>cw \<in># L. \<forall>b. cw_buf cw = Some b \<longrightarrow> m b = Some (cw_len cw)) \<and>
     (\<forall>b \<in> dom m. b < n \<and> Some b \<in> cw_buf ` set_mset L)"

definition own_ok :: "cl_win multiset \<Rightarrow> window_stack \<Rightarrow> cl_event kern \<Rightarrow> bool" where
  "own_ok L s k \<longleftrightarrow> stack_wf s \<and> owns L (pix s) (maps k) (next_map k)"

lemma mapped_slots_add [simp]:
  "mapped_slots (add_mset cw L) = (if cw_buf cw = None then mapped_slots L else add_mset cw (mapped_slots L))"
  by (simp add: mapped_slots_def)

lemma in_mapped_slots [simp]: "cw \<in># mapped_slots L \<longleftrightarrow> cw \<in># L \<and> cw_buf cw \<noteq> None"
  by (simp add: mapped_slots_def)

lemma owns_add:
  "owns (add_mset cw L) f m n \<longleftrightarrow>
     uniq server_id L \<and> (\<forall>c \<in># L. server_id c \<noteq> server_id cw) \<and> uniq cw_buf (mapped_slots L) \<and>
     (cw_buf cw \<noteq> None \<longrightarrow> (\<forall>c \<in># L. cw_buf c \<noteq> cw_buf cw)) \<and>
     f (server_id cw) = Some (map_option Mapping (cw_buf cw)) \<and>
     (\<forall>c \<in># L. f (server_id c) = Some (map_option Mapping (cw_buf c))) \<and>
     (\<forall>i b. f i = Some (Some (Mapping b)) \<longrightarrow> i = server_id cw \<or> i \<in> server_id ` set_mset L) \<and>
     (\<forall>b. cw_buf cw = Some b \<longrightarrow> m b = Some (cw_len cw)) \<and>
     (\<forall>c \<in># L. \<forall>b. cw_buf c = Some b \<longrightarrow> m b = Some (cw_len c)) \<and>
     (\<forall>b \<in> dom m. b < n \<and> (cw_buf cw = Some b \<or> Some b \<in> cw_buf ` set_mset L))"
proof -
  have sid: "server_id cw \<notin> server_id ` set_mset L \<longleftrightarrow> (\<forall>c \<in># L. server_id c \<noteq> server_id cw)"
    by (auto simp: image_iff)
  show ?thesis
  proof (cases "cw_buf cw")
    case None
    then have "Some b \<in> cw_buf ` set_mset (add_mset cw L) \<longleftrightarrow> Some b \<in> cw_buf ` set_mset L" for b by auto
    with None show ?thesis by (simp add: owns_def sid conj_ac)
  next
    case (Some b0)
    then have cb: "Some b0 \<notin> cw_buf ` set_mset (mapped_slots L) \<longleftrightarrow> (\<forall>c \<in># L. cw_buf c \<noteq> Some b0)"
      by (auto simp: image_iff Ball_def)
    have "Some b \<in> cw_buf ` set_mset (add_mset cw L) \<longleftrightarrow> b0 = b \<or> Some b \<in> cw_buf ` set_mset L" for b
      using Some by auto
    with Some cb show ?thesis by (simp add: owns_def sid conj_ac)
  qed
qed

text \<open>The five elementary changes, on handles and mappings alone.\<close>

lemma owns_unmap:
  assumes "owns (add_mset cw L) f m n" and b: "cw_buf cw = Some b"
  shows "owns (add_mset (cw\<lparr>cw_buf := None, cw_len := 0\<rparr>) L) (f(server_id cw := Some None)) (m(b := None)) n"
proof -
  have fresh: "cw_buf c \<noteq> Some b" "server_id c \<noteq> server_id cw" if "c \<in># L" for c
    using assms that by (auto simp: owns_add)
  have "\<forall>a \<in> dom (m(b := None)). a < n \<and> Some a \<in> cw_buf ` set_mset L"
    using assms by (auto simp: owns_add)
  with assms fresh show ?thesis unfolding owns_add by (simp, blast)
qed

lemma owns_close:
  assumes "owns (add_mset cw L) f m n" and "cw_buf cw = None"
  shows "owns L (f(server_id cw := None)) m n"
  using assms(1) [unfolded owns_add] assms(2) unfolding owns_def by auto

lemma owns_open:
  "owns L f m n \<Longrightarrow> f i = None \<Longrightarrow>
   owns (add_mset \<lparr>client_wid = wid, server_id = i, cw_buf = None, cw_len = l\<rparr> L) (f(i := Some None)) m n"
  by (auto simp: owns_add owns_def)

lemma owns_stray: "owns L f m n \<Longrightarrow> f i = None \<Longrightarrow> owns L (f(i := Some None)) m n"
  by (auto simp: owns_def)

lemma owns_map:
  assumes "owns (add_mset cw L) f m n" and "cw_buf cw = None"
  shows "owns (add_mset (cw\<lparr>cw_buf := Some n, cw_len := l\<rparr>) L)
           (f(server_id cw := Some (Some (Mapping n)))) (m(n \<mapsto> l)) (Suc n)"
proof -
  have "cw_buf c \<noteq> Some n" if "c \<in># L" for c
    using assms that by (force simp: owns_add)
  with assms show ?thesis unfolding owns_add by (auto simp: less_Suc_eq)
qed

text \<open>Mapping a buffer and unmapping it again, as the cursor upload does, changes nothing but the counter.\<close>

lemma owns_later: "owns L f m n \<Longrightarrow> n \<le> n' \<Longrightarrow> owns L f m n'"
  unfolding owns_def by (elim conjE, intro conjI, assumption+, blast intro: less_le_trans)

lemma owns_fresh: "owns L f m n \<Longrightarrow> m n = None"
  unfolding owns_def by auto

section \<open>The stack operations, as the transport sees them\<close>

lemma pix_modify:
  "(\<And>v. win_id (f v) = win_id v) \<Longrightarrow>
   pix (window_modify s i f) = (pix s)(i := map_option (\<lambda>v. buf (f v)) (window_by_id s i))"
  by (auto simp: pix_def fun_eq_iff by_id_modify option.map_comp comp_def)

lemma pix_modify_same:
  "(\<And>v. win_id (f v) = win_id v) \<Longrightarrow> (\<And>v. buf (f v) = buf v) \<Longrightarrow> pix (window_modify s i f) = pix s"
  by (simp add: pix_modify) (simp add: pix_def fun_eq_iff)

lemma by_id_focus_any: "stack_wf s \<Longrightarrow> window_by_id (window_focus s i) = window_by_id s"
proof (cases "window_by_id s i")
  case (Some v)
  assume "stack_wf s"
  moreover from Some have "i \<in> set (z_order s)" by (metis option.distinct(1) window_by_id_None)
  ultimately have "stack_wf (s\<lparr>focus_id := i\<rparr>)" by (simp add: stack_wf_set_focus)
  then show ?thesis by (simp add: window_focus_def Some Let_def by_id_raise)
qed (simp add: window_focus_def)

lemma pix_same [simp]:
  "pix (window_set_geometry s i x y w h) = pix s"
  "stack_wf s \<Longrightarrow> pix (window_lower s i) = pix s"
  "stack_wf s \<Longrightarrow> pix (window_focus s i) = pix s"
  by (simp add: window_set_geometry_def pix_modify_same)
     (simp_all add: pix_def by_id_lower by_id_focus_any fun_eq_iff)

lemma pix_destroy: "stack_wf s \<Longrightarrow> pix (window_destroy s i) = (pix s)(i := None)"
  by (simp add: pix_def by_id_destroy fun_eq_iff)

lemma pix_create:
  assumes "stack_wf s" and "window_create s r x y w h col t = (i, s')" and "i \<noteq> 0"
  shows "pix s i = None" "pix s' = (pix s)(i := Some None)"
proof -
  have room: "length (windows s) < 64" using assms(2,3) by (auto simp: window_create_def split: if_splits)
  show "pix s i = None" using by_id_create(3) [OF assms(1) room assms(2)] by (simp add: pix_def)
  obtain win where win: "windows s' = windows s @ [win]" "window_by_id s' = (window_by_id s)(i \<mapsto> win)"
    using by_id_create(2) [OF assms(1) room assms(2)] by blast
  then have "buf win = None" using assms(2) room by (auto simp: window_create_def Let_def)
  with win show "pix s' = (pix s)(i := Some None)" by (simp add: pix_def fun_eq_iff)
qed

section \<open>Ownership of the real stack and kernel\<close>

lemma own_ok_frame:
  "own_ok L s k \<Longrightarrow> stack_wf s' \<Longrightarrow> pix s' = pix s \<Longrightarrow> maps k' = maps k \<Longrightarrow> next_map k' = next_map k \<Longrightarrow>
   own_ok L s' k'"
  by (simp add: own_ok_def)

lemma own_ok_live: "own_ok L s k \<Longrightarrow> cw \<in># L \<Longrightarrow> \<exists>v. window_by_id s (server_id cw) = Some v \<and>
    buf v = map_option Mapping (cw_buf cw)"
  by (auto simp: own_ok_def owns_def pix_def)

lemma own_ok_drop_buffer:
  assumes ok: "own_ok (add_mset cw L) s k" and drop: "win_drop_buffer cw (s, k) = (cw', s', k')"
  shows "own_ok (add_mset cw' L) s' k'" and "cw_buf cw' = None" and "server_id cw' = server_id cw"
    and "client_wid cw' = client_wid cw"
proof -
  have "own_ok (add_mset cw' L) s' k' \<and> cw_buf cw' = None \<and> server_id cw' = server_id cw \<and>
      client_wid cw' = client_wid cw"
  proof (cases "cw_buf cw")
    case None
    with drop ok show ?thesis by (simp add: win_drop_buffer_def)
  next
    case (Some b)
    then have c: "cw' = cw\<lparr>cw_buf := None, cw_len := 0\<rparr>"
        "s' = window_modify s (server_id cw) (\<lambda>v. v\<lparr>buf := None\<rparr>)" "k' = k_munmap b (cw_len cw) k"
      using drop by (auto simp: win_drop_buffer_def)
    have "\<exists>v. window_by_id s (server_id cw) = Some v" using own_ok_live [OF ok, of cw] by auto
    then have "pix s' = (pix s)(server_id cw := Some None)" unfolding c by (auto simp: pix_modify)
    moreover have "stack_wf s'" using ok unfolding c by (simp add: own_ok_def stack_wf_modify)
    moreover have "owns (add_mset cw' L) ((pix s)(server_id cw := Some None)) ((maps k)(b := None)) (next_map k)"
      unfolding c(1) using owns_unmap [OF _ Some] ok by (simp add: own_ok_def)
    ultimately show ?thesis by (simp add: own_ok_def c)
  qed
  then show "own_ok (add_mset cw' L) s' k'" "cw_buf cw' = None" "server_id cw' = server_id cw"
    "client_wid cw' = client_wid cw" by auto
qed

lemma own_ok_destroy:
  "own_ok (add_mset cw L) s k \<Longrightarrow> cw_buf cw = None \<Longrightarrow> own_ok L (window_destroy s (server_id cw)) k"
  by (auto simp: own_ok_def pix_destroy stack_wf_destroy intro: owns_close)

lemma used_Cons: "used (cw # cws) = (if free_win cw then {#} else {#cw#}) + used cws"
  by (simp add: used_def)

lemma own_ok_reap_win:
  assumes "own_ok (add_mset cw L) s k" and "\<not> free_win cw" and "reap_win cw (s, k) = (s', k')"
  shows "own_ok L s' k'"
proof -
  obtain cw' s1 k1 where d: "win_drop_buffer cw (s, k) = (cw', s1, k1)" using prod_cases3 by blast
  note ok = own_ok_drop_buffer [OF assms(1) d]
  have "own_ok L (window_destroy s1 (server_id cw')) k1" using ok(1,2) by (rule own_ok_destroy)
  with d ok(3) assms(2,3) show ?thesis by (auto simp: reap_win_def free_win_def)
qed

lemma own_ok_reap:
  "own_ok (used cws + L) s k \<Longrightarrow> fold reap_win cws (s, k) = (s', k') \<Longrightarrow> own_ok L s' k'"
proof (induction cws arbitrary: s k)
  case (Cons cw cws)
  obtain s1 k1 where r: "reap_win cw (s, k) = (s1, k1)" by fastforce
  have "own_ok (used cws + L) s1 k1"
  proof (cases "free_win cw")
    case True
    with Cons.prems(1) r show ?thesis by (simp add: used_Cons reap_win_def free_win_def)
  next
    case False
    with Cons.prems(1) have "own_ok (add_mset cw (used cws + L)) s k" by (simp add: used_Cons)
    from own_ok_reap_win [OF this False r] show ?thesis .
  qed
  from Cons.IH [OF this] show ?case using Cons.prems(2) r by simp
qed (simp add: used_def)

lemma own_ok_create:
  assumes "own_ok L s k" and c: "window_create s r x y w h col t = (i, s')" "i \<noteq> 0" "\<not> ids_exhausted s"
  shows "own_ok (add_mset \<lparr>client_wid = wid, server_id = i, cw_buf = None, cw_len = l\<rparr> L) s' k" "own_ok L s' k"
proof -
  have wf: "stack_wf s" using assms(1) by (simp add: own_ok_def)
  note p = pix_create [OF wf c(1,2)]
  have "stack_wf s'" using stack_wf_create [OF wf c(3), of r x y w h col t] c(1) by simp
  with p assms(1) show "own_ok (add_mset \<lparr>client_wid = wid, server_id = i, cw_buf = None, cw_len = l\<rparr> L) s' k"
    "own_ok L s' k"
    by (simp_all add: own_ok_def owns_open owns_stray)
qed

text \<open>
  Installing a buffer: the new mapping exists before the old one is dropped, and both
  steps together hand it to the slot.
\<close>

lemma own_ok_install:
  assumes ok: "own_ok (add_mset cw L) s k"
    and k2: "maps k2 = (maps k)(next_map k \<mapsto> len)" "next_map k2 = Suc (next_map k)"
    and drop: "win_drop_buffer cw (s, k2) = (cw', s', k')"
  shows "own_ok (add_mset (cw'\<lparr>cw_buf := Some (next_map k), cw_len := len\<rparr>) L)
           (window_modify s' (server_id cw') (attach_buffer b (next_map k))) k'"
proof -
  obtain c1 s1 k1 where d1: "win_drop_buffer cw (s, k) = (c1, s1, k1)" using prod_cases3 by blast
  note ok1 = own_ok_drop_buffer [OF ok d1]
  have "maps k (next_map k) = None" using ok owns_fresh by (auto simp: own_ok_def)
  moreover have "maps k a \<noteq> None" if "cw_buf cw = Some a" for a
    using ok that by (auto simp: own_ok_def owns_def)
  ultimately have "((maps k)(next_map k \<mapsto> len))(a := None) = ((maps k)(a := None))(next_map k \<mapsto> len)"
    if "cw_buf cw = Some a" for a
    using that by (intro fun_upd_twist) auto
  then have same: "c1 = cw'" "s1 = s'" "maps k' = (maps k1)(next_map k1 \<mapsto> len)"
      "next_map k' = Suc (next_map k1)" "next_map k1 = next_map k"
    using d1 drop k2 by (auto simp: win_drop_buffer_def split: option.splits)
  obtain v where "window_by_id s' (server_id cw') = Some v"
    using own_ok_live [OF ok1(1), of c1] same by auto
  then have "pix (window_modify s' (server_id cw') (attach_buffer b (next_map k))) =
      (pix s')(server_id cw' := Some (Some (Mapping (next_map k))))"
    by (subst pix_modify) (simp_all add: attach_buffer_def)
  moreover have "stack_wf (window_modify s' (server_id cw') (attach_buffer b (next_map k)))"
    using ok1(1) same by (intro stack_wf_modify) (simp_all add: own_ok_def attach_buffer_def)
  moreover have "owns (add_mset cw' L) (pix s') (maps k1) (next_map k)"
    using ok1(1) same by (simp add: own_ok_def)
  from owns_map [OF this] have "owns (add_mset (cw'\<lparr>cw_buf := Some (next_map k), cw_len := len\<rparr>) L)
      ((pix s')(server_id cw' := Some (Some (Mapping (next_map k))))) ((maps k1)(next_map k \<mapsto> len)) (Suc (next_map k))"
    using ok1(2) same(1) by simp
  ultimately show ?thesis by (simp add: own_ok_def same)
qed

section \<open>The tables\<close>

definition slot :: "cl_win \<Rightarrow> cl_win multiset" where
  "slot cw = (if free_win cw then {#} else {#cw#})"

lemma used_update: "k < length cws \<Longrightarrow> used (cws[k := cw]) + slot (cws ! k) = used cws + slot cw"
proof (induction cws arbitrary: k)
  case (Cons c cws)
  then show ?case by (cases k) (auto simp: used_Cons slot_def split: if_splits)
qed simp

lemma used_free: "(\<And>cw. cw \<in> set cws \<Longrightarrow> free_win cw) \<Longrightarrow> used cws = {#}"
  by (induction cws) (simp_all add: used_Cons, simp add: used_def)

lemma free_no_win [simp]: "free_win no_win"
  by (simp add: free_win_def no_win_def)

lemma used_none [simp]: "used (c_wins no_client) = {#}" "used (o_wins no_orphan) = {#}" "slot no_win = {#}"
  by (auto simp: no_client_def no_orphan_def slot_def intro: used_free)

lemma sum_replace:
  fixes f :: "'b \<Rightarrow> 'a multiset"
  assumes "i < length xs" and "f z = {#}"
  shows "(\<Sum>x\<leftarrow>xs. f x) = f (xs ! i) + (\<Sum>x\<leftarrow>xs[i := z]. f x)"
    and "(\<Sum>x\<leftarrow>xs[i := y]. f x) = f y + (\<Sum>x\<leftarrow>xs[i := z]. f x)"
proof -
  have "(\<Sum>x\<leftarrow>xs. f x) = f (xs ! i) + (\<Sum>x\<leftarrow>xs[i := z]. f x) \<and>
      (\<Sum>x\<leftarrow>xs[i := y]. f x) = f y + (\<Sum>x\<leftarrow>xs[i := z]. f x)"
    using assms
  proof (induction xs arbitrary: i)
    case (Cons a xs)
    then show ?case by (cases i) (auto simp: ac_simps)
  qed simp
  then show "(\<Sum>x\<leftarrow>xs. f x) = f (xs ! i) + (\<Sum>x\<leftarrow>xs[i := z]. f x)"
    "(\<Sum>x\<leftarrow>xs[i := y]. f x) = f y + (\<Sum>x\<leftarrow>xs[i := z]. f x)" by auto
qed

text \<open>Everything owned, apart from one client, one orphan or one slot.\<close>

definition other_clients :: "nat \<Rightarrow> world \<Rightarrow> cl_win multiset" where
  "other_clients ci w =
     (\<Sum>c\<leftarrow>(clients (xp w))[ci := no_client]. used (c_wins c)) + (\<Sum>p\<leftarrow>orphans (xp w). used (o_wins p))"

definition other_orphans :: "nat \<Rightarrow> world \<Rightarrow> cl_win multiset" where
  "other_orphans oi w =
     (\<Sum>c\<leftarrow>clients (xp w). used (c_wins c)) + (\<Sum>p\<leftarrow>(orphans (xp w))[oi := no_orphan]. used (o_wins p))"

definition other_slots :: "nat \<Rightarrow> nat \<Rightarrow> world \<Rightarrow> cl_win multiset" where
  "other_slots ci k w = used ((c_wins (clients (xp w) ! ci))[k := no_win]) + other_clients ci w"

lemma own_client:
  assumes "ci < length (clients (xp w))"
  shows "own w = used (c_wins (clients (xp w) ! ci)) + other_clients ci w"
    and "own (set_client ci c w) = used (c_wins c) + other_clients ci w"
  using sum_replace(1) [OF assms, of "\<lambda>c. used (c_wins c)" no_client] sum_replace(2) [OF assms, of "\<lambda>c. used (c_wins c)" no_client c]
  by (simp_all add: own_def other_clients_def set_client_def)

lemma own_orphan:
  assumes "oi < length (orphans (xp w))"
  shows "own w = used (o_wins (orphans (xp w) ! oi)) + other_orphans oi w"
    and "own (set_orphan oi p w) = used (o_wins p) + other_orphans oi w"
  using sum_replace(1) [OF assms, of "\<lambda>c. used (o_wins c)" no_orphan] sum_replace(2) [OF assms, of "\<lambda>c. used (o_wins c)" no_orphan p]
  by (simp_all add: own_def other_orphans_def set_orphan_def)

lemma own_win:
  assumes "ci < length (clients (xp w))" and "k < length (c_wins (clients (xp w) ! ci))"
  shows "own w = slot (the_win ci k w) + other_slots ci k w"
    and "own (set_win ci k cw w) = slot cw + other_slots ci k w"
proof -
  have u: "used (c_wins (clients (xp w) ! ci)) = slot (the_win ci k w) + used ((c_wins (clients (xp w) ! ci))[k := no_win])"
    using used_update [OF assms(2), of no_win] by (simp add: the_win_def add.commute)
  then show "own w = slot (the_win ci k w) + other_slots ci k w"
    by (simp add: own_client(1) [OF assms(1)] other_slots_def ac_simps)
  have "used ((c_wins (clients (xp w) ! ci))[k := cw]) = slot cw + used ((c_wins (clients (xp w) ! ci))[k := no_win])"
    using used_update [OF assms(2), of cw] u by (simp add: the_win_def)
  then show "own (set_win ci k cw w) = slot cw + other_slots ci k w"
    by (simp add: set_win_def Let_def own_client(2) [OF assms(1)] other_slots_def ac_simps)
qed

lemma own_frame [simp]:
  "own (w\<lparr>stk := s\<rparr>) = own w" "own (w\<lparr>ker := k\<rparr>) = own w"
  "other_slots ci j (w\<lparr>stk := s\<rparr>) = other_slots ci j w" "other_slots ci j (w\<lparr>ker := k\<rparr>) = other_slots ci j w"
  "other_clients ci (w\<lparr>stk := s\<rparr>) = other_clients ci w" "other_clients ci (w\<lparr>ker := k\<rparr>) = other_clients ci w"
  "other_orphans ci (w\<lparr>stk := s\<rparr>) = other_orphans ci w" "other_orphans ci (w\<lparr>ker := k\<rparr>) = other_orphans ci w"
  by (simp_all add: own_def other_slots_def other_clients_def other_orphans_def)

end
