(* ===== verification/Transport_Inv.thy ===== *)
theory Transport_Inv
  imports Transport_Own
begin

text \<open>
  The invariant of the transport's world, and the proof that every entry point keeps it,
  whatever bytes, descriptors and hang-ups arrive.
\<close>

section \<open>The invariant\<close>

definition row_ok :: "cl_win list \<Rightarrow> bool" where
  "row_ok cws \<longleftrightarrow> length cws = WIN_MAX \<and> (\<forall>cw \<in> set cws. free_win cw \<longrightarrow> cw_buf cw = None)"

definition client_ok :: "cl_client \<Rightarrow> bool" where
  "client_ok c \<longleftrightarrow> row_ok (c_wins c) \<and> (\<not> c_hello c \<longrightarrow> used (c_wins c) = {#}) \<and> (c_fd c < 0 \<longrightarrow> \<not> c_hello c)"

definition orphan_ok :: "cl_orphan \<Rightarrow> bool" where
  "orphan_ok p \<longleftrightarrow> row_ok (o_wins p) \<and> (o_token p = 0 \<longrightarrow> used (o_wins p) = {#})"

definition tables_ok :: "transport \<Rightarrow> bool" where
  "tables_ok x \<longleftrightarrow> length (clients x) = CL_MAX_CLIENTS \<and> length (orphans x) = CL_MAX_CLIENTS \<and>
     (\<forall>c \<in> set (clients x). client_ok c) \<and> (\<forall>p \<in> set (orphans x). orphan_ok p)"

definition x_inv :: "world \<Rightarrow> bool" where
  "x_inv w \<longleftrightarrow> tables_ok (xp w) \<and> own_ok (own w) (stk w) (ker w)"

text \<open>Handles left: at most \<open>n\<close> more windows are created before the counter would wrap.\<close>

definition handles_left :: "nat \<Rightarrow> world \<Rightarrow> bool" where
  "handles_left n w \<longleftrightarrow> unat (next_id (stk w)) + n < 2 ^ 32"

lemma handles_left_exhausted: "handles_left (Suc n) w \<Longrightarrow> \<not> ids_exhausted (stk w)"
  unfolding handles_left_def ids_exhausted_def by (simp add: unat_eq_zero [symmetric] unat_word_ariths)

section \<open>Selectors\<close>

lemma world_sel [simp]:
  "stk (set_client ci c w) = stk w" "ker (set_client ci c w) = ker w"
  "clients (xp (set_client ci c w)) = (clients (xp w))[ci := c]" "orphans (xp (set_client ci c w)) = orphans (xp w)"
  "stk (set_orphan oi p w) = stk w" "ker (set_orphan oi p w) = ker w"
  "clients (xp (set_orphan oi p w)) = clients (xp w)" "orphans (xp (set_orphan oi p w)) = (orphans (xp w))[oi := p]"
  "stk (set_win ci k cw w) = stk w" "ker (set_win ci k cw w) = ker w"
  "orphans (xp (set_win ci k cw w)) = orphans (xp w)"
  "stk (send_to f ev w) = stk w" "xp (send_to f ev w) = xp w" "ker (send_to f ev w) = k_send f ev (ker w)"
  "stk (close_all fds w) = stk w" "xp (close_all fds w) = xp w" "ker (close_all fds w) = close_fds fds (ker w)"
  "xp (reap_wins cws w) = xp w"
  by (simp_all add: set_client_def set_orphan_def set_win_def send_to_def close_all_def reap_wins_def Let_def
      split: prod.split)

lemma other_frame:
  "clients (xp w') = clients (xp w) \<Longrightarrow> orphans (xp w') = orphans (xp w) \<Longrightarrow> own w' = own w"
  by (simp add: own_def)

section \<open>Introduction rules\<close>

lemma x_invD:
  assumes "x_inv w"
  shows "length (clients (xp w)) = 16" "length (orphans (xp w)) = 16"
    and "ci < 16 \<Longrightarrow> client_ok (clients (xp w) ! ci)"
    and "oi < 16 \<Longrightarrow> orphan_ok (orphans (xp w) ! oi)"
    and "own_ok (own w) (stk w) (ker w)" and "stack_wf (stk w)"
proof -
  from assms have t: "tables_ok (xp w)" and o: "own_ok (own w) (stk w) (ker w)" by (simp_all add: x_inv_def)
  from t show l: "length (clients (xp w)) = 16" "length (orphans (xp w)) = 16" by (simp_all add: tables_ok_def)
  from t l show "ci < 16 \<Longrightarrow> client_ok (clients (xp w) ! ci)" "oi < 16 \<Longrightarrow> orphan_ok (orphans (xp w) ! oi)"
    by (simp_all add: tables_ok_def)
  from o show "own_ok (own w) (stk w) (ker w)" "stack_wf (stk w)" by (simp_all add: own_ok_def)
qed

lemma x_invI_same:
  assumes "x_inv w" and "clients (xp w') = clients (xp w)" "orphans (xp w') = orphans (xp w)"
    and "own_ok (own w) (stk w') (ker w')"
  shows "x_inv w'"
  using assms other_frame [OF assms(2,3)] by (simp add: x_inv_def tables_ok_def)

lemma x_invI_client:
  assumes "x_inv w" and "ci < 16" and "client_ok c" and "own_ok (used (c_wins c) + other_clients ci w) (stk w') (ker w')"
    and "clients (xp w') = (clients (xp w))[ci := c]" "orphans (xp w') = orphans (xp w)"
  shows "x_inv w'"
proof -
  have "own w' = own (set_client ci c w)" using assms(5,6) by (simp add: own_def)
  also have "\<dots> = used (c_wins c) + other_clients ci w"
    using assms(2) x_invD(1) [OF assms(1)] by (intro own_client(2)) simp
  finally have "own_ok (own w') (stk w') (ker w')" using assms(4) by simp
  moreover have "tables_ok (xp w')"
    using assms(1,3,5,6) set_update_subset_insert [of "clients (xp w)" ci c]
    by (auto simp: x_inv_def tables_ok_def)
  ultimately show ?thesis by (simp add: x_inv_def)
qed

lemma x_invI_orphan:
  assumes "x_inv w" and "oi < 16" and "orphan_ok p" and "own_ok (used (o_wins p) + other_orphans oi w) (stk w') (ker w')"
    and "clients (xp w') = clients (xp w)" "orphans (xp w') = (orphans (xp w))[oi := p]"
  shows "x_inv w'"
proof -
  have "own w' = own (set_orphan oi p w)" using assms(5,6) by (simp add: own_def)
  also have "\<dots> = used (o_wins p) + other_orphans oi w"
    using assms(2) x_invD(2) [OF assms(1)] by (intro own_orphan(2)) simp
  finally have "own_ok (own w') (stk w') (ker w')" using assms(4) by simp
  moreover have "tables_ok (xp w')"
    using assms(1,3,5,6) set_update_subset_insert [of "orphans (xp w)" oi p]
    by (auto simp: x_inv_def tables_ok_def)
  ultimately show ?thesis by (simp add: x_inv_def)
qed

lemma row_ok_update: "row_ok cws \<Longrightarrow> (free_win cw \<Longrightarrow> cw_buf cw = None) \<Longrightarrow> row_ok (cws[k := cw])"
  using set_update_subset_insert [of cws k cw] by (auto simp: row_ok_def)

lemma x_invI_win:
  assumes "x_inv w" and "ci < 16" and "k < 64" and hello: "c_hello (clients (xp w) ! ci)"
    and cw: "free_win cw \<Longrightarrow> cw_buf cw = None"
    and "own_ok (slot cw + other_slots ci k w) (stk w') (ker w')"
    and "clients (xp w') = clients (xp (set_win ci k cw w))" "orphans (xp w') = orphans (xp w)"
  shows "x_inv w'"
proof -
  let ?c = "clients (xp w) ! ci"
  have ok: "client_ok ?c" using x_invD(3) [OF assms(1,2)] .
  have len: "ci < length (clients (xp w))" "k < length (c_wins ?c)"
    using assms(2,3) ok x_invD(1) [OF assms(1)] by (simp_all add: client_ok_def row_ok_def)
  have "own w' = own (set_win ci k cw w)" using assms(7,8) by (simp add: own_def)
  then have "own_ok (own w') (stk w') (ker w')" using own_win(2) [OF len] assms(6) by simp
  moreover have "client_ok (?c\<lparr>c_wins := (c_wins ?c)[k := cw]\<rparr>)"
    using ok hello cw by (simp add: client_ok_def row_ok_update)
  then have "tables_ok (xp w')"
    using assms(1,7,8) set_update_subset_insert [of "clients (xp w)" ci]
    by (auto simp: x_inv_def tables_ok_def set_win_def Let_def)
  ultimately show ?thesis by (simp add: x_inv_def)
qed

text \<open>Sending, closing descriptors and other traced calls.\<close>

lemma x_inv_trace:
  assumes "x_inv w" and "clients (xp w') = clients (xp w)" "orphans (xp w') = orphans (xp w)" "stk w' = stk w"
    and "maps (ker w') = maps (ker w)" "next_map (ker w') = next_map (ker w)"
  shows "x_inv w'"
  using assms(1-4) own_ok_frame [OF x_invD(5) [OF assms(1)] x_invD(6) [OF assms(1)] refl assms(5,6)]
  by (intro x_invI_same [OF assms(1)]) simp_all

lemma x_inv_send: "x_inv w \<Longrightarrow> x_inv (send_to f ev w)"
  by (rule x_inv_trace) simp_all

lemma x_inv_close_all: "x_inv w \<Longrightarrow> x_inv (close_all fds w)"
  by (rule x_inv_trace) simp_all

lemma send_owner_sel [simp]:
  "stk (send_owner i ev w) = stk w" "xp (send_owner i ev w) = xp w"
  "maps (ker (send_owner i ev w)) = maps (ker w)" "next_map (ker (send_owner i ev w)) = next_map (ker w)"
  by (simp_all add: send_owner_def split: option.split prod.split)

lemma notify_focus_sel [simp]:
  "stk (notify_focus i w) = stk w"
  "clients (xp (notify_focus i w)) = clients (xp w)" "orphans (xp (notify_focus i w)) = orphans (xp w)"
  "maps (ker (notify_focus i w)) = maps (ker w)" "next_map (ker (notify_focus i w)) = next_map (ker w)"
  by (simp_all add: notify_focus_def Let_def)

lemma x_inv_send_owner: "x_inv w \<Longrightarrow> x_inv (send_owner i ev w)"
  by (rule x_inv_trace) simp_all

lemma x_inv_notify_focus: "x_inv w \<Longrightarrow> x_inv (notify_focus i w)"
  by (rule x_inv_trace) simp_all

section \<open>Request handlers\<close>

lemma found_slot:
  assumes "x_inv w" "ci < 16" "win_find (clients (xp w) ! ci) wid = Some k"
  shows "k < 64" "\<not> free_win (the_win ci k w)" "client_wid (the_win ci k w) = wid" "wid \<noteq> 0"
    and "own w = add_mset (the_win ci k w) (other_slots ci k w)"
    and "own_ok (add_mset (the_win ci k w) (other_slots ci k w)) (stk w) (ker w)"
    and "c_hello (clients (xp w) ! ci)"
proof -
  let ?c = "clients (xp w) ! ci"
  have ok: "client_ok ?c" using x_invD(3) [OF assms(1,2)] .
  then have len: "ci < length (clients (xp w))" "length (c_wins ?c) = 64"
    using assms(2) x_invD(1) [OF assms(1)] by (simp_all add: client_ok_def row_ok_def)
  have wid: "wid \<noteq> 0" "find_index (\<lambda>cw. client_wid cw = wid) (c_wins ?c) = Some k"
    using assms(3) by (auto simp: win_find_def split: if_splits)
  from find_index_SomeD [OF wid(2)] len(2) show k: "k < 64" "client_wid (the_win ci k w) = wid"
    by (simp_all add: the_win_def)
  from wid show "wid \<noteq> 0" by simp
  with k show nf: "\<not> free_win (the_win ci k w)" by (simp add: free_win_def)
  then show own: "own w = add_mset (the_win ci k w) (other_slots ci k w)"
    using own_win(1) [OF len(1), of k] k len(2) by (simp add: slot_def)
  then show "own_ok (add_mset (the_win ci k w) (other_slots ci k w)) (stk w) (ker w)"
    using x_invD(5) [OF assms(1)] by simp
  have "the_win ci k w \<in># used (c_wins ?c)"
    using nf k len(2) by (simp add: used_def the_win_def)
  with ok show "c_hello ?c" by (auto simp: client_ok_def)
qed

lemma x_inv_stack:
  "x_inv w \<Longrightarrow> stack_wf s \<Longrightarrow> pix s = pix (stk w) \<Longrightarrow> x_inv (w\<lparr>stk := s\<rparr>)"
  by (rule x_invI_same [of w]) (simp_all add: own_ok_frame [OF x_invD(5)])

lemma x_inv_set_title: "x_inv w \<Longrightarrow> x_inv (on_set_title ci m w)"
  by (auto simp: on_set_title_def pix_modify_same stack_wf_modify x_invD(6) split: option.split
      intro!: x_inv_stack)

lemma x_inv_set_geometry: "x_inv w \<Longrightarrow> x_inv (on_set_geometry ci m w)"
  by (auto simp: on_set_geometry_def Let_def stack_wf_set_geometry x_invD(6) split: option.split
      intro!: x_inv_stack)

lemma x_inv_destroy_window:
  assumes "x_inv w" "ci < 16" shows "x_inv (on_destroy_window ci m w)"
proof (cases "win_find (clients (xp w) ! ci) (de_wid m)")
  case (Some k)
  note f = found_slot [OF assms Some]
  obtain cw s kr where d: "win_drop_buffer (the_win ci k w) (stk w, ker w) = (cw, s, kr)"
    using prod_cases3 by blast
  note ok = own_ok_drop_buffer [OF f(6) d]
  have "own_ok (other_slots ci k w) (window_destroy s (server_id cw)) kr"
    using ok(1,2) by (rule own_ok_destroy)
  then have "own_ok (slot no_win + other_slots ci k w) (window_destroy s (server_id (the_win ci k w))) kr"
    using ok(3) by simp
  then show ?thesis
    by (intro x_invI_win [OF assms f(1,7), where cw = no_win])
       (simp_all add: on_destroy_window_def Some Let_def d, simp_all add: no_win_def set_win_def Let_def)
qed (use assms in \<open>simp add: on_destroy_window_def\<close>)

lemma x_inv_fence:
  "x_inv w \<Longrightarrow> wait_fence b fds (ker w) = (fds', k') \<Longrightarrow> x_inv (w\<lparr>ker := k'\<rparr>)"
  by (rule x_inv_trace [of w]) (auto simp: wait_fence_def split: if_splits)

lemma x_inv_ker_close: "x_inv w \<Longrightarrow> x_inv (w\<lparr>ker := k_close f (ker w)\<rparr>)"
  by (rule x_inv_trace [of w]) simp_all

lemma k_mmap_None: "k_mmap f len b k = (None, k') \<Longrightarrow> maps k' = maps k \<and> next_map k' = next_map k"
  by (auto simp: k_mmap_def Let_def split: if_splits)

lemma k_mmap_Some: "k_mmap f len b k = (Some a, k') \<Longrightarrow>
    a = next_map k \<and> maps k' = (maps k)(a \<mapsto> len) \<and> next_map k' = Suc a"
  by (auto simp: k_mmap_def Let_def split: if_splits)

lemma x_inv_install:
  assumes inv: "x_inv w" and ci: "ci < 16" and found: "win_find (clients (xp w) ! ci) wid = Some k"
    and maps: "maps k2 = (maps (ker w))(a \<mapsto> buffer_len b)" "next_map k2 = Suc a" "a = next_map (ker w)"
  shows "x_inv (install_buffer ci k b a (w\<lparr>ker := k2\<rparr>))"
proof -
  note f = found_slot [OF inv ci found]
  have tw: "the_win ci k (w\<lparr>ker := k2\<rparr>) = the_win ci k w" by (simp add: the_win_def)
  obtain cw s kr where d: "win_drop_buffer (the_win ci k w) (stk w, k2) = (cw, s, kr)"
    using prod_cases3 by blast
  have cw: "client_wid cw = client_wid (the_win ci k w)"
    using d by (auto simp: win_drop_buffer_def split: option.splits)
  let ?cw = "cw\<lparr>cw_buf := Some a, cw_len := buffer_len b\<rparr>"
  have nf: "\<not> free_win ?cw" using cw f(3,4) by (simp add: free_win_def)
  have "own_ok (add_mset ?cw (other_slots ci k w)) (window_modify s (server_id cw) (attach_buffer b a)) kr"
    using own_ok_install [OF f(6) _ _ d, of "buffer_len b" b] maps by simp
  then show ?thesis
    using nf
    by (intro x_invI_win [OF inv ci f(1,7), where cw = ?cw])
       (simp_all add: install_buffer_def tw d Let_def slot_def set_win_def)
qed

lemma x_inv_commit:
  assumes "x_inv w" "ci < 16" shows "x_inv (on_commit e ci m fds w)"
proof -
  let ?b = "co_buffer m"
  obtain fds' k1 where wf: "wait_fence ?b fds (ker w) = (fds', k1)" by fastforce
  let ?w = "w\<lparr>ker := k1\<rparr>"
  have inv1: "x_inv ?w" using x_inv_fence [OF assms(1) wf] .
  show ?thesis
  proof (cases fds')
    case Nil
    with wf inv1 show ?thesis by (simp add: on_commit_def Let_def)
  next
    case (Cons f rest)
    have rej: "x_inv (w\<lparr>ker := k_close f k1\<rparr>)" using x_inv_ker_close [OF inv1, of f] by simp
    show ?thesis
    proof (cases "win_find (clients (xp w) ! ci) (co_wid m)")
      case None
      with wf Cons rej show ?thesis by (simp add: on_commit_def Let_def)
    next
      case (Some k)
      then have found: "win_find (clients (xp ?w) ! ci) (co_wid m) = Some k" by simp
      obtain base k2 where mm: "k_mmap f (buffer_len ?b) (os_map_ok e (call_no ?w)) k1 = (base, k2)" by fastforce
      have "x_inv (case base of None \<Rightarrow> w\<lparr>ker := k_close f k2\<rparr>
                    | Some a \<Rightarrow> install_buffer ci k ?b a (w\<lparr>ker := k_close f k2\<rparr>))"
      proof (cases base)
        case None
        with mm show ?thesis by (auto intro!: x_inv_trace [OF inv1] dest: k_mmap_None)
      next
        case (Some a)
        with mm have "a = next_map k1 \<and> maps k2 = (maps k1)(a \<mapsto> buffer_len ?b) \<and> next_map k2 = Suc a"
          by (simp add: k_mmap_Some)
        then show ?thesis using x_inv_install [OF inv1 assms(2) found, of "k_close f k2" a ?b] Some by simp
      qed
      then show ?thesis using wf Cons Some mm rej by (simp add: on_commit_def Let_def)
    qed
  qed
qed

lemma place_by_role_ok:
  assumes "stack_wf s"
  shows "stack_wf (place_by_role r i sw sh s)" "pix (place_by_role r i sw sh s) = pix s"
    "next_id (place_by_role r i sw sh s) = next_id s"
  using assms by (auto simp: place_by_role_def stack_wf_focus stack_wf_lower stack_wf_set_geometry)
    (simp_all add: window_set_geometry_def)

text \<open>The stack after a request's window has been created, flagged and placed.\<close>

lemma created_stack:
  assumes "window_create (stk w) r x y ww wh col t = (i, s1)" "i \<noteq> 0" "x_inv w" "\<not> ids_exhausted (stk w)"
  shows "own_ok (own w) (place_by_role r i sw sh (window_modify s1 i (\<lambda>v. v\<lparr>app_decorated := True\<rparr>))) (ker w)"
    and "own_ok (add_mset \<lparr>client_wid = wid, server_id = i, cw_buf = None, cw_len = l\<rparr> (own w))
           (place_by_role r i sw sh (window_modify s1 i (\<lambda>v. v\<lparr>app_decorated := True\<rparr>))) (ker w)"
proof -
  note c = own_ok_create [OF x_invD(5) [OF assms(3)] assms(1,2,4)]
  have wf: "stack_wf (window_modify s1 i (\<lambda>v. v\<lparr>app_decorated := True\<rparr>))"
    using c(2) by (simp add: own_ok_def stack_wf_modify)
  show "own_ok (own w) (place_by_role r i sw sh (window_modify s1 i (\<lambda>v. v\<lparr>app_decorated := True\<rparr>))) (ker w)"
    using c(2) place_by_role_ok [OF wf, of r i sw sh] by (rule_tac own_ok_frame) (simp_all add: pix_modify_same)
  show "own_ok (add_mset \<lparr>client_wid = wid, server_id = i, cw_buf = None, cw_len = l\<rparr> (own w))
      (place_by_role r i sw sh (window_modify s1 i (\<lambda>v. v\<lparr>app_decorated := True\<rparr>))) (ker w)"
    using c(1) [of wid l] place_by_role_ok [OF wf, of r i sw sh] by (rule_tac own_ok_frame) (simp_all add: pix_modify_same)
qed

lemma alloc_slot:
  assumes "x_inv w" "ci < 16" "win_alloc (clients (xp w) ! ci) = Some k"
  shows "k < 64" "free_win (the_win ci k w)" "cw_buf (the_win ci k w) = None" "own w = other_slots ci k w"
proof -
  have ok: "client_ok (clients (xp w) ! ci)" using x_invD(3) [OF assms(1,2)] .
  then have len: "ci < length (clients (xp w))" "length (c_wins (clients (xp w) ! ci)) = 64"
    using assms(2) x_invD(1) [OF assms(1)] by (simp_all add: client_ok_def row_ok_def)
  have "k < length (c_wins (clients (xp w) ! ci)) \<and> free_win (c_wins (clients (xp w) ! ci) ! k)"
    using assms(3) by (auto simp: win_alloc_def free_slot_def dest: find_index_SomeD)
  then show k: "k < 64" "free_win (the_win ci k w)" using len by (simp_all add: the_win_def)
  with ok len show "cw_buf (the_win ci k w) = None" by (simp add: client_ok_def row_ok_def the_win_def)
  from k show "own w = other_slots ci k w" using own_win(1) [OF len(1), of k] len(2) by (simp add: slot_def)
qed

text \<open>The two ways \<open>on_create_window\<close> can go, by what the client table and the stack allow.\<close>

lemma create_cases:
  obtains (refused) "win_find (clients (xp w) ! ci) (cr_wid m) \<noteq> None \<or> win_alloc (clients (xp w) ! ci) = None"
      "on_create_window ci m w = w"
  | (full) k s1 where "win_find (clients (xp w) ! ci) (cr_wid m) = None" "win_alloc (clients (xp w) ! ci) = Some k"
      "create_args m (stk w) = (0, s1)" "on_create_window ci m w = w\<lparr>stk := s1\<rparr>"
  | (made) k i s1 where "win_find (clients (xp w) ! ci) (cr_wid m) = None" "win_alloc (clients (xp w) ! ci) = Some k"
      "create_args m (stk w) = (i, s1)" "i \<noteq> 0" "on_create_window ci m w = announce ci m i (created ci k m i s1 w)"
proof (cases "win_find (clients (xp w) ! ci) (cr_wid m) \<noteq> None \<or> win_alloc (clients (xp w) ! ci) = None")
  case True
  then have "on_create_window ci m w = w"
    by (cases "win_find (clients (xp w) ! ci) (cr_wid m)") (simp_all add: on_create_window_def Let_def)
  with True refused show ?thesis by blast
next
  case False
  then obtain k where k: "win_find (clients (xp w) ! ci) (cr_wid m) = None" "win_alloc (clients (xp w) ! ci) = Some k"
    by auto
  obtain i s1 where c: "create_args m (stk w) = (i, s1)" by fastforce
  show ?thesis
  proof (cases "i = 0")
    case True
    then have "on_create_window ci m w = w\<lparr>stk := s1\<rparr>"
      by (simp add: on_create_window_def Let_def k c)
    with full k c True show ?thesis by blast
  next
    case False
    then have "on_create_window ci m w = announce ci m i (created ci k m i s1 w)"
      by (simp add: on_create_window_def Let_def k c)
    with made k c False show ?thesis by blast
  qed
qed

lemma announce_sel [simp]:
  "stk (announce ci m i w) = stk w" "clients (xp (announce ci m i w)) = clients (xp w)"
  "orphans (xp (announce ci m i w)) = orphans (xp w)"
  "maps (ker (announce ci m i w)) = maps (ker w)" "next_map (ker (announce ci m i w)) = next_map (ker w)"
  by (simp_all add: announce_def Let_def split: option.split)

lemma x_inv_announce: "x_inv w \<Longrightarrow> x_inv (announce ci m i w)"
  by (rule x_inv_trace) simp_all

lemma x_inv_create_window:
  assumes inv: "x_inv w" and ci: "ci < 16" and hello: "c_hello (clients (xp w) ! ci)"
    and left: "\<not> ids_exhausted (stk w)"
  shows "x_inv (on_create_window ci m w)"
proof (cases rule: create_cases [of w ci m])
  case refused
  with inv show ?thesis by simp
next
  case (full k s1)
  have "s1 = stk w"
    using full(3) x_invD(6) [OF inv] left
    by (auto simp: create_args_def window_create_def Let_def stack_wf_def ids_exhausted_def split: if_splits)
  with full(4) inv show ?thesis by simp
next
  case (made k i s1)
  note a = alloc_slot [OF inv ci made(2)] and c = made(3) [unfolded create_args_def]
  let ?cw = "(the_win ci k w)\<lparr>client_wid := cr_wid m, server_id := i\<rparr>"
  have cw: "?cw = \<lparr>client_wid = cr_wid m, server_id = i, cw_buf = None, cw_len = cw_len (the_win ci k w)\<rparr>"
    using a(3) by (cases "the_win ci k w") simp
  have "own_ok (slot ?cw + other_slots ci k w) (stk (created ci k m i s1 w)) (ker w)"
  proof (cases "cr_wid m = 0")
    case True
    with created_stack(1) [OF c made(4) inv left] a(4) show ?thesis
      by (simp add: slot_def free_win_def created_def Let_def)
  next
    case False
    with created_stack(2) [OF c made(4) inv left] a(4) show ?thesis
      unfolding cw by (simp add: slot_def free_win_def created_def Let_def cw)
  qed
  then have "x_inv (created ci k m i s1 w)"
    using a(3) by (intro x_invI_win [OF inv ci a(1) hello, where cw = ?cw]) (simp_all add: created_def Let_def)
  with made(5) show ?thesis by (simp add: x_inv_announce)
qed

lemma x_inv_set_cursor_state: "x_inv w \<Longrightarrow> x_inv (set_cursor_state c w)"
  by (rule x_inv_trace [of w]) (simp_all add: set_cursor_state_def)

lemma own_ok_later: "own_ok L s k \<Longrightarrow> maps k' = maps k \<Longrightarrow> next_map k \<le> next_map k' \<Longrightarrow> own_ok L s k'"
  by (auto simp: own_ok_def intro: owns_later)

lemma x_inv_set_cursor:
  assumes "x_inv w" shows "x_inv (on_set_cursor e m fds w)"
proof -
  let ?len = "nat (int_of_u32 (cu_width m)) * nat (int_of_u32 (cu_height m)) * 4"
  obtain base k1 where mm: "k_mmap (fds ! 0) ?len (os_map_ok e (call_no w)) (ker w) = (base, k1)" by fastforce
  have closing: "x_inv (w\<lparr>ker := close_fds fds (ker w)\<rparr>)"
    by (rule x_inv_trace [OF assms]) simp_all
  have failed: "x_inv (w\<lparr>ker := close_fds fds k1\<rparr>)" if "base = None"
    using mm that by (intro x_inv_trace [OF assms]) (auto dest: k_mmap_None)
  have mapped: "x_inv (set_cursor_state c (w\<lparr>ker := k_munmap a ?len (close_fds fds k1)\<rparr>))" if "base = Some a" for a c
  proof -
    have k1: "a = next_map (ker w)" "maps k1 = (maps (ker w))(a \<mapsto> ?len)" "next_map k1 = Suc a"
      using mm that by (auto dest: k_mmap_Some)
    have "maps (ker w) a = None"
      using x_invD(5) [OF assms] owns_fresh k1(1) by (auto simp: own_ok_def)
    then have "own_ok (own w) (stk w) (k_munmap a ?len (close_fds fds k1))"
      using k1 by (rule_tac own_ok_later [OF x_invD(5) [OF assms]]) (auto simp: fun_upd_idem)
    then have "x_inv (w\<lparr>ker := k_munmap a ?len (close_fds fds k1)\<rparr>)"
      by (rule_tac x_invI_same [OF assms]) simp_all
    then show ?thesis by (rule x_inv_set_cursor_state)
  qed
  show ?thesis
    using closing failed mapped mm unfolding on_set_cursor_def Let_def
    by (cases base) (simp_all add: mm x_inv_set_cursor_state)
qed

section \<open>Handing windows over\<close>

lemma row_ok_none [simp]: "row_ok (c_wins no_client)" "row_ok (o_wins no_orphan)"
  by (auto simp: row_ok_def no_client_def no_orphan_def no_win_def)

lemma none_ok [simp]: "client_ok no_client" "orphan_ok no_orphan"
  by (simp_all add: client_ok_def orphan_ok_def) (simp_all add: no_client_def)

lemma own_move:
  assumes "x_inv w" "ci < 16" "oi < 16"
  shows "own (set_client ci c' (set_orphan oi p w)) + used (o_wins (orphans (xp w) ! oi)) +
      used (c_wins (clients (xp w) ! ci)) = own w + used (c_wins c') + used (o_wins p)"
proof -
  have len: "ci < length (clients (xp w))" "oi < length (orphans (xp w))"
    using assms x_invD(1,2) [OF assms(1)] by simp_all
  let ?w1 = "set_orphan oi p w"
  have a: "own w = used (o_wins (orphans (xp w) ! oi)) + other_orphans oi w" "own ?w1 = used (o_wins p) + other_orphans oi w"
    using own_orphan [OF len(2)] by simp_all
  have b: "own ?w1 = used (c_wins (clients (xp w) ! ci)) + other_clients ci ?w1"
      "own (set_client ci c' ?w1) = used (c_wins c') + other_clients ci ?w1"
    using own_client [of ci ?w1] len(1) by simp_all
  have "own (set_client ci c' ?w1) + used (c_wins (clients (xp w) ! ci)) = used (c_wins c') + own ?w1"
    by (simp add: b ac_simps)
  then show ?thesis by (simp add: a ac_simps)
qed

lemma x_inv_reclaim:
  assumes inv: "x_inv w" and ci: "ci < 16" and fd: "0 \<le> c_fd (clients (xp w) ! ci)"
    and hello: "c_hello (clients (xp w) ! ci)" and none: "used (c_wins (clients (xp w) ! ci)) = {#}"
    and rec: "client_reclaim ci tok w = (n, w')"
  shows "x_inv w'" "0 \<le> c_fd (clients (xp w') ! ci)" "c_hello (clients (xp w') ! ci)"
proof -
  have "x_inv w' \<and> 0 \<le> c_fd (clients (xp w') ! ci) \<and> c_hello (clients (xp w') ! ci)"
  proof (cases "tok = 0 \<or> find_index (\<lambda>p. o_token p = tok) (orphans (xp w)) = None")
    case True
    then have "w' = w" using rec by (cases "tok = 0") (simp_all add: client_reclaim_def)
    with inv hello fd show ?thesis by simp
  next
    case False
    then obtain oi where oi: "tok \<noteq> 0" "find_index (\<lambda>p. o_token p = tok) (orphans (xp w)) = Some oi" by auto
    then have oi16: "oi < 16" using x_invD(2) [OF inv] by (auto dest: find_index_lt)
    let ?p = "orphans (xp w) ! oi" and ?c = "clients (xp w) ! ci"
    let ?c' = "?c\<lparr>c_wins := o_wins ?p, c_token := tok\<rparr>"
    have w': "w' = set_orphan oi no_orphan (set_client ci ?c' w)"
      using rec oi by (simp add: client_reclaim_def Let_def)
    have "own w' = own w"
      using own_move [OF inv ci oi16, of ?c' no_orphan] none
      by (simp add: w' own_def set_orphan_def set_client_def)
    moreover have "row_ok (o_wins ?p)" using x_invD(4) [OF inv oi16] by (simp add: orphan_ok_def)
    then have "client_ok ?c'" using hello fd by (simp add: client_ok_def)
    then have "tables_ok (xp w')"
      using inv set_update_subset_insert [of "clients (xp w)" ci ?c']
        set_update_subset_insert [of "orphans (xp w)" oi no_orphan]
      by (auto simp: w' x_inv_def tables_ok_def)
    ultimately have "x_inv w'" using x_invD(5) [OF inv] by (simp add: x_inv_def w')
    with ci x_invD(1) [OF inv] hello fd show ?thesis by (simp add: w')
  qed
  then show "x_inv w'" "0 \<le> c_fd (clients (xp w') ! ci)" "c_hello (clients (xp w') ! ci)" by auto
qed

lemma reap_wins_own:
  assumes "own_ok (used cws + L) (stk w) (ker w)"
  shows "own_ok L (stk (reap_wins cws w)) (ker (reap_wins cws w))"
proof -
  obtain s k where r: "fold reap_win cws (stk w, ker w) = (s, k)" by fastforce
  from own_ok_reap [OF assms r] r show ?thesis by (simp add: reap_wins_def)
qed

lemma x_inv_orphan_destroy:
  assumes "x_inv w" "oi < 16" shows "x_inv (orphan_destroy oi w)"
proof -
  have "own_ok (used (o_wins (orphans (xp w) ! oi)) + other_orphans oi w) (stk w) (ker w)"
    using own_orphan(1) [of oi w] x_invD(2,5) [OF assms(1)] assms(2) by simp
  from reap_wins_own [OF this] show ?thesis
    by (intro x_invI_orphan [OF assms, of no_orphan]) (simp_all add: orphan_destroy_def)
qed

lemma x_inv_expire_loop: "x_inv w \<Longrightarrow> \<forall>i \<in> set is. i < 16 \<Longrightarrow> x_inv (snd (expire_loop now is w))"
  by (induction now "is" w rule: expire_loop.induct) (simp_all add: Let_def x_inv_orphan_destroy)

lemma x_inv_expire: "x_inv w \<Longrightarrow> x_inv (snd (orphans_expire now w))"
  unfolding orphans_expire_def by (rule x_inv_expire_loop) simp_all

lemma park_slotD:
  "x_inv w \<Longrightarrow> park_slot c w = Some oi \<Longrightarrow> oi < 16 \<and> used (o_wins (orphans (xp w) ! oi)) = {#} \<and> c_token c \<noteq> 0"
  using x_invD(2) [of w] x_invD(4) [of w oi]
  by (auto simp: park_slot_def free_slot_def orphan_ok_def split: if_splits dest!: find_index_SomeD)

lemma x_inv_client_drop:
  assumes inv: "x_inv w" and ci: "ci < 16" shows "x_inv (client_drop e ci w)"
proof -
  let ?c = "clients (xp w) ! ci"
  show ?thesis
  proof (cases "park_slot ?c w")
    case None
    have "own_ok (used (c_wins ?c) + other_clients ci w) (stk w) (ker w)"
      using own_client(1) [of ci w] x_invD(1,5) [OF inv] ci by simp
    note reaped = reap_wins_own [OF this]
    then have "stack_wf (stk (reap_wins (c_wins ?c) w))" by (simp add: own_ok_def)
    with reaped have "own_ok (other_clients ci w) (stk (reap_wins (c_wins ?c) w)) (ker (client_drop e ci w))"
      by (rule own_ok_frame) (auto simp: client_drop_def None Let_def)
    then show ?thesis
      by (intro x_invI_client [OF inv ci, of no_client]) (simp_all add: client_drop_def None Let_def)
  next
    case (Some oi)
    note p = park_slotD [OF inv Some]
    let ?p = "\<lparr>o_token = c_token ?c, o_deadline = os_now e (call_no w) + CL_RECONNECT_GRACE_MS, o_wins = c_wins ?c\<rparr>"
    have own: "own (client_drop e ci w) = own w"
      using own_move [OF inv ci, of oi no_client ?p] p
      by (simp add: client_drop_def Some Let_def own_def set_orphan_def set_client_def)
    have "orphan_ok ?p" using x_invD(3) [OF inv ci] p by (simp add: orphan_ok_def client_ok_def)
    then have "tables_ok (xp (client_drop e ci w))"
      using inv set_update_subset_insert [of "clients (xp w)" ci no_client]
        set_update_subset_insert [of "orphans (xp w)" oi ?p]
      by (auto simp: x_inv_def tables_ok_def client_drop_def Some Let_def)
    moreover have "own_ok (own w) (stk w) (ker (client_drop e ci w))"
      using x_invD(5,6) [OF inv] by (rule_tac own_ok_frame) (auto simp: client_drop_def Some Let_def)
    ultimately show ?thesis by (simp add: x_inv_def own) (simp add: client_drop_def Some Let_def)
  qed
qed

section \<open>The life of a connection\<close>

lemma x_inv_next_token: "x_inv w \<Longrightarrow> x_inv (w\<lparr>xp := (xp w)\<lparr>next_token := tok\<rparr>\<rparr>)"
  by (rule x_inv_trace [of w]) simp_all

lemma x_inv_update_client:
  assumes "x_inv w" "ci < 16" "c_wins c = c_wins (clients (xp w) ! ci)" "client_ok c"
  shows "x_inv (set_client ci c w)"
  using own_client(1) [of ci w] x_invD(1,5) [OF assms(1)] assms(2-4)
  by (intro x_invI_client [OF assms(1,2,4)]) simp_all

lemma x_inv_hello:
  assumes inv: "x_inv w" and ci: "ci < 16" and fd: "0 \<le> c_fd (clients (xp w) ! ci)"
    and new: "\<not> c_hello (clients (xp w) ! ci)"
  shows "x_inv (snd (snd (dispatch_hello ci bs fds w)))"
proof -
  let ?c = "clients (xp w) ! ci"
  have none: "used (c_wins ?c) = {#}" and row: "row_ok (c_wins ?c)"
    using x_invD(3) [OF inv ci] new by (simp_all add: client_ok_def)
  let ?w1 = "set_client ci (?c\<lparr>c_hello := True\<rparr>) w"
  let ?tok = "if length bs \<ge> sizeof_hello then he_reconnect_token (get_hello bs) else 0"
  have inv1: "x_inv ?w1" using x_inv_update_client [OF inv ci] row fd by (simp add: client_ok_def)
  obtain n w2 where r: "client_reclaim ci ?tok ?w1 = (n, w2)" by fastforce
  have len: "ci < length (clients (xp w))" using x_invD(1) [OF inv] ci by simp
  note inv2 = x_inv_reclaim [OF inv1 ci _ _ _ r]
  have w2: "x_inv w2" "0 \<le> c_fd (clients (xp w2) ! ci)" "c_hello (clients (xp w2) ! ci)"
    using inv2 len fd none by simp_all
  obtain tok w3 where a: "assign_token w2 = (tok, w3)" by fastforce
  then have w3: "x_inv w3" "clients (xp w3) = clients (xp w2)"
    using x_inv_next_token [OF w2(1)] by (auto simp: assign_token_def Let_def)
  have "x_inv (set_client ci ((clients (xp w3) ! ci)\<lparr>c_token := tok\<rparr>) w3)"
    using x_invD(3) [OF w3(1) ci] by (intro x_inv_update_client [OF w3(1) ci]) (simp_all add: client_ok_def)
  then have acc: "x_inv (if n = 0 then set_client ci ((clients (xp w3) ! ci)\<lparr>c_token := tok\<rparr>) w3 else w2)"
    (is "x_inv ?acc") using w2(1) by simp
  have "x_inv (close_all fds (send_welcome f t ?acc))" for f t
    unfolding send_welcome_def using acc by (intro x_inv_close_all x_inv_send)
  then show ?thesis
    unfolding dispatch_hello_def drop_msg_def Let_def r a prod.case
    using x_inv_close_all [OF inv] by (simp only: if_distrib [of snd] snd_conv) (cases "n = 0"; simp)
qed

lemma x_inv_request:
  assumes "x_inv w" "ci < 16" "c_hello (clients (xp w) ! ci)" "\<not> ids_exhausted (stk w)"
  shows "x_inv (snd (snd (dispatch_request e ci bs fds w)))"
  using assms by (simp add: dispatch_request_def drop_msg_def Let_def x_inv_close_all x_inv_create_window
      x_inv_set_title x_inv_commit x_inv_destroy_window x_inv_set_geometry x_inv_set_cursor)

lemma x_inv_dispatch:
  assumes "x_inv w" "ci < 16" "0 \<le> c_fd (clients (xp w) ! ci)" "\<not> ids_exhausted (stk w)"
  shows "x_inv (snd (snd (dispatch e ci bs fds w)))"
  using assms by (simp add: dispatch_def drop_msg_def x_inv_close_all x_inv_hello x_inv_request)

section \<open>What the steps leave alone\<close>

text \<open>Requests never change which descriptors the clients are on, and create at most one handle.\<close>

definition fds_of :: "world \<Rightarrow> fd list" where
  "fds_of w = map c_fd (clients (xp w))"

lemma fds_of_sel [simp]:
  "fds_of (w\<lparr>stk := s\<rparr>) = fds_of w" "fds_of (w\<lparr>ker := k\<rparr>) = fds_of w"
  "fds_of (set_orphan oi p w) = fds_of w" "fds_of (send_to f ev w) = fds_of w" "fds_of (close_all fs w) = fds_of w"
  "fds_of (send_owner i evf w) = fds_of w" "fds_of (notify_focus i w) = fds_of w" "fds_of (set_cursor_state cs w) = fds_of w"
  by (simp_all add: fds_of_def set_cursor_state_def)

lemma fds_of_set_client [simp]:
  "c_fd c = c_fd (clients (xp w) ! ci) \<Longrightarrow> fds_of (set_client ci c w) = fds_of w"
  by (cases "ci < length (clients (xp w))") (simp_all add: fds_of_def map_update list_update_same_conv list_update_beyond)

lemma fds_of_set_win [simp]: "fds_of (set_win ci k cw w) = fds_of w"
  by (simp add: set_win_def Let_def)

lemma next_id_ops [simp]:
  "next_id (window_set_geometry s i x y w h) = next_id s" "next_id (place_by_role r i sw sh s) = next_id s"
  by (simp_all add: window_set_geometry_def place_by_role_def)

lemma next_id_create: "window_create s r x y w h col t = (i, s') \<Longrightarrow> unat (next_id s') \<le> Suc (unat (next_id s))"
proof -
  have "unat (next_id s + 1) \<le> Suc (unat (next_id s))" by unat_arith
  then show "window_create s r x y w h col t = (i, s') \<Longrightarrow> unat (next_id s') \<le> Suc (unat (next_id s))"
    by (auto simp: window_create_def Let_def split: if_splits)
qed

lemma drop_buffer_next [simp]: "win_drop_buffer cw sk = (cw', s', k') \<Longrightarrow> next_id s' = next_id (fst sk)"
  by (auto simp: win_drop_buffer_def split: option.splits)

lemma fds_of_announce [simp]: "fds_of (announce ci m i w) = fds_of w"
  by (simp add: fds_of_def)

lemma create_effect:
  "fds_of (on_create_window ci m w) = fds_of w \<and>
   unat (next_id (stk (on_create_window ci m w))) \<le> Suc (unat (next_id (stk w)))"
proof (cases rule: create_cases [of w ci m])
  case (full k s1)
  from next_id_create [OF full(3) [unfolded create_args_def]] full(4) show ?thesis by simp
next
  case (made k i s1)
  from next_id_create [OF made(3) [unfolded create_args_def]] made(5) show ?thesis
    by (simp add: created_def Let_def)
qed simp

lemma install_effect [simp]:
  "fds_of (install_buffer ci k b a w) = fds_of w" "next_id (stk (install_buffer ci k b a w)) = next_id (stk w)"
  by (auto simp: install_buffer_def Let_def split: prod.split)

lemma commit_effect:
  "fds_of (on_commit e ci m fds w) = fds_of w \<and> next_id (stk (on_commit e ci m fds w)) = next_id (stk w)"
  by (auto simp: on_commit_def Let_def split: prod.split list.split option.split)

lemma other_effects:
  "fds_of (on_set_title ci mt w) = fds_of w" "next_id (stk (on_set_title ci mt w)) = next_id (stk w)"
  "fds_of (on_destroy_window ci md w) = fds_of w" "next_id (stk (on_destroy_window ci md w)) = next_id (stk w)"
  "fds_of (on_set_geometry ci mg w) = fds_of w" "next_id (stk (on_set_geometry ci mg w)) = next_id (stk w)"
  "fds_of (on_set_cursor e mc fds w) = fds_of w" "next_id (stk (on_set_cursor e mc fds w)) = next_id (stk w)"
  by (auto simp: on_set_title_def on_destroy_window_def on_set_geometry_def on_set_cursor_def Let_def
      set_cursor_state_def split: option.split prod.split)
     (auto simp: fds_of_def)

lemma reclaim_effect:
  "client_reclaim ci tok w = (n, w') \<Longrightarrow> fds_of w' = fds_of w \<and> stk w' = stk w"
  by (auto simp: client_reclaim_def Let_def split: if_splits option.splits)

lemma hello_effect:
  "fds_of (snd (snd (dispatch_hello ci bs fds w))) = fds_of w \<and>
   stk (snd (snd (dispatch_hello ci bs fds w))) = stk w"
proof -
  let ?tok = "if length bs \<ge> sizeof_hello then he_reconnect_token (get_hello bs) else 0"
  let ?w1 = "set_client ci ((clients (xp w) ! ci)\<lparr>c_hello := True\<rparr>) w"
  obtain n w2 where r: "client_reclaim ci ?tok ?w1 = (n, w2)" by fastforce
  obtain tok w3 where a: "assign_token w2 = (tok, w3)" by fastforce
  have w2: "fds_of w2 = fds_of w \<and> stk w2 = stk w" using reclaim_effect [OF r] by simp
  moreover have "fds_of w3 = fds_of w2 \<and> stk w3 = stk w2"
    using a by (auto simp: assign_token_def Let_def fds_of_def)
  ultimately have "fds_of w3 = fds_of w \<and> stk w3 = stk w" by simp
  with w2 show ?thesis
    unfolding dispatch_hello_def drop_msg_def Let_def r a prod.case by (simp add: send_welcome_def)
qed

lemma dispatch_effect:
  "fds_of (snd (snd (dispatch e ci bs fds w))) = fds_of w \<and>
   unat (next_id (stk (snd (snd (dispatch e ci bs fds w))))) \<le> Suc (unat (next_id (stk w)))"
  using hello_effect [of ci bs fds w] create_effect [of ci "get_create_window bs" w] commit_effect [of e ci "get_commit bs" fds w]
  by (auto simp: dispatch_def dispatch_request_def drop_msg_def Let_def other_effects)

lemma reap_next [simp]: "next_id (stk (reap_wins cws w)) = next_id (stk w)"
proof -
  have "next_id (fst (reap_win cw sk)) = next_id (fst sk)" for cw sk
    by (auto simp: reap_win_def split: prod.split)
  then have "next_id (fst (fold reap_win cws sk)) = next_id (fst sk)" for sk
    by (induction cws arbitrary: sk) simp_all
  then show ?thesis by (simp add: reap_wins_def split: prod.split) (metis fst_conv)
qed

lemma client_drop_next [simp]: "next_id (stk (client_drop e ci w)) = next_id (stk w)"
  by (simp add: client_drop_def Let_def split: option.split)

end
