(* ===== verification/Transport_Run.thy ===== *)
theory Transport_Run
  imports Transport_Inv
begin

text \<open>
  Whole rounds of the transport: draining a client, handling a batch of epoll events,
  shutting down; and the interpretation of the table and machine interfaces.
\<close>

section \<open>Draining one client\<close>

lemma handles_left_step:
  "handles_left (Suc n) w \<Longrightarrow> unat (next_id (stk w')) \<le> Suc (unat (next_id (stk w))) \<Longrightarrow> handles_left n w'"
  by (simp add: handles_left_def)

lemma x_inv_ker: "x_inv w \<Longrightarrow> maps k = maps (ker w) \<Longrightarrow> next_map k = next_map (ker w) \<Longrightarrow> x_inv (w\<lparr>ker := k\<rparr>)"
  by (rule x_inv_trace [of w]) simp_all

lemma cl_recv_kern: "cl_recv cap rs k = (r, rest, k') \<Longrightarrow> maps k' = maps k \<and> next_map k' = next_map k"
  by (induction cap rs k rule: cl_recv.induct) (auto simp: Let_def split: if_splits)

lemma handles_left_mono: "handles_left n w \<Longrightarrow> m \<le> n \<Longrightarrow> handles_left m w"
  by (simp add: handles_left_def)

lemma readable_step:
  assumes inv: "x_inv w" and ci: "ci < 16" and fd: "0 \<le> fds_of w ! ci" and left: "handles_left (length rs) w"
    and recv: "cl_recv 256 rs (ker w) = (Ret_Data bs fds, rest, k)"
    and disp: "dispatch e ci bs fds (w\<lparr>ker := k\<rparr>) = (keep, d, w')"
  shows "x_inv w'" "0 \<le> fds_of w' ! ci" "handles_left (length rest) w'"
proof -
  have inv1: "x_inv (w\<lparr>ker := k\<rparr>)" using cl_recv_kern [OF recv] by (intro x_inv_ker [OF inv]) simp_all
  have "handles_left (Suc (length rest)) (w\<lparr>ker := k\<rparr>)"
    using left cl_recv_rest [OF recv] by (auto simp: handles_left_def)
  note left1 = this handles_left_exhausted [OF this]
  have len: "ci < length (clients (xp w))" using x_invD(1) [OF inv] ci by simp
  have w': "w' = snd (snd (dispatch e ci bs fds (w\<lparr>ker := k\<rparr>)))" by (simp add: disp)
  from fd len have fd0: "0 \<le> c_fd (clients (xp (w\<lparr>ker := k\<rparr>)) ! ci)" by (simp add: fds_of_def)
  from x_inv_dispatch [OF inv1 ci fd0 left1(2)] show "x_inv w'" by (simp add: w')
  show "0 \<le> fds_of w' ! ci" using dispatch_effect [of e ci bs fds "w\<lparr>ker := k\<rparr>"] fd by (simp add: w')
  show "handles_left (length rest) w'"
    using dispatch_effect [of e ci bs fds "w\<lparr>ker := k\<rparr>"]
    by (rule_tac handles_left_step [OF left1(1)]) (simp add: w')
qed

lemma x_inv_readable:
  "x_inv w \<Longrightarrow> ci < 16 \<Longrightarrow> 0 \<le> fds_of w ! ci \<Longrightarrow> handles_left (n + length rs) w \<Longrightarrow>
   x_inv (snd (client_readable e ci rs dirty w)) \<and> handles_left n (snd (client_readable e ci rs dirty w))"
proof (induction "length rs" arbitrary: rs dirty w rule: less_induct)
  case less
  obtain r rest k where recv: "cl_recv 256 rs (ker w) = (r, rest, k)" using prod_cases3 by blast
  have inv1: "x_inv (w\<lparr>ker := k\<rparr>)" using cl_recv_kern [OF recv] by (intro x_inv_ker [OF less.prems(1)]) simp_all
  have left: "handles_left n (w\<lparr>ker := k\<rparr>)" using less.prems(4) by (simp add: handles_left_def)
  note dropped = x_inv_client_drop [OF inv1 less.prems(2), of e]
  show ?case
  proof (cases r)
    case (Ret_Err err)
    with dropped inv1 left show ?thesis
      by (simp add: client_readable.simps [of e ci rs] recv Let_def handles_left_def)
  next
    case (Ret_Data bs fds)
    show ?thesis
    proof (cases "bs = []")
      case True
      with dropped left Ret_Data show ?thesis
        by (simp add: client_readable.simps [of e ci rs] recv Let_def handles_left_def)
    next
      case False
      obtain keep d w' where disp: "dispatch e ci bs fds (w\<lparr>ker := k\<rparr>) = (keep, d, w')" using prod_cases3 by blast
      have recv': "cl_recv 256 rs (ker w) = (Ret_Data bs fds, rest, k)" using recv Ret_Data by simp
      have shorter: "length rest < length rs" using cl_recv_rest [OF recv'] .
      have "handles_left (length rs) w" using less.prems(4) by (rule handles_left_mono) simp
      note st = readable_step [OF less.prems(1-3) this recv' disp]
      have "unat (next_id (stk w')) \<le> Suc (unat (next_id (stk w)))"
        using dispatch_effect [of e ci bs fds "w\<lparr>ker := k\<rparr>"] disp by simp
      moreover have "handles_left (Suc (n + length rest)) w"
        using shorter by (rule_tac handles_left_mono [OF less.prems(4)]) simp
      ultimately have left': "handles_left (n + length rest) w'" by (rule_tac handles_left_step)
      show ?thesis
      proof (cases keep)
        case True
        have "client_readable e ci rs dirty w = client_readable e ci rest (dirty \<or> d) w'"
          using False Ret_Data True by (simp add: client_readable.simps [of e ci rs] recv' disp Let_def)
        with less.hyps [OF shorter st(1) less.prems(2) st(2) left'] show ?thesis by simp
      next
        case False
        then have "client_readable e ci rs dirty w = (True, client_drop e ci w')"
          using \<open>bs \<noteq> []\<close> by (simp add: client_readable.simps [of e ci rs] recv' disp Let_def)
        with x_inv_client_drop [OF st(1) less.prems(2), of e] left' show ?thesis by (simp add: handles_left_def)
      qed
    qed
  qed
qed

section \<open>Accepting and batches of events\<close>

lemma x_inv_add_client:
  assumes "x_inv w" and "0 \<le> f" shows "x_inv (snd (transport_add_client e f w))"
proof (cases "client_by_fd w (-1)")
  case None
  with assms(1) show ?thesis by (simp add: transport_add_client_def x_inv_ker_close)
next
  case (Some ci)
  then have "ci < 16" "c_fd (clients (xp w) ! ci) = -1"
    using x_invD(1) [OF assms(1)] by (auto simp: client_by_fd_def dest: find_index_SomeD)
  then have none: "used (c_wins (clients (xp w) ! ci)) = {#}"
    using x_invD(3) [OF assms(1), of ci] by (simp add: client_ok_def)
  have own: "own_ok (other_clients ci w) (stk w) k" if "maps k = maps (ker w)" "next_map k = next_map (ker w)" for k
    using own_client(1) [of ci w] none x_invD(1,5,6) [OF assms(1)] \<open>ci < 16\<close> that
    by (rule_tac own_ok_frame) simp_all
  have "client_ok (no_client\<lparr>c_fd := f\<rparr>)"
    using assms(2) none_ok(1) by (simp add: client_ok_def)
  then have "x_inv (set_client ci (no_client\<lparr>c_fd := f\<rparr>) (w\<lparr>ker := k\<rparr>))" "x_inv (set_client ci no_client (w\<lparr>ker := k\<rparr>))"
    if "maps k = maps (ker w)" "next_map k = next_map (ker w)" for k
    using own [OF that] that
      x_invI_client [OF assms(1) \<open>ci < 16\<close>, of "no_client\<lparr>c_fd := f\<rparr>" "set_client ci (no_client\<lparr>c_fd := f\<rparr>) (w\<lparr>ker := k\<rparr>)"]
      x_invI_client [OF assms(1) \<open>ci < 16\<close>, of no_client "set_client ci no_client (w\<lparr>ker := k\<rparr>)"]
    by simp_all
  then show ?thesis by (simp add: transport_add_client_def Some Let_def)
qed

lemma add_client_next [simp]: "next_id (stk (snd (transport_add_client e f w))) = next_id (stk w)"
  by (simp add: transport_add_client_def Let_def split: option.split)

lemma x_inv_accept: "x_inv w \<Longrightarrow> \<forall>f \<in> set fs. 0 \<le> f \<Longrightarrow> x_inv (accept_pending e fs w) \<and>
    next_id (stk (accept_pending e fs w)) = next_id (stk w)"
  by (induction fs arbitrary: w) (simp_all add: accept_pending_def x_inv_add_client)

text \<open>The kernel's side of the contract: it hands out non-negative descriptors.\<close>

definition sane_event :: "epoll_event \<Rightarrow> bool" where
  "sane_event ev \<longleftrightarrow> 0 \<le> ev_fd ev \<and> (\<forall>f \<in> set (ev_accepts ev). 0 \<le> f)"

lemma x_inv_handle_event:
  assumes "x_inv w" and "sane_event ev" and "handles_left (n + length (ev_recv ev)) w"
  shows "x_inv (snd (handle_event e ev (dirty, w))) \<and> handles_left n (snd (handle_event e ev (dirty, w)))"
proof -
  have left: "handles_left n w" using handles_left_mono [OF assms(3)] by simp
  show ?thesis
  proof (cases "ev_fd ev = x_listen (xp w) \<or> client_by_fd w (ev_fd ev) = None")
    case True
    then show ?thesis
      using assms(1,2) left x_inv_accept [OF assms(1), of "ev_accepts ev" e]
      by (auto simp: handle_event_def sane_event_def handles_left_def)
  next
    case False
    then obtain ci where ci: "client_by_fd w (ev_fd ev) = Some ci" by auto
    then have "ci < length (clients (xp w)) \<and> c_fd (clients (xp w) ! ci) = ev_fd ev"
      by (auto simp: client_by_fd_def dest: find_index_SomeD)
    then have "ci < 16" "0 \<le> fds_of w ! ci"
      using assms(2) x_invD(1) [OF assms(1)] by (auto simp: fds_of_def sane_event_def)
    with assms(1,3) left False ci show ?thesis
      using x_inv_client_drop [OF assms(1) \<open>ci < 16\<close>, of e]
        x_inv_readable [OF assms(1) \<open>ci < 16\<close> \<open>0 \<le> fds_of w ! ci\<close> assms(3), of e dirty]
      by (simp add: handle_event_def handles_left_def)
  qed
qed

lemma x_inv_handle_events:
  "x_inv w \<Longrightarrow> \<forall>ev \<in> set evs. sane_event ev \<Longrightarrow> handles_left (n + sum_list (map (length o ev_recv) evs)) w \<Longrightarrow>
   x_inv (snd (fold (handle_event e) evs (dirty, w))) \<and> handles_left n (snd (fold (handle_event e) evs (dirty, w)))"
proof (induction evs arbitrary: dirty w)
  case (Cons ev evs)
  obtain d' w' where h: "handle_event e ev (dirty, w) = (d', w')" by fastforce
  have "handles_left ((n + sum_list (map (length o ev_recv) evs)) + length (ev_recv ev)) w"
    using Cons.prems(3) by (simp add: ac_simps comp_def)
  from x_inv_handle_event [OF Cons.prems(1) _ this, of e dirty] Cons.prems(2) h
  have "x_inv w'" "handles_left (n + sum_list (map (length o ev_recv) evs)) w'" by auto
  from Cons.IH [OF this(1) _ this(2)] Cons.prems(2) h show ?case by simp
qed simp

lemma expire_loop_next: "next_id (stk (snd (expire_loop now is w))) = next_id (stk w)"
  by (induction now "is" w rule: expire_loop.induct) (simp_all add: Let_def orphan_destroy_def)

text \<open>The datagrams queued for a round bound the handles it can use up.\<close>

definition queued :: "epoll_event list \<Rightarrow> nat" where
  "queued evs = sum_list (map (length o ev_recv) evs)"

lemma x_inv_process:
  assumes "x_inv w" and "\<forall>ev \<in> set evs. sane_event ev" and "handles_left (n + queued evs) w"
  shows "x_inv (snd (transport_process e evs w)) \<and> handles_left n (snd (transport_process e evs w))"
proof -
  obtain d w1 where ex: "orphans_expire (os_now e (call_no w)) w = (d, w1)" by fastforce
  have "x_inv w1" using x_inv_expire [OF assms(1), of "os_now e (call_no w)"] by (simp add: ex)
  moreover have "next_id (stk w1) = next_id (stk w)"
    using expire_loop_next ex unfolding orphans_expire_def by (metis snd_conv)
  then have "handles_left (n + queued evs) w1" using assms(3) by (simp add: handles_left_def)
  ultimately show ?thesis
    using x_inv_handle_events [of w1 evs n e d] assms(2) by (simp add: transport_process_def ex queued_def)
qed

section \<open>Shutting down\<close>

lemma x_inv_drop_live: "x_inv w \<Longrightarrow> ci < 16 \<Longrightarrow> x_inv (drop_live e ci w)"
  by (simp add: drop_live_def x_inv_client_drop)

lemma x_inv_reap_parked: "x_inv w \<Longrightarrow> oi < 16 \<Longrightarrow> x_inv (reap_parked oi w)"
  by (simp add: reap_parked_def x_inv_orphan_destroy)

lemma clients_drop [simp]:
  "clients (xp (client_drop e ci w)) = (clients (xp w))[ci := no_client]"
  by (simp add: client_drop_def Let_def split: option.split)

lemma drop_live_clients:
  "clients (xp (drop_live e ci w)) =
     (if c_fd (clients (xp w) ! ci) \<ge> 0 then (clients (xp w))[ci := no_client] else clients (xp w))"
  by (simp add: drop_live_def)

lemma reap_parked_tables:
  "clients (xp (reap_parked oi w)) = clients (xp w)"
  "orphans (xp (reap_parked oi w)) =
     (if o_token (orphans (xp w) ! oi) \<noteq> 0 then (orphans (xp w))[oi := no_orphan] else orphans (xp w))"
  by (simp_all add: reap_parked_def orphan_destroy_def)

lemma drop_all:
  "x_inv w \<Longrightarrow> n \<le> 16 \<Longrightarrow> x_inv (fold (drop_live e) [0..<n] w) \<and>
    (\<forall>i < n. c_fd (clients (xp (fold (drop_live e) [0..<n] w)) ! i) < 0)"
proof (induction n)
  case (Suc n)
  define v where "v = fold (drop_live e) [0..<n] w"
  have IH: "x_inv v" "\<forall>i < n. c_fd (clients (xp v) ! i) < 0" using Suc by (simp_all add: v_def)
  have step: "fold (drop_live e) [0..<Suc n] w = drop_live e n v" by (simp add: v_def)
  have "c_fd no_client < 0" by (simp add: no_client_def)
  then have "\<forall>i < Suc n. c_fd (clients (xp (drop_live e n v)) ! i) < 0"
    using IH(2) x_invD(1) [OF IH(1)] Suc.prems(2)
    by (auto simp: drop_live_clients less_Suc_eq nth_list_update)
  with x_inv_drop_live [OF IH(1), of n e] Suc.prems(2) show ?case unfolding step by simp
qed simp

lemma reap_all:
  "x_inv w \<Longrightarrow> n \<le> 16 \<Longrightarrow> x_inv (fold reap_parked [0..<n] w) \<and>
    clients (xp (fold reap_parked [0..<n] w)) = clients (xp w) \<and>
    (\<forall>i < n. o_token (orphans (xp (fold reap_parked [0..<n] w)) ! i) = 0)"
proof (induction n)
  case (Suc n)
  define v where "v = fold reap_parked [0..<n] w"
  have IH: "x_inv v" "clients (xp v) = clients (xp w)" "\<forall>i < n. o_token (orphans (xp v) ! i) = 0"
    using Suc by (simp_all add: v_def)
  have step: "fold reap_parked [0..<Suc n] w = reap_parked n v" by (simp add: v_def)
  have "o_token no_orphan = 0" by (simp add: no_orphan_def)
  then have "\<forall>i < Suc n. o_token (orphans (xp (reap_parked n v)) ! i) = 0"
    using IH(3) x_invD(2) [OF IH(1)] Suc.prems(2)
    by (auto simp: reap_parked_tables less_Suc_eq nth_list_update)
  with x_inv_reap_parked [OF IH(1), of n] IH(2) Suc.prems(2) show ?case
    unfolding step by (simp add: reap_parked_tables)
qed simp

lemma sum_empty: "(\<And>x. x \<in> set xs \<Longrightarrow> f x = {#}) \<Longrightarrow> (\<Sum>x\<leftarrow>xs. f x) = {#}"
  by (induction xs) simp_all

lemma own_none:
  assumes "x_inv w" "\<forall>i < 16. c_fd (clients (xp w) ! i) < 0" "\<forall>i < 16. o_token (orphans (xp w) ! i) = 0"
  shows "own w = {#}"
proof -
  have "used (c_wins c) = {#}" if "c \<in> set (clients (xp w))" for c
    using that assms(1,2) x_invD(1) [OF assms(1)] x_invD(3) [OF assms(1)]
    by (auto simp: in_set_conv_nth client_ok_def)
  moreover have "used (o_wins p) = {#}" if "p \<in> set (orphans (xp w))" for p
    using that assms(1,3) x_invD(2) [OF assms(1)] x_invD(4) [OF assms(1)]
    by (auto simp: in_set_conv_nth orphan_ok_def)
  ultimately show ?thesis by (simp add: own_def sum_empty)
qed

lemma destroy_releases:
  assumes "x_inv w" shows "own_ok {#} (stk (transport_destroy e w)) (ker (transport_destroy e w))"
proof -
  let ?w1 = "fold (drop_live e) [0..<16] w" and ?w2 = "fold reap_parked [0..<16] (fold (drop_live e) [0..<16] w)"
  have w1: "x_inv ?w1" "\<forall>i < 16. c_fd (clients (xp ?w1) ! i) < 0" using drop_all [OF assms, of 16 e] by auto
  have w2: "x_inv ?w2" "clients (xp ?w2) = clients (xp ?w1)" "\<forall>i < 16. o_token (orphans (xp ?w2) ! i) = 0"
    using reap_all [OF w1(1), of 16] by auto
  have "own ?w2 = {#}" using own_none [OF w2(1)] w1(2) w2(2,3) by simp
  then have "own_ok {#} (stk ?w2) (ker ?w2)" using x_invD(5) [OF w2(1)] by simp
  moreover have "stk (transport_destroy e w) = stk ?w2" "maps (ker (transport_destroy e w)) = maps (ker ?w2)"
    "next_map (ker (transport_destroy e w)) = next_map (ker ?w2)"
    by (simp_all add: transport_destroy_def Let_def del: upt_rec_numeral)
  ultimately show ?thesis by (simp add: own_ok_def)
qed

section \<open>The tables as slot tables\<close>

interpretation win_table: slot_table free_win no_win
  by unfold_locales simp

interpretation client_table: slot_table "\<lambda>c. c_fd c = -1" no_client
  by unfold_locales (simp add: no_client_def)

interpretation orphan_table: slot_table "\<lambda>p. o_token p = 0" no_orphan
  by unfold_locales (simp add: no_orphan_def)

section \<open>The transport as a machine over everything that can happen to it\<close>

datatype x_event =
    X_Process os "epoll_event list"
  | X_Connect os fd
  | X_Focus u32
  | X_Geometry u32
  | X_Motion int int
  | X_Button u32 bool int int
  | X_Key u32 u32 bool
  | X_Screen int int
  | X_Shell stack_op

fun x_step :: "x_event \<Rightarrow> world \<Rightarrow> world" where
  "x_step (X_Process e evs) w = snd (transport_process e evs w)"
| "x_step (X_Connect e f) w = snd (transport_add_client e f w)"
| "x_step (X_Focus i) w = transport_update_focus i w"
| "x_step (X_Geometry i) w = transport_notify_geometry i w"
| "x_step (X_Motion cx cy) w = transport_pointer_motion cx cy w"
| "x_step (X_Button b p cx cy) w = transport_pointer_button b p cx cy w"
| "x_step (X_Key i k p) w = transport_keyboard_key i k p w"
| "x_step (X_Screen nw nh) w = transport_broadcast_screen nw nh w"
| "x_step (X_Shell p) w = w\<lparr>stk := stack_step p (stk w)\<rparr>"

text \<open>
  The shell may reorder, move, resize and focus any window, but the transport's windows
  are the transport's to open and close; the kernel hands out non-negative descriptors;
  and a round starts with enough handles for the datagrams queued.
\<close>

fun x_ok :: "world \<Rightarrow> x_event \<Rightarrow> bool" where
  "x_ok w (X_Process e evs) = ((\<forall>ev \<in> set evs. sane_event ev) \<and> handles_left (queued evs) w)"
| "x_ok w (X_Connect e f) = (0 \<le> f)"
| "x_ok w (X_Shell (Create r x y ww wh c t)) = False"
| "x_ok w (X_Shell (Destroy i)) = False"
| "x_ok w _ = True"

lemma pix_focus_loop: "stack_wf s \<Longrightarrow> pix (focus_cycle_loop s start step n left) = pix s"
  by (induction s start step n left rule: focus_cycle_loop.induct) (simp add: Let_def)+

lemma pix_stack_step:
  "stack_wf s \<Longrightarrow> (\<forall>r x y w h c t. p \<noteq> Create r x y w h c t) \<Longrightarrow> (\<forall>i. p \<noteq> Destroy i) \<Longrightarrow> pix (stack_step p s) = pix s"
  by (cases p) (auto simp: window_move_def pix_modify_same window_focus_cycle_def pix_focus_loop,
      simp add: pix_def by_id_raise fun_eq_iff)

lemma stack_step_wf_shell:
  "stack_wf s \<Longrightarrow> (\<forall>r x y w h c t. p \<noteq> Create r x y w h c t) \<Longrightarrow> stack_wf (stack_step p s)"
  by (cases p) (simp_all add: stack_wf_destroy stack_wf_raise stack_wf_lower stack_wf_move stack_wf_set_geometry
      stack_wf_focus stack_wf_focus_cycle)

lemma broadcast_fold:
  "x_inv w \<Longrightarrow> x_inv (fold (\<lambda>c w. if c_fd c \<ge> 0 \<and> c_hello c then send_to (c_fd c) ev w else w) cs w)"
  by (induction cs arbitrary: w) (simp_all add: x_inv_send)

lemma x_step_inv: "x_inv w \<Longrightarrow> x_ok w ev \<Longrightarrow> x_inv (x_step ev w)"
proof (cases ev)
  case (X_Process e evs)
  assume "x_inv w" "x_ok w ev"
  with X_Process show ?thesis using x_inv_process [of w evs 0 e] by simp
next
  case (X_Screen nw nh)
  assume "x_inv w"
  then have "x_inv (transport_set_screen nw nh w)"
    by (rule x_inv_trace) (simp_all add: transport_set_screen_def)
  then show ?thesis using X_Screen by (simp add: transport_broadcast_screen_def broadcast_fold)
next
  case (X_Shell p)
  assume "x_inv w" and "x_ok w ev"
  with X_Shell show ?thesis
    by (cases p) (auto intro!: x_inv_stack stack_step_wf_shell pix_stack_step simp: x_invD(6)
        simp del: stack_step.simps)
qed (simp_all add: transport_update_focus_def transport_notify_geometry_def transport_pointer_motion_def
      transport_pointer_button_def transport_keyboard_key_def pointer_event_def x_inv_notify_focus
      x_inv_send_owner x_inv_add_client split: option.split)

interpretation x_machine: guarded_machine x_step x_ok x_inv
  by unfold_locales (rule x_step_inv)

end
