(* ===== verification/Transport_Fds.thy ===== *)
theory Transport_Fds
  imports Transport_Run
begin

text \<open>
  The descriptors that come with a message: what \<open>dispatch\<close> closes.
\<close>

definition closed_by :: "world \<Rightarrow> fd list" where
  "closed_by w = closed (trace (ker w))"

lemma closed_by_sel [simp]:
  "closed_by (w\<lparr>stk := s\<rparr>) = closed_by w" "closed_by (set_client ci c w) = closed_by w"
  "closed_by (set_orphan oi p w) = closed_by w" "closed_by (set_win ci k cw w) = closed_by w"
  "closed_by (send_to f ev w) = closed_by w" "closed_by (close_all fds w) = closed_by w @ fds"
  "closed_by (set_cursor_state cs w) = closed_by w" "closed_by (w\<lparr>xp := x\<rparr>) = closed_by w"
  by (simp_all add: closed_by_def set_cursor_state_def)

lemma closed_by_owner [simp]: "closed_by (send_owner i g w) = closed_by w"
  by (simp add: send_owner_def split: option.split prod.split)

lemma closed_by_notify [simp]: "closed_by (notify_focus i w) = closed_by w"
  by (simp add: notify_focus_def Let_def)

lemma closed_by_welcome [simp]: "closed_by (send_welcome f t w) = closed_by w"
  by (simp add: send_welcome_def)

lemma closed_drop_buffer: "win_drop_buffer cw sk = (cw', s, k) \<Longrightarrow> closed (trace k) = closed (trace (snd sk))"
  by (auto simp: win_drop_buffer_def split: option.splits)

lemma closed_by_create [simp]: "closed_by (on_create_window ci m w) = closed_by w"
  by (cases rule: create_cases [of w ci m])
     (simp_all add: announce_def created_def Let_def split: option.split)

lemma closed_by_title [simp]: "closed_by (on_set_title ci m w) = closed_by w"
  by (simp add: on_set_title_def split: option.split)

lemma closed_by_geometry [simp]: "closed_by (on_set_geometry ci m w) = closed_by w"
  by (simp add: on_set_geometry_def Let_def split: option.split)

lemma closed_by_destroy [simp]: "closed_by (on_destroy_window ci m w) = closed_by w"
proof (cases "win_find (clients (xp w) ! ci) (de_wid m)")
  case (Some k)
  obtain cw s kr where d: "win_drop_buffer (the_win ci k w) (stk w, ker w) = (cw, s, kr)"
    using prod_cases3 by blast
  with closed_drop_buffer [OF d] Some show ?thesis by (simp add: on_destroy_window_def Let_def) (simp add: closed_by_def)
qed (simp add: on_destroy_window_def)

lemma closed_by_install [simp]: "closed_by (install_buffer ci k b a w) = closed_by w"
proof -
  obtain cw s kr where d: "win_drop_buffer (the_win ci k w) (stk w, ker w) = (cw, s, kr)"
    using prod_cases3 by blast
  with closed_drop_buffer [OF d] show ?thesis by (simp add: install_buffer_def Let_def) (simp add: closed_by_def)
qed

lemma closed_mmap: "k_mmap f n b k = (base, k') \<Longrightarrow> closed (trace k') = closed (trace k)"
  by (auto simp: k_mmap_def Let_def split: if_splits)

lemma closed_by_cursor: "closed_by (on_set_cursor e m fds w) = closed_by w @ fds"
proof -
  obtain base k1 where mm: "k_mmap (fds ! 0) (nat (int_of_u32 (cu_width m)) * nat (int_of_u32 (cu_height m)) * 4)
      (os_map_ok e (call_no w)) (ker w) = (base, k1)" by fastforce
  show ?thesis
    unfolding on_set_cursor_def Let_def mm prod.case using closed_mmap [OF mm]
    by (simp split: option.split) (simp add: closed_by_def)
qed

text \<open>A commit closes the fence, if it says there is one, and the buffer; nothing else.\<close>

lemma closed_by_commit:
  "closed_by (on_commit e ci m fds w) =
     closed_by w @ (if b_has_fence (co_buffer m) \<noteq> 0 \<and> length fds \<ge> 2 then [fds ! 1] else []) @ take 1 fds"
proof -
  let ?b = "co_buffer m"
  obtain fds' k1 where wf: "wait_fence ?b fds (ker w) = (fds', k1)" by fastforce
  then have k1: "closed (trace k1) = closed_by w @ (if b_has_fence ?b \<noteq> 0 \<and> length fds \<ge> 2 then [fds ! 1] else [])"
      and fds': "take 1 fds' = take 1 fds"
    by (auto simp: wait_fence_def closed_by_def split: if_splits)
  show ?thesis
  proof (cases fds')
    case Nil
    with wf k1 fds' show ?thesis by (simp add: on_commit_def Let_def closed_by_def)
  next
    case (Cons f rest)
    obtain base k2 where mm: "k_mmap f (buffer_len ?b) (os_map_ok e (call_no (w\<lparr>ker := k1\<rparr>))) k1 = (base, k2)"
      by fastforce
    have f: "take 1 fds = [f]" using fds' Cons by simp
    have "closed_by (on_commit e ci m fds w) = closed (trace k1) @ [f]"
      unfolding on_commit_def Let_def wf prod.case Cons list.case mm
      using closed_mmap [OF mm] by (simp split: option.split) (simp add: closed_by_def)
    with k1 f show ?thesis by simp
  qed
qed

lemma closed_by_hello: "closed_by (snd (snd (dispatch_hello ci bs fds w))) = closed_by w @ fds"
proof -
  let ?tok = "if length bs \<ge> sizeof_hello then he_reconnect_token (get_hello bs) else 0"
  let ?w1 = "set_client ci ((clients (xp w) ! ci)\<lparr>c_hello := True\<rparr>) w"
  obtain n w2 where r: "client_reclaim ci ?tok ?w1 = (n, w2)" by fastforce
  obtain tok w3 where a: "assign_token w2 = (tok, w3)" by fastforce
  have "closed_by w2 = closed_by w"
    using r by (auto simp: client_reclaim_def Let_def split: if_splits option.splits)
  moreover have "closed_by w3 = closed_by w2" using a by (auto simp: assign_token_def Let_def)
  ultimately show ?thesis
    unfolding dispatch_hello_def drop_msg_def Let_def r a prod.case by simp
qed

text \<open>The one message that leaves a descriptor open.\<close>

definition unfenced_second_fd :: "u8 list \<Rightarrow> fd list \<Rightarrow> bool" where
  "unfenced_second_fd bs fds \<longleftrightarrow>
     rd32 bs 0 = type_code CL_COMMIT \<and> b_has_fence (co_buffer (get_commit bs)) = 0 \<and> length fds = 2"

lemma commit_bytes:
  "rd32 (encode_request (Commit m)) 0 = 4" "get_commit (encode_request (Commit m)) = m"
  "length (encode_request (Commit m)) = 48"
proof -
  have "decode_request (encode_request (Commit m) @ []) = Some (Commit m)"
    by (rule decode_encode) simp
  then show "get_commit (encode_request (Commit m)) = m" "rd32 (encode_request (Commit m)) 0 = 4"
    by (auto simp: decode_request_def Let_def simp del: encode_request.simps split: if_splits)
  show "length (encode_request (Commit m)) = 48" by (simp add: Let_def)
qed

section \<open>A concrete world\<close>

text \<open>One client on descriptor 7 that has said hello, and no window yet.\<close>

definition demo_os :: os where
  "demo_os = \<lparr>os_now = \<lambda>_. 0, os_map_ok = \<lambda>_. True, os_pixels = \<lambda>_ _. 0, os_epoll_ok = \<lambda>_. True\<rparr>"

definition empty_kern :: "cl_event kern" where
  "empty_kern = \<lparr>maps = Map.empty, next_map = 0, trace = []\<rparr>"

definition empty_world :: "window_stack \<Rightarrow> world" where
  "empty_world s = \<lparr>xp = the (transport_create 1920 1080 3), stk = s, ker = empty_kern\<rparr>"

definition demo_client :: cl_client where
  "demo_client = no_client\<lparr>c_fd := 7, c_hello := True, c_token := 1\<rparr>"

definition demo_world :: world where
  "demo_world = set_client 0 demo_client (empty_world window_stack_init)"

lemma demo_client0: "clients (xp demo_world) ! 0 = demo_client"
  by (simp add: demo_world_def empty_world_def transport_create_def)

definition demo_commit :: "u32 \<Rightarrow> cl_commit" where
  "demo_commit fence = \<lparr>co_wid = 1, co_buffer = \<lparr>b_kind = 0, b_width = 480, b_height = 320, b_stride = 1920,
     b_format = CL_FORMAT_XRGB8888, b_modifier = 0, b_has_fence = fence, b_pad = 0\<rparr>\<rparr>"

section \<open>Properties\<close>

text \<open>
  C12: Whatever a datagram contains, dispatching it closes every descriptor that came with
  it exactly once, whether the message is honoured, rejected or malformed, unless it is a
  commit that brings a second descriptor without announcing a fence.
\<close>

theorem dispatch_closes_fds:
  assumes "length fds \<le> CL_MAX_FDS" and "\<not> unfenced_second_fd bs fds"
  shows "\<exists>cl. closed (trace (ker (snd (snd (dispatch e ci bs fds w))))) = closed (trace (ker w)) @ cl \<and>
    mset cl = mset fds"
proof -
  have two: "fds = [] \<or> (\<exists>a. fds = [a]) \<or> (\<exists>a b. fds = [a, b])"
    using assms(1) by (auto simp: le_Suc_eq length_Suc_conv numeral_2_eq_2)
  have "\<exists>cl. closed_by (snd (snd (dispatch e ci bs fds w))) = closed_by w @ cl \<and> mset cl = mset fds"
  proof (cases "c_hello (clients (xp w) ! ci) \<and> 48 \<le> length bs \<and> rd32 bs 0 = 4")
    case True
    then have "dispatch e ci bs fds w = (True, True, on_commit e ci (get_commit bs) fds w)"
      by (simp add: dispatch_def dispatch_request_def Let_def)
    moreover have "b_has_fence (co_buffer (get_commit bs)) \<noteq> 0 \<or> length fds \<noteq> 2"
      using assms(2) True by (auto simp: unfenced_second_fd_def)
    ultimately show ?thesis using two by (auto simp: closed_by_commit)
  next
    case False
    then have "closed_by (snd (snd (dispatch e ci bs fds w))) = closed_by w @ fds"
      using closed_by_hello [of ci bs fds w]
      by (auto simp: dispatch_def dispatch_request_def drop_msg_def Let_def closed_by_cursor)
    then show ?thesis by blast
  qed
  then show ?thesis by (simp add: closed_by_def)
qed

theorem dispatch_closes_fds_witness:
  "\<exists>cl. closed (trace (ker (snd (snd (dispatch demo_os 0 (encode_request (Commit (demo_commit 1))) [9, 10]
      demo_world))))) = closed (trace (ker demo_world)) @ cl \<and> mset cl = {#9, 10#}"
proof -
  have "\<not> unfenced_second_fd (encode_request (Commit (demo_commit 1))) [9, 10]"
    by (simp add: unfenced_second_fd_def commit_bytes demo_commit_def del: encode_request.simps)
  from dispatch_closes_fds [OF _ this, of demo_os 0 demo_world] show ?thesis by simp
qed

text \<open>
  A commit from a client that has said hello, with two descriptors and \<open>has_fence\<close> 0,
  leaks the second one: the handler closes the buffer's and returns as the owner of both.
\<close>

theorem commit_leaks_unfenced_fd:
  assumes "unfenced_second_fd bs [f0, f1]" and "f1 \<noteq> f0" and "c_hello (clients (xp w) ! ci)"
    and "sizeof_commit \<le> length bs"
  shows "\<exists>w'. dispatch e ci bs [f0, f1] w = (True, True, w') \<and>
    closed (trace (ker w')) = closed (trace (ker w)) @ [f0]"
proof -
  have "dispatch e ci bs [f0, f1] w = (True, True, on_commit e ci (get_commit bs) [f0, f1] w)"
    using assms by (simp add: dispatch_def dispatch_request_def Let_def unfenced_second_fd_def)
  moreover have "closed_by (on_commit e ci (get_commit bs) [f0, f1] w) = closed_by w @ [f0]"
    using assms(1) by (simp add: closed_by_commit unfenced_second_fd_def)
  ultimately show ?thesis by (simp add: closed_by_def)
qed

theorem commit_leaks_unfenced_fd_witness:
  "\<exists>w'. dispatch demo_os 0 (encode_request (Commit (demo_commit 0))) [9, 10] demo_world = (True, True, w') \<and>
    closed (trace (ker w')) = closed (trace (ker demo_world)) @ [9]"
proof (rule commit_leaks_unfenced_fd)
  show "unfenced_second_fd (encode_request (Commit (demo_commit 0))) [9, 10]"
    by (simp add: unfenced_second_fd_def commit_bytes demo_commit_def del: encode_request.simps)
  show "c_hello (clients (xp demo_world) ! 0)" by (simp add: demo_client0 demo_client_def)
qed (simp_all add: commit_bytes del: encode_request.simps)

end
