(* ===== verification/Transport_Spec.thy ===== *)
theory Transport_Spec
  imports Transport_Fds
begin

text \<open>
  What the transport guarantees: memory safety over any run, isolation between clients,
  the handshake, placement by role, clean-up of dead clients and recovery of the shell's.
\<close>

section \<open>The initial world\<close>

definition no_mappings :: "window_stack \<Rightarrow> bool" where
  "no_mappings s \<longleftrightarrow> list_all (\<lambda>v. case buf v of Some (Mapping b) \<Rightarrow> False | _ \<Rightarrow> True) (windows s)"

lemma no_mappings_pix: "no_mappings s \<Longrightarrow> pix s i \<noteq> Some (Some (Mapping b))"
  by (auto simp: no_mappings_def pix_def list_all_iff dest!: window_by_id_SomeD split: option.splits pixels.splits)

lemma x_inv_init:
  assumes "transport_create sw sh ep = Some x" and "stack_wf s" and "no_mappings s"
    and "maps k = Map.empty"
  shows "x_inv \<lparr>xp = x, stk = s, ker = k\<rparr>"
proof -
  have x: "clients x = replicate 16 no_client" "orphans x = replicate 16 no_orphan"
    using assms(1) by (auto simp: transport_create_def split: if_splits)
  have "(\<Sum>c\<leftarrow>clients x. used (c_wins c)) = {#}" "(\<Sum>p\<leftarrow>orphans x. used (o_wins p)) = {#}"
    by (rule sum_empty, simp add: x)+
  then have "own \<lparr>xp = x, stk = s, ker = k\<rparr> = {#}" by (simp add: own_def)
  moreover have "own_ok {#} s k"
    using assms(2-4) by (auto simp: own_ok_def owns_def mapped_slots_def no_mappings_pix)
  moreover have "tables_ok x" by (simp add: tables_ok_def x)
  ultimately show ?thesis by (simp add: x_inv_def)
qed

lemma x_inv_empty_world: "stack_wf s \<Longrightarrow> no_mappings s \<Longrightarrow> x_inv (empty_world s)"
  unfolding empty_world_def by (rule x_inv_init [of 1920 1080 3]) (simp_all add: transport_create_def empty_kern_def)

lemma x_inv_demo: "x_inv demo_world"
proof -
  have "x_inv (empty_world window_stack_init)"
    by (rule x_inv_empty_world [OF stack_wf_init]) (simp add: no_mappings_def window_stack_init_def)
  moreover have "client_ok demo_client"
    using none_ok(1) by (simp add: demo_client_def client_ok_def used_none(1))
  ultimately show ?thesis
    unfolding demo_world_def
    by (intro x_inv_update_client) (simp_all add: empty_world_def transport_create_def demo_client_def)
qed

section \<open>Memory safety\<close>

lemma owned_mapping_unique:
  assumes "own_ok L s k" and "b \<in> dom (maps k)"
  shows "\<exists>!i. pix s i = Some (Some (Mapping b))"
proof -
  from assms have o: "owns L (pix s) (maps k) (next_map k)" by (simp add: own_ok_def)
  then have "Some b \<in> cw_buf ` set_mset L" using assms(2) unfolding owns_def by blast
  then obtain cw where cw: "cw \<in># L" "cw_buf cw = Some b" by (metis imageE)
  show ?thesis
  proof (rule ex1I [of _ "server_id cw"])
    show "pix s (server_id cw) = Some (Some (Mapping b))" using o cw by (auto simp: owns_def)
    fix i assume i: "pix s i = Some (Some (Mapping b))"
    then obtain c where c: "c \<in># L" "server_id c = i" using o by (auto simp: owns_def image_iff)
    with i o have "cw_buf c = Some b" by (auto simp: owns_def)
    with c cw o have "c = cw" by (intro uniq_inj [of cw_buf "mapped_slots L"]) (auto simp: owns_def)
    with c show "i = server_id cw" by simp
  qed
qed

lemma owned_mapping_live:
  assumes "own_ok L s k" and "pix s i = Some (Some (Mapping b))"
  shows "maps k b \<noteq> None"
proof -
  from assms have o: "owns L (pix s) (maps k) (next_map k)" by (simp add: own_ok_def)
  then obtain c where c: "c \<in># L" "server_id c = i" using assms(2) by (auto simp: owns_def image_iff)
  with assms(2) o have "cw_buf c = Some b" by (auto simp: owns_def)
  with c o show ?thesis by (auto simp: owns_def)
qed

text \<open>
  C2: Over any run of the transport, whatever clients connect, send, pass, hang up or
  reconnect, and however the shell moves and focuses windows in between, no window ever
  points to a buffer that is not mapped, and every client buffer that is mapped is the
  content of exactly one window, so none is leaked or shared.
\<close>

theorem transport_memory_safe:
  assumes "transport_create sw sh ep = Some x" and "stack_wf s0" and "no_mappings s0"
    and "guarded_run x_step x_ok evs \<lparr>xp = x, stk = s0, ker = empty_kern\<rparr>"
    and "w = fold x_step evs \<lparr>xp = x, stk = s0, ker = empty_kern\<rparr>"
  shows "(\<forall>i v b. window_by_id (stk w) i = Some v \<and> buf v = Some (Mapping b) \<longrightarrow> maps (ker w) b \<noteq> None) \<and>
    (\<forall>b \<in> dom (maps (ker w)). \<exists>!i. map_option buf (window_by_id (stk w) i) = Some (Some (Mapping b)))"
proof -
  have "x_inv \<lparr>xp = x, stk = s0, ker = empty_kern\<rparr>"
    using assms(1-3) by (rule x_inv_init) (simp add: empty_kern_def)
  then have "x_inv w" unfolding assms(5) using assms(4) by (rule x_machine.run_inv)
  note ok = x_invD(5) [OF this]
  show ?thesis
    using owned_mapping_live [OF ok] owned_mapping_unique [OF ok] by (auto simp: pix_def)
qed

definition demo_hello :: cl_request where
  "demo_hello = Hello \<lparr>he_magic = CL_MAGIC, he_version = 2, he_min_version = 1, he_reconnect_token = 0\<rparr>"

definition demo_create :: "u32 \<Rightarrow> u32 \<Rightarrow> cl_create_window" where
  "demo_create wid r = \<lparr>cr_wid = wid, cr_role = r, cr_x = 240, cr_y = 180, cr_w = 480, cr_h = 320\<rparr>"

definition plain :: "cl_request \<Rightarrow> fd list \<Rightarrow> recvmsg" where
  "plain r fs = Recv \<lparr>dg_data = encode_request r, dg_cmsgs = [(True, fs)], dg_ctrunc = False\<rparr>"

definition demo_session :: "x_event list" where
  "demo_session =
     [X_Connect demo_os 7,
      X_Process demo_os [\<lparr>ev_fd = 7, ev_hup = False, ev_in = True, ev_accepts = [],
        ev_recv = [plain demo_hello [], plain (Create_Window (demo_create 1 0)) [],
                   plain (Commit (demo_commit 0)) [9]]\<rparr>]]"

theorem transport_memory_safe_witness:
  "\<not> (\<exists>i v b. window_by_id (stk (fold x_step demo_session (empty_world window_stack_init))) i = Some v \<and>
     buf v = Some (Mapping b) \<and> maps (ker (fold x_step demo_session (empty_world window_stack_init))) b = None)"
proof -
  obtain x where x: "transport_create 1920 1080 3 = Some x" by (simp add: transport_create_def)
  have nm: "no_mappings window_stack_init" by (simp add: no_mappings_def window_stack_init_def)
  have "guarded_run x_step x_ok demo_session \<lparr>xp = x, stk = window_stack_init, ker = empty_kern\<rparr>"
    by (simp add: demo_session_def sane_event_def handles_left_def queued_def)
       (simp add: window_stack_init_def)
  from transport_memory_safe [OF x stack_wf_init nm this refl] show ?thesis
    by (auto simp: empty_world_def x)
qed

text \<open>
  Shutting the transport down unmaps every client buffer and leaves no window
  pointing at one.
\<close>

theorem transport_destroy_releases:
  assumes "x_inv w"
  shows "maps (ker (transport_destroy e w)) = Map.empty \<and>
    (\<forall>v \<in> set (windows (stk (transport_destroy e w))). \<forall>b. buf v \<noteq> Some (Mapping b))"
proof
  let ?w = "transport_destroy e w"
  have ok: "own_ok {#} (stk ?w) (ker ?w)" using assms by (rule destroy_releases)
  then show "maps (ker ?w) = Map.empty" by (auto simp: own_ok_def owns_def)
  show "\<forall>v \<in> set (windows (stk ?w)). \<forall>b. buf v \<noteq> Some (Mapping b)"
  proof (intro ballI allI notI)
    fix v b assume v: "v \<in> set (windows (stk ?w))" "buf v = Some (Mapping b)"
    have "window_by_id (stk ?w) (win_id v) = Some v"
      using v(1) ok by (simp add: own_ok_def window_by_id_iff)
    with v(2) have "pix (stk ?w) (win_id v) = Some (Some (Mapping b))" by (simp add: pix_def)
    with ok show False by (auto simp: own_ok_def owns_def)
  qed
qed

theorem transport_destroy_releases_witness:
  "maps (ker (transport_destroy demo_os demo_world)) = Map.empty"
  by (rule transport_destroy_releases [OF x_inv_demo, THEN conjunct1])

section \<open>Rejected messages and the handshake\<close>

lemma hello_rejected:
  "fst (dispatch_hello ci bs fds w) = False \<Longrightarrow> snd (snd (dispatch_hello ci bs fds w)) = close_all fds w"
  unfolding dispatch_hello_def drop_msg_def Let_def by (auto split: if_splits prod.splits)

lemma next_nonzero_ne: "next_nonzero n \<noteq> 0"
  by (induction n rule: next_nonzero.induct) (subst next_nonzero.simps, simp add: Let_def)

lemma reclaim_token:
  "client_reclaim ci tok w = (n, w') \<Longrightarrow> ci < length (clients (xp w)) \<Longrightarrow> c_hello (clients (xp w) ! ci) \<Longrightarrow>
   c_hello (clients (xp w') ! ci) \<and> length (clients (xp w')) = length (clients (xp w)) \<and>
   (n \<noteq> 0 \<longrightarrow> c_token (clients (xp w') ! ci) = tok \<and> tok \<noteq> 0)"
  by (auto simp: client_reclaim_def Let_def split: if_splits option.splits)

lemma welcome_sent:
  "\<exists>m. we_reconnect_token m = t \<and> (f, Welcome m) \<in> set (sent (trace (ker (close_all fds (send_welcome f t w)))))"
  by (rule exI [of _ "\<lparr>we_magic = CL_MAGIC, we_version = CL_VERSION, we_screen_w = u32_of_int (x_sw (xp w)),
        we_screen_h = u32_of_int (x_sh (xp w)), we_reconnect_token = t\<rparr>"]) (simp add: send_welcome_def)

text \<open>
  C11: Before its handshake a client can do nothing: a datagram is accepted only if it is a
  hello of at least the version-1 length with the right magic and a version range that
  meets the server's; then the client is marked, holds a non-zero reconnect token and is
  sent a welcome carrying it. Anything else drops the client and changes nothing beyond
  closing the descriptors that came along. No window is touched in either case.
\<close>

theorem handshake_gate:
  assumes "\<not> c_hello (clients (xp w) ! ci)" and "ci < length (clients (xp w))"
    and "dispatch e ci bs fds w = (keep, d, w')"
  shows "(keep \<longleftrightarrow> 16 \<le> length bs \<and> rd32 bs 0 = type_code CL_HELLO \<and> rd32 bs 4 = CL_MAGIC \<and>
            1 \<le> rd32 bs 8 \<and> rd32 bs 12 \<le> min (rd32 bs 8) CL_VERSION) \<and>
    (\<not> keep \<longrightarrow> w' = close_all fds w) \<and> stk w' = stk w \<and>
    (keep \<longrightarrow> c_hello (clients (xp w') ! ci) \<and> c_token (clients (xp w') ! ci) \<noteq> 0 \<and>
       (\<exists>m. we_reconnect_token m = c_token (clients (xp w') ! ci) \<and>
          (c_fd (clients (xp w') ! ci), Welcome m) \<in> set (sent (trace (ker w')))))"
proof -
  let ?tok = "if length bs \<ge> sizeof_hello then he_reconnect_token (get_hello bs) else 0"
  let ?w1 = "set_client ci ((clients (xp w) ! ci)\<lparr>c_hello := True\<rparr>) w"
  obtain n w2 where r: "client_reclaim ci ?tok ?w1 = (n, w2)" by fastforce
  obtain tok w3 where a: "assign_token w2 = (tok, w3)" by fastforce
  let ?acc = "if n = 0 then set_client ci ((clients (xp w3) ! ci)\<lparr>c_token := tok\<rparr>) w3 else w2"
  let ?c = "clients (xp ?acc) ! ci"
  let ?ok = "rd32 bs 0 = 1 \<and> 16 \<le> length bs \<and> hello_ok (get_hello bs)"
  have ok: "?ok \<longleftrightarrow> 16 \<le> length bs \<and> rd32 bs 0 = type_code CL_HELLO \<and> rd32 bs 4 = CL_MAGIC \<and>
      1 \<le> rd32 bs 8 \<and> rd32 bs 12 \<le> min (rd32 bs 8) CL_VERSION"
  proof -
    have one: "(1 :: u32) \<le> v \<longleftrightarrow> v \<noteq> 0" for v :: u32 using word_le_sub1 [of v] by (cases "v = 0") simp_all
    show ?thesis by (auto simp: hello_ok_def get_hello_def min_def Let_def not_less one)
  qed
  have tok: "tok \<noteq> 0" and w3: "clients (xp w3) = clients (xp w2)"
    using a next_nonzero_ne by (auto simp: assign_token_def Let_def)
  have c: "c_hello ?c" "c_token ?c \<noteq> 0"
    using reclaim_token [OF r] assms(2) tok w3 by auto
  have disp: "dispatch e ci bs fds w =
      (if ?ok then (True, True, close_all fds (send_welcome (c_fd ?c) (c_token ?c) ?acc))
       else (False, False, close_all fds w))"
    using assms(1) unfolding dispatch_def dispatch_hello_def drop_msg_def Let_def r a prod.case by auto
  have stk: "stk w' = stk w"
    using hello_effect [of ci bs fds w] assms(1,3) by (auto simp: dispatch_def drop_msg_def split: if_splits)
  show ?thesis
  proof (cases ?ok)
    case True
    with disp assms(3) have w': "keep" "w' = close_all fds (send_welcome (c_fd ?c) (c_token ?c) ?acc)" by auto
    then have same: "clients (xp w') ! ci = ?c" by (simp add: send_welcome_def)
    have "\<exists>m. we_reconnect_token m = c_token ?c \<and> (c_fd ?c, Welcome m) \<in> set (sent (trace (ker w')))"
      unfolding w'(2) by (rule welcome_sent)
    with True ok w'(1) stk c same show ?thesis by simp
  next
    case False
    with disp assms(3) ok stk show ?thesis by auto
  qed
qed

definition fresh_world :: world where
  "fresh_world = set_client 0 (no_client\<lparr>c_fd := 7\<rparr>) (empty_world window_stack_init)"

lemma hello_bytes:
  "rd32 (encode_request demo_hello) 0 = 1" "rd32 (encode_request demo_hello) 4 = CL_MAGIC"
  "rd32 (encode_request demo_hello) 8 = 2" "rd32 (encode_request demo_hello) 12 = 1"
  "length (encode_request demo_hello) = 20"
  using decode_words [where w = 1 and ws = "[CL_MAGIC, 2, 1, 0]" and r = "[]"]
  by (simp_all add: demo_hello_def del: le_words_simps)

theorem handshake_gate_witness:
  "fst (dispatch demo_os 0 (encode_request demo_hello) [] fresh_world) \<and>
   \<not> fst (dispatch demo_os 0 [1, 0, 0, 0] [] fresh_world)"
proof -
  have c: "\<not> c_hello (clients (xp fresh_world) ! 0)" "0 < length (clients (xp fresh_world))"
    by (simp_all add: fresh_world_def empty_world_def transport_create_def no_client_def)
  obtain k d w' where "dispatch demo_os 0 (encode_request demo_hello) [] fresh_world = (k, d, w')"
    using prod_cases3 by blast
  moreover obtain k2 d2 w2 where "dispatch demo_os 0 [1, 0, 0, 0] [] fresh_world = (k2, d2, w2)"
    using prod_cases3 by blast
  ultimately show ?thesis
    using handshake_gate [OF c, of demo_os "encode_request demo_hello" "[]" k d w']
      handshake_gate [OF c, of demo_os "[1, 0, 0, 0]" "[]" k2 d2 w2]
    by (simp add: hello_bytes del: encode_request.simps)
qed

section \<open>Isolation\<close>

lemma uniq_union: "uniq f (A + B) \<Longrightarrow> x \<in># A \<Longrightarrow> y \<in># B \<Longrightarrow> f x \<noteq> f y"
proof -
  assume u: "uniq f (A + B)" and x: "x \<in># A" and y: "y \<in># B"
  from x obtain A' where "A = add_mset x A'" by (meson mset_add)
  with u y show "f x \<noteq> f y" by (auto simp: image_iff)
qed

lemma foreign_id:
  assumes "x_inv w" "ci < 16" "win_find (clients (xp w) ! ci) wid = Some k"
    and "i \<in> server_id ` set_mset (other_clients ci w)"
  shows "i \<noteq> server_id (the_win ci k w)"
proof -
  note f = found_slot [OF assms(1-3)]
  have len: "ci < length (clients (xp w))" using assms(2) x_invD(1) [OF assms(1)] by simp
  have "the_win ci k w \<in># used (c_wins (clients (xp w) ! ci))"
    using f(1,2) x_invD(3) [OF assms(1,2)] by (simp add: used_def the_win_def client_ok_def row_ok_def)
  moreover have "uniq server_id (used (c_wins (clients (xp w) ! ci)) + other_clients ci w)"
    using x_invD(5) [OF assms(1)] own_client(1) [OF len] by (simp add: own_ok_def owns_def)
  ultimately have "server_id (the_win ci k w) \<noteq> server_id y" if "y \<in># other_clients ci w" for y
    using that uniq_union [of server_id "used (c_wins (clients (xp w) ! ci))" "other_clients ci w" "the_win ci k w" y]
    by simp
  moreover obtain y where "y \<in># other_clients ci w" "i = server_id y" using assms(4) by auto
  ultimately show ?thesis by metis
qed

lemma by_id_geometry_other: "j \<noteq> i \<Longrightarrow> window_by_id (window_set_geometry s i x y ww hh) j = window_by_id s j"
  unfolding window_set_geometry_def by (subst by_id_modify) simp_all

lemma by_id_modify_other: "(\<And>v. win_id (f v) = win_id v) \<Longrightarrow> j \<noteq> i \<Longrightarrow>
    window_by_id (window_modify s i f) j = window_by_id s j"
  by (simp add: by_id_modify)

lemma by_id_place_other:
  assumes "stack_wf s" "j \<noteq> i"
  shows "window_by_id (place_by_role r i sw sh s) j = window_by_id s j"
proof -
  have "window_by_id (window_lower (window_set_geometry s i 0 0 sw sh) i) j = window_by_id s j"
    using by_id_lower [OF stack_wf_set_geometry [OF assms(1)]] by_id_geometry_other [OF assms(2)] by simp
  with by_id_focus_any [OF assms(1)] show ?thesis by (simp add: place_by_role_def)
qed

lemma by_id_drop_other:
  "win_drop_buffer cw sk = (cw', s', k') \<Longrightarrow> j \<noteq> server_id cw \<Longrightarrow>
   window_by_id s' j = window_by_id (fst sk) j \<and> server_id cw' = server_id cw"
  by (auto simp: win_drop_buffer_def by_id_modify_other split: option.splits)

lemma create_other:
  assumes "x_inv w" "\<not> ids_exhausted (stk w)" "window_by_id (stk w) j \<noteq> None"
  shows "window_by_id (stk (on_create_window ci m w)) j = window_by_id (stk w) j"
proof (cases rule: create_cases [of w ci m])
  case (full k s1)
  have "s1 = stk w"
    using full(3) x_invD(6) [OF assms(1)] assms(2)
    by (auto simp: create_args_def window_create_def Let_def stack_wf_def ids_exhausted_def split: if_splits)
  with full(4) show ?thesis by simp
next
  case (made k i s1)
  note c = made(3) [unfolded create_args_def] and wf = x_invD(6) [OF assms(1)]
  have room: "length (windows (stk w)) < 64" using c made(4) by (auto simp: window_create_def split: if_splits)
  have "window_by_id (stk w) i = None" using by_id_create(3) [OF wf room c] .
  then have j: "j \<noteq> i" using assms(3) by auto
  obtain win where "window_by_id s1 = (window_by_id (stk w))(i \<mapsto> win)"
    using by_id_create(2) [OF wf room c] by blast
  with j have "window_by_id s1 j = window_by_id (stk w) j" by simp
  moreover have "stack_wf s1" using stack_wf_create [OF wf assms(2)] c by (metis snd_conv)
  ultimately show ?thesis
    using made(5) j by (simp add: created_def Let_def by_id_place_other stack_wf_modify by_id_modify_other)
qed simp

lemma commit_other:
  assumes "x_inv w" "ci < 16" "i \<in> server_id ` set_mset (other_clients ci w)"
  shows "window_by_id (stk (on_commit e ci m fds w)) i = window_by_id (stk w) i"
proof -
  have inst: "window_by_id (stk (install_buffer ci k b a (w\<lparr>ker := kr\<rparr>))) i = window_by_id (stk w) i"
    if found: "win_find (clients (xp w) ! ci) wid = Some k" for k b a kr wid
  proof -
    have tw: "the_win ci k (w\<lparr>ker := kr\<rparr>) = the_win ci k w" by (simp add: the_win_def)
    obtain cw s k' where d: "win_drop_buffer (the_win ci k w) (stk w, kr) = (cw, s, k')" using prod_cases3 by blast
    from foreign_id [OF assms(1,2) found assms(3)] by_id_drop_other [OF d] show ?thesis
      by (simp add: install_buffer_def tw d Let_def by_id_modify_other attach_buffer_def)
  qed
  then show ?thesis
    by (simp add: on_commit_def Let_def split: prod.split list.split option.split)
qed

lemma destroy_other:
  assumes "x_inv w" "ci < 16" "i \<in> server_id ` set_mset (other_clients ci w)"
  shows "window_by_id (stk (on_destroy_window ci m w)) i = window_by_id (stk w) i"
proof (cases "win_find (clients (xp w) ! ci) (de_wid m)")
  case (Some k)
  obtain cw s k' where d: "win_drop_buffer (the_win ci k w) (stk w, ker w) = (cw, s, k')" using prod_cases3 by blast
  have "own_ok (add_mset cw (other_slots ci k w)) s k'"
    using own_ok_drop_buffer(1) [OF found_slot(6) [OF assms(1,2) Some] d] .
  then have "stack_wf s" by (simp add: own_ok_def)
  with Some foreign_id [OF assms(1,2) Some assms(3)] by_id_drop_other [OF d] show ?thesis
    by (simp add: on_destroy_window_def d Let_def by_id_destroy)
qed (simp add: on_destroy_window_def)

text \<open>
  C7: Clients are isolated: whatever a client sends, every window that belongs to another
  client, or to a crashed client waiting to reconnect, keeps its geometry, title, role,
  pixels and flags, and stays open.
\<close>

theorem dispatch_isolation:
  assumes "x_inv w" "ci < 16" "0 \<le> c_fd (clients (xp w) ! ci)" "\<not> ids_exhausted (stk w)"
    and "cw \<in># other_clients ci w"
  shows "window_by_id (stk (snd (snd (dispatch e ci bs fds w)))) (server_id cw) =
         window_by_id (stk w) (server_id cw)"
proof -
  let ?i = "server_id cw"
  have len: "ci < length (clients (xp w))" using assms(2) x_invD(1) [OF assms(1)] by simp
  have i: "?i \<in> server_id ` set_mset (other_clients ci w)" using assms(5) by simp
  have "cw \<in># own w" using own_client(1) [OF len] assms(5) by simp
  then have live: "window_by_id (stk w) ?i \<noteq> None" using own_ok_live [OF x_invD(5) [OF assms(1)]] by auto
  have title: "window_by_id (stk (on_set_title ci mt w)) ?i = window_by_id (stk w) ?i" for mt
    using foreign_id [OF assms(1,2) _ i] by (simp add: on_set_title_def by_id_modify_other split: option.split)
  have geo: "window_by_id (stk (on_set_geometry ci mg w)) ?i = window_by_id (stk w) ?i" for mg
    using foreign_id [OF assms(1,2) _ i]
    by (simp add: on_set_geometry_def by_id_geometry_other Let_def split: option.split)
  have cur: "stk (on_set_cursor e mc fds w) = stk w" for mc
    by (auto simp: on_set_cursor_def set_cursor_state_def Let_def split: prod.split option.split)
  show ?thesis
    using hello_effect [of ci bs fds w] create_other [OF assms(1,4) live] commit_other [OF assms(1,2) i]
      destroy_other [OF assms(1,2) i] title geo cur
    by (simp add: dispatch_def dispatch_request_def drop_msg_def Let_def)
qed

section \<open>Two clients sharing a desktop\<close>

definition two_clients :: world where
  "two_clients = set_client 1 (demo_client\<lparr>c_fd := 8\<rparr>) (set_client 0 demo_client (empty_world demo_stack))"

definition shared_world :: "u32 \<Rightarrow> world" where
  "shared_world i = set_win 1 0 \<lparr>client_wid = 1, server_id = i, cw_buf = None, cw_len = 0\<rparr> two_clients"

lemma two_clients_sel:
  "stk two_clients = demo_stack" "ker two_clients = empty_kern"
  "clients (xp two_clients) = demo_client # demo_client\<lparr>c_fd := 8\<rparr> # replicate 14 no_client"
  "orphans (xp two_clients) = replicate 16 no_orphan"
  by (simp_all add: two_clients_def empty_world_def transport_create_def eval_nat_numeral)

lemma demo_client_ok: "client_ok (demo_client\<lparr>c_fd := 8\<rparr>)" "client_ok demo_client"
  using none_ok(1) by (simp_all add: demo_client_def client_ok_def)

lemma two_clients_own: "own two_clients = {#}"
proof -
  have "(\<Sum>c\<leftarrow>clients (xp two_clients). used (c_wins c)) = {#}"
    by (rule sum_empty) (auto simp: two_clients_sel demo_client_def)
  moreover have "(\<Sum>p\<leftarrow>orphans (xp two_clients). used (o_wins p)) = {#}"
    by (rule sum_empty) (simp add: two_clients_sel)
  ultimately show ?thesis by (simp add: own_def)
qed

lemma no_mappings_demo: "no_mappings demo_stack"
  by (simp add: no_mappings_def demo_stack_defs Let_def)

lemma x_inv_two_clients: "x_inv two_clients"
proof -
  have "own_ok {#} demo_stack empty_kern"
    using demo_stack_wf no_mappings_pix [OF no_mappings_demo]
    by (auto simp: own_ok_def owns_def mapped_slots_def empty_kern_def)
  moreover have "tables_ok (xp two_clients)"
    by (simp add: tables_ok_def two_clients_sel demo_client_ok)
  ultimately show ?thesis by (simp add: x_inv_def two_clients_own two_clients_sel)
qed

lemma demo_by_id: "i \<in> {1, 2, 3} \<Longrightarrow> \<exists>v. window_by_id demo_stack i = Some v \<and> buf v = None \<and>
    (role v = WIN_DESKTOP \<longleftrightarrow> i = 1) \<and> (role v = WIN_NORMAL \<longleftrightarrow> i \<noteq> 1)"
  by (auto simp: demo_stack_defs window_by_id_def window_index_def Let_def)

lemma shared_win: "the_win 1 0 (shared_world i) = \<lparr>client_wid = 1, server_id = i, cw_buf = None, cw_len = 0\<rparr>"
  by (simp add: shared_world_def set_win_def the_win_def two_clients_sel demo_client_def no_client_def)

lemma shared_hello: "c_hello (clients (xp (shared_world i)) ! 0)" "c_fd (clients (xp (shared_world i)) ! 0) = 7"
  by (simp_all add: shared_world_def set_win_def two_clients_sel demo_client_def)

lemma x_inv_shared: "i \<in> {1, 2, 3} \<Longrightarrow> x_inv (shared_world i)"
proof -
  let ?cw = "\<lparr>client_wid = 1, server_id = i, cw_buf = None, cw_len = 0\<rparr> :: cl_win"
  assume i: "i \<in> {1, 2, 3}"
  have "free_win (the_win 1 0 two_clients)" "0 < length (c_wins (clients (xp two_clients) ! 1))"
    by (simp_all add: the_win_def two_clients_sel demo_client_def no_client_def)
  then have "other_slots 1 0 two_clients = {#}"
    using own_win(1) [of 1 two_clients 0] two_clients_own x_invD(1) [OF x_inv_two_clients] by (simp add: slot_def)
  moreover have "own_ok {#?cw#} demo_stack empty_kern"
    using demo_stack_wf no_mappings_pix [OF no_mappings_demo] demo_by_id [OF i]
    by (auto simp: own_ok_def owns_def empty_kern_def pix_def mapped_slots_def)
  ultimately have "own_ok (slot ?cw + other_slots 1 0 two_clients) (stk (shared_world i)) (ker (shared_world i))"
    by (simp add: slot_def free_win_def shared_world_def two_clients_sel)
  then show ?thesis
    by (intro x_invI_win [OF x_inv_two_clients, of 1 0 ?cw])
       (simp_all add: shared_world_def two_clients_sel demo_client_def)
qed

lemma slot_of_other:
  assumes "x_inv w" "ci < 16" "cj < 16" "ci \<noteq> cj" "k < 64" "\<not> free_win (the_win cj k w)"
  shows "the_win cj k w \<in># other_clients ci w"
proof -
  have len: "cj < length ((clients (xp w))[ci := no_client])" using x_invD(1) [OF assms(1)] assms(3) by simp
  have "k < length (c_wins (clients (xp w) ! cj))"
    using x_invD(3) [OF assms(1,3)] assms(5) by (simp add: client_ok_def row_ok_def)
  then have "the_win cj k w \<in># used (c_wins ((clients (xp w))[ci := no_client] ! cj))"
    using assms(4,6) by (simp add: used_def the_win_def)
  then show ?thesis
    using sum_replace(1) [OF len, of "\<lambda>c. used (c_wins c)" no_client] by (simp add: other_clients_def)
qed

theorem dispatch_isolation_witness:
  "window_by_id (stk (snd (snd (dispatch demo_os 0 (encode_request (Commit (demo_commit 1))) [9, 10] (shared_world 3))))) 3 =
   window_by_id demo_stack 3"
proof -
  have inv: "x_inv (shared_world 3)" by (rule x_inv_shared) simp
  have "the_win 1 0 (shared_world 3) \<in># other_clients 0 (shared_world 3)"
    by (rule slot_of_other [OF inv]) (simp_all add: shared_win free_win_def del: One_nat_def)
  moreover have "\<not> ids_exhausted (stk (shared_world 3))"
    using demo_not_exhausted by (simp add: shared_world_def two_clients_sel)
  ultimately show ?thesis
    using dispatch_isolation [OF inv, of 0 "the_win 1 0 (shared_world 3)"] shared_hello
    by (simp add: shared_win two_clients_sel del: encode_request.simps One_nat_def)
       (simp add: shared_world_def two_clients_sel)
qed

end
