(* ===== verification/Transport_Life.thy ===== *)
theory Transport_Life
  imports Transport_Spec
begin

text \<open>
  The life of a client's windows: how they are placed when they are created, what a
  commit does to their pixels, what happens to them when the client dies, and how a
  crashed shell gets them back.
\<close>

section \<open>Reaping\<close>

lemma without_map:
  "(\<And>v. win_id (f v) = win_id v) \<Longrightarrow> without i (map (\<lambda>w. if win_id w = i then f w else w) ws) = without i ws"
  by (induction ws) (simp_all add: without_def)

lemma destroy_modify:
  assumes "stack_wf s" and "\<And>v. win_id (f v) = win_id v"
  shows "window_destroy (window_modify s i f) i = window_destroy s i"
proof -
  have wf: "stack_wf (window_modify s i f)" using assms by (rule stack_wf_modify)
  have ws: "windows (window_destroy (window_modify s i f) i) = windows (window_destroy s i)"
    using assms by (simp add: windows_destroy wf windows_modify without_map)
  moreover have "focus_id (window_destroy (window_modify s i f) i) = focus_id (window_destroy s i)"
    using focus_destroy [OF wf, of i] focus_destroy [OF assms(1), of i] ws by simp
  ultimately show ?thesis by simp
qed

text \<open>On the stack, reaping a table is destroying the handles of its used slots.\<close>

lemma reap_is_destroy_all:
  "stack_wf s \<Longrightarrow> fst (fold reap_win cws (s, k)) =
     destroy_all window_destroy (map server_id (filter (\<lambda>cw. \<not> free_win cw) cws)) s"
proof (induction cws arbitrary: s k)
  case (Cons cw cws)
  obtain s1 k1 where r: "reap_win cw (s, k) = (s1, k1)" by fastforce
  have "s1 = (if free_win cw then s else window_destroy s (server_id cw))"
  proof (cases "cw_buf cw")
    case None
    with r show ?thesis by (auto simp: reap_win_def win_drop_buffer_def free_win_def)
  next
    case (Some b)
    with r destroy_modify [OF Cons.prems, of "\<lambda>v. v\<lparr>buf := None\<rparr>" "server_id cw"]
    show ?thesis by (auto simp: reap_win_def win_drop_buffer_def free_win_def)
  qed
  with Cons r show ?case by (simp add: stack_wf_destroy)
qed simp

lemma reap_lookup:
  assumes "stack_wf (stk w)"
  shows "window_by_id (stk (reap_wins cws w)) i =
    (if i \<in> server_id ` set_mset (used cws) then None else window_by_id (stk w) i)"
proof -
  have "stk (reap_wins cws w) =
      destroy_all window_destroy (map server_id (filter (\<lambda>cw. \<not> free_win cw) cws)) (stk w)"
    using reap_is_destroy_all [OF assms, of cws "ker w"] by (simp add: reap_wins_def split: prod.split) (metis fst_conv)
  then show ?thesis using ws.lookup_destroy_all [OF assms] by (simp add: used_def)
qed

section \<open>Death of a client\<close>

lemma stk_client_drop:
  "stk (client_drop e ci w) =
     (if park_slot (clients (xp w) ! ci) w = None then stk (reap_wins (c_wins (clients (xp w) ! ci)) w) else stk w)"
  by (simp add: client_drop_def Let_def split: option.split)

text \<open>
  When a client dies without its windows being parked, exactly its windows are closed,
  every other window is untouched, its slot is free again and its socket closed.
\<close>

theorem client_drop_reaps:
  assumes "x_inv w" "ci < 16" and "park_slot (clients (xp w) ! ci) w = None"
  shows "window_by_id (stk (client_drop e ci w)) i =
      (if i \<in> server_id ` set_mset (used (c_wins (clients (xp w) ! ci))) then None else window_by_id (stk w) i) \<and>
    clients (xp (client_drop e ci w)) = (clients (xp w))[ci := no_client] \<and>
    orphans (xp (client_drop e ci w)) = orphans (xp w) \<and>
    c_fd (clients (xp w) ! ci) \<in> set (closed (trace (ker (client_drop e ci w))))"
  using reap_lookup [OF x_invD(6) [OF assms(1)]] assms(3)
  by (simp add: stk_client_drop) (simp add: client_drop_def Let_def)

lemma used_replicate [simp]: "used (replicate n no_win) = {#}"
  by (rule used_free) simp

theorem client_drop_reaps_witness:
  "window_by_id (stk (client_drop demo_os 1 (shared_world 3))) 3 = None \<and>
   window_by_id (stk (client_drop demo_os 1 (shared_world 3))) 2 = window_by_id demo_stack 2"
proof -
  have inv: "x_inv (shared_world 3)" by (rule x_inv_shared) simp
  have c: "c_wins (clients (xp (shared_world 3)) ! 1) = \<lparr>client_wid = 1, server_id = 3, cw_buf = None, cw_len = 0\<rparr> # replicate 63 no_win"
    by (simp add: shared_world_def set_win_def two_clients_sel demo_client_def no_client_def) (simp add: eval_nat_numeral)
  have stk: "stk (shared_world 3) = demo_stack" by (simp add: shared_world_def two_clients_sel)
  have u: "used (c_wins (clients (xp (shared_world 3)) ! 1)) = {#\<lparr>client_wid = 1, server_id = 3, cw_buf = None, cw_len = 0\<rparr>#}"
    unfolding c by (simp add: used_Cons free_win_def)
  obtain v where "window_by_id demo_stack 3 = Some v" "role v = WIN_NORMAL"
    using demo_by_id [of 3] by auto
  then have "park_slot (clients (xp (shared_world 3)) ! 1) (shared_world 3) = None"
    unfolding park_slot_def is_shell_def stk c by (simp add: shell_role_def no_win_def list_ex_iff)
  from client_drop_reaps [OF inv _ this, of demo_os] show ?thesis
    by (simp add: u stk del: One_nat_def)
qed

section \<open>A parked table is kept\<close>

text \<open>The token a first datagram presents: version-1 hellos have none.\<close>

definition presented :: "u8 list \<Rightarrow> u32" where
  "presented bs = (if rd32 bs 0 = type_code CL_HELLO \<and> 20 \<le> length bs then rd32 bs 16 else 0)"

text \<open>
  What may happen while a table with the token is parked: anything, as long as the clock
  does not reach the deadline and no other connection presents the token.
\<close>

definition patient :: "u32 \<Rightarrow> int \<Rightarrow> x_event \<Rightarrow> bool" where
  "patient tk deadline ev =
     (case ev of
        X_Process e evs \<Rightarrow> (\<forall>n. os_now e n < deadline) \<and>
          (\<forall>v \<in> set evs. \<forall>d. Recv d \<in> set (ev_recv v) \<longrightarrow> presented (take 256 (dg_data d)) \<noteq> tk)
      | _ \<Rightarrow> True)"

lemma keep_expire:
  "orphans (xp w) ! oi = p \<Longrightarrow> now < o_deadline p \<Longrightarrow> orphans (xp (snd (expire_loop now is w))) ! oi = p"
proof (induction "is" arbitrary: w)
  case (Cons i "is")
  show ?case
  proof (cases "i = oi")
    case True
    with Cons show ?thesis by (simp add: Let_def)
  next
    case False
    then have "orphans (xp (orphan_destroy i w)) ! oi = p" using Cons.prems(1) by (simp add: orphan_destroy_def)
    with Cons show ?thesis by (simp add: Let_def)
  qed
qed simp

lemma keep_drop:
  assumes "orphans (xp w) ! oi = p" "o_token p \<noteq> 0"
  shows "orphans (xp (client_drop e ci w)) ! oi = p"
proof (cases "park_slot (clients (xp w) ! ci) w")
  case None
  with assms show ?thesis by (simp add: client_drop_def Let_def)
next
  case (Some oj)
  then have "o_token (orphans (xp w) ! oj) = 0"
    by (auto simp: park_slot_def free_slot_def split: if_splits dest: find_index_SomeD)
  then have "oj \<noteq> oi" using assms by auto
  with assms Some show ?thesis by (simp add: client_drop_def Let_def)
qed

lemma keep_reclaim:
  assumes "orphans (xp w) ! oi = p" "o_token p \<noteq> tok"
  shows "orphans (xp (snd (client_reclaim ci tok w))) ! oi = p"
proof -
  have "oj \<noteq> oi" if "find_index (\<lambda>p. o_token p = tok) (orphans (xp w)) = Some oj" for oj
    using find_index_sat [OF that] assms by auto
  with assms(1) show ?thesis by (auto simp: client_reclaim_def Let_def split: option.split)
qed

lemma keep_send [simp]: "xp (send_to f ev w) = xp w" "xp (close_all fds w) = xp w" "xp (send_welcome f t w) = xp w"
  by (simp_all add: send_to_def close_all_def send_welcome_def)

lemma keep_request: "orphans (xp (snd (snd (dispatch_request e ci bs fds w)))) = orphans (xp w)"
proof -
  have create: "orphans (xp (on_create_window ci m w)) = orphans (xp w)" for m
    by (simp add: on_create_window_def created_def Let_def split: option.split prod.split)
  have commit: "orphans (xp (on_commit e ci m fds w)) = orphans (xp w)" for m
    by (simp add: on_commit_def install_buffer_def Let_def split: option.split prod.split list.split)
  have destroy: "orphans (xp (on_destroy_window ci m w)) = orphans (xp w)" for m
    by (simp add: on_destroy_window_def Let_def split: option.split prod.split)
  have rest: "orphans (xp (on_set_title ci m1 w)) = orphans (xp w)" "orphans (xp (on_set_geometry ci m2 w)) = orphans (xp w)"
      "orphans (xp (on_set_cursor e m3 fds w)) = orphans (xp w)" for m1 m2 m3
    by (simp_all add: on_set_title_def on_set_geometry_def on_set_cursor_def set_cursor_state_def Let_def split: option.split prod.split)
  show ?thesis by (simp add: dispatch_request_def drop_msg_def Let_def create commit destroy rest)
qed

lemma keep_dispatch:
  assumes "orphans (xp w) ! oi = p" "presented bs \<noteq> o_token p" "o_token p \<noteq> 0"
  shows "orphans (xp (snd (snd (dispatch e ci bs fds w)))) ! oi = p"
proof (cases "c_hello (clients (xp w) ! ci) \<or> length bs < 4 \<or> rd32 bs 0 \<noteq> type_code CL_HELLO")
  case True
  with assms(1) show ?thesis by (auto simp: dispatch_def drop_msg_def keep_request dispatch_hello_def)
next
  case False
  let ?tok = "if length bs \<ge> sizeof_hello then he_reconnect_token (get_hello bs) else 0"
  let ?w1 = "set_client ci ((clients (xp w) ! ci)\<lparr>c_hello := True\<rparr>) w"
  obtain n w2 where r: "client_reclaim ci ?tok ?w1 = (n, w2)" by fastforce
  have "o_token p \<noteq> ?tok" using assms(2,3) False by (auto simp: presented_def get_hello_def)
  then have "orphans (xp w2) ! oi = p" using keep_reclaim [of ?w1 oi p ?tok ci] assms(1) r by simp
  then show ?thesis
    using False assms(1) r by (simp add: dispatch_def dispatch_hello_def drop_msg_def assign_token_def Let_def)
qed

lemma cl_recv_from:
  "cl_recv cap rs k = (Ret_Data bs fds, rest, k') \<Longrightarrow>
   set rest \<subseteq> set rs \<and> (\<exists>d. Recv d \<in> set rs \<and> bs = take cap (dg_data d))"
  by (induction cap rs k rule: cl_recv.induct) (auto simp: Let_def split: if_splits)

lemma keep_readable:
  assumes "orphans (xp w) ! oi = p" "o_token p \<noteq> 0" "\<And>d. Recv d \<in> set rs \<Longrightarrow> presented (take 256 (dg_data d)) \<noteq> o_token p"
  shows "orphans (xp (snd (client_readable e ci rs dirty w))) ! oi = p"
  using assms
proof (induction "length rs" arbitrary: rs dirty w rule: less_induct)
  case less
  obtain r rest k where recv: "cl_recv 256 rs (ker w) = (r, rest, k)" using prod_cases3 by blast
  have w1: "orphans (xp (w\<lparr>ker := k\<rparr>)) ! oi = p" using less.prems(1) by simp
  note dropped = keep_drop [OF w1 less.prems(2)]
  show ?case
  proof (cases r)
    case (Ret_Err err)
    with dropped less.prems(1) show ?thesis by (simp add: client_readable.simps [of e ci rs] recv Let_def)
  next
    case (Ret_Data bs fds)
    obtain keep d w' where disp: "dispatch e ci bs fds (w\<lparr>ker := k\<rparr>) = (keep, d, w')" using prod_cases3 by blast
    note from_rs = cl_recv_from [OF recv [unfolded Ret_Data]]
    then have "presented bs \<noteq> o_token p" using less.prems(3) by blast
    from keep_dispatch [OF w1 this less.prems(2), of e ci fds] have w': "orphans (xp w') ! oi = p" by (simp add: disp)
    have shorter: "length rest < length rs" using cl_recv_rest [OF recv [unfolded Ret_Data]] .
    have "orphans (xp (snd (client_readable e ci rest (dirty \<or> d) w'))) ! oi = p"
      using less.hyps [OF shorter w' less.prems(2)] less.prems(3) from_rs by blast
    with Ret_Data dropped keep_drop [OF w' less.prems(2)] show ?thesis
      by (simp add: client_readable.simps [of e ci rs] recv disp Let_def)
  qed
qed

lemma keep_add_client [simp]: "orphans (xp (snd (transport_add_client e f w))) = orphans (xp w)"
  by (simp add: transport_add_client_def Let_def split: option.split)

lemma keep_accept [simp]: "orphans (xp (accept_pending e fs w)) = orphans (xp w)"
  by (induction fs arbitrary: w) (simp_all add: accept_pending_def)

lemma keep_events:
  assumes "o_token p \<noteq> 0" "\<forall>v \<in> set evs. \<forall>d. Recv d \<in> set (ev_recv v) \<longrightarrow> presented (take 256 (dg_data d)) \<noteq> o_token p"
    and "orphans (xp w) ! oi = p"
  shows "orphans (xp (snd (fold (handle_event e) evs (dirty, w)))) ! oi = p"
  using assms(2,3)
proof (induction evs arbitrary: dirty w)
  case (Cons v evs)
  obtain d' w' where h: "handle_event e v (dirty, w) = (d', w')" by fastforce
  have "orphans (xp (snd (handle_event e v (dirty, w)))) ! oi = p"
    using Cons.prems keep_drop [OF Cons.prems(2) assms(1)] keep_readable [OF Cons.prems(2) assms(1), of "ev_recv v"]
    by (simp add: handle_event_def split: option.split)
  with Cons h show ?case by simp
qed simp

lemma broadcast_xp: "xp (fold (\<lambda>c w. if c_fd c \<ge> 0 \<and> c_hello c then send_to (c_fd c) ev w else w) cs u) = xp u"
  by (induction cs arbitrary: u) simp_all

lemma keep_step:
  assumes "patient (o_token p) (o_deadline p) ev" "o_token p \<noteq> 0" "orphans (xp w) ! oi = p"
  shows "orphans (xp (x_step ev w)) ! oi = p"
proof (cases ev)
  case (X_Process e evs)
  obtain d w1 where ex: "orphans_expire (os_now e (call_no w)) w = (d, w1)" by fastforce
  have "orphans (xp w1) ! oi = p"
    using keep_expire [OF assms(3), of "os_now e (call_no w)" "[0..<CL_MAX_CLIENTS]"] assms(1) ex X_Process
    unfolding orphans_expire_def by (simp add: patient_def del: upt_rec_numeral)
  with keep_events [OF assms(2) _ this, of evs] assms(1) X_Process ex show ?thesis
    by (simp add: patient_def transport_process_def)
next
  case (X_Screen nw nh)
  with assms(3) show ?thesis by (simp add: transport_broadcast_screen_def transport_set_screen_def broadcast_xp)
qed (use assms(3) in \<open>simp_all add: transport_update_focus_def transport_notify_geometry_def transport_pointer_motion_def
      transport_pointer_button_def transport_keyboard_key_def pointer_event_def send_owner_def split: option.split prod.split\<close>)

lemma keep_run:
  "\<forall>ev \<in> set es. patient (o_token p) (o_deadline p) ev \<Longrightarrow> o_token p \<noteq> 0 \<Longrightarrow> orphans (xp w) ! oi = p \<Longrightarrow>
   orphans (xp (fold x_step es w)) ! oi = p"
  by (induction es arbitrary: w) (simp_all add: keep_step)

text \<open>A dying client with a shell window, a token and room for its table has the table parked.\<close>

lemma shell_parks:
  assumes "x_inv w" "ci < 16" "c_token (clients (xp w) ! ci) \<noteq> 0"
    and "cw \<in> set (c_wins (clients (xp w) ! ci))" "client_wid cw \<noteq> 0" "window_by_id (stk w) (server_id cw) = Some v"
    and "role v = WIN_TASKBAR \<or> role v = WIN_DESKTOP \<or> role v = WIN_TRAY" "q \<in> set (orphans (xp w))" "o_token q = 0"
  shows "\<exists>oi < 16. park_slot (clients (xp w) ! ci) w = Some oi \<and> o_token (orphans (xp w) ! oi) = 0"
proof -
  have "is_shell (stk w) (c_wins (clients (xp w) ! ci))"
    using assms(4-7) by (auto simp: is_shell_def list_ex_iff shell_role_def)
  moreover have "in_use free_win (c_wins (clients (xp w) ! ci)) \<noteq> 0"
    using assms(4,5) by (auto simp: in_use_def free_win_def filter_empty_conv)
  moreover obtain oi where oi: "find_index (\<lambda>p. o_token p = 0) (orphans (xp w)) = Some oi"
    using assms(8,9) find_index_None_iff [of "\<lambda>p. o_token p = 0" "orphans (xp w)"] by fastforce
  ultimately have "park_slot (clients (xp w) ! ci) w = Some oi" using assms(3) by (simp add: park_slot_def free_slot_def)
  moreover have "oi < 16" "o_token (orphans (xp w) ! oi) = 0"
    using find_index_SomeD [OF oi] x_invD(2) [OF assms(1)] by simp_all
  ultimately show ?thesis by blast
qed

lemma drop_parks:
  assumes "park_slot (clients (xp w) ! ci) w = Some oi"
  shows "stk (client_drop e ci w) = stk w"
    "orphans (xp (client_drop e ci w)) = (orphans (xp w))[oi := \<lparr>o_token = c_token (clients (xp w) ! ci),
       o_deadline = os_now e (call_no w) + 5000, o_wins = c_wins (clients (xp w) ! ci)\<rparr>]"
  using assms by (simp_all add: client_drop_def Let_def)

text \<open>A hello that is accepted and presents the token of a parked table is given that table.\<close>

lemma hello_reclaims:
  assumes "\<not> c_hello (clients (xp w) ! cj)" "cj < length (clients (xp w))" "tk \<noteq> 0"
    and "20 \<le> length bs" "rd32 bs 0 = type_code CL_HELLO" "rd32 bs 4 = CL_MAGIC" "1 \<le> rd32 bs 8"
    and "rd32 bs 12 \<le> min (rd32 bs 8) CL_VERSION" "rd32 bs 16 = tk"
    and "find_index (\<lambda>p. o_token p = tk) (orphans (xp w)) = Some oi" "in_use free_win (o_wins (orphans (xp w) ! oi)) \<noteq> 0"
    and "dispatch e cj bs fds w = (keep, d, w')"
  shows "keep" "stk w' = stk w" "clients (xp w') ! cj = (clients (xp w) ! cj)\<lparr>c_hello := True, c_wins := o_wins (orphans (xp w) ! oi), c_token := tk\<rparr>"
    "orphans (xp w') = (orphans (xp w))[oi := no_orphan]"
    "(c_fd (clients (xp w) ! cj), Welcome \<lparr>we_magic = CL_MAGIC, we_version = CL_VERSION, we_screen_w = u32_of_int (x_sw (xp w)),
       we_screen_h = u32_of_int (x_sh (xp w)), we_reconnect_token = tk\<rparr>) \<in> set (sent (trace (ker w')))"
proof -
  have one: "(1 :: u32) \<le> v \<longleftrightarrow> v \<noteq> 0" for v :: u32 using word_le_sub1 [of v] by (cases "v = 0") simp_all
  have ok: "hello_ok (get_hello bs)" using assms(6-8) by (auto simp: hello_ok_def get_hello_def min_def Let_def not_less one split: if_splits)
  have tok: "he_reconnect_token (get_hello bs) = tk" using assms(9) by (simp add: get_hello_def)
  have "dispatch e cj bs fds w = dispatch_hello cj bs fds w" using assms(1,4) by (simp add: dispatch_def)
  then have "(keep, d, w') = (True, True, close_all fds (send_welcome (c_fd (clients (xp w) ! cj)) tk
      (set_orphan oi no_orphan (set_client cj ((clients (xp w) ! cj)\<lparr>c_hello := True, c_wins := o_wins (orphans (xp w) ! oi), c_token := tk\<rparr>) w))))"
    using assms(2-5,10-12) ok tok
    by (simp add: dispatch_hello_def client_reclaim_def Let_def) (simp add: set_client_def)
  then show "keep" "stk w' = stk w"
    "clients (xp w') ! cj = (clients (xp w) ! cj)\<lparr>c_hello := True, c_wins := o_wins (orphans (xp w) ! oi), c_token := tk\<rparr>"
    "orphans (xp w') = (orphans (xp w))[oi := no_orphan]"
    "(c_fd (clients (xp w) ! cj), Welcome \<lparr>we_magic = CL_MAGIC, we_version = CL_VERSION, we_screen_w = u32_of_int (x_sw (xp w)),
       we_screen_h = u32_of_int (x_sh (xp w)), we_reconnect_token = tk\<rparr>) \<in> set (sent (trace (ker w')))"
    using assms(2) by (simp_all add: send_welcome_def send_to_def close_all_def) (simp_all add: set_client_def set_orphan_def)
qed

text \<open>
  C22: A shell loses nothing by crashing. Take a client with a reconnect token and a window that is a
  taskbar, a desktop or a tray, and a free place to park its table. When the connection ends, none of its windows is
  touched. Then anything may happen that the transport allows (other clients
  come, go and send, the window manager moves windows, windows open and close), as long as the grace
  period of 5000 ms is not over, nobody else presents the token and the token is
  carried by one parked table only. When a connection that has not shaken hands then sends a hello with the
  token, it is accepted and sent a welcome with that token, it owns exactly the old window
  table, every window of which is still open, nothing on the desktop
  changes, and the table is parked no more.
\<close>

theorem shell_crash_reconnect:
  assumes "x_inv w" "ci < 16" "c_token (clients (xp w) ! ci) = tk" "tk \<noteq> 0"
    and "cw \<in> set (c_wins (clients (xp w) ! ci))" "client_wid cw \<noteq> 0" "window_by_id (stk w) (server_id cw) = Some v"
    and "role v = WIN_TASKBAR \<or> role v = WIN_DESKTOP \<or> role v = WIN_TRAY" "q \<in> set (orphans (xp w))" "o_token q = 0"
    and "w1 = client_drop e ci w" "guarded_run x_step x_ok es w1"
    and "\<forall>ev \<in> set es. patient tk (os_now e (call_no w) + 5000) ev" "w2 = fold x_step es w1"
    and "\<forall>j < 16. \<forall>l < 16. o_token (orphans (xp w2) ! j) = tk \<and> o_token (orphans (xp w2) ! l) = tk \<longrightarrow> j = l"
    and "cj < 16" "\<not> c_hello (clients (xp w2) ! cj)"
    and "20 \<le> length bs" "rd32 bs 0 = type_code CL_HELLO" "rd32 bs 4 = CL_MAGIC" "1 \<le> rd32 bs 8"
    and "rd32 bs 12 \<le> min (rd32 bs 8) CL_VERSION" "rd32 bs 16 = tk" "dispatch e' cj bs fds w2 = (keep, d, w3)"
  shows "stk w1 = stk w \<and> clients (xp w1) ! ci = no_client \<and>
    keep \<and> stk w3 = stk w2 \<and> c_hello (clients (xp w3) ! cj) \<and> c_token (clients (xp w3) ! cj) = tk \<and>
    c_wins (clients (xp w3) ! cj) = c_wins (clients (xp w) ! ci) \<and>
    (\<forall>cw' \<in> set (c_wins (clients (xp w) ! ci)). client_wid cw' \<noteq> 0 \<longrightarrow> window_by_id (stk w3) (server_id cw') \<noteq> None) \<and>
    (\<forall>j < 16. o_token (orphans (xp w3) ! j) \<noteq> tk) \<and>
    (c_fd (clients (xp w2) ! cj), Welcome \<lparr>we_magic = CL_MAGIC, we_version = CL_VERSION, we_screen_w = u32_of_int (x_sw (xp w2)),
       we_screen_h = u32_of_int (x_sh (xp w2)), we_reconnect_token = tk\<rparr>) \<in> set (sent (trace (ker w3)))"
proof -
  let ?c = "clients (xp w) ! ci"
  let ?p = "\<lparr>o_token = tk, o_deadline = os_now e (call_no w) + 5000, o_wins = c_wins ?c\<rparr>"
  obtain oi where oi: "oi < 16" "park_slot ?c w = Some oi"
    using shell_parks [OF assms(1,2) _ assms(5-10)] assms(3,4) by auto
  note drop = drop_parks [OF oi(2), of e, folded assms(11), unfolded assms(3)]
  have inv1: "x_inv w1" unfolding assms(11) by (rule x_inv_client_drop [OF assms(1,2)])
  have inv2: "x_inv w2" unfolding assms(14) by (rule x_machine.run_inv [OF inv1 assms(12)])
  have p1: "orphans (xp w1) ! oi = ?p" using drop(2) oi(1) x_invD(2) [OF assms(1)] by simp
  have p2: "orphans (xp w2) ! oi = ?p" unfolding assms(14) using keep_run [of es ?p w1 oi] assms(4,13) p1 by simp
  have len: "length (orphans (xp w2)) = 16" "length (clients (xp w2)) = 16" using x_invD(1,2) [OF inv2] by simp_all
  have "find_index (\<lambda>p. o_token p = tk) (orphans (xp w2)) = Some oi"
    using p2 oi(1) len assms(15) by (intro find_index_SomeI) (simp, simp, metis cl_orphan.select_convs(1) less_trans nat_less_le)
  moreover have "in_use free_win (c_wins ?c) \<noteq> 0"
    using assms(5,6) by (auto simp: in_use_def free_win_def filter_empty_conv)
  ultimately have h: "keep" "stk w3 = stk w2" "clients (xp w3) ! cj = (clients (xp w2) ! cj)\<lparr>c_hello := True, c_wins := c_wins ?c, c_token := tk\<rparr>"
      "orphans (xp w3) = (orphans (xp w2))[oi := no_orphan]"
    and greeted: "(c_fd (clients (xp w2) ! cj), Welcome \<lparr>we_magic = CL_MAGIC, we_version = CL_VERSION, we_screen_w = u32_of_int (x_sw (xp w2)),
       we_screen_h = u32_of_int (x_sh (xp w2)), we_reconnect_token = tk\<rparr>) \<in> set (sent (trace (ker w3)))"
    using hello_reclaims [OF assms(17) _ assms(4,18-23) _ _ assms(24), of oi] p2 len(2) assms(16) by simp_all
  have open_still: "window_by_id (stk w2) (server_id cw') \<noteq> None" if "cw' \<in> set (c_wins ?c)" "client_wid cw' \<noteq> 0" for cw'
  proof -
    have "cw' \<in># used (o_wins (orphans (xp w2) ! oi))" using that p2 by (simp add: used_def free_win_def)
    then have "cw' \<in># own w2" using own_orphan(1) [of oi w2] oi(1) len(1) by simp
    then show ?thesis using own_ok_live [OF x_invD(5) [OF inv2]] by blast
  qed
  have gone: "o_token (orphans (xp w3) ! j) \<noteq> tk" if "j < 16" for j
    using that assms(4,15) p2 oi(1) len(1) by (cases "j = oi") (auto simp: h(4) no_orphan_def nth_list_update)
  have "clients (xp w1) ! ci = no_client" using assms(2) x_invD(1) [OF assms(1)] by (simp add: assms(11))
  with drop(1) h(1-3) open_still gone greeted show ?thesis by simp
qed

lemma shared_shell:
  "stk (shared_world 1) = demo_stack" "orphans (xp (shared_world 1)) = replicate 16 no_orphan"
  "clients (xp (shared_world 1)) ! 1 = demo_client\<lparr>c_fd := 8, c_wins :=
     \<lparr>client_wid = 1, server_id = 1, cw_buf = None, cw_len = 0\<rparr> # replicate 63 no_win\<rparr>"
  "park_slot (clients (xp (shared_world 1)) ! 1) (shared_world 1) = Some 0"
proof -
  show c: "clients (xp (shared_world 1)) ! 1 = demo_client\<lparr>c_fd := 8, c_wins :=
      \<lparr>client_wid = 1, server_id = 1, cw_buf = None, cw_len = 0\<rparr> # replicate 63 no_win\<rparr>"
    by (simp add: shared_world_def set_win_def two_clients_sel demo_client_def no_client_def)
       (simp add: eval_nat_numeral)
  show stk: "stk (shared_world 1) = demo_stack" and orph: "orphans (xp (shared_world 1)) = replicate 16 no_orphan"
    by (simp_all add: shared_world_def two_clients_sel)
  obtain v where "window_by_id demo_stack 1 = Some v" "role v = WIN_DESKTOP"
    using demo_by_id [of 1] by auto
  moreover have "free_slot (\<lambda>p. o_token p = 0) (replicate 16 no_orphan) = Some 0"
    by (simp add: free_slot_def eval_nat_numeral no_orphan_def)
  ultimately show "park_slot (clients (xp (shared_world 1)) ! 1) (shared_world 1) = Some 0"
    unfolding park_slot_def is_shell_def stk c orph
    by (simp add: shell_role_def in_use_def free_win_def demo_client_def)
qed

text \<open>The desktop of client 1 crashes, a new connection takes its slot and presents the token.\<close>

definition token_hello :: "u8 list" where
  "token_hello = le_words [type_code CL_HELLO, CL_MAGIC, 2, 1, 1]"

lemma token_hello_bytes:
  "rd32 token_hello 0 = type_code CL_HELLO" "rd32 token_hello 4 = CL_MAGIC" "rd32 token_hello 8 = 2" "rd32 token_hello 12 = 1"
  "rd32 token_hello 16 = 1" "length token_hello = 20"
  using decode_words [where w = "type_code CL_HELLO" and ws = "[CL_MAGIC, 2, 1, 1]" and r = "[]"]
  by (simp_all add: token_hello_def del: le_words_simps)

theorem shell_crash_reconnect_witness:
  "\<exists>d w3. dispatch demo_os 1 token_hello [] (fold x_step [X_Connect demo_os 9] (client_drop demo_os 1 (shared_world 1))) = (True, d, w3) \<and>
     c_wins (clients (xp w3) ! 1) = c_wins (clients (xp (shared_world 1)) ! 1) \<and> window_by_id (stk w3) 1 \<noteq> None"
proof -
  let ?w = "shared_world 1" and ?w1 = "client_drop demo_os 1 (shared_world 1)" and ?es = "[X_Connect demo_os 9]"
  let ?w2 = "fold x_step ?es ?w1"
  let ?cw = "\<lparr>client_wid = 1, server_id = 1, cw_buf = None, cw_len = 0\<rparr>"
  have inv: "x_inv ?w" by (rule x_inv_shared) simp
  obtain v where v: "window_by_id (stk ?w) (server_id ?cw) = Some v" "role v = WIN_DESKTOP"
    using demo_by_id [of 1] by (auto simp: shared_shell(1))
  have c: "c_token (clients (xp ?w) ! 1) = 1" "?cw \<in> set (c_wins (clients (xp ?w) ! 1))" "no_orphan \<in> set (orphans (xp ?w))"
      "o_token no_orphan = 0" "client_wid ?cw \<noteq> 0"
    by (simp_all add: shared_shell(2,3) demo_client_def no_orphan_def del: One_nat_def)
  have run: "guarded_run x_step x_ok ?es ?w1" "\<forall>ev \<in> set ?es. patient 1 (os_now demo_os (call_no ?w) + 5000) ev"
    by (simp_all add: patient_def)
  have cl: "clients (xp ?w1) = (clients (xp ?w))[1 := no_client]" by simp
  have "client_by_fd ?w1 (-1) = Some 1"
    using shared_hello(2) [of 1] x_invD(1) [OF inv] unfolding client_by_fd_def cl
    by (intro find_index_SomeI) (auto simp: no_client_def)
  then have w2: "clients (xp ?w2) = (clients (xp ?w1))[1 := no_client\<lparr>c_fd := 9\<rparr>]" "orphans (xp ?w2) = orphans (xp ?w1)"
    by (simp_all add: transport_add_client_def demo_os_def Let_def)
  have new: "\<not> c_hello (clients (xp ?w2) ! 1)"
    using x_invD(1) [OF inv] unfolding w2(1) cl by (simp add: no_client_def)
  have parked: "orphans (xp ?w2) = (replicate 16 no_orphan)[0 := \<lparr>o_token = 1, o_deadline = os_now demo_os (call_no ?w) + 5000,
      o_wins = c_wins (clients (xp ?w) ! 1)\<rparr>]"
    using drop_parks(2) [OF shared_shell(4), of demo_os] c(1) by (simp add: w2(2) shared_shell(2) del: One_nat_def)
  have one: "\<forall>j < 16. \<forall>l < 16. o_token (orphans (xp ?w2) ! j) = 1 \<and> o_token (orphans (xp ?w2) ! l) = 1 \<longrightarrow> j = l"
    unfolding parked by (auto simp: nth_list_update no_orphan_def split: if_splits)
  obtain keep d w3 where disp: "dispatch demo_os 1 token_hello [] ?w2 = (keep, d, w3)" using prod_cases3 by blast
  have nums: "(1 :: nat) < 16" "(1 :: u32) \<noteq> 0" "20 \<le> length token_hello" "1 \<le> rd32 token_hello 8"
      "rd32 token_hello 12 \<le> min (rd32 token_hello 8) CL_VERSION"
    by (simp_all add: token_hello_bytes)
  from shell_crash_reconnect [OF inv nums(1) c(1) nums(2) c(2) c(5) v(1) disjI2 [OF disjI1 [OF v(2)]] c(3,4) refl run refl one nums(1) new
      nums(3) token_hello_bytes(1,2) nums(4,5) token_hello_bytes(5) disp] c(2)
  show ?thesis using disp by fastforce
qed

section \<open>Expiry\<close>

definition expired :: "int \<Rightarrow> cl_orphan \<Rightarrow> bool" where
  "expired now p \<longleftrightarrow> o_token p \<noteq> 0 \<and> o_deadline p \<le> now"

lemma orphan_destroy_tables:
  "orphans (xp (orphan_destroy oi w)) = (orphans (xp w))[oi := no_orphan]"
  "clients (xp (orphan_destroy oi w)) = clients (xp w)"
  by (simp_all add: orphan_destroy_def)

lemma orphan_destroy_lookup:
  "stack_wf (stk w) \<Longrightarrow> window_by_id (stk (orphan_destroy oi w)) i =
     (if i \<in> server_id ` set_mset (used (o_wins (orphans (xp w) ! oi))) then None else window_by_id (stk w) i)"
  by (simp add: orphan_destroy_def reap_lookup)

lemma expire_loop_effect:
  "x_inv w \<Longrightarrow> distinct is \<Longrightarrow> \<forall>j \<in> set is. j < 16 \<Longrightarrow> expire_loop now is w = (d, w') \<Longrightarrow>
   (\<forall>j < 16. orphans (xp w') ! j = (if j \<in> set is \<and> expired now (orphans (xp w) ! j) then no_orphan else orphans (xp w) ! j)) \<and>
   (\<forall>i. window_by_id (stk w') i =
      (if \<exists>j \<in> set is. expired now (orphans (xp w) ! j) \<and> i \<in> server_id ` set_mset (used (o_wins (orphans (xp w) ! j)))
       then None else window_by_id (stk w) i)) \<and>
   (d \<longleftrightarrow> (\<exists>j \<in> set is. expired now (orphans (xp w) ! j)))"
proof (induction "is" arbitrary: w d w')
  case (Cons j js)
  show ?case
  proof (cases "expired now (orphans (xp w) ! j)")
    case True
    let ?w = "orphan_destroy j w"
    have inv: "x_inv ?w" using Cons.prems by (simp add: x_inv_orphan_destroy)
    have d: "d" "expire_loop now js ?w = (fst (expire_loop now js ?w), w')"
      using Cons.prems(4) True by (auto simp: expired_def Let_def)
    have same: "orphans (xp ?w) ! l = (if l = j then no_orphan else orphans (xp w) ! l)" if "l < 16" for l
      using that x_invD(2) [OF Cons.prems(1)] by (simp add: orphan_destroy_tables nth_list_update)
    have js: "\<forall>l \<in> set js. l < 16 \<and> l \<noteq> j" using Cons.prems(2,3) by auto
    note IH = Cons.IH [OF inv _ _ d(2)]
    show ?thesis
      using IH js same Cons.prems(2,3) True d(1) orphan_destroy_lookup [OF x_invD(6) [OF Cons.prems(1)], of j]
      by (auto simp: expired_def no_orphan_def)
  next
    case False
    then have "expire_loop now js w = (d, w')" using Cons.prems(4) by (auto simp: expired_def Let_def split: if_splits)
    from Cons.IH [OF Cons.prems(1) _ _ this] Cons.prems(2,3) False show ?thesis by auto
  qed
qed simp

text \<open>
  C33: Reaping orphans is exact: a parked table is freed, and its windows closed, exactly
  when its grace period is over; every other parked table and every other window stays,
  and the scene is reported as changed exactly when something was reaped.
\<close>

theorem orphans_expire_exact:
  assumes "x_inv w" and "orphans_expire now w = (d, w')"
  shows "(\<forall>j < 16. orphans (xp w') ! j = (if expired now (orphans (xp w) ! j) then no_orphan else orphans (xp w) ! j)) \<and>
    (\<forall>i. window_by_id (stk w') i =
      (if \<exists>j < 16. expired now (orphans (xp w) ! j) \<and> i \<in> server_id ` set_mset (used (o_wins (orphans (xp w) ! j)))
       then None else window_by_id (stk w) i)) \<and>
    (d \<longleftrightarrow> (\<exists>j < 16. expired now (orphans (xp w) ! j)))"
  using expire_loop_effect [OF assms(1), of "[0..<16]" now d w'] assms(2)
  by (simp add: orphans_expire_def Bex_def del: upt_rec_numeral)

theorem orphans_expire_exact_witness:
  "fst (orphans_expire 5000 (client_drop demo_os 1 (shared_world 1))) \<and>
   window_by_id (stk (snd (orphans_expire 5000 (client_drop demo_os 1 (shared_world 1))))) 1 = None \<and>
   \<not> fst (orphans_expire 4999 (client_drop demo_os 1 (shared_world 1)))"
proof -
  let ?w = "client_drop demo_os 1 (shared_world 1)"
  let ?p = "\<lparr>o_token = 1, o_deadline = 5000,
              o_wins = \<lparr>client_wid = 1, server_id = 1, cw_buf = None, cw_len = 0\<rparr> # replicate 63 no_win\<rparr>"
  have inv: "x_inv ?w" by (rule x_inv_client_drop [OF x_inv_shared]) simp_all
  have "orphans (xp ?w) = (orphans (xp (shared_world 1)))[0 := ?p]"
    unfolding client_drop_def Let_def shared_shell(4) option.case
    by (simp add: shared_shell(3) demo_client_def demo_os_def del: One_nat_def)
  then have orph: "orphans (xp ?w) ! j = (if j = 0 then ?p else no_orphan)" if "j < 16" for j
    using that by (simp add: shared_shell(2) nth_list_update)
  obtain d w' where r: "orphans_expire 5000 ?w = (d, w')" by fastforce
  obtain d2 w2 where r2: "orphans_expire 4999 ?w = (d2, w2)" by fastforce
  have "expired 5000 (orphans (xp ?w) ! 0) \<and> 1 \<in> server_id ` set_mset (used (o_wins (orphans (xp ?w) ! 0)))"
    by (simp add: orph expired_def used_Cons free_win_def del: One_nat_def)
  moreover have "\<not> expired 4999 (orphans (xp ?w) ! j)" if "j < 16" for j
    using orph [OF that] by (simp add: expired_def no_orphan_def del: One_nat_def)
  ultimately show ?thesis
    using orphans_expire_exact [OF inv r] orphans_expire_exact [OF inv r2] unfolding r r2 fst_conv snd_conv
    by (metis zero_less_numeral)
qed

end
