(* ===== verification/Transport_Place.thy ===== *)
theory Transport_Place
  imports Transport_Spec Transport_Life
begin

text \<open>
  What creating a window and committing a buffer do, reconnect tokens, and the events
  routed to clients.
\<close>

section \<open>Creating a window\<close>

lemma z_order_focus:
  assumes "stack_wf s" "window_by_id s i = Some v" "role v \<noteq> WIN_DESKTOP"
  shows "z_order (window_focus s i) = removeAll i (z_order s) @ [i]" "focus_id (window_focus s i) = i"
proof -
  have i: "i \<in> set (z_order s)" using assms(2) by (metis option.distinct(1) window_by_id_None)
  have wf: "stack_wf (s\<lparr>focus_id := i\<rparr>)" using assms(1) i by (simp add: stack_wf_set_focus)
  have z: "z_order (s\<lparr>focus_id := i\<rparr>) = z_order s" by (simp add: z_order_def)
  show "z_order (window_focus s i) = removeAll i (z_order s) @ [i]"
    using assms(2,3) i z_order_ops(2) [OF wf, of i] by (simp add: window_focus_def Let_def z)
  show "focus_id (window_focus s i) = i" using assms(2,3) by (simp add: window_focus_def Let_def)
qed

text \<open>The stack between the call that creates the window and its placement.\<close>

lemma create_args_effect:
  assumes "stack_wf s" "length (windows s) < 64" "\<not> ids_exhausted s"
    and "s2 = window_modify (snd (create_args m s)) (next_id s) (\<lambda>v. v\<lparr>app_decorated := True\<rparr>)"
  shows "fst (create_args m s) = next_id s" "stack_wf s2" "z_order s2 = z_order s @ [next_id s]"
    "focus_id s2 = focus_id s" "next_id s \<notin> set (z_order s)" "next_id s \<noteq> 0"
    "\<exists>v. window_by_id s2 (next_id s) = Some v \<and> role v = role_from_wire (cr_role m) \<and> app_decorated v \<and>
       buf v = None \<and> win_x v = cr_x m \<and> win_y v = cr_y m"
proof -
  obtain i s1 where c: "create_args m s = (i, s1)" by fastforce
  note ca = c [unfolded create_args_def]
  have i: "i = next_id s" using by_id_create(1) [OF assms(1,2) ca] .
  obtain win where win: "win_id win = i" "windows s1 = windows s @ [win]" "window_by_id s1 = (window_by_id s)(i \<mapsto> win)"
    using by_id_create(2) [OF assms(1,2) ca] by blast
  have wf1: "stack_wf s1" using stack_wf_create [OF assms(1,3)] ca by (metis snd_conv)
  have fields: "role win = role_from_wire (cr_role m)" "buf win = None" "win_x win = cr_x m" "win_y win = cr_y m"
    using ca assms(2) win(2) by (auto simp: window_create_def Let_def)
  have s2: "s2 = window_modify s1 i (\<lambda>v. v\<lparr>app_decorated := True\<rparr>)" using assms(4) by (simp add: c i)
  show "fst (create_args m s) = next_id s" by (simp add: c i)
  show "stack_wf s2" unfolding s2 by (rule stack_wf_modify [OF wf1]) simp
  show "z_order s2 = z_order s @ [next_id s]"
    unfolding s2 using z_order_ops(4) [OF wf1] by (simp add: z_order_def win(1,2) i)
  show "focus_id s2 = focus_id s" unfolding s2 using ca assms(2) by (auto simp: window_create_def Let_def)
  show "next_id s \<notin> set (z_order s)" "next_id s \<noteq> 0" using assms(1) by (auto simp: stack_wf_def)
  show "\<exists>v. window_by_id s2 (next_id s) = Some v \<and> role v = role_from_wire (cr_role m) \<and> app_decorated v \<and>
       buf v = None \<and> win_x v = cr_x m \<and> win_y v = cr_y m"
    unfolding s2 using win fields by (simp add: by_id_modify i)
qed

lemma on_create_made:
  assumes "win_find (clients (xp w) ! ci) (cr_wid m) = None" "win_alloc (clients (xp w) ! ci) = Some k"
    and "stack_wf (stk w)" "length (windows (stk w)) < 64" "\<not> ids_exhausted (stk w)"
  shows "on_create_window ci m w =
    announce ci m (next_id (stk w)) (created ci k m (next_id (stk w)) (snd (create_args m (stk w))) w)"
proof -
  obtain i s1 where c: "create_args m (stk w) = (i, s1)" by fastforce
  then have "i = next_id (stk w)" "i \<noteq> 0"
    using create_args_effect(1) [OF assms(3-5) refl, of m] create_args_effect(6) [OF assms(3-5) refl] by simp_all
  with c assms(1,2) show ?thesis by (simp add: on_create_window_def Let_def)
qed

text \<open>The slot and the window of a creation that goes through; an application window is on top and focused.\<close>

lemma created_slot:
  assumes "x_inv w" "ci < 16" "\<not> ids_exhausted (stk w)"
    and "win_find (clients (xp w) ! ci) (cr_wid m) = None" "win_alloc (clients (xp w) ! ci) = Some k"
    and "length (windows (stk w)) < 64" "w' = on_create_window ci m w" "i = next_id (stk w)"
    and "s2 = window_modify (snd (create_args m (stk w))) i (\<lambda>v. v\<lparr>app_decorated := True\<rparr>)"
  shows "stk w' = place_by_role (role_from_wire (cr_role m)) i (x_sw (xp w)) (x_sh (xp w)) s2"
    "client_wid (the_win ci k w') = cr_wid m" "server_id (the_win ci k w') = i"
    "k < length (c_wins (clients (xp w') ! ci))" "c_hello (clients (xp w') ! ci) = c_hello (clients (xp w) ! ci)"
proof -
  have made: "w' = announce ci m i (created ci k m i (snd (create_args m (stk w))) w)"
    using on_create_made [OF assms(4,5) x_invD(6) [OF assms(1)] assms(6,3)] assms(7,8) by simp
  have len: "ci < length (clients (xp w))" "k < length (c_wins (clients (xp w) ! ci))"
    using assms(2) x_invD(1,3) [OF assms(1)] alloc_slot(1) [OF assms(1,2,5)] by (auto simp: client_ok_def row_ok_def)
  show "stk w' = place_by_role (role_from_wire (cr_role m)) i (x_sw (xp w)) (x_sh (xp w)) s2"
    using made assms(9) by (simp add: created_def Let_def)
  show "client_wid (the_win ci k w') = cr_wid m" "server_id (the_win ci k w') = i"
    "k < length (c_wins (clients (xp w') ! ci))" "c_hello (clients (xp w') ! ci) = c_hello (clients (xp w) ! ci)"
    using len by (simp_all add: made the_win_def created_def Let_def set_win_def)
qed

lemma created_normal:
  assumes "x_inv w" "ci < 16" "\<not> ids_exhausted (stk w)"
    and "win_find (clients (xp w) ! ci) (cr_wid m) = None" "win_alloc (clients (xp w) ! ci) = Some k"
    and "length (windows (stk w)) < 64" "role_from_wire (cr_role m) = WIN_NORMAL"
    and "s' = stk (on_create_window ci m w)" "i = next_id (stk w)"
  shows "\<exists>v. window_by_id s' i = Some v \<and> role v = WIN_NORMAL \<and> app_decorated v \<and> buf v = None \<and>
    (win_x v, win_y v) = (cr_x m, cr_y m) \<and> z_order s' = z_order (stk w) @ [i] \<and> focus_id s' = i"
proof -
  let ?s2 = "window_modify (snd (create_args m (stk w))) i (\<lambda>v. v\<lparr>app_decorated := True\<rparr>)"
  note ca = create_args_effect [OF x_invD(6) [OF assms(1)] assms(6,3), of ?s2 m, folded assms(9), OF refl]
  obtain v where v: "window_by_id ?s2 i = Some v" "role v = WIN_NORMAL" "app_decorated v" "buf v = None" "win_x v = cr_x m" "win_y v = cr_y m"
    using ca(7) assms(7) by auto
  have "s' = window_focus ?s2 i"
    using created_slot(1) [OF assms(1-6) refl assms(9) refl] assms(7,8) by (simp add: place_by_role_def)
  moreover have "removeAll i (z_order (stk w) @ [i]) = z_order (stk w)" using ca(5) by simp
  ultimately show ?thesis
    using z_order_focus [OF ca(2) v(1)] v by_id_focus_any [OF ca(2)] ca(3) by simp
qed

text \<open>
  C24: A request to create a window, from a client that has no window under the id it gives, with a
  free slot in its table, room in the window stack and handles left, makes a window that is placed by its role: an
  application window is put on top and
  focused, the desktop is forced to cover the screen and sinks below every window, and
  any other shell surface is added on top without taking the focus. The server draws no
  title bar over it, the client's first free slot records its id and handle, and all other
  windows stay in their order.
\<close>

theorem create_places_by_role:
  assumes "x_inv w" "ci < 16" "\<not> ids_exhausted (stk w)"
    and "cr_wid m \<noteq> 0" "\<forall>j < 64. client_wid (the_win ci j w) \<noteq> cr_wid m"
    and "k < 64" "client_wid (the_win ci k w) = 0" "\<forall>j < k. client_wid (the_win ci j w) \<noteq> 0"
    and "length (windows (stk w)) < WIN_MAX" "0 < x_sw (xp w)" "0 < x_sh (xp w)"
    and "s' = stk (on_create_window ci m w)" "i = next_id (stk w)"
  shows "\<exists>v. window_by_id s' i = Some v \<and>
    role v = (if cr_role m = 1 then WIN_DESKTOP else if cr_role m = 2 then WIN_TASKBAR else if cr_role m = 3 then WIN_TRAY
              else if cr_role m = 4 then WIN_MENU else if cr_role m = 5 then WIN_TOOLTIP else WIN_NORMAL) \<and> \<not> window_has_ssd v \<and>
    client_wid (the_win ci k (on_create_window ci m w)) = cr_wid m \<and>
    server_id (the_win ci k (on_create_window ci m w)) = i \<and>
    (case role v of
       WIN_NORMAL \<Rightarrow> z_order s' = z_order (stk w) @ [i] \<and> focus_id s' = i \<and> (win_x v, win_y v) = (cr_x m, cr_y m)
     | WIN_DESKTOP \<Rightarrow> z_order s' = i # z_order (stk w) \<and> focus_id s' = focus_id (stk w) \<and>
         (win_x v, win_y v, win_w v, win_h v) = (0, 0, x_sw (xp w), x_sh (xp w))
     | _ \<Rightarrow> z_order s' = z_order (stk w) @ [i] \<and> focus_id s' = focus_id (stk w))"
proof -
  note A = assms
  let ?s2 = "window_modify (snd (create_args m (stk w))) i (\<lambda>v. v\<lparr>app_decorated := True\<rparr>)"
  let ?r = "role_from_wire (cr_role m)"
  have wins: "length (c_wins (clients (xp w) ! ci)) = 64" using x_invD(3) [OF A(1,2)] by (simp add: client_ok_def row_ok_def)
  have find: "win_find (clients (xp w) ! ci) (cr_wid m) = None" "win_alloc (clients (xp w) ! ci) = Some k"
    using A(5-8) wins
    by (auto simp: win_find_def win_alloc_def free_slot_def free_win_def the_win_def find_index_None_iff in_set_conv_nth intro!: find_index_SomeI)
  have role: "?r = (if cr_role m = 1 then WIN_DESKTOP else if cr_role m = 2 then WIN_TASKBAR else if cr_role m = 3 then WIN_TRAY
      else if cr_role m = 4 then WIN_MENU else if cr_role m = 5 then WIN_TOOLTIP else WIN_NORMAL)" by (simp add: role_from_wire_def)
  have room: "length (windows (stk w)) < 64" using A(9) by simp
  note ca = create_args_effect [OF x_invD(6) [OF A(1)] room A(3), of ?s2 m, folded A(13), OF refl]
  obtain v where v: "window_by_id ?s2 i = Some v" "role v = ?r" "app_decorated v" "win_x v = cr_x m" "win_y v = cr_y m"
    using ca(7) by blast
  note sl = created_slot [OF A(1-3) find room refl A(13) refl]
  have s': "s' = place_by_role ?r i (x_sw (xp w)) (x_sh (xp w)) ?s2" using sl(1) A(12) by simp
  note tw = sl(2,3)
  have rem: "removeAll i (z_order (stk w) @ [i]) = z_order (stk w)" using ca(5) by simp
  have ssd: "\<not> window_has_ssd v" using v(3) by (simp add: window_has_ssd_def)
  show ?thesis
  proof (cases "?r = WIN_NORMAL")
    case True
    from created_normal [OF A(1-3) find room True A(12,13)] True tw show ?thesis unfolding role [symmetric] by (auto simp: window_has_ssd_def)
  next
    case normal: False
    show ?thesis
    proof (cases "?r = WIN_DESKTOP")
      case True
      let ?g = "window_set_geometry ?s2 i 0 0 (x_sw (xp w)) (x_sh (xp w))"
      let ?v = "v\<lparr>win_x := 0, win_y := 0, win_w := x_sw (xp w), win_h := x_sh (xp w)\<rparr>"
      have s'': "s' = window_lower ?g i" using True by (simp add: s' place_by_role_def)
      have wf: "stack_wf ?g" using ca(2) by (rule stack_wf_set_geometry)
      have z: "z_order ?g = z_order (stk w) @ [i]" "focus_id ?g = focus_id (stk w)"
        using z_order_ops(4) [OF ca(2)] ca(3,4) by (simp_all add: window_set_geometry_def)
      have "window_by_id ?g i = Some ?v" unfolding window_set_geometry_def
        using v(1) A(10,11) by (subst by_id_modify) simp_all
      then have "window_by_id s' i = Some ?v" by (simp add: s'' by_id_lower [OF wf])
      moreover have "z_order s' = i # z_order (stk w)"
        using z_order_ops(3) [OF wf, of i] rem by (simp add: s'' z)
      ultimately show ?thesis unfolding role [symmetric] using True v z(2) tw ssd
        by (intro exI [where x = ?v]) (simp add: s'' window_has_ssd_def)
    next
      case False
      then have "s' = ?s2" using normal by (simp add: s' place_by_role_def)
      with v ca(3,4) tw ssd normal False show ?thesis unfolding role [symmetric] by (cases ?r) simp_all
    qed
  qed
qed

lemma demo_alloc:
  "win_find (clients (xp (shared_world 3)) ! 0) wid = None" "win_alloc (clients (xp (shared_world 3)) ! 0) = Some 0"
  by (simp_all add: win_find_def win_alloc_def free_slot_def shared_world_def set_win_def two_clients_sel
      demo_client_def no_client_def find_index_None_iff) (simp_all add: eval_nat_numeral no_win_def free_win_def)

lemma shared_stack: "stk (shared_world i) = demo_stack" "next_id demo_stack = 4" "length (windows demo_stack) = 3"
    "x_sw (xp (shared_world i)) = 1920" "x_sh (xp (shared_world i)) = 1080"
  by (simp_all add: shared_world_def two_clients_sel demo_stack_defs Let_def set_win_def set_client_def two_clients_def
      empty_world_def transport_create_def)

theorem create_places_by_role_witness:
  "focus_id (stk (on_create_window 0 (demo_create 5 0) (shared_world 3))) = 4 \<and>
   z_order (stk (on_create_window 0 (demo_create 5 1) (shared_world 3))) = 4 # z_order demo_stack"
proof -
  let ?w = "shared_world 3"
  have inv: "x_inv ?w" by (rule x_inv_shared) simp
  have none: "client_wid (the_win 0 j ?w) = 0" if "j < 64" for j
    using that by (simp add: the_win_def shared_world_def set_win_def two_clients_sel demo_client_def no_client_def no_win_def)
  have wid: "cr_wid (demo_create 5 r) = 5" "cr_role (demo_create 5 r) = r" for r by (simp_all add: demo_create_def)
  have pre: "(0 :: nat) < 16" "\<not> ids_exhausted (stk ?w)" "cr_wid (demo_create 5 r) \<noteq> 0"
      "\<forall>j < 64. client_wid (the_win 0 j ?w) \<noteq> cr_wid (demo_create 5 r)" "(0 :: nat) < 64" "client_wid (the_win 0 0 ?w) = 0"
      "\<forall>j < 0. client_wid (the_win 0 j ?w) \<noteq> 0" "length (windows (stk ?w)) < WIN_MAX" "0 < x_sw (xp ?w)" "0 < x_sh (xp ?w)" for r
    using none demo_not_exhausted by (simp_all add: wid shared_stack)
  from create_places_by_role [OF inv pre refl refl, of 0] create_places_by_role [OF inv pre refl refl, of 1]
  show ?thesis by (simp only: wid shared_stack) auto
qed

text \<open>
  A request to create a window under client id 0, which the protocol forbids, is not
  rejected: the slot stays free while the window is created, so the window is owned by
  nobody and stays on the desktop even after its client is gone.
\<close>

theorem create_wid0_leaks:
  assumes "x_inv w" "ci < 16" "c_hello (clients (xp w) ! ci)" "\<not> ids_exhausted (stk w)"
    and "cr_wid m = 0" "win_alloc (clients (xp w) ! ci) = Some k" "length (windows (stk w)) < WIN_MAX"
    and "w' = on_create_window ci m w" "i = next_id (stk w)"
  shows "window_by_id (stk w) i = None \<and> window_by_id (stk w') i \<noteq> None \<and> own w' = own w \<and>
    window_by_id (stk (client_drop e ci w')) i \<noteq> None"
proof -
  have room: "length (windows (stk w)) < 64" using assms(7) by simp
  have wf: "stack_wf (stk w)" using x_invD(6) [OF assms(1)] .
  have nf: "win_find (clients (xp w) ! ci) (cr_wid m) = None" using assms(5) by (simp add: win_find_def)
  note ca = create_args_effect [OF wf room assms(4), of _ m, OF refl]
  have made: "w' = announce ci m i (created ci k m i (snd (create_args m (stk w))) w)"
    using on_create_made [OF nf assms(6) wf room assms(4)] assms(8,9) by simp
  have none: "window_by_id (stk w) i = None" using ca(5) assms(9) by (simp add: window_by_id_None)
  let ?s2 = "window_modify (snd (create_args m (stk w))) i (\<lambda>v. v\<lparr>app_decorated := True\<rparr>)"
  have "i \<in> set (z_order ?s2)" using ca(3) assms(9) by simp
  moreover have "pix (stk w') = pix ?s2" using ca(2) assms(9) by (simp add: made created_def Let_def place_by_role_ok)
  ultimately have some: "window_by_id (stk w') i \<noteq> None"
    by (metis option.map_disc_iff pix_def window_by_id_None)
  have len: "ci < length (clients (xp w))" "k < length (c_wins (clients (xp w) ! ci))"
    using assms(2) x_invD(1,3) [OF assms(1)] alloc_slot(1) [OF assms(1,2,6)] by (auto simp: client_ok_def row_ok_def)
  let ?cw = "(the_win ci k w)\<lparr>client_wid := cr_wid m, server_id := i\<rparr>"
  have tables: "clients (xp w') = clients (xp (set_win ci k ?cw w))" "orphans (xp w') = orphans (xp w)"
    by (simp_all add: made created_def Let_def)
  have "own w' = own (set_win ci k ?cw w)" using tables by (simp add: own_def)
  then have own: "own w' = own w"
    using own_win(2) [OF len, of ?cw] alloc_slot(4) [OF assms(1,2,6)] assms(5) by (simp add: slot_def free_win_def)
  have inv': "x_inv w'" using x_inv_create_window [OF assms(1-4)] assms(8) by simp
  have "i \<notin> server_id ` set_mset (own w)"
    using own_ok_live [OF x_invD(5) [OF assms(1)]] none by fastforce
  moreover have "set_mset (used (c_wins (clients (xp w') ! ci))) \<subseteq> set_mset (own w')"
    using own_client(1) [of ci w'] x_invD(1) [OF inv'] assms(2) by simp
  ultimately have "i \<notin> server_id ` set_mset (used (c_wins (clients (xp w') ! ci)))" using own by auto
  then have "window_by_id (stk (client_drop e ci w')) i \<noteq> None"
    using some by (simp add: stk_client_drop reap_lookup [OF x_invD(6) [OF inv']])
  with none some own show ?thesis by simp
qed

theorem create_wid0_leaks_witness:
  "window_by_id (stk (client_drop demo_os 0 (on_create_window 0 (demo_create 0 0) (shared_world 3)))) 4 \<noteq> None"
proof -
  have inv: "x_inv (shared_world 3)" by (rule x_inv_shared) simp
  have "cr_wid (demo_create 0 0) = 0" by (simp add: demo_create_def)
  from create_wid0_leaks [OF inv _ shared_hello(1) _ this demo_alloc(2) _ refl refl, of demo_os]
  show ?thesis using demo_not_exhausted by (simp add: shared_stack)
qed

section \<open>Committing a buffer\<close>

text \<open>A commit that is accepted: the previous mapping goes, and the window shows the new one.\<close>

lemma commit_shows:
  assumes "x_inv w" "ci < 16" "win_find (clients (xp w) ! ci) (co_wid m) = Some k"
    and "co_buffer m = b" "b_has_fence b = 0" "b_kind b = CL_BUF_SHM" "buffer_ok b" "os_map_ok e (call_no w)"
    and "w' = on_commit e ci m [f] w" "i = server_id (the_win ci k w)" "window_by_id (stk w) i = Some v" "a = next_map (ker w)"
  shows "window_by_id (stk w') i = Some (attach_buffer b a v)" "focus_id (stk w') = focus_id (stk w)" "maps (ker w) a = None"
    "maps (ker w') = (case cw_buf (the_win ci k w) of None \<Rightarrow> maps (ker w) | Some old \<Rightarrow> (maps (ker w))(old := None))
                       (a \<mapsto> buffer_len b)"
proof -
  note found = found_slot [OF assms(1-3)]
  have fence: "wait_fence b [f] (ker w) = ([f], ker w)" using assms(5) by (simp add: wait_fence_def)
  have "0 < buffer_len b" using assms(7) by (simp add: buffer_ok_def buffer_len_def unat_gt_0)
  then obtain k2 where k2: "k_mmap f (buffer_len b) (os_map_ok e (call_no w)) (ker w) = (Some a, k2)"
      "maps k2 = (maps (ker w))(a \<mapsto> buffer_len b)"
    using assms(8,12) by (simp add: k_mmap_def Let_def)
  let ?w2 = "w\<lparr>ker := k_close f k2\<rparr>"
  have w': "w' = install_buffer ci k b a ?w2"
    using assms(6,7,11) k2(1) assms(10) by (simp add: assms(9) on_commit_def assms(3,4) fence Let_def)
  show fresh: "maps (ker w) a = None" using x_invD(5) [OF assms(1)] owns_fresh by (auto simp: own_ok_def assms(12))
  have old: "b0 \<noteq> a" if "cw_buf (the_win ci k w) = Some b0" for b0
    using found(6) fresh that by (auto simp: own_ok_def owns_def)
  obtain cw s kr where d: "win_drop_buffer (the_win ci k w) (stk w, k_close f k2) = (cw, s, kr)" using prod_cases3 by blast
  have tw: "the_win ci k ?w2 = the_win ci k w" by (simp add: the_win_def)
  have attach: "attach_buffer b a (v\<lparr>buf := None\<rparr>) = attach_buffer b a v" by (simp add: attach_buffer_def)
  have s: "server_id cw = i" "focus_id s = focus_id (stk w)" "window_by_id (window_modify s i (attach_buffer b a)) i = Some (attach_buffer b a v)"
    using d assms(10,11) by (auto simp: win_drop_buffer_def by_id_modify attach attach_buffer_def split: option.splits)
  show "window_by_id (stk w') i = Some (attach_buffer b a v)" "focus_id (stk w') = focus_id (stk w)"
    using s by (simp_all add: w' install_buffer_def tw d Let_def)
  show "maps (ker w') = (case cw_buf (the_win ci k w) of None \<Rightarrow> maps (ker w) | Some old \<Rightarrow> (maps (ker w))(old := None))
      (a \<mapsto> buffer_len b)"
    using d old k2(2) by (auto simp: w' install_buffer_def tw Let_def win_drop_buffer_def fun_upd_twist split: option.splits)
qed

lemma win_find_slot:
  assumes "x_inv w" "ci < 16" "k < 64" "client_wid (the_win ci k w) = wid" "wid \<noteq> 0"
    and "\<forall>j < k. client_wid (the_win ci j w) \<noteq> wid"
  shows "win_find (clients (xp w) ! ci) wid = Some k"
proof -
  have "length (c_wins (clients (xp w) ! ci)) = 64" using x_invD(3) [OF assms(1,2)] by (simp add: client_ok_def row_ok_def)
  then show ?thesis using assms(3-6) by (auto simp: win_find_def the_win_def intro!: find_index_SomeI)
qed

text \<open>The window that shows a new frame: its four buffer fields and nothing else.\<close>

definition showing :: "nat \<Rightarrow> cl_buffer \<Rightarrow> window \<Rightarrow> window" where
  "showing a b v = v\<lparr>buf := Some (Mapping a), buf_w := int_of_u32 (b_width b), buf_h := int_of_u32 (b_height b),
     buf_stride := int_of_u32 (b_stride b)\<rparr>"

lemma install_exact:
  assumes "window_by_id (stk w) (server_id (the_win ci k w)) = Some v" "ci < length (clients (xp w))"
    and "k < length (c_wins (clients (xp w) ! ci))" "i = server_id (the_win ci k w)" "w' = install_buffer ci k b a w"
  shows "window_by_id (stk w') = (window_by_id (stk w))(i \<mapsto> showing a b v)" "z_order (stk w') = z_order (stk w)"
    "focus_id (stk w') = focus_id (stk w)"
    "the_win ci k w' = (the_win ci k w)\<lparr>cw_buf := Some a, cw_len := buffer_len b\<rparr>"
    "maps (ker w') = (case cw_buf (the_win ci k w) of None \<Rightarrow> maps (ker w) | Some old \<Rightarrow> (maps (ker w))(old := None))"
    "trace (ker w') = trace (ker w) @
       (case cw_buf (the_win ci k w) of None \<Rightarrow> [] | Some old \<Rightarrow> [K_Munmap old (cw_len (the_win ci k w))])"
proof -
  let ?f = "attach_buffer b a" and ?g = "\<lambda>v. v\<lparr>buf := None\<rparr>"
  have f: "?f x = showing a b x" "showing a b (x\<lparr>buf := None\<rparr>) = showing a b x" for x
    by (simp_all add: attach_buffer_def showing_def)
  have mods: "window_by_id (window_modify s j ?f) = (window_by_id s)(j := map_option ?f (window_by_id s j))"
      "window_by_id (window_modify s j ?g) = (window_by_id s)(j := map_option ?g (window_by_id s j))"
      "z_order (window_modify s j ?f) = z_order s" "z_order (window_modify s j ?g) = z_order s" for s j
    by (rule by_id_modify z_order_modify, simp add: attach_buffer_def)+
  note w' = assms(5) [unfolded install_buffer_def win_drop_buffer_def]
  show "window_by_id (stk w') = (window_by_id (stk w))(i \<mapsto> showing a b v)" "z_order (stk w') = z_order (stk w)"
    using w' assms(1,4) by (auto simp: mods f split: option.splits)
  show "focus_id (stk w') = focus_id (stk w)"
    "the_win ci k w' = (the_win ci k w)\<lparr>cw_buf := Some a, cw_len := buffer_len b\<rparr>"
    "maps (ker w') = (case cw_buf (the_win ci k w) of None \<Rightarrow> maps (ker w) | Some old \<Rightarrow> (maps (ker w))(old := None))"
    "trace (ker w') = trace (ker w) @
       (case cw_buf (the_win ci k w) of None \<Rightarrow> [] | Some old \<Rightarrow> [K_Munmap old (cw_len (the_win ci k w))])"
    using w' assms(2,3) by (auto simp: the_win_def set_win_def Let_def split: option.splits)
qed

text \<open>
  C34: A commit to a window of the client, fenced or not, with the descriptors that came with it (at least
  one). If it announces a fence and brought a second descriptor, the server first polls that for at most 100
  ms and closes it. A buffer in shared memory, in the one supported format and with a non-zero stride and
  height, that the kernel agrees to map, then becomes the window's content: its stride times its
  height bytes are mapped, the descriptor is closed, the mapping of the previous frame is
  unmapped, and exactly the window's four buffer fields and the client's slot take the new
  frame; no other window changes. Any other buffer, or one the kernel does not map, only
  has its descriptor closed.
\<close>

theorem commit_installs_buffer:
  assumes "x_inv w" "ci < 16" "k < 64" "client_wid (the_win ci k w) = co_wid m" "co_wid m \<noteq> 0"
    and "\<forall>j < k. client_wid (the_win ci j w) \<noteq> co_wid m" "co_buffer m = b"
    and "waits = (if b_has_fence b \<noteq> 0 \<and> rest \<noteq> [] then [K_Poll (hd rest) 100, K_Close (hd rest)] else [])"
    and "good \<longleftrightarrow> b_kind b = CL_BUF_SHM \<and> b_format b = CL_FORMAT_XRGB8888 \<and> b_stride b \<noteq> 0 \<and> b_height b \<noteq> 0"
    and "n = unat (b_stride b) * unat (b_height b)" "i = server_id (the_win ci k w)" "w' = on_commit e ci m (f # rest) w"
  shows "if good \<and> os_map_ok e (call_no w + length waits)
    then \<exists>v a. window_by_id (stk w) i = Some v \<and> maps (ker w) a = None \<and>
      window_by_id (stk w') = (window_by_id (stk w))(i \<mapsto> v\<lparr>buf := Some (Mapping a), buf_w := int_of_u32 (b_width b),
        buf_h := int_of_u32 (b_height b), buf_stride := int_of_u32 (b_stride b)\<rparr>) \<and>
      z_order (stk w') = z_order (stk w) \<and> focus_id (stk w') = focus_id (stk w) \<and>
      the_win ci k w' = (the_win ci k w)\<lparr>cw_buf := Some a, cw_len := n\<rparr> \<and>
      (case cw_buf (the_win ci k w) of
         None \<Rightarrow> maps (ker w') = (maps (ker w))(a \<mapsto> n) \<and>
           trace (ker w') = trace (ker w) @ waits @ [K_Mmap f n, K_Close f]
       | Some old \<Rightarrow> maps (ker w') = (maps (ker w))(old := None, a \<mapsto> n) \<and>
           trace (ker w') = trace (ker w) @ waits @ [K_Mmap f n, K_Close f, K_Munmap old (cw_len (the_win ci k w))])
    else stk w' = stk w \<and> xp w' = xp w \<and> maps (ker w') = maps (ker w) \<and>
      trace (ker w') = trace (ker w) @ waits @ (if good then [K_Mmap f n, K_Close f] else [K_Close f])"
proof -
  note find = win_find_slot [OF assms(1-6)] and i = assms(11)
  note found = found_slot [OF assms(1,2) find]
  obtain v where v: "window_by_id (stk w) i = Some v"
    using own_ok_live [OF found(6), of "the_win ci k w"] i by auto
  have len: "ci < length (clients (xp w))" "k < length (c_wins (clients (xp w) ! ci))"
    using assms(2,3) x_invD(1,3) [OF assms(1)] by (auto simp: client_ok_def row_ok_def)
  let ?k1 = "(ker w)\<lparr>trace := trace (ker w) @ waits\<rparr>" and ?w1 = "w\<lparr>ker := (ker w)\<lparr>trace := trace (ker w) @ waits\<rparr>\<rparr>"
  have "\<exists>rest'. wait_fence b (f # rest) (ker w) = (f # rest', ?k1)"
  proof (cases "b_has_fence b \<noteq> 0 \<and> rest \<noteq> []")
    case True
    then obtain g gs where "rest = g # gs" by (cases rest) auto
    with True show ?thesis by (simp add: wait_fence_def assms(8) kcall_def k_close_def)
  next
    case False
    then show ?thesis by (cases rest) (auto simp: wait_fence_def assms(8))
  qed
  then obtain rest' where fence: "wait_fence b (f # rest) (ker w) = (f # rest', ?k1)" by blast
  have good: "good \<longleftrightarrow> b_kind b = CL_BUF_SHM \<and> buffer_ok b" by (simp add: assms(9) buffer_ok_def)
  have n: "buffer_len b = n" by (simp add: buffer_len_def assms(10))
  obtain base k2 where mm: "k_mmap f n (os_map_ok e (call_no ?w1)) ?k1 = (base, k2)" by fastforce
  have commit: "w' = (if \<not> good then w\<lparr>ker := k_close f ?k1\<rparr>
      else case base of None \<Rightarrow> w\<lparr>ker := k_close f k2\<rparr>
           | Some a \<Rightarrow> install_buffer ci k b a (w\<lparr>ker := k_close f k2\<rparr>))"
    using v mm i by (simp add: assms(12) on_commit_def assms(7) find fence good n the_win_def Let_def)
  have call: "call_no ?w1 = call_no w + length waits" by (simp add: call_no_def)
  show ?thesis
  proof (cases "good \<and> os_map_ok e (call_no w + length waits)")
    case False
    then show ?thesis using mm call by (auto simp: commit k_mmap_def Let_def)
  next
    case True
    then have "0 < n" using good by (simp add: assms(9,10) unat_gt_0)
    let ?a = "next_map (ker w)"
    have k2: "base = Some ?a" "maps k2 = (maps (ker w))(?a \<mapsto> n)" "trace k2 = trace (ker w) @ waits @ [K_Mmap f n]"
      using mm True \<open>0 < n\<close> call by (auto simp: k_mmap_def Let_def)
    let ?w2 = "w\<lparr>ker := k_close f k2\<rparr>"
    have w': "w' = install_buffer ci k b ?a ?w2" using commit True k2(1) by simp
    have tw: "the_win ci k ?w2 = the_win ci k w" "stk ?w2 = stk w" "xp ?w2 = xp w" by (simp_all add: the_win_def)
    have fresh: "maps (ker w) ?a = None" using found(6) owns_fresh by (auto simp: own_ok_def)
    have old: "b0 \<noteq> ?a" if "cw_buf (the_win ci k w) = Some b0" for b0
      using found(6) fresh that by (auto simp: own_ok_def owns_def)
    note ins = install_exact [of ?w2 ci k v i w' b ?a, unfolded tw, OF v [unfolded i] len i w', unfolded n showing_def]
    show ?thesis
      unfolding if_P [OF True]
      using v fresh ins k2(2,3) old
      by (intro exI [of _ v] exI [of _ ?a]) (auto simp: fun_upd_twist split: option.splits)
  qed
qed

text \<open>A fenced commit: the fence is waited for, and the frame shows.\<close>

theorem commit_installs_buffer_witness:
  "\<exists>v a. window_by_id (stk (on_commit demo_os 1 (demo_commit 1) [9, 10] (shared_world 3))) 3 = Some v \<and>
     buf v = Some (Mapping a) \<and> buf_stride v = 1920 \<and>
     trace (ker (on_commit demo_os 1 (demo_commit 1) [9, 10] (shared_world 3))) =
       [K_Poll 10 100, K_Close 10, K_Mmap 9 614400, K_Close 9]"
proof -
  have inv: "x_inv (shared_world 3)" by (rule x_inv_shared) simp
  let ?b = "co_buffer (demo_commit 1)"
  have slot: "client_wid (the_win 1 0 (shared_world 3)) = co_wid (demo_commit 1)" "co_wid (demo_commit 1) \<noteq> 0"
      "server_id (the_win 1 0 (shared_world 3)) = 3" "cw_buf (the_win 1 0 (shared_world 3)) = None"
    by (simp_all add: shared_win demo_commit_def del: One_nat_def)
  have b: "b_kind ?b = CL_BUF_SHM \<and> b_format ?b = CL_FORMAT_XRGB8888 \<and> b_stride ?b \<noteq> 0 \<and> b_height ?b \<noteq> 0"
      "b_has_fence ?b \<noteq> 0" "int_of_u32 (b_stride ?b) = 1920" "unat (b_stride ?b) * unat (b_height ?b) = 614400"
    by (simp_all add: demo_commit_def int_of_u32_def)
  have ker: "ker (shared_world 3) = empty_kern" by (simp add: shared_world_def set_win_def set_client_def two_clients_sel)
  have lt: "(1 :: nat) < 16" "(0 :: nat) < 64" "\<forall>j < 0. client_wid (the_win 1 j (shared_world 3)) \<noteq> co_wid (demo_commit 1)" by simp_all
  from commit_installs_buffer [OF inv lt(1,2) slot(1,2) lt(3) refl refl refl refl refl refl, where rest = "[10]" and e = demo_os and f = 9]
  show ?thesis using b slot(3,4) by (auto simp: ker empty_kern_def demo_os_def)
qed

section \<open>Reconnect tokens\<close>

lemma next_nonzero_unat: "unat (next_nonzero n) = (if n = -1 then 1 else Suc (unat n))"
proof -
  have max: "n + 1 = 0 \<longleftrightarrow> n = -1" using eq_neg_iff_add_eq_0 [of n 1] by simp
  show ?thesis
  proof (cases "n = -1")
    case True
    then show ?thesis by (subst next_nonzero.simps, subst next_nonzero.simps) (simp add: Let_def)
  next
    case False
    with max have "next_nonzero n = n + 1" by (subst next_nonzero.simps) (simp add: Let_def)
    moreover have "unat (n + 1) = Suc (unat n)" using False max unatSuc [of n] by (simp add: add.commute)
    ultimately show ?thesis using False by simp
  qed
qed

lemma tokens_mod:
  "n \<noteq> 0 \<Longrightarrow> unat ((next_nonzero ^^ j) n) = Suc ((unat n - 1 + j) mod (2 ^ 32 - 1))"
proof (induction j)
  case 0
  have "unat n < 2 ^ 32" using unsigned_less [of n] by simp
  moreover have "0 < unat n" using 0 by (simp add: unat_gt_0)
  ultimately show ?case by simp
next
  case (Suc j)
  let ?t = "(next_nonzero ^^ j) n" and ?M = "2 ^ 32 - 1 :: nat"
  have IH: "unat ?t = Suc ((unat n - 1 + j) mod ?M)" using Suc by simp
  have "unat (-1 :: u32) = ?M" by (simp add: unsigned_minus_1_eq_mask mask_eq_exp_minus_1)
  then have "?t = -1 \<longleftrightarrow> unat ?t = ?M" by (simp only: word_unat_eq_iff)
  then have "unat (next_nonzero ?t) = (if Suc ((unat n - 1 + j) mod ?M) = ?M then 1 else Suc (Suc ((unat n - 1 + j) mod ?M)))"
    using next_nonzero_unat [of ?t] IH by simp
  then show ?case by (simp add: mod_Suc)
qed

text \<open>
  Reconnect tokens are never 0 and do not repeat: any 2^32 - 1 tokens issued in a row
  are pairwise different.
\<close>

theorem tokens_distinct:
  assumes "n \<noteq> 0" "i < j" "j < 2 ^ 32 - 1 + i"
  shows "(next_nonzero ^^ i) n \<noteq> (next_nonzero ^^ j) n \<and> next_nonzero n \<noteq> 0"
proof -
  let ?M = "2 ^ 32 - 1 :: nat"
  have "(unat n - 1 + i) mod ?M \<noteq> (unat n - 1 + j) mod ?M"
  proof
    assume "(unat n - 1 + i) mod ?M = (unat n - 1 + j) mod ?M"
    then have "?M dvd (unat n - 1 + j) - (unat n - 1 + i)" using assms(2) by (metis add_le_cancel_left less_imp_le_nat mod_eq_dvd_iff_nat)
    then have "?M dvd j - i" by simp
    with assms(2,3) show False by (auto dest: dvd_imp_le)
  qed
  then show ?thesis using tokens_mod [OF assms(1), of i] tokens_mod [OF assms(1), of j] next_nonzero_ne by auto
qed

theorem tokens_distinct_witness:
  "(next_nonzero ^^ 0) 0xffffffff \<noteq> (next_nonzero ^^ 1) 0xffffffff"
  by (rule tokens_distinct [THEN conjunct1]) simp_all

end
