(* ===== verification/Platform.thy ===== *)
theory Platform
  imports Kernel
begin

text \<open>
  The DRM/KMS platform layer: \<open>src/include/platform.h\<close> and \<open>src/src/platform.c\<close>.

  What libdrm reports (resources, connectors, encoders, planes, properties) and whether a
  call succeeds are parameters; what the code creates in the kernel (mode blobs, dumb
  buffers, framebuffers, their mappings) is the state \<open>drm\<close>, so that leaks and
  double releases are visible.
\<close>

unbundle bit_operations_syntax

section \<open>What libdrm reports\<close>

type_synonym u16 = "16 word"
type_synonym u64 = "64 word"

definition DRM_MODE_CONNECTED :: u32 where [simp]: "DRM_MODE_CONNECTED = 1"
definition DRM_MODE_TYPE_PREFERRED :: u32 where [simp]: "DRM_MODE_TYPE_PREFERRED = 8"
definition DRM_MODE_FLAG_INTERLACE :: u32 where [simp]: "DRM_MODE_FLAG_INTERLACE = 16"
definition DRM_PLANE_TYPE_PRIMARY :: u64 where [simp]: "DRM_PLANE_TYPE_PRIMARY = 1"
definition DRM_PROP_NAME_LEN :: nat where [simp]: "DRM_PROP_NAME_LEN = 32"

record drm_mode =
  mo_name :: string
  mo_clock :: u32
  hdisplay :: u16
  htotal :: u16
  vdisplay :: u16
  vtotal :: u16
  vrefresh :: u32
  mo_flags :: u32
  mo_type :: u32

record drm_connector =
  dc_id :: u32
  dc_type :: u32
  dc_type_id :: u32
  connection :: u32
  dc_modes :: "drm_mode list"
  encoder_id :: u32
  dc_encoders :: "u32 list"

record drm_encoder =
  en_crtc_id :: u32
  en_possible_crtcs :: u32

record drm_plane =
  pl_id :: u32
  pl_possible_crtcs :: u32

text \<open>
  One device: a function returning \<open>None\<close> is a call that failed. The properties of an
  object come with their values; a property whose own lookup fails is \<open>None\<close>.
\<close>

record drm_dev =
  dv_res :: "(u32 list \<times> u32 list) option"
  dv_connector :: "u32 \<Rightarrow> drm_connector option"
  dv_encoder :: "u32 \<Rightarrow> drm_encoder option"
  dv_planes :: "u32 list option"
  dv_plane :: "u32 \<Rightarrow> drm_plane option"
  dv_props :: "u32 \<Rightarrow> ((u32 \<times> string) option \<times> u64) list option"

section \<open>Property maps\<close>

record drm_prop =
  pr_name :: string
  pr_id :: u32
  pr_value :: u64

type_synonym prop_map = "drm_prop list"

fun prop_map_entries :: "((u32 \<times> string) option \<times> u64) list \<Rightarrow> prop_map" where
  "prop_map_entries [] = []"
| "prop_map_entries ((None, v) # ps) = prop_map_entries ps"
| "prop_map_entries ((Some (i, n), v) # ps) =
     \<lparr>pr_name = snprintf_s DRM_PROP_NAME_LEN n, pr_id = i, pr_value = v\<rparr> # prop_map_entries ps"

definition prop_map_load :: "drm_dev \<Rightarrow> u32 \<Rightarrow> bool \<Rightarrow> int \<times> prop_map" where
  "prop_map_load dv obj calloc_ok =
     (case dv_props dv obj of
        None \<Rightarrow> (-1, [])
      | Some ps \<Rightarrow> if \<not> calloc_ok then (-1, []) else (0, prop_map_entries ps))"

definition prop_id :: "prop_map \<Rightarrow> string \<Rightarrow> u32" where
  "prop_id m n = (case find_index (\<lambda>p. pr_name p = n) m of None \<Rightarrow> 0 | Some i \<Rightarrow> pr_id (m ! i))"

definition prop_value :: "prop_map \<Rightarrow> string \<Rightarrow> u64 option" where
  "prop_value m n =
     (case find_index (\<lambda>p. pr_name p = n) m of None \<Rightarrow> None | Some i \<Rightarrow> Some (pr_value (m ! i)))"

text \<open>An atomic request is the list of its (object, property, value) entries.\<close>

type_synonym atomic_req = "(u32 \<times> u32 \<times> u64) list"

definition atomic_add :: "bool \<Rightarrow> u32 \<Rightarrow> prop_map \<Rightarrow> string \<Rightarrow> u64 \<Rightarrow> atomic_req \<Rightarrow> int \<times> atomic_req" where
  "atomic_add add_ok obj m n v req =
     (let i = prop_id m n
      in if i = 0 then (-1, req)
         else if \<not> add_ok then (-1, req)
         else (0, req @ [(obj, i, v)]))"

text \<open>\<open>r |= atomic_add(...)\<close> for a list of properties, in order.\<close>

fun atomic_adds :: "bool \<Rightarrow> (u32 \<times> prop_map \<times> string \<times> u64) list \<Rightarrow> int \<Rightarrow> atomic_req \<Rightarrow> int \<times> atomic_req" where
  "atomic_adds add_ok [] r req = (r, req)"
| "atomic_adds add_ok ((obj, m, n, v) # as) r req =
     (let (r', req') = atomic_add add_ok obj m n v req in atomic_adds add_ok as (r OR r') req')"

section \<open>Devices\<close>

definition drm_set_caps :: "bool \<Rightarrow> bool \<Rightarrow> int" where
  "drm_set_caps atomic_ok planes_ok =
     (if \<not> atomic_ok then -1 else if \<not> planes_ok then -1 else 0)"

fun any_connected :: "drm_dev \<Rightarrow> u32 list \<Rightarrow> bool" where
  "any_connected dv [] = False"
| "any_connected dv (c # cs) =
     (let found = (case dv_connector dv c of None \<Rightarrow> False | Some cn \<Rightarrow> connection cn = DRM_MODE_CONNECTED)
      in if found then True else any_connected dv cs)"

definition drm_has_connected :: "drm_dev \<Rightarrow> bool" where
  "drm_has_connected dv = (case dv_res dv of None \<Rightarrow> False | Some (conns, _) \<Rightarrow> any_connected dv conns)"

text \<open>
  A node under \<open>/dev/dri\<close>: the descriptor opening it gives, whether it takes the two
  capabilities, and the device behind it.
\<close>

record card =
  card_fd :: "fd option"
  card_atomic :: bool
  card_universal :: bool
  card_dev :: drm_dev

definition card_caps :: "card \<Rightarrow> int" where
  "card_caps c = drm_set_caps (card_atomic c) (card_universal c)"

text \<open>The scan of card0..15; \<open>fb\<close> is the fallback, -1 when there is none.\<close>

fun drm_scan :: "card list \<Rightarrow> fd \<Rightarrow> 'm kern \<Rightarrow> fd \<times> 'm kern" where
  "drm_scan [] fb k = (if fb \<ge> 0 then fb else -1, k)"
| "drm_scan (c # cs) fb k =
     (case card_fd c of
        None \<Rightarrow> drm_scan cs fb k
      | Some f \<Rightarrow>
          if card_caps c \<noteq> 0 then drm_scan cs fb (k_close f k)
          else if drm_has_connected (card_dev c) then (f, k)
          else if fb < 0 then drm_scan cs f k
          else drm_scan cs fb (k_close f k))"

definition drm_open :: "card option \<Rightarrow> card list \<Rightarrow> 'm kern \<Rightarrow> fd \<times> 'm kern" where
  "drm_open explicit_path cards k =
     (case explicit_path of
        Some c \<Rightarrow>
          (case card_fd c of
             None \<Rightarrow> (-1, k)
           | Some f \<Rightarrow> if card_caps c \<noteq> 0 then (-1, k_close f k) else (f, k))
      | None \<Rightarrow> drm_scan (take 16 cards) (-1) k)"

section \<open>Kernel objects\<close>

text \<open>The objects alive in the kernel; a mapping is named by the handle of its dumb buffer.\<close>

record drm =
  d_blobs :: "u32 set"
  d_handles :: "u32 set"
  d_fbs :: "u32 set"
  d_maps :: "u32 set"

definition create_blob :: "u32 option \<Rightarrow> drm \<Rightarrow> u32 option \<times> drm" where
  "create_blob ans d =
     (case ans of None \<Rightarrow> (None, d) | Some b \<Rightarrow> (Some b, d\<lparr>d_blobs := insert b (d_blobs d)\<rparr>))"

definition destroy_blob :: "u32 \<Rightarrow> drm \<Rightarrow> drm" where
  "destroy_blob b d = d\<lparr>d_blobs := d_blobs d - {b}\<rparr>"

section \<open>Dumb framebuffers\<close>

text \<open>\<open>fb_map\<close> is the mapped memory in 32-bit words; \<open>None\<close> stands for \<open>NULL\<close> and \<open>MAP_FAILED\<close>.\<close>

record dumb_fb =
  fb_id :: u32
  fb_handle :: u32
  fb_stride :: u32
  fb_size :: nat
  fb_map :: "u32 list option"
  fb_w :: int
  fb_h :: int

definition zero_fb :: dumb_fb where
  "zero_fb = \<lparr>fb_id = 0, fb_handle = 0, fb_stride = 0, fb_size = 0, fb_map = None, fb_w = 0, fb_h = 0\<rparr>"

text \<open>The kernel's answers: handle, pitch and size; the framebuffer; map offset and mapping.\<close>

record fb_answers =
  an_dumb :: "(u32 \<times> u32 \<times> nat) option"
  an_fb :: "u32 option"
  an_offset :: bool
  an_mmap :: bool

definition dumb_fb_destroy :: "dumb_fb \<Rightarrow> drm \<Rightarrow> dumb_fb \<times> drm" where
  "dumb_fb_destroy fb d =
     (let d1 = (if fb_map fb \<noteq> None then d\<lparr>d_maps := d_maps d - {fb_handle fb}\<rparr> else d);
          d2 = (if fb_id fb \<noteq> 0 then d1\<lparr>d_fbs := d_fbs d1 - {fb_id fb}\<rparr> else d1);
          d3 = (if fb_handle fb \<noteq> 0 then d2\<lparr>d_handles := d_handles d2 - {fb_handle fb}\<rparr> else d2)
      in (zero_fb, d3))"

definition dumb_fb_create :: "fb_answers \<Rightarrow> int \<Rightarrow> int \<Rightarrow> drm \<Rightarrow> int \<times> dumb_fb \<times> drm" where
  "dumb_fb_create a w h d =
     (let fb = zero_fb\<lparr>fb_map := None, fb_w := w, fb_h := h\<rparr>;
          err = (\<lambda>fb d. let (fb', d') = dumb_fb_destroy fb d in (-1, fb', d'))
      in case an_dumb a of
           None \<Rightarrow> (-1, fb, d)
         | Some (hnd, pitch, len) \<Rightarrow>
             (let d1 = d\<lparr>d_handles := insert hnd (d_handles d)\<rparr>;
                  fb1 = fb\<lparr>fb_handle := hnd, fb_stride := pitch, fb_size := len\<rparr>
              in case an_fb a of
                   None \<Rightarrow> err fb1 d1
                 | Some i \<Rightarrow>
                     (let d2 = d1\<lparr>d_fbs := insert i (d_fbs d1)\<rparr>; fb2 = fb1\<lparr>fb_id := i\<rparr>
                      in if \<not> an_offset a then err fb2 d2
                         else if \<not> an_mmap a then err fb2 d2
                         else (0, fb2\<lparr>fb_map := Some (replicate (len div 4) 0)\<rparr>,
                               d2\<lparr>d_maps := insert hnd (d_maps d2)\<rparr>))))"

section \<open>Modeset target\<close>

record kms =
  connector_id :: u32
  crtc_id :: u32
  plane_id :: u32
  crtc_index :: int
  mode :: drm_mode
  mode_blob :: u32
  conn_props :: prop_map
  crtc_props :: prop_map
  plane_props :: prop_map

definition zero_mode :: drm_mode where
  "zero_mode = \<lparr>mo_name = [], mo_clock = 0, hdisplay = 0, htotal = 0, vdisplay = 0, vtotal = 0, vrefresh = 0,
     mo_flags = 0, mo_type = 0\<rparr>"

definition zero_kms :: kms where
  "zero_kms = \<lparr>connector_id = 0, crtc_id = 0, plane_id = 0, crtc_index = 0, mode = zero_mode, mode_blob = 0,
     conn_props = [], crtc_props = [], plane_props = []\<rparr>"

definition crtc_index_of :: "u32 list \<Rightarrow> u32 \<Rightarrow> int" where
  "crtc_index_of crtcs i = (case find_index (\<lambda>c. c = i) crtcs of None \<Rightarrow> -1 | Some n \<Rightarrow> int n)"

text \<open>The first connected connector that has a mode.\<close>

fun pick_connector :: "drm_dev \<Rightarrow> u32 list \<Rightarrow> drm_connector option" where
  "pick_connector dv [] = None"
| "pick_connector dv (c # cs) =
     (case dv_connector dv c of
        None \<Rightarrow> pick_connector dv cs
      | Some cn \<Rightarrow>
          if connection cn = DRM_MODE_CONNECTED \<and> length (dc_modes cn) > 0 then Some cn
          else pick_connector dv cs)"

definition pick_mode :: "drm_connector \<Rightarrow> drm_mode" where
  "pick_mode cn =
     (case find_index (\<lambda>m. mo_type m AND DRM_MODE_TYPE_PREFERRED \<noteq> 0) (dc_modes cn) of
        None \<Rightarrow> dc_modes cn ! 0 | Some i \<Rightarrow> dc_modes cn ! i)"

text \<open>\<open>mask & (1u << c)\<close>; a DRM device has at most 32 CRTCs.\<close>

definition mask_has :: "u32 \<Rightarrow> nat \<Rightarrow> bool" where
  "mask_has m c \<longleftrightarrow> m AND push_bit c 1 \<noteq> 0"

definition encoder_crtc :: "u32 list \<Rightarrow> drm_encoder \<Rightarrow> u32" where
  "encoder_crtc crtcs e =
     (case find_index (\<lambda>c. mask_has (en_possible_crtcs e) c) [0..<length crtcs] of
        None \<Rightarrow> 0 | Some c \<Rightarrow> crtcs ! c)"

fun encoders_crtc :: "drm_dev \<Rightarrow> u32 list \<Rightarrow> u32 list \<Rightarrow> u32 \<Rightarrow> u32" where
  "encoders_crtc dv crtcs [] i = i"
| "encoders_crtc dv crtcs (e # es) i =
     (if i \<noteq> 0 then i
      else case dv_encoder dv e of
             None \<Rightarrow> encoders_crtc dv crtcs es i
           | Some en \<Rightarrow> encoders_crtc dv crtcs es (encoder_crtc crtcs en))"

definition pick_crtc :: "drm_dev \<Rightarrow> u32 list \<Rightarrow> drm_connector \<Rightarrow> u32" where
  "pick_crtc dv crtcs cn =
     (let cur = (if encoder_id cn \<noteq> 0
                 then (case dv_encoder dv (encoder_id cn) of None \<Rightarrow> 0 | Some e \<Rightarrow> en_crtc_id e) else 0)
      in encoders_crtc dv crtcs (dc_encoders cn) cur)"

definition primary_plane :: "drm_dev \<Rightarrow> bool \<Rightarrow> drm_plane \<Rightarrow> bool" where
  "primary_plane dv calloc_ok pl \<longleftrightarrow>
     (let (r, pm) = prop_map_load dv (pl_id pl) calloc_ok
      in r = 0 \<and> prop_value pm ''type'' = Some DRM_PLANE_TYPE_PRIMARY)"

text \<open>
  The plane search; the shift by a CRTC index that was not found (-1) is undefined, and
  \<open>None\<close>.
\<close>

fun pick_plane :: "drm_dev \<Rightarrow> bool \<Rightarrow> int \<Rightarrow> u32 list \<Rightarrow> u32 option" where
  "pick_plane dv calloc_ok idx [] = Some 0"
| "pick_plane dv calloc_ok idx (p # ps) =
     (case dv_plane dv p of
        None \<Rightarrow> pick_plane dv calloc_ok idx ps
      | Some pl \<Rightarrow>
          if idx < 0 \<or> idx \<ge> 32 then None
          else if mask_has (pl_possible_crtcs pl) (nat idx) \<and> primary_plane dv calloc_ok pl \<and> pl_id pl \<noteq> 0
          then Some (pl_id pl)
          else pick_plane dv calloc_ok idx ps)"

definition kms_finish :: "kms \<Rightarrow> drm \<Rightarrow> kms \<times> drm" where
  "kms_finish k d =
     (k\<lparr>mode_blob := 0, conn_props := [], crtc_props := [], plane_props := []\<rparr>,
      if mode_blob k \<noteq> 0 then destroy_blob (mode_blob k) d else d)"

text \<open>Loading the three property maps; a failure stops at the first and keeps what was loaded.\<close>

definition load_props :: "drm_dev \<Rightarrow> bool \<Rightarrow> kms \<Rightarrow> bool \<times> kms" where
  "load_props dv calloc_ok k =
     (let (r1, p1) = prop_map_load dv (connector_id k) calloc_ok; k1 = k\<lparr>conn_props := p1\<rparr>
      in if r1 \<noteq> 0 then (False, k1)
         else let (r2, p2) = prop_map_load dv (crtc_id k) calloc_ok; k2 = k1\<lparr>crtc_props := p2\<rparr>
      in if r2 \<noteq> 0 then (False, k2)
         else let (r3, p3) = prop_map_load dv (plane_id k) calloc_ok; k3 = k2\<lparr>plane_props := p3\<rparr>
      in (r3 = 0, k3))"

definition kms_setup :: "drm_dev \<Rightarrow> bool \<Rightarrow> u32 option \<Rightarrow> drm \<Rightarrow> (int \<times> kms \<times> drm) option" where
  "kms_setup dv calloc_ok blob_ans d =
     (case dv_res dv of
        None \<Rightarrow> Some (-1, zero_kms, d)
      | Some (conns, crtcs) \<Rightarrow>
     (case pick_connector dv conns of
        None \<Rightarrow> Some (-1, zero_kms, d)
      | Some cn \<Rightarrow>
     (let k1 = zero_kms\<lparr>connector_id := dc_id cn, mode := pick_mode cn\<rparr>; i = pick_crtc dv crtcs cn
      in if i = 0 then Some (-1, k1, d)
         else let k2 = k1\<lparr>crtc_id := i, crtc_index := crtc_index_of crtcs i\<rparr>
      in case dv_planes dv of
           None \<Rightarrow> Some (-1, k2, d)
         | Some ps \<Rightarrow>
     (case pick_plane dv calloc_ok (crtc_index k2) ps of
        None \<Rightarrow> None
      | Some pl \<Rightarrow>
          (let k3 = k2\<lparr>plane_id := pl\<rparr>
           in if pl = 0 then Some (-1, k3, d)
              else let (ok, k4) = load_props dv calloc_ok k3
           in if \<not> ok then (let (k5, d') = kms_finish k4 d in Some (-1, k5, d'))
              else case create_blob blob_ans d of
                     (None, d1) \<Rightarrow> (let (k5, d') = kms_finish k4 d1 in Some (-1, k5, d'))
                   | (Some b, d1) \<Rightarrow> Some (0, k4\<lparr>mode_blob := b\<rparr>, d1))))))"

section \<open>Changing the mode\<close>

text \<open>
  Millihertz from the pixel clock; the division is 64-bit and the product of the totals
  32-bit, as the casts say.
\<close>

definition kms_mode_mhz :: "drm_mode \<Rightarrow> u32" where
  "kms_mode_mhz m =
     (if htotal m \<noteq> 0 \<and> vtotal m \<noteq> 0
      then ucast (((ucast (mo_clock m) :: u64) * 1000000) div ucast ((ucast (htotal m) :: u32) * ucast (vtotal m)))
      else vrefresh m * 1000)"

definition refresh_diff :: "int \<Rightarrow> drm_mode \<Rightarrow> u32" where
  "refresh_diff refresh m =
     (let rm = kms_mode_mhz m; r = u32_of_int refresh
      in if refresh \<noteq> 0 then (if rm > r then rm - r else r - rm) else 0)"

definition mode_fits :: "int \<Rightarrow> int \<Rightarrow> drm_mode \<Rightarrow> bool" where
  "mode_fits w h m \<longleftrightarrow>
     mo_flags m AND DRM_MODE_FLAG_INTERLACE = 0 \<and> int (unat (hdisplay m)) = w \<and> int (unat (vdisplay m)) = h"

fun best_mode :: "int \<Rightarrow> int \<Rightarrow> int \<Rightarrow> drm_mode list \<Rightarrow> (drm_mode \<times> u32) option \<Rightarrow> (drm_mode \<times> u32) option" where
  "best_mode w h refresh [] best = best"
| "best_mode w h refresh (m # ms) best =
     (if \<not> mode_fits w h m then best_mode w h refresh ms best
      else let diff = refresh_diff refresh m
           in if (case best of None \<Rightarrow> True | Some (_, best_diff) \<Rightarrow> diff < best_diff)
              then best_mode w h refresh ms (Some (m, diff))
              else best_mode w h refresh ms best)"

definition kms_set_mode_wh :: "drm_dev \<Rightarrow> u32 option \<Rightarrow> kms \<Rightarrow> int \<Rightarrow> int \<Rightarrow> int \<Rightarrow> drm \<Rightarrow> int \<times> kms \<times> drm" where
  "kms_set_mode_wh dv blob_ans k w h refresh d =
     (case dv_connector dv (connector_id k) of
        None \<Rightarrow> (-1, k, d)
      | Some cn \<Rightarrow>
     (case best_mode w h refresh (dc_modes cn) None of
        None \<Rightarrow> (-1, k, d)
      | Some (newmode, _) \<Rightarrow>
     (case create_blob blob_ans d of
        (None, d1) \<Rightarrow> (-1, k, d1)
      | (Some b, d1) \<Rightarrow>
          (0, k\<lparr>mode := newmode, mode_blob := b\<rparr>,
           if mode_blob k \<noteq> 0 then destroy_blob (mode_blob k) d1 else d1))))"

section \<open>Atomic state\<close>

definition kms_atomic_modeset :: "bool \<Rightarrow> kms \<Rightarrow> atomic_req \<Rightarrow> int \<times> atomic_req" where
  "kms_atomic_modeset add_ok k =
     atomic_adds add_ok
       [(connector_id k, conn_props k, ''CRTC_ID'', ucast (crtc_id k)),
        (crtc_id k, crtc_props k, ''MODE_ID'', ucast (mode_blob k)),
        (crtc_id k, crtc_props k, ''ACTIVE'', 1)] 0"

definition kms_atomic_plane :: "bool \<Rightarrow> kms \<Rightarrow> u32 \<Rightarrow> atomic_req \<Rightarrow> int \<times> atomic_req" where
  "kms_atomic_plane add_ok k i =
     atomic_adds add_ok
       [(plane_id k, plane_props k, ''FB_ID'', ucast i),
        (plane_id k, plane_props k, ''CRTC_ID'', ucast (crtc_id k)),
        (plane_id k, plane_props k, ''SRC_X'', 0),
        (plane_id k, plane_props k, ''SRC_Y'', 0),
        (plane_id k, plane_props k, ''SRC_W'', push_bit 16 (ucast (hdisplay (mode k)))),
        (plane_id k, plane_props k, ''SRC_H'', push_bit 16 (ucast (vdisplay (mode k)))),
        (plane_id k, plane_props k, ''CRTC_X'', 0),
        (plane_id k, plane_props k, ''CRTC_Y'', 0),
        (plane_id k, plane_props k, ''CRTC_W'', ucast (hdisplay (mode k))),
        (plane_id k, plane_props k, ''CRTC_H'', ucast (vdisplay (mode k)))] 0"

end
