(* ===== verification/Platform_Spec.thy ===== *)
theory Platform_Spec
  imports Platform
begin

text \<open>What the platform layer promises: objects are released, modes are chosen, devices are picked.\<close>

section \<open>Framebuffers\<close>

text \<open>What the kernel promises of a dumb buffer and a framebuffer: new, non-zero names.\<close>

definition fresh_answers :: "fb_answers \<Rightarrow> drm \<Rightarrow> bool" where
  "fresh_answers a d \<longleftrightarrow>
     (case an_dumb a of None \<Rightarrow> True | Some (hnd, _, _) \<Rightarrow> hnd \<noteq> 0 \<and> hnd \<notin> d_handles d \<and> hnd \<notin> d_maps d) \<and>
     (case an_fb a of None \<Rightarrow> True | Some i \<Rightarrow> i \<noteq> 0 \<and> i \<notin> d_fbs d)"

lemma fb_all_or_nothing:
  assumes "fresh_answers a d" "dumb_fb_create a w h d = (r, fb, d')"
  shows "if r = 0 then fb_map fb \<noteq> None \<and> fb_w fb = w \<and> fb_h fb = h \<and> dumb_fb_destroy fb d' = (zero_fb, d) \<and>
      d_handles d' = insert (fb_handle fb) (d_handles d) \<and> d_fbs d' = insert (fb_id fb) (d_fbs d)
    else r = -1 \<and> d' = d \<and> fb_map fb = None"
proof (cases "an_dumb a")
  case None
  with assms(2) show ?thesis by (auto simp: dumb_fb_create_def zero_fb_def)
next
  case (Some t)
  then obtain hnd pitch len where dumb: "an_dumb a = Some (hnd, pitch, len)" by (cases t) auto
  note c = assms(2) [unfolded dumb_fb_create_def Let_def dumb option.case prod.case]
  obtain bl hs fs ms where d: "d = \<lparr>d_blobs = bl, d_handles = hs, d_fbs = fs, d_maps = ms\<rparr>" by (cases d)
  have new: "hnd \<noteq> 0" "hnd \<notin> hs" "hnd \<notin> ms" using assms(1) dumb by (simp_all add: fresh_answers_def d)
  show ?thesis
  proof (cases "an_fb a")
    case None
    with c new show ?thesis by (simp add: dumb_fb_destroy_def zero_fb_def d) force
  next
    case (Some i)
    then have "i \<noteq> 0" "i \<notin> fs" using assms(1) by (simp_all add: fresh_answers_def d)
    with c new Some show ?thesis
      by (cases "an_offset a"; cases "an_mmap a") (simp_all add: dumb_fb_destroy_def zero_fb_def d Let_def, force+)
  qed
qed

text \<open>
  C32: Creating a framebuffer is all or nothing: if any of its four steps fails, every
  kernel object made on the way is gone again; if it succeeds, destroying it gives back
  exactly the state before.
\<close>

theorem dumb_fb_all_or_nothing:
  assumes "fresh_answers a d" "dumb_fb_create a w h d = (r, fb, d')"
  shows "if r = 0 then fb_map fb \<noteq> None \<and> fb_w fb = w \<and> fb_h fb = h \<and> dumb_fb_destroy fb d' = (zero_fb, d) \<and>
      d_handles d' = insert (fb_handle fb) (d_handles d) \<and> d_fbs d' = insert (fb_id fb) (d_fbs d)
    else r = -1 \<and> d' = d \<and> fb_map fb = None"
  using assms by (rule fb_all_or_nothing)

definition demo_answers :: fb_answers where
  "demo_answers = \<lparr>an_dumb = Some (5, 8, 8), an_fb = Some 9, an_offset = True, an_mmap = True\<rparr>"

definition no_drm :: drm where
  "no_drm = \<lparr>d_blobs = {}, d_handles = {}, d_fbs = {}, d_maps = {}\<rparr>"

theorem dumb_fb_all_or_nothing_witness:
  "dumb_fb_destroy (fst (snd (dumb_fb_create demo_answers 2 1 no_drm))) (snd (snd (dumb_fb_create demo_answers 2 1 no_drm))) =
     (zero_fb, no_drm) \<and>
   snd (snd (dumb_fb_create (demo_answers\<lparr>an_mmap := False\<rparr>) 2 1 no_drm)) = no_drm"
proof -
  have fresh: "fresh_answers demo_answers no_drm" "fresh_answers (demo_answers\<lparr>an_mmap := False\<rparr>) no_drm"
    by (simp_all add: fresh_answers_def demo_answers_def no_drm_def)
  obtain r fb d' where c: "dumb_fb_create demo_answers 2 1 no_drm = (r, fb, d')" using prod_cases3 by blast
  obtain r2 fb2 d2 where c2: "dumb_fb_create (demo_answers\<lparr>an_mmap := False\<rparr>) 2 1 no_drm = (r2, fb2, d2)"
    using prod_cases3 by blast
  have "r = 0" "r2 = -1"
    using c c2 by (auto simp: dumb_fb_create_def demo_answers_def dumb_fb_destroy_def Let_def)
  then show ?thesis
    using dumb_fb_all_or_nothing [OF fresh(1) c] dumb_fb_all_or_nothing [OF fresh(2) c2] c c2 by simp
qed

text \<open>
  When the kernel refuses the dumb buffer itself, the framebuffer keeps its new width
  and height without any memory behind them: unlike the other failures, this one does not
  reset it.
\<close>

theorem dumb_fb_refused_keeps_size:
  "an_dumb a = None \<Longrightarrow> dumb_fb_create a w h d = (-1, zero_fb\<lparr>fb_w := w, fb_h := h\<rparr>, d)"
  by (simp add: dumb_fb_create_def zero_fb_def)

theorem dumb_fb_refused_keeps_size_witness:
  "fb_w (fst (snd (dumb_fb_create (demo_answers\<lparr>an_dumb := None\<rparr>) 1920 1080 no_drm))) = 1920"
  using dumb_fb_refused_keeps_size [of "demo_answers\<lparr>an_dumb := None\<rparr>"] by simp

section \<open>Modes\<close>

lemma best_mode_inv:
  assumes "\<And>m diff. best = Some (m, diff) \<Longrightarrow> m \<in> M \<and> mode_fits w h m \<and> diff = refresh_diff r m \<and>
      (\<forall>m' \<in> M. mode_fits w h m' \<longrightarrow> diff \<le> refresh_diff r m')"
    and "best = None \<Longrightarrow> \<forall>m' \<in> M. \<not> mode_fits w h m'"
  shows "(case best_mode w h r ms best of
      None \<Rightarrow> \<forall>m' \<in> M \<union> set ms. \<not> mode_fits w h m'
    | Some (m, diff) \<Rightarrow> m \<in> M \<union> set ms \<and> mode_fits w h m \<and> diff = refresh_diff r m \<and>
        (\<forall>m' \<in> M \<union> set ms. mode_fits w h m' \<longrightarrow> diff \<le> refresh_diff r m'))"
  using assms
proof (induction ms arbitrary: best M)
  case Nil
  then show ?case by (cases best) auto
next
  case (Cons m0 ms)
  let ?d = "refresh_diff r m0"
  let ?better = "case best of None \<Rightarrow> True | Some (_, bd) \<Rightarrow> ?d < bd"
  let ?best = "if mode_fits w h m0 \<and> ?better then Some (m0, ?d) else best"
  have step: "best_mode w h r (m0 # ms) best = best_mode w h r ms ?best" by (simp add: Let_def)
  have U: "M \<union> set (m0 # ms) = insert m0 M \<union> set ms" by simp
  show ?case unfolding step U
  proof (rule Cons.IH)
    fix m diff assume b: "?best = Some (m, diff)"
    show "m \<in> insert m0 M \<and> mode_fits w h m \<and> diff = refresh_diff r m \<and>
        (\<forall>m' \<in> insert m0 M. mode_fits w h m' \<longrightarrow> diff \<le> refresh_diff r m')"
    proof (cases "mode_fits w h m0 \<and> ?better")
      case True
      then have "m = m0" "diff = ?d" using b by auto
      moreover have "?d \<le> refresh_diff r m'" if "m' \<in> M" "mode_fits w h m'" for m'
      proof (cases best)
        case None
        with Cons.prems(2) that show ?thesis by blast
      next
        case (Some p)
        with Cons.prems(1) [of "fst p" "snd p"] True that show ?thesis by (fastforce split: prod.splits)
      qed
      ultimately show ?thesis using True by auto
    next
      case False
      then have best: "best = Some (m, diff)" using b by auto
      then have "mode_fits w h m0 \<longrightarrow> diff \<le> ?d" using False by auto
      with Cons.prems(1) [OF best] show ?thesis by blast
    qed
  next
    assume "?best = None"
    then show "\<forall>m' \<in> insert m0 M. \<not> mode_fits w h m'" using Cons.prems(2) by (auto split: if_splits)
  qed
qed

lemma best_mode_spec:
  "case best_mode w h r ms None of
     None \<Rightarrow> \<forall>m' \<in> set ms. \<not> mode_fits w h m'
   | Some (m, diff) \<Rightarrow> m \<in> set ms \<and> mode_fits w h m \<and> (\<forall>m' \<in> set ms. mode_fits w h m' \<longrightarrow> refresh_diff r m \<le> refresh_diff r m')"
  using best_mode_inv [of None "{}" w h r ms] by (auto split: option.splits)

section \<open>The mode that is chosen\<close>

text \<open>
  The refresh rate in millihertz is the pixel clock over the frame's total pixels, cut
  to 32 bits: neither the 64-bit product nor the 32-bit product of the totals overflows,
  and the divisor is not zero.
\<close>

lemma kms_mode_exact:
  assumes "htotal m \<noteq> 0" "vtotal m \<noteq> 0"
  shows "unat (kms_mode_mhz m) = (unat (mo_clock m) * 1000000 div (unat (htotal m) * unat (vtotal m))) mod 2 ^ 32 \<and>
    0 < unat (htotal m) * unat (vtotal m)"
proof -
  let ?h = "unat (htotal m)" and ?v = "unat (vtotal m)" and ?c = "unat (mo_clock m)"
  have h: "0 < ?h" "?h < 2 ^ 16" "0 < ?v" "?v < 2 ^ 16" "?c < 2 ^ 32"
    using assms unsigned_less [of "htotal m", where 'a = nat] unsigned_less [of "vtotal m", where 'a = nat]
      unsigned_less [of "mo_clock m", where 'a = nat]
    by (simp_all add: unat_gt_0)
  have "?h * ?v < 2 ^ 16 * 2 ^ 16" using h by (intro mult_strict_mono) simp_all
  then have p32: "?h * ?v < 2 ^ 32" by simp
  have "unat ((ucast (htotal m) :: u32) * ucast (vtotal m)) = ?h * ?v"
    using p32 h by (simp add: unat_word_ariths unsigned_ucast_eq take_bit_nat_eq_self)
  then have den: "unat (ucast ((ucast (htotal m) :: u32) * ucast (vtotal m)) :: u64) = ?h * ?v"
    using p32 by (simp add: unsigned_ucast_eq take_bit_nat_eq_self)
  have "?c * 1000000 < 2 ^ 64" using h(5) by simp
  then have num: "unat ((ucast (mo_clock m) :: u64) * 1000000) = ?c * 1000000"
    using h(5) by (simp add: unat_word_ariths unsigned_ucast_eq take_bit_nat_eq_self)
  have "unat (kms_mode_mhz m) = take_bit 32 (?c * 1000000 div (?h * ?v))"
  proof -
    have "kms_mode_mhz m = ucast (((ucast (mo_clock m) :: u64) * 1000000) div ucast ((ucast (htotal m) :: u32) * ucast (vtotal m)))"
      using assms by (simp only: kms_mode_mhz_def simp_thms if_True)
    then have "unat (kms_mode_mhz m) =
        take_bit 32 (unat (((ucast (mo_clock m) :: u64) * 1000000) div ucast ((ucast (htotal m) :: u32) * ucast (vtotal m))))"
      by (simp only: unsigned_ucast_eq) simp
    then show ?thesis unfolding unat_div num den .
  qed
  then show ?thesis using h by (simp add: take_bit_eq_mod)
qed

text \<open>
  What is asked for, independently of how the code computes it: a progressive mode of the
  size, its rate in millihertz as a natural number, and how far that is from the rate asked
  for. The code takes a rate of 0 to mean any, and reads a negative one as unsigned.
\<close>

definition offered :: "int \<Rightarrow> int \<Rightarrow> drm_mode \<Rightarrow> bool" where
  "offered w h m \<longleftrightarrow> \<not> bit (mo_flags m) 4 \<and> int (unat (hdisplay m)) = w \<and> int (unat (vdisplay m)) = h"

definition rate_mhz :: "drm_mode \<Rightarrow> nat" where
  "rate_mhz m =
     (if htotal m = 0 \<or> vtotal m = 0 then unat (vrefresh m) * 1000
      else unat (mo_clock m) * 1000000 div (unat (htotal m) * unat (vtotal m))) mod 2 ^ 32"

definition rate_off :: "int \<Rightarrow> drm_mode \<Rightarrow> nat" where
  "rate_off r m = (if r = 0 then 0 else nat \<bar>int (rate_mhz m) - r mod 2 ^ 32\<bar>)"

lemma bit_mask: "a AND push_bit c 1 \<noteq> 0 \<longleftrightarrow> bit a c" for a :: u32
  by (simp add: push_bit_of_1 and_exp_eq_0_iff_not_bit)

lemma offered_fits: "mode_fits w h m = offered w h m"
  using bit_mask [of "mo_flags m" 4] by (auto simp: mode_fits_def offered_def)

lemma rate_mhz_exact: "unat (kms_mode_mhz m) = rate_mhz m"
proof (cases "htotal m = 0 \<or> vtotal m = 0")
  case True
  then have "kms_mode_mhz m = vrefresh m * 1000" by (auto simp: kms_mode_mhz_def)
  with True show ?thesis by (simp add: rate_mhz_def unat_word_ariths)
next
  case False
  with kms_mode_exact [of m] show ?thesis by (simp add: rate_mhz_def)
qed

lemma unat_apart: "unat (if a > b then a - b else b - a) = nat \<bar>int (unat a) - int (unat b)\<bar>" for a b :: u32
proof -
  have "(if m < n then n - m else m - n) = nat \<bar>int n - int m\<bar>" for m n :: nat by auto
  then have "nat \<bar>int (unat a) - int (unat b)\<bar> = (if unat b < unat a then unat a - unat b else unat b - unat a)" by presburger
  then show ?thesis by (simp only: word_less_nat_alt [symmetric] if_distrib [of unat]) (auto simp: unat_sub word_le_nat_alt word_less_nat_alt)
qed

lemma rate_off_exact: "unat (refresh_diff r m) = rate_off r m"
proof (cases "r = 0")
  case False
  have "int (unat (u32_of_int r)) = r mod 2 ^ 32" by (simp add: u32_of_int_def unsigned_of_int take_bit_eq_mod)
  with False show ?thesis
    by (simp only: refresh_diff_def rate_off_def Let_def not_False_eq_True if_True if_False unat_apart rate_mhz_exact)
qed (simp add: refresh_diff_def rate_off_def Let_def)

text \<open>The search keeps the first of the closest among the modes it has passed.\<close>

definition first_closest :: "int \<Rightarrow> int \<Rightarrow> int \<Rightarrow> drm_mode list \<Rightarrow> nat \<Rightarrow> bool" where
  "first_closest w h r ms i \<longleftrightarrow> i < length ms \<and> offered w h (ms ! i) \<and>
     (\<forall>j < length ms. offered w h (ms ! j) \<longrightarrow>
        rate_off r (ms ! i) \<le> rate_off r (ms ! j) \<and> (j < i \<longrightarrow> rate_off r (ms ! i) < rate_off r (ms ! j)))"

lemma first_closest_snoc:
  assumes "first_closest w h r xs i"
  shows "first_closest w h r (xs @ [m]) (if offered w h m \<and> rate_off r m < rate_off r (xs ! i) then length xs else i)"
proof (cases "offered w h m \<and> rate_off r m < rate_off r (xs ! i)")
  case True
  with assms show ?thesis by (auto simp: first_closest_def nth_append less_Suc_eq)
next
  case False
  with assms show ?thesis by (auto simp: first_closest_def nth_append less_Suc_eq)
qed

lemma best_mode_first:
  assumes "case best of None \<Rightarrow> \<forall>m \<in> set xs. \<not> offered w h m
    | Some (m, diff) \<Rightarrow> diff = refresh_diff r m \<and> (\<exists>i. m = xs ! i \<and> first_closest w h r xs i)"
  shows "case best_mode w h r ms best of None \<Rightarrow> \<forall>m \<in> set (xs @ ms). \<not> offered w h m
    | Some (m, diff) \<Rightarrow> diff = refresh_diff r m \<and> (\<exists>i. m = (xs @ ms) ! i \<and> first_closest w h r (xs @ ms) i)"
  using assms
proof (induction ms arbitrary: best xs)
  case (Cons m0 ms)
  let ?d = "refresh_diff r m0"
  let ?best = "if offered w h m0 \<and> (case best of None \<Rightarrow> True | Some (_, bd) \<Rightarrow> ?d < bd) then Some (m0, ?d) else best"
  have step: "best_mode w h r (m0 # ms) best = best_mode w h r ms ?best" by (simp add: Let_def offered_fits)
  have "case ?best of None \<Rightarrow> \<forall>m \<in> set (xs @ [m0]). \<not> offered w h m
    | Some (m, diff) \<Rightarrow> diff = refresh_diff r m \<and> (\<exists>i. m = (xs @ [m0]) ! i \<and> first_closest w h r (xs @ [m0]) i)"
  proof (cases best)
    case None
    then have none: "\<forall>m \<in> set xs. \<not> offered w h m" using Cons.prems by simp
    then have "offered w h m0 \<Longrightarrow> first_closest w h r (xs @ [m0]) (length xs)"
      by (auto simp: first_closest_def nth_append less_Suc_eq)
    with None none show ?thesis by (auto intro!: exI [of _ "length xs"])
  next
    case (Some p)
    then obtain m i where b: "best = Some (m, refresh_diff r m)" and i: "m = xs ! i" "first_closest w h r xs i"
      using Cons.prems by (cases p) auto
    have less: "?d < refresh_diff r m \<longleftrightarrow> rate_off r m0 < rate_off r (xs ! i)"
      by (simp add: word_less_nat_alt rate_off_exact i(1))
    have "i < length xs" using i(2) by (simp add: first_closest_def)
    then have nth: "(xs @ [m0]) ! length xs = m0" "(xs @ [m0]) ! i = m" using i(1) by (simp_all add: nth_append)
    show ?thesis
    proof (cases "offered w h m0 \<and> ?d < refresh_diff r m")
      case True
      with first_closest_snoc [OF i(2), of m0] less have "first_closest w h r (xs @ [m0]) (length xs)" by simp
      with True b nth(1) show ?thesis by (simp, metis)
    next
      case False
      with first_closest_snoc [OF i(2), of m0] less have "first_closest w h r (xs @ [m0]) i" by (auto split: if_splits)
      moreover have "(if offered w h m0 \<and> (case best of None \<Rightarrow> True | Some (_, bd) \<Rightarrow> ?d < bd) then Some (m0, ?d) else best) = best"
        using False b by auto
      ultimately show ?thesis using b nth(2) by (simp, metis)
    qed
  qed
  moreover have eq: "(xs @ [m0]) @ ms = xs @ m0 # ms" by simp
  ultimately show ?case unfolding step using Cons.IH [of "xs @ [m0]" ?best] unfolding eq by blast
qed (simp only: append_Nil2 best_mode.simps)

text \<open>
  C31: Switching the mode takes a mode of the connector that is not interlaced and has
  exactly the asked size, and among those the first one whose refresh rate (the pixel clock over the
  frame's total pixels, in millihertz) is closest to the one asked for; the blob of the old mode is
  destroyed, the blob made now is the one kept, and nothing else of the display or of the kernel
  changes. If there is no such mode, or the kernel refuses the blob, it fails and nothing changes at all.
  It is asked that the connector still answers, that there is an old blob and that the kernel does not
  hand out its id again.
\<close>

theorem set_mode_closest:
  assumes "kms_set_mode_wh dv blob k w h refresh d = (r, k', d')"
    and "dv_connector dv (connector_id k) = Some cn" "mode_blob k \<noteq> 0" "blob \<noteq> Some (mode_blob k)"
  shows "if r = 0
    then (\<exists>i < length (dc_modes cn). mode k' = dc_modes cn ! i \<and> offered w h (mode k') \<and>
        (\<forall>j < length (dc_modes cn). offered w h (dc_modes cn ! j) \<longrightarrow>
           rate_off refresh (mode k') \<le> rate_off refresh (dc_modes cn ! j) \<and>
           (j < i \<longrightarrow> rate_off refresh (mode k') < rate_off refresh (dc_modes cn ! j)))) \<and>
      blob = Some (mode_blob k') \<and> k' = k\<lparr>mode := mode k', mode_blob := mode_blob k'\<rparr> \<and>
      d' = d\<lparr>d_blobs := insert (mode_blob k') (d_blobs d - {mode_blob k})\<rparr>
    else r = -1 \<and> k' = k \<and> d' = d \<and> (blob = None \<or> (\<forall>m \<in> set (dc_modes cn). \<not> offered w h m))"
proof -
  note spec = best_mode_first [where best = None and xs = "[]" and w = w and h = h and r = refresh and ms = "dc_modes cn", simplified]
  show ?thesis
  proof (cases "best_mode w h refresh (dc_modes cn) None")
    case None
    with assms(1,2) spec show ?thesis by (auto simp: kms_set_mode_wh_def)
  next
    case (Some p)
    then obtain i where best: "best_mode w h refresh (dc_modes cn) None = Some (dc_modes cn ! i, refresh_diff refresh (dc_modes cn ! i))"
        and i: "first_closest w h refresh (dc_modes cn) i"
      using spec by (cases p) auto
    show ?thesis
    proof (cases blob)
      case None
      with assms(1,2) best show ?thesis by (auto simp: kms_set_mode_wh_def create_blob_def)
    next
      case (Some b')
      then have r: "r = 0" "k' = k\<lparr>mode := dc_modes cn ! i, mode_blob := b'\<rparr>"
          "d' = destroy_blob (mode_blob k) (d\<lparr>d_blobs := insert b' (d_blobs d)\<rparr>)"
        using assms(1,2,3) best by (auto simp: kms_set_mode_wh_def create_blob_def)
      moreover have "d' = d\<lparr>d_blobs := insert b' (d_blobs d - {mode_blob k})\<rparr>"
        using r(3) Some assms(4) by (auto simp: destroy_blob_def insert_Diff_if)
      ultimately show ?thesis using i Some by (auto simp: first_closest_def)
    qed
  qed
qed

definition mode_60 :: drm_mode where
  "mode_60 = \<lparr>mo_name = ''1920x1080'', mo_clock = 148500, hdisplay = 1920, htotal = 2200, vdisplay = 1080,
     vtotal = 1125, vrefresh = 60, mo_flags = 5, mo_type = 72\<rparr>"

definition mode_50 :: drm_mode where
  "mode_50 = mode_60\<lparr>htotal := 2640, vrefresh := 50, mo_type := 64\<rparr>"

definition demo_connector :: drm_connector where
  "demo_connector = \<lparr>dc_id = 31, dc_type = 11, dc_type_id = 1, connection = 1, dc_modes = [mode_50, mode_60],
     encoder_id = 0, dc_encoders = [40]\<rparr>"

text \<open>One connector, one encoder that can drive the second of two CRTCs, one primary plane.\<close>

definition demo_dev :: drm_dev where
  "demo_dev = \<lparr>dv_res = Some ([31], [50, 51]), dv_connector = (\<lambda>c. if c = 31 then Some demo_connector else None),
     dv_encoder = (\<lambda>e. Some \<lparr>en_crtc_id = 0, en_possible_crtcs = 2\<rparr>), dv_planes = Some [60],
     dv_plane = (\<lambda>p. Some \<lparr>pl_id = p, pl_possible_crtcs = 3\<rparr>),
     dv_props = (\<lambda>i. Some [(Some (7, ''type''), 1), (Some (8, ''FB_ID''), 0)])\<rparr>"

text \<open>Asked for 59 Hz, the 60 Hz mode is taken, not the 50 Hz mode before it.\<close>

theorem set_mode_closest_witness:
  "\<exists>k' d'. kms_set_mode_wh demo_dev (Some 4) (zero_kms\<lparr>connector_id := 31, mode_blob := 3\<rparr>) 1920 1080 59000
       (no_drm\<lparr>d_blobs := {3}\<rparr>) = (0, k', d') \<and> mode k' = mode_60 \<and> d_blobs d' = {4}"
proof -
  let ?k = "zero_kms\<lparr>connector_id := 31, mode_blob := 3\<rparr>" and ?d = "no_drm\<lparr>d_blobs := {3}\<rparr>"
  obtain r k' d' where c: "kms_set_mode_wh demo_dev (Some 4) ?k 1920 1080 59000 ?d = (r, k', d')"
    using prod_cases3 by blast
  have dv: "dv_connector demo_dev (connector_id ?k) = Some demo_connector" by (simp add: demo_dev_def)
  have modes: "dc_modes demo_connector = [mode_50, mode_60]" by (simp add: demo_connector_def)
  have fits: "offered 1920 1080 mode_60" "offered 1920 1080 mode_50"
    by (simp_all add: offered_def mode_50_def mode_60_def bit_simps)
  have off: "rate_off 59000 mode_60 = 1000" "rate_off 59000 mode_50 = 9000"
    by (simp_all add: rate_off_def rate_mhz_def mode_50_def mode_60_def)
  have old: "mode_blob ?k \<noteq> 0" "Some 4 \<noteq> Some (mode_blob ?k)" by simp_all
  note s = set_mode_closest [OF c dv old, unfolded modes]
  have r: "r = 0" using s fits by (auto split: if_splits)
  then obtain i where i: "i < length [mode_50, mode_60]" "mode k' = [mode_50, mode_60] ! i"
      and le: "\<forall>j < length [mode_50, mode_60]. offered 1920 1080 ([mode_50, mode_60] ! j) \<longrightarrow>
        rate_off 59000 (mode k') \<le> rate_off 59000 ([mode_50, mode_60] ! j)"
    using s [unfolded if_P [OF r]] by blast
  have "rate_off 59000 (mode k') \<le> rate_off 59000 mode_60" using le [rule_format, of 1] fits by simp
  then have "i = 1" using off i by (cases "i = 0") auto
  then have "mode k' = mode_60" using i(2) by simp
  moreover have "d_blobs d' = {4}" using s r by auto
  ultimately show ?thesis using c r by blast
qed

section \<open>Setting up\<close>

lemma pick_connector_spec:
  "pick_connector dv cs = Some cn \<Longrightarrow>
   \<exists>c \<in> set cs. dv_connector dv c = Some cn \<and> connection cn = DRM_MODE_CONNECTED \<and> dc_modes cn \<noteq> []"
  by (induction cs) (auto split: option.splits if_splits)

lemma pick_mode_spec:
  assumes "dc_modes cn \<noteq> []"
  shows "pick_mode cn \<in> set (dc_modes cn) \<and>
    ((\<exists>m \<in> set (dc_modes cn). mo_type m AND DRM_MODE_TYPE_PREFERRED \<noteq> 0) \<longrightarrow>
      mo_type (pick_mode cn) AND DRM_MODE_TYPE_PREFERRED \<noteq> 0)"
  using assms
  by (auto simp: pick_mode_def find_index_None_iff split: option.splits dest!: find_index_SomeD)

lemma mask_bit: "mask_has m c \<longleftrightarrow> bit m c"
  unfolding mask_has_def by (rule bit_mask)

text \<open>
  Which CRTC a connector is given: the one its encoder drives now, and otherwise one that
  some encoder of the connector says it can drive.
\<close>

definition driven_by :: "drm_dev \<Rightarrow> drm_connector \<Rightarrow> u32" where
  "driven_by dv cn =
     (if encoder_id cn = 0 then 0 else case dv_encoder dv (encoder_id cn) of None \<Rightarrow> 0 | Some en \<Rightarrow> en_crtc_id en)"

definition drivable :: "drm_dev \<Rightarrow> u32 list \<Rightarrow> drm_connector \<Rightarrow> u32 \<Rightarrow> bool" where
  "drivable dv crtcs cn i \<longleftrightarrow>
     (\<exists>e en c. e \<in> set (dc_encoders cn) \<and> dv_encoder dv e = Some en \<and> c < length crtcs \<and> crtcs ! c = i \<and> bit (en_possible_crtcs en) c)"

lemma encoder_crtc_spec:
  "encoder_crtc crtcs en \<noteq> 0 \<Longrightarrow> \<exists>c < length crtcs. crtcs ! c = encoder_crtc crtcs en \<and> bit (en_possible_crtcs en) c"
  by (auto simp: encoder_crtc_def mask_bit split: option.splits dest!: find_index_SomeD)

lemma encoders_crtc_spec:
  "encoders_crtc dv crtcs es i \<noteq> 0 \<Longrightarrow>
   if i \<noteq> 0 then encoders_crtc dv crtcs es i = i
   else \<exists>e \<in> set es. \<exists>en. dv_encoder dv e = Some en \<and>
     (\<exists>c < length crtcs. crtcs ! c = encoders_crtc dv crtcs es i \<and> bit (en_possible_crtcs en) c)"
proof (induction es arbitrary: i)
  case (Cons e es)
  show ?case
  proof (cases "i \<noteq> 0 \<or> dv_encoder dv e = None")
    case True
    with Cons show ?thesis by (cases "i = 0") (auto split: option.splits)
  next
    case False
    then obtain en where en: "i = 0" "dv_encoder dv e = Some en" by auto
    show ?thesis
    proof (cases "encoder_crtc crtcs en = 0")
      case True
      with en Cons show ?thesis by (auto split: if_splits)
    next
      case False
      then have "encoders_crtc dv crtcs es (encoder_crtc crtcs en) = encoder_crtc crtcs en" by (cases es) simp_all
      with en encoder_crtc_spec [OF False] show ?thesis by auto
    qed
  qed
qed simp

lemma pick_crtc_spec:
  assumes "pick_crtc dv crtcs cn \<noteq> 0"
  shows "if driven_by dv cn \<noteq> 0 then pick_crtc dv crtcs cn = driven_by dv cn else drivable dv crtcs cn (pick_crtc dv crtcs cn)"
proof -
  have pick: "pick_crtc dv crtcs cn = encoders_crtc dv crtcs (dc_encoders cn) (driven_by dv cn)"
    by (simp add: pick_crtc_def driven_by_def)
  show ?thesis
    using encoders_crtc_spec [of dv crtcs "dc_encoders cn" "driven_by dv cn"] assms unfolding pick drivable_def
    by (auto split: if_splits)
qed

lemma crtc_index_spec: "0 \<le> crtc_index_of crtcs i \<Longrightarrow> nat (crtc_index_of crtcs i) < length crtcs \<and> crtcs ! nat (crtc_index_of crtcs i) = i"
  by (auto simp: crtc_index_of_def split: option.splits dest: find_index_SomeD)

text \<open>A plane is primary when its property named \<open>type\<close> says so.\<close>

definition of_primary_type :: "drm_dev \<Rightarrow> drm_plane \<Rightarrow> bool" where
  "of_primary_type dv pl \<longleftrightarrow> (\<exists>props i n. dv_props dv (pl_id pl) = Some props \<and> (Some (i, n), 1) \<in> set props \<and> c_str n = ''type'')"

lemma prop_map_entry: "p \<in> set (prop_map_entries ps) \<Longrightarrow> \<exists>n. (Some (pr_id p, n), pr_value p) \<in> set ps \<and> pr_name p = snprintf_s 32 n"
  by (induction ps rule: prop_map_entries.induct) auto

lemma primary_plane_spec: "primary_plane dv ok pl \<Longrightarrow> of_primary_type dv pl"
proof -
  assume a: "primary_plane dv ok pl"
  then obtain props where props: "dv_props dv (pl_id pl) = Some props"
      and v: "prop_value (prop_map_entries props) ''type'' = Some 1"
    by (auto simp: primary_plane_def prop_map_load_def Let_def split: option.splits if_splits)
  then obtain i where i: "i < length (prop_map_entries props)" "pr_name (prop_map_entries props ! i) = ''type''"
      "pr_value (prop_map_entries props ! i) = 1"
    by (auto simp: prop_value_def split: option.splits dest!: find_index_SomeD)
  with prop_map_entry [OF nth_mem [OF i(1)]] obtain n where
    n: "(Some (pr_id (prop_map_entries props ! i), n), 1) \<in> set props" "snprintf_s 32 n = ''type''" by auto
  have "c_str n = ''type''"
  proof -
    have len: "length (c_str n) \<le> 31"
      using arg_cong [OF n(2), of length] by (auto simp: snprintf_s_def)
    then show ?thesis using n(2) by (simp add: snprintf_s_def)
  qed
  then show ?thesis using props n(1) by (auto simp: of_primary_type_def)
qed

lemma pick_plane_spec:
  "pick_plane dv ok idx ps = Some p \<Longrightarrow> p \<noteq> 0 \<Longrightarrow>
   0 \<le> idx \<and> (\<exists>q \<in> set ps. \<exists>pl. dv_plane dv q = Some pl \<and> pl_id pl = p \<and> bit (pl_possible_crtcs pl) (nat idx) \<and>
     of_primary_type dv pl)"
  by (induction ps) (auto simp: mask_bit split: option.splits if_splits dest: primary_plane_spec)

lemma load_props_frame:
  "snd (load_props dv ok k) = k\<lparr>conn_props := conn_props (snd (load_props dv ok k)),
     crtc_props := crtc_props (snd (load_props dv ok k)), plane_props := plane_props (snd (load_props dv ok k))\<rparr>"
  by (cases k) (simp add: load_props_def Let_def split: prod.split)

lemma setup_sound:
  assumes "kms_setup dv ok blob d = Some (r, k, d')"
  shows "if r = 0
    then \<exists>conns crtcs c cn ps q pl. dv_res dv = Some (conns, crtcs) \<and> c \<in> set conns \<and> dv_connector dv c = Some cn \<and>
      connection cn = DRM_MODE_CONNECTED \<and> connector_id k = dc_id cn \<and> mode k \<in> set (dc_modes cn) \<and>
      ((\<exists>m \<in> set (dc_modes cn). mo_type m AND DRM_MODE_TYPE_PREFERRED \<noteq> 0) \<longrightarrow>
        mo_type (mode k) AND DRM_MODE_TYPE_PREFERRED \<noteq> 0) \<and>
      crtc_id k \<noteq> 0 \<and> nat (crtc_index k) < length crtcs \<and> crtcs ! nat (crtc_index k) = crtc_id k \<and>
      (if driven_by dv cn \<noteq> 0 then crtc_id k = driven_by dv cn else drivable dv crtcs cn (crtc_id k)) \<and>
      dv_planes dv = Some ps \<and> q \<in> set ps \<and> dv_plane dv q = Some pl \<and> plane_id k = pl_id pl \<and> plane_id k \<noteq> 0 \<and>
      bit (pl_possible_crtcs pl) (nat (crtc_index k)) \<and> of_primary_type dv pl \<and> blob = Some (mode_blob k) \<and> d' = d\<lparr>d_blobs := insert (mode_blob k) (d_blobs d)\<rparr>
    else r = -1 \<and> mode_blob k = 0 \<and> d' = d"
proof -
  note def = assms [unfolded kms_setup_def Let_def]
  show ?thesis
  proof (cases "dv_res dv")
    case None
    with def show ?thesis by (auto simp: zero_kms_def)
  next
    case (Some cc)
    then obtain conns crtcs where res: "dv_res dv = Some (conns, crtcs)" by (cases cc) auto
    note def = def [unfolded res option.case prod.case]
    show ?thesis
    proof (cases "pick_connector dv conns")
      case None
      with def show ?thesis by (auto simp: zero_kms_def)
    next
      case (Some cn)
      let ?i = "pick_crtc dv crtcs cn"
      let ?k2 = "zero_kms\<lparr>connector_id := dc_id cn, mode := pick_mode cn, crtc_id := ?i, crtc_index := crtc_index_of crtcs ?i\<rparr>"
      note def = def [unfolded Some option.case]
      show ?thesis
      proof (cases "?i = 0 \<or> dv_planes dv = None")
        case True
        with def show ?thesis by (auto simp: zero_kms_def split: if_splits)
      next
        case False
        then obtain ps where i: "?i \<noteq> 0" and ps: "dv_planes dv = Some ps" by blast
        obtain p where p: "pick_plane dv ok (crtc_index_of crtcs ?i) ps = Some p"
          using def i ps by (auto split: option.splits)
        let ?k3 = "?k2\<lparr>plane_id := p\<rparr>"
        obtain okp k4 where l: "load_props dv ok ?k3 = (okp, k4)" by fastforce
        then have k4: "connector_id k4 = dc_id cn" "mode k4 = pick_mode cn" "crtc_id k4 = ?i"
            "crtc_index k4 = crtc_index_of crtcs ?i" "plane_id k4 = p" "mode_blob k4 = 0"
          using load_props_frame [of dv ok ?k3] by (simp_all add: zero_kms_def) (metis kms.select_convs)+
        show ?thesis
        proof (cases "p \<noteq> 0 \<and> okp \<and> blob \<noteq> None")
          case False
          with def i ps p l k4(6) show ?thesis
            by (auto simp: zero_kms_def kms_finish_def create_blob_def split: if_splits option.splits)
        next
          case True
          then obtain b where b: "blob = Some b" and p0: "p \<noteq> 0" and okp by blast
          with def i ps p l have r: "r = 0" and k: "k = k4\<lparr>mode_blob := b\<rparr>" "d' = d\<lparr>d_blobs := insert b (d_blobs d)\<rparr>"
            by (auto simp: create_blob_def)
          obtain c where c: "c \<in> set conns" "dv_connector dv c = Some cn" "connection cn = DRM_MODE_CONNECTED" "dc_modes cn \<noteq> []"
            using pick_connector_spec [OF Some] by blast
          obtain q pl where q: "0 \<le> crtc_index_of crtcs ?i" "q \<in> set ps" "dv_plane dv q = Some pl" "pl_id pl = p"
              "bit (pl_possible_crtcs pl) (nat (crtc_index_of crtcs ?i))" "of_primary_type dv pl"
            using pick_plane_spec [OF p p0] by blast
          show ?thesis unfolding if_P [OF r]
            using c(1-3) pick_mode_spec [OF c(4)] q(2-) crtc_index_spec [OF q(1)] i k k4 res b ps p0 pick_crtc_spec [OF i]
            by (intro exI [of _ conns] exI [of _ crtcs] exI [of _ c] exI [of _ cn] exI [of _ ps] exI [of _ q] exI [of _ pl]) simp
        qed
      qed
    qed
  qed
qed

text \<open>
  C26: A successful set-up drives a connected connector with one of its own modes, a
  preferred one if it has one. The CRTC is a CRTC of the device: the one the connector's
  encoder drives already, if there is one, and otherwise one that an encoder of the
  connector says it can drive, by the bit of its mask. The plane is one of the device, of type primary by its
  property, whose mask has the bit of that CRTC, and the set-up owns exactly one mode blob;
  a failed set-up owns none.
\<close>

theorem kms_setup_sound:
  assumes "kms_setup dv ok blob d = Some (r, k, d')"
  shows "if r = 0
    then \<exists>conns crtcs c cn ps q pl. dv_res dv = Some (conns, crtcs) \<and> c \<in> set conns \<and> dv_connector dv c = Some cn \<and>
      connection cn = DRM_MODE_CONNECTED \<and> connector_id k = dc_id cn \<and> mode k \<in> set (dc_modes cn) \<and>
      ((\<exists>m \<in> set (dc_modes cn). mo_type m AND DRM_MODE_TYPE_PREFERRED \<noteq> 0) \<longrightarrow>
        mo_type (mode k) AND DRM_MODE_TYPE_PREFERRED \<noteq> 0) \<and>
      crtc_id k \<noteq> 0 \<and> nat (crtc_index k) < length crtcs \<and> crtcs ! nat (crtc_index k) = crtc_id k \<and>
      (if driven_by dv cn \<noteq> 0 then crtc_id k = driven_by dv cn else drivable dv crtcs cn (crtc_id k)) \<and>
      dv_planes dv = Some ps \<and> q \<in> set ps \<and> dv_plane dv q = Some pl \<and> plane_id k = pl_id pl \<and> plane_id k \<noteq> 0 \<and>
      bit (pl_possible_crtcs pl) (nat (crtc_index k)) \<and> of_primary_type dv pl \<and> blob = Some (mode_blob k) \<and> d' = d\<lparr>d_blobs := insert (mode_blob k) (d_blobs d)\<rparr>
    else r = -1 \<and> mode_blob k = 0 \<and> d' = d"
  using assms by (rule setup_sound)

lemma demo_setup:
  "\<exists>k d'. kms_setup demo_dev True (Some 3) no_drm = Some (0, k, d') \<and> mode k = mode_60 \<and> crtc_id k = 51 \<and> plane_id k = 60"
proof -
  have ok: "kms_setup demo_dev True (Some 3) no_drm \<noteq> None" "(\<lambda>(r, k, d'). r) (the (kms_setup demo_dev True (Some 3) no_drm)) = 0"
    "(\<lambda>(r, k, d'). (mode k, crtc_id k, plane_id k)) (the (kms_setup demo_dev True (Some 3) no_drm)) = (mode_60, 51, 60)"
    by (simp_all add: kms_setup_def demo_dev_def demo_connector_def pick_mode_def mode_50_def mode_60_def pick_crtc_def
        encoder_crtc_def mask_has_def crtc_index_of_def primary_plane_def prop_map_load_def prop_value_def snprintf_s_def
        c_str_def load_props_def create_blob_def zero_kms_def Let_def)
  then show ?thesis by (auto split: prod.splits)
qed

theorem kms_setup_sound_witness:
  "\<exists>k d'. kms_setup demo_dev True (Some 3) no_drm = Some (0, k, d') \<and> mode k = mode_60 \<and> crtc_id k = 51 \<and>
     drivable demo_dev [50, 51] demo_connector 51 \<and> d_blobs d' = {3}"
proof -
  obtain k d' where k: "kms_setup demo_dev True (Some 3) no_drm = Some (0, k, d')" "mode k = mode_60" "crtc_id k = 51"
      "plane_id k = 60"
    using demo_setup by blast
  have conns: "dv_connector demo_dev c = Some cn \<Longrightarrow> cn = demo_connector" "driven_by demo_dev demo_connector = 0"
      "dv_res demo_dev = Some ([31], [50, 51])" for c cn
    by (auto simp: demo_dev_def driven_by_def demo_connector_def split: if_splits)
  from kms_setup_sound [OF k(1)] conns(3) obtain c cn where cn: "dv_connector demo_dev c = Some cn" "d_blobs d' = {3}"
      "if driven_by demo_dev cn \<noteq> 0 then crtc_id k = driven_by demo_dev cn else drivable demo_dev [50, 51] cn (crtc_id k)"
    by (auto simp: no_drm_def)
  have demo: "cn = demo_connector" by (rule conns(1) [OF cn(1)])
  show ?thesis using cn(2,3) conns(2) k unfolding demo by auto
qed

section \<open>Picking a device\<close>

text \<open>A node that takes the capabilities, and the policy: the first connected one, else the first.\<close>

definition usable :: "card \<Rightarrow> bool" where
  "usable c \<longleftrightarrow> card_fd c \<noteq> None \<and> card_caps c = 0"

definition chosen_card :: "card list \<Rightarrow> card option" where
  "chosen_card cs =
     (case find (\<lambda>c. usable c \<and> drm_has_connected (card_dev c)) cs of
        Some c \<Rightarrow> Some c
      | None \<Rightarrow> find usable cs)"

definition fds_ok :: "card list \<Rightarrow> bool" where
  "fds_ok cs \<longleftrightarrow> (\<forall>c \<in> set cs. \<forall>f. card_fd c = Some f \<longrightarrow> 0 \<le> f)"

lemma drm_scan_choice:
  "fds_ok cs \<Longrightarrow> fst (drm_scan cs fb k) =
     (case find (\<lambda>c. usable c \<and> drm_has_connected (card_dev c)) cs of
        Some c \<Rightarrow> the (card_fd c)
      | None \<Rightarrow> if 0 \<le> fb then fb else case find usable cs of Some c \<Rightarrow> the (card_fd c) | None \<Rightarrow> -1)"
proof (induction cs arbitrary: fb k)
  case (Cons c cs)
  then have "fds_ok cs" "card_fd c = Some f \<Longrightarrow> 0 \<le> f" for f by (auto simp: fds_ok_def)
  note IH = Cons.IH [OF this(1)] and f0 = this(2)
  show ?case
  proof (cases "usable c")
    case False
    then consider "card_fd c = None" | f where "card_fd c = Some f" "card_caps c \<noteq> 0" by (auto simp: usable_def)
    moreover have "find usable (c # cs) = find usable cs"
        "find (\<lambda>c. usable c \<and> drm_has_connected (card_dev c)) (c # cs) = find (\<lambda>c. usable c \<and> drm_has_connected (card_dev c)) cs"
      using False by simp_all
    ultimately show ?thesis using IH by (cases; simp only: drm_scan.simps option.case if_True not_False_eq_True)
  next
    case True
    then obtain f where f: "card_fd c = Some f" "card_caps c = 0" by (auto simp: usable_def)
    have "find usable (c # cs) = Some c" using True by simp
    then show ?thesis using f True IH f0 [OF f(1)]
      by (cases "drm_has_connected (card_dev c)"; cases "find (\<lambda>c. usable c \<and> drm_has_connected (card_dev c)) cs") simp_all
  qed
qed simp

lemma drm_scan_keeps_fallback:
  "fb \<noteq> -1 \<Longrightarrow> fds_ok cs \<Longrightarrow> 0 \<le> fb \<Longrightarrow> (\<And>c. c \<in> set cs \<Longrightarrow> card_fd c \<noteq> Some fb) \<Longrightarrow>
   \<exists>cl. closed (trace (snd (drm_scan cs fb k))) = closed (trace k) @ cl \<and> fb \<notin> set cl"
proof (induction cs arbitrary: k)
  case (Cons c cs)
  have "fds_ok cs" "\<And>c. c \<in> set cs \<Longrightarrow> card_fd c \<noteq> Some fb" using Cons.prems by (auto simp: fds_ok_def)
  note IH = Cons.IH [OF Cons.prems(1) this(1) Cons.prems(3) this(2)]
  show ?case
  proof (cases "card_fd c")
    case None
    with IH show ?thesis by simp
  next
    case (Some f)
    then have "f \<noteq> fb" using Cons.prems(4) [of c] by auto
    with Some IH [of "k_close f k"] IH [of k] Cons.prems(3) show ?thesis by auto
  qed
qed auto

text \<open>
  When the first usable node has nothing connected and a later one has, the scan
  returns the later one and never closes the first: its descriptor is leaked. (The probe
  in the server does close it.)
\<close>

theorem drm_open_leaks_fallback:
  assumes "cards = c # cs" "length cards \<le> 16" "usable c" "card_fd c = Some f" "\<not> drm_has_connected (card_dev c)"
    and "find (\<lambda>c. usable c \<and> drm_has_connected (card_dev c)) cs = Some c'" "card_fd c' = Some f'"
    and "fds_ok cards" "\<And>x. x \<in> set cs \<Longrightarrow> card_fd x \<noteq> Some f"
  shows "fst (drm_open None cards k) = f' \<and> f' \<noteq> f \<and>
    (\<exists>cl. closed (trace (snd (drm_open None cards k))) = closed (trace k) @ cl \<and> f \<notin> set cl)"
proof -
  have f: "0 \<le> f" and ok: "fds_ok cs" using assms(1,4,8) by (auto simp: fds_ok_def)
  have step: "drm_open None cards k = drm_scan cs f k"
    using assms(1-5) by (simp add: drm_open_def usable_def)
  have "c' \<in> set cs" using assms(6) by (auto simp: find_Some_iff)
  then have "f' \<noteq> f" using assms(7) assms(9) [of c'] by auto
  moreover have "fst (drm_scan cs f k) = f'" using drm_scan_choice [OF ok, of f k] assms(6,7) by simp
  ultimately show ?thesis using drm_scan_keeps_fallback [OF _ ok f assms(9), of k] f step by simp
qed

definition demo_card :: "fd \<Rightarrow> u32 \<Rightarrow> card" where
  "demo_card f conn = \<lparr>card_fd = Some f, card_atomic = True, card_universal = True,
     card_dev = demo_dev\<lparr>dv_connector := (\<lambda>c. Some (demo_connector\<lparr>connection := conn\<rparr>))\<rparr>\<rparr>"

theorem drm_open_leaks_fallback_witness:
  "fst (drm_open None [demo_card 3 2, demo_card 4 1] (\<lparr>maps = Map.empty, next_map = 0, trace = []\<rparr> :: unit kern)) = 4"
  by (rule drm_open_leaks_fallback [where f' = 4 and c' = "demo_card 4 1" and f = 3, OF refl, THEN conjunct1])
    (auto simp: demo_card_def usable_def card_caps_def drm_set_caps_def drm_has_connected_def demo_dev_def demo_connector_def fds_ok_def)

end
