(* ===== verification/Wayland.thy ===== *)
theory Wayland
  imports Transport
begin

text \<open>
  The Wayland frontend: \<open>src/src/wayland.c\<close>.

  A \<open>struct fe_surface *\<close> is an address; the surfaces alive are those in the frontend's
  list. Role objects (xdg_surface, xdg_toplevel) keep the address of their surface as user
  data, and a surface keeps the name of the buffer attached to it: both can outlive what
  they point to, and using them then is undefined behaviour, the value \<open>None\<close>. A pixel copy
  is an allocation of bytes, named by a number that is never reused.

  libwayland is the environment: it calls the handlers, its resources are numbers, a failing
  allocation is an argument of the handler, serials are not modelled. Every event the code
  sends is recorded in order.
\<close>

section \<open>State\<close>

type_synonym wl_addr = nat
type_synonym wl_client = nat
type_synonym wl_res_id = nat

datatype wl_sent =
    Ptr_Leave wl_res_id wl_addr
  | Ptr_Enter wl_res_id wl_addr int int
  | Ptr_Motion wl_res_id int int
  | Ptr_Button wl_res_id u32 bool
  | Ptr_Frame wl_res_id
  | Kbd_Leave wl_res_id wl_addr
  | Kbd_Enter wl_res_id wl_addr
  | Kbd_Key wl_res_id u32 bool
  | Kbd_Modifiers wl_res_id
  | Kbd_Keymap wl_res_id fd
  | Kbd_Repeat wl_res_id int int
  | Toplevel_Configure wl_res_id int int
  | Surface_Configure wl_res_id
  | Buffer_Release nat
  | Callback_Done wl_res_id
  | Decoration_Server_Side wl_res_id
  | No_Memory wl_client

text \<open>A client's shared-memory buffer and the bytes it has in its pool from the buffer on.\<close>

record shm_buffer =
  sb_w :: int
  sb_h :: int
  sb_stride :: int
  sb_data :: "u8 list"

record fe_surface =
  fs_addr :: wl_addr
  fs_client :: wl_client
  xdg_surface :: "wl_res_id option"
  xdg_toplevel :: "wl_res_id option"
  decoration :: "wl_res_id option"
  attached :: bool
  pending_buffer :: "nat option"
  initial_configured :: bool
  content :: "nat option"
  cw :: int
  ch :: int
  fs_server_id :: u32
  fs_title :: string

record wl_res =
  rs_id :: wl_res_id
  rs_client :: wl_client
  rs_version :: nat

text \<open>
  \<open>xdg_surfaces\<close> and \<open>toplevels\<close> are the role objects alive with their user data;
  \<open>buffers\<close> are the wl_buffers alive, with no shm part if they are of another kind.
\<close>

record wl_frontend =
  surfaces :: "fe_surface list"
  pointers :: "wl_res list"
  keyboards :: "wl_res list"
  frame_callbacks :: "wl_res_id list"
  xdg_surfaces :: "wl_res_id \<rightharpoonup> wl_addr"
  toplevels :: "wl_res_id \<rightharpoonup> wl_addr"
  buffers :: "nat \<rightharpoonup> shm_buffer option"
  wl_dirty :: bool
  cascade :: int
  pointer_focus :: u32
  kbd_focus :: u32
  last_px :: int
  last_py :: int
  has_xkb :: bool
  keymap_fd :: fd
  contents :: "nat \<rightharpoonup> u8 list"
  next_content :: nat
  next_addr :: wl_addr
  wl_out :: "wl_sent list"
  wl_stack :: window_stack

definition SEAT_FRAME_SINCE :: nat where [simp]: "SEAT_FRAME_SINCE = 5"
definition REPEAT_INFO_SINCE :: nat where [simp]: "REPEAT_INFO_SINCE = 4"

definition emit :: "wl_sent list \<Rightarrow> wl_frontend \<Rightarrow> wl_frontend" where
  "emit es f = f\<lparr>wl_out := wl_out f @ es\<rparr>"

definition surface_by_window :: "wl_frontend \<Rightarrow> u32 \<Rightarrow> fe_surface option" where
  "surface_by_window f i =
     (if i = 0 then None else find (\<lambda>s. fs_server_id s = i) (surfaces f))"

text \<open>Following a pointer to a surface, and assigning through it.\<close>

definition surf_at :: "wl_frontend \<Rightarrow> wl_addr \<Rightarrow> fe_surface option" where
  "surf_at f a = find (\<lambda>s. fs_addr s = a) (surfaces f)"

definition put_surf :: "fe_surface \<Rightarrow> wl_frontend \<Rightarrow> wl_frontend" where
  "put_surf s f = f\<lparr>surfaces := map (\<lambda>t. if fs_addr t = fs_addr s then s else t) (surfaces f)\<rparr>"

section \<open>Surfaces\<close>

definition frame_callback_destroy :: "wl_res_id \<Rightarrow> wl_frontend \<Rightarrow> wl_frontend" where
  "frame_callback_destroy r f = f\<lparr>frame_callbacks := filter (\<lambda>x. x \<noteq> r) (frame_callbacks f)\<rparr>"

definition fire_frame_callbacks :: "wl_frontend \<Rightarrow> wl_frontend" where
  "fire_frame_callbacks f = emit (map Callback_Done (frame_callbacks f)) (f\<lparr>frame_callbacks := []\<rparr>)"

definition free_content :: "nat option \<Rightarrow> wl_frontend \<Rightarrow> wl_frontend" where
  "free_content c f = (case c of None \<Rightarrow> f | Some n \<Rightarrow> f\<lparr>contents := (contents f)(n := None)\<rparr>)"

definition surface_unmap :: "fe_surface \<Rightarrow> wl_frontend \<Rightarrow> wl_frontend" where
  "surface_unmap s f =
     (let f1 = (if fs_server_id s \<noteq> 0
                then f\<lparr>wl_stack := window_destroy (wl_stack f) (fs_server_id s), wl_dirty := True\<rparr> else f)
      in put_surf (s\<lparr>fs_server_id := 0, content := None, cw := 0, ch := 0\<rparr>) (free_content (content s) f1))"

text \<open>
  The row copies of \<open>copy_shm_buffer\<close>: \<open>h\<close> times \<open>4 * w\<close> bytes, \<open>stride\<close> apart; \<open>None\<close> if
  one runs past the data.
\<close>

fun copy_rows :: "u8 list \<Rightarrow> int \<Rightarrow> nat \<Rightarrow> nat \<Rightarrow> nat \<Rightarrow> u8 list option" where
  "copy_rows data stride w y 0 = Some []"
| "copy_rows data stride w y (Suc h) =
     (let off = int y * stride
      in if off < 0 \<or> nat off + 4 * w > length data then None
         else (case copy_rows data stride w (Suc y) h of
                 None \<Rightarrow> None
               | Some rest \<Rightarrow> Some (take (4 * w) (drop (nat off) data) @ rest)))"

text \<open>
  \<open>realloc\<close> may fail; when it does not, the old copy is gone and the new one is written in
  full.
\<close>

definition copy_shm_buffer :: "bool \<Rightarrow> shm_buffer \<Rightarrow> fe_surface \<Rightarrow> wl_frontend \<Rightarrow> (fe_surface \<times> wl_frontend) option" where
  "copy_shm_buffer realloc_ok b s f =
     (if sb_w b \<le> 0 \<or> sb_h b \<le> 0 then Some (s, f)
      else if (cw s \<noteq> sb_w b \<or> ch s \<noteq> sb_h b) \<and> \<not> realloc_ok then Some (s, f)
      else (case copy_rows (sb_data b) (sb_stride b) (nat (sb_w b)) 0 (nat (sb_h b)) of
              None \<Rightarrow> None
            | Some bytes \<Rightarrow>
                if cw s \<noteq> sb_w b \<or> ch s \<noteq> sb_h b
                then (let f1 = free_content (content s) f; n = next_content f1;
                          s' = s\<lparr>content := Some n, cw := sb_w b, ch := sb_h b\<rparr>
                      in Some (s', put_surf s' (f1\<lparr>contents := (contents f1)(n \<mapsto> bytes), next_content := Suc n\<rparr>)))
                else (case content s of
                        None \<Rightarrow> None
                      | Some n \<Rightarrow> Some (s, f\<lparr>contents := (contents f)(n \<mapsto> bytes)\<rparr>))))"

definition show_content :: "fe_surface \<Rightarrow> window \<Rightarrow> window" where
  "show_content s v =
     v\<lparr>buf := map_option Content (content s), buf_w := cw s, buf_h := ch s, buf_stride := cw s * 4\<rparr>"

definition surface_map_or_update :: "fe_surface \<Rightarrow> wl_frontend \<Rightarrow> wl_frontend" where
  "surface_map_or_update s f =
     (if fs_server_id s \<noteq> 0
      then f\<lparr>wl_stack := window_modify (wl_stack f) (fs_server_id s)
               (\<lambda>v. (show_content s v)\<lparr>win_w := cw s, win_h := ch s + DECOR_TITLEBAR_H\<rparr>), wl_dirty := True\<rparr>
      else (let n = cascade f smod 8; x = 120 + 40 * n; y = 90 + 40 * n;
                f1 = f\<lparr>cascade := cascade f + 1\<rparr>;
                (i, st) = window_create (wl_stack f1) WIN_NORMAL x y (cw s) (ch s + DECOR_TITLEBAR_H) 0x00202020
                            (Some (if fs_title s \<noteq> [] then fs_title s else ''Wayland''))
            in if i = 0 then f1\<lparr>wl_stack := st\<rparr>
               else put_surf (s\<lparr>fs_server_id := i\<rparr>)
                      (f1\<lparr>wl_stack := window_focus (window_modify st i (show_content s)) i, wl_dirty := True\<rparr>)))"

definition comp_create_surface :: "wl_client \<Rightarrow> bool \<Rightarrow> wl_frontend \<Rightarrow> wl_frontend" where
  "comp_create_surface c ok f =
     (if \<not> ok then emit [No_Memory c] f
      else f\<lparr>surfaces :=
               \<lparr>fs_addr = next_addr f, fs_client = c, xdg_surface = None, xdg_toplevel = None, decoration = None,
                attached = False, pending_buffer = None, initial_configured = False, content = None, cw = 0,
                ch = 0, fs_server_id = 0, fs_title = []\<rparr> # surfaces f,
             next_addr := Suc (next_addr f)\<rparr>)"

definition surf_attach :: "wl_addr \<Rightarrow> nat option \<Rightarrow> wl_frontend \<Rightarrow> wl_frontend option" where
  "surf_attach a b f =
     (case surf_at f a of None \<Rightarrow> None
      | Some s \<Rightarrow> Some (put_surf (s\<lparr>attached := True, pending_buffer := b\<rparr>) f))"

definition surf_frame :: "wl_addr \<Rightarrow> wl_res_id option \<Rightarrow> wl_frontend \<Rightarrow> wl_frontend option" where
  "surf_frame a cb f =
     (case surf_at f a of None \<Rightarrow> None
      | Some s \<Rightarrow> Some (case cb of None \<Rightarrow> f | Some r \<Rightarrow> f\<lparr>frame_callbacks := r # frame_callbacks f\<rparr>))"

definition surf_commit :: "bool \<Rightarrow> wl_addr \<Rightarrow> wl_frontend \<Rightarrow> wl_frontend option" where
  "surf_commit realloc_ok a f =
     (case surf_at f a of None \<Rightarrow> None | Some s \<Rightarrow>
      (case (xdg_surface s, initial_configured s) of
         (Some x, False) \<Rightarrow>
           Some (put_surf (s\<lparr>initial_configured := True\<rparr>)
                  (emit ((case xdg_toplevel s of None \<Rightarrow> [] | Some t \<Rightarrow> [Toplevel_Configure t 0 0]) @ [Surface_Configure x]) f))
       | _ \<Rightarrow>
      (if \<not> attached s then Some (fire_frame_callbacks f)
       else let s1 = s\<lparr>attached := False, pending_buffer := None\<rparr>; f1 = put_surf s1 f
       in case pending_buffer s of
            None \<Rightarrow> Some (fire_frame_callbacks (surface_unmap s1 f1))
          | Some b \<Rightarrow>
              (case buffers f1 b of
                 None \<Rightarrow> None
               | Some None \<Rightarrow> Some (fire_frame_callbacks (emit [Buffer_Release b] f1))
               | Some (Some shm) \<Rightarrow>
                   (case copy_shm_buffer realloc_ok shm s1 f1 of
                      None \<Rightarrow> None
                    | Some (s2, f2) \<Rightarrow>
                        (let f3 = emit [Buffer_Release b] f2
                         in Some (fire_frame_callbacks
                              (if content s2 \<noteq> None \<and> xdg_toplevel s2 \<noteq> None
                               then surface_map_or_update s2 f3 else f3))))))))"

definition surface_resource_destroy :: "wl_addr \<Rightarrow> wl_frontend \<Rightarrow> wl_frontend option" where
  "surface_resource_destroy a f =
     (case surf_at f a of None \<Rightarrow> None
      | Some s \<Rightarrow>
          (let f1 = surface_unmap s f
           in Some (f1\<lparr>surfaces := filter (\<lambda>t. fs_addr t \<noteq> a) (surfaces f1)\<rparr>)))"

section \<open>Roles\<close>

definition wm_get_xdg_surface :: "wl_client \<Rightarrow> wl_addr \<Rightarrow> wl_res_id option \<Rightarrow> wl_frontend \<Rightarrow> wl_frontend option" where
  "wm_get_xdg_surface c a res f =
     (case surf_at f a of None \<Rightarrow> None
      | Some s \<Rightarrow>
          Some (case res of
                  None \<Rightarrow> emit [No_Memory c] f
                | Some r \<Rightarrow> put_surf (s\<lparr>xdg_surface := Some r\<rparr>) (f\<lparr>xdg_surfaces := (xdg_surfaces f)(r \<mapsto> a)\<rparr>)))"

definition xdg_surface_resource_destroy :: "wl_res_id \<Rightarrow> wl_frontend \<Rightarrow> wl_frontend option" where
  "xdg_surface_resource_destroy x f =
     (case xdg_surfaces f x of None \<Rightarrow> None | Some a \<Rightarrow>
      (case surf_at f a of None \<Rightarrow> None
       | Some s \<Rightarrow> Some (put_surf (s\<lparr>xdg_surface := None\<rparr>) (f\<lparr>xdg_surfaces := (xdg_surfaces f)(x := None)\<rparr>))))"

definition xs_get_toplevel :: "wl_client \<Rightarrow> wl_res_id \<Rightarrow> wl_res_id option \<Rightarrow> wl_frontend \<Rightarrow> wl_frontend option" where
  "xs_get_toplevel c x res f =
     (case xdg_surfaces f x of None \<Rightarrow> None | Some a \<Rightarrow>
      (case res of
         None \<Rightarrow> Some (emit [No_Memory c] f)
       | Some r \<Rightarrow>
           (case surf_at f a of None \<Rightarrow> None
            | Some s \<Rightarrow> Some (put_surf (s\<lparr>xdg_toplevel := Some r\<rparr>) (f\<lparr>toplevels := (toplevels f)(r \<mapsto> a)\<rparr>)))))"

definition toplevel_resource_destroy :: "wl_res_id \<Rightarrow> wl_frontend \<Rightarrow> wl_frontend option" where
  "toplevel_resource_destroy t f =
     (case toplevels f t of None \<Rightarrow> None | Some a \<Rightarrow>
      (case surf_at f a of None \<Rightarrow> None
       | Some s \<Rightarrow> Some (surface_unmap (s\<lparr>xdg_toplevel := None\<rparr>) (f\<lparr>toplevels := (toplevels f)(t := None)\<rparr>))))"

definition tl_set_title :: "wl_res_id \<Rightarrow> string \<Rightarrow> wl_frontend \<Rightarrow> wl_frontend option" where
  "tl_set_title t str f =
     (case toplevels f t of None \<Rightarrow> None | Some a \<Rightarrow>
      (case surf_at f a of None \<Rightarrow> None
       | Some s \<Rightarrow>
           (let ti = snprintf_s 64 str; f1 = put_surf (s\<lparr>fs_title := ti\<rparr>) f
            in Some (if fs_server_id s \<noteq> 0
                     then f1\<lparr>wl_stack := window_modify (wl_stack f1) (fs_server_id s) (\<lambda>v. v\<lparr>title := snprintf_s TITLE_CAP ti\<rparr>)\<rparr>
                     else f1))))"

definition deco_force_ssd :: "wl_res_id \<Rightarrow> wl_frontend \<Rightarrow> wl_frontend" where
  "deco_force_ssd r = emit [Decoration_Server_Side r]"

definition decomgr_get :: "wl_client \<Rightarrow> wl_res_id \<Rightarrow> wl_res_id option \<Rightarrow> wl_frontend \<Rightarrow> wl_frontend option" where
  "decomgr_get c t res f =
     (case toplevels f t of None \<Rightarrow> None | Some a \<Rightarrow>
      (case res of
         None \<Rightarrow> Some (emit [No_Memory c] f)
       | Some r \<Rightarrow>
           (case surf_at f a of None \<Rightarrow> None
            | Some s \<Rightarrow> Some (deco_force_ssd r (put_surf (s\<lparr>decoration := Some r\<rparr>) f)))))"

section \<open>The seat\<close>

definition seat_get_pointer :: "wl_res option \<Rightarrow> wl_client \<Rightarrow> wl_frontend \<Rightarrow> wl_frontend" where
  "seat_get_pointer res c f =
     (case res of None \<Rightarrow> emit [No_Memory c] f | Some r \<Rightarrow> f\<lparr>pointers := r # pointers f\<rparr>)"

definition seat_get_keyboard :: "wl_res option \<Rightarrow> wl_client \<Rightarrow> wl_frontend \<Rightarrow> wl_frontend" where
  "seat_get_keyboard res c f =
     (case res of None \<Rightarrow> emit [No_Memory c] f
      | Some r \<Rightarrow>
          emit ((if keymap_fd f \<ge> 0 then [Kbd_Keymap (rs_id r) (keymap_fd f)] else []) @
                (if rs_version r \<ge> REPEAT_INFO_SINCE then [Kbd_Repeat (rs_id r) 25 600] else []))
            (f\<lparr>keyboards := r # keyboards f\<rparr>))"

definition seat_resource_unlink :: "wl_res_id \<Rightarrow> wl_frontend \<Rightarrow> wl_frontend" where
  "seat_resource_unlink r f =
     f\<lparr>pointers := filter (\<lambda>p. rs_id p \<noteq> r) (pointers f), keyboards := filter (\<lambda>k. rs_id k \<noteq> r) (keyboards f)\<rparr>"

definition of_client :: "wl_client \<Rightarrow> wl_res list \<Rightarrow> wl_res_id list" where
  "of_client c rs = map rs_id (filter (\<lambda>r. rs_client r = c) rs)"

definition pointer_frame_all :: "wl_frontend \<Rightarrow> wl_client \<Rightarrow> wl_sent list" where
  "pointer_frame_all f c =
     map (\<lambda>r. Ptr_Frame (rs_id r))
       (filter (\<lambda>r. rs_client r = c \<and> rs_version r \<ge> SEAT_FRAME_SINCE) (pointers f))"

definition send_modifiers :: "wl_frontend \<Rightarrow> wl_client \<Rightarrow> wl_sent list" where
  "send_modifiers f c = (if \<not> has_xkb f then [] else map Kbd_Modifiers (of_client c (keyboards f)))"

text \<open>The surface under the pointer, with the pointer's place in its content.\<close>

definition pointer_target :: "wl_frontend \<Rightarrow> int \<Rightarrow> int \<Rightarrow> (fe_surface \<times> int \<times> int) option" where
  "pointer_target f gx gy =
     (case window_at (wl_stack f) gx gy of None \<Rightarrow> None | Some v \<Rightarrow>
      (case surface_by_window f (win_id v) of None \<Rightarrow> None | Some s \<Rightarrow>
        (let lx = gx - win_x v; ly = gy - (win_y v + DECOR_TITLEBAR_H)
         in if ly \<ge> 0 \<and> ly < ch s \<and> lx \<ge> 0 \<and> lx < cw s then Some (s, lx, ly) else None)))"

definition wl_frontend_pointer_motion :: "int \<Rightarrow> int \<Rightarrow> wl_frontend \<Rightarrow> wl_frontend" where
  "wl_frontend_pointer_motion gx gy f =
     (let over = pointer_target f gx gy;
          target = (case over of None \<Rightarrow> 0 | Some (s, _, _) \<Rightarrow> fs_server_id s);
          f1 = (if target \<noteq> pointer_focus f
                then (let leave = (case surface_by_window f (pointer_focus f) of None \<Rightarrow> []
                          | Some old \<Rightarrow> map (\<lambda>p. Ptr_Leave p (fs_addr old)) (of_client (fs_client old) (pointers f)));
                          enter = (case over of None \<Rightarrow> []
                          | Some (s, lx, ly) \<Rightarrow>
                              concat (map (\<lambda>p. Ptr_Enter p (fs_addr s) lx ly # pointer_frame_all f (fs_client s))
                                (of_client (fs_client s) (pointers f))))
                      in (emit (leave @ enter) f)\<lparr>pointer_focus := target\<rparr>)
                else f)
      in case over of None \<Rightarrow> f1
         | Some (s, lx, ly) \<Rightarrow>
             emit (map (\<lambda>p. Ptr_Motion p lx ly) (of_client (fs_client s) (pointers f1)) @ pointer_frame_all f1 (fs_client s))
               (f1\<lparr>last_px := lx, last_py := ly\<rparr>))"

definition wl_frontend_pointer_button :: "u32 \<Rightarrow> bool \<Rightarrow> wl_frontend \<Rightarrow> wl_frontend" where
  "wl_frontend_pointer_button button pressed f =
     (case surface_by_window f (pointer_focus f) of None \<Rightarrow> f
      | Some s \<Rightarrow>
          emit (map (\<lambda>p. Ptr_Button p button pressed) (of_client (fs_client s) (pointers f)) @
                pointer_frame_all f (fs_client s)) f)"

definition wl_frontend_keyboard_key :: "u32 \<Rightarrow> bool \<Rightarrow> wl_frontend \<Rightarrow> wl_frontend" where
  "wl_frontend_keyboard_key keycode pressed f =
     (case surface_by_window f (kbd_focus f) of None \<Rightarrow> f
      | Some s \<Rightarrow>
          emit (map (\<lambda>k. Kbd_Key k keycode pressed) (of_client (fs_client s) (keyboards f)) @
                send_modifiers f (fs_client s)) f)"

definition wl_frontend_keyboard_focus :: "u32 \<Rightarrow> wl_frontend \<Rightarrow> wl_frontend" where
  "wl_frontend_keyboard_focus i f =
     (let next = surface_by_window f i; target = (case next of None \<Rightarrow> 0 | Some _ \<Rightarrow> i)
      in if target = kbd_focus f then f
         else (let leave = (case surface_by_window f (kbd_focus f) of None \<Rightarrow> []
                 | Some old \<Rightarrow> map (\<lambda>k. Kbd_Leave k (fs_addr old)) (of_client (fs_client old) (keyboards f)));
                   enter = (case next of None \<Rightarrow> []
                 | Some s \<Rightarrow> map (\<lambda>k. Kbd_Enter k (fs_addr s)) (of_client (fs_client s) (keyboards f)) @
                             send_modifiers f (fs_client s))
               in (emit (leave @ enter) f)\<lparr>kbd_focus := target\<rparr>))"

section \<open>Lifecycle\<close>

text \<open>The steps of \<open>build_keymap\<close> that can fail, and the descriptor it leaves.\<close>

definition build_keymap :: "bool \<Rightarrow> bool \<Rightarrow> bool \<Rightarrow> fd option \<Rightarrow> bool \<Rightarrow> wl_frontend \<Rightarrow> fd list \<times> wl_frontend" where
  "build_keymap ctx_ok map_ok str_ok memfd write_ok f =
     (let f0 = f\<lparr>keymap_fd := -1\<rparr>
      in if \<not> ctx_ok \<or> \<not> map_ok then ([], f0)
         else let f1 = f0\<lparr>has_xkb := True\<rparr>
         in if \<not> str_ok then ([], f1)
            else case memfd of None \<Rightarrow> ([], f1)
                 | Some d \<Rightarrow> if write_ok then ([], f1\<lparr>keymap_fd := d\<rparr>) else ([d], f1))"

definition wl_zero :: "window_stack \<Rightarrow> wl_frontend" where
  "wl_zero st =
     \<lparr>surfaces = [], pointers = [], keyboards = [], frame_callbacks = [], xdg_surfaces = Map.empty,
      toplevels = Map.empty, buffers = Map.empty, wl_dirty = False, cascade = 0, pointer_focus = 0, kbd_focus = 0,
      last_px = 0, last_py = 0, has_xkb = False, keymap_fd = 0, contents = Map.empty, next_content = 0,
      next_addr = 0, wl_out = [], wl_stack = st\<rparr>"

definition wl_frontend_dispatch :: "wl_frontend \<Rightarrow> bool \<times> wl_frontend" where
  "wl_frontend_dispatch f = (wl_dirty f, f\<lparr>wl_dirty := False\<rparr>)"

text \<open>The descriptors \<open>wl_frontend_destroy\<close> closes.\<close>

definition destroy_closes :: "wl_frontend \<Rightarrow> fd list" where
  "destroy_closes f = (if keymap_fd f \<ge> 0 then [keymap_fd f] else [])"

definition wl_frontend_create :: "bool \<Rightarrow> bool \<Rightarrow> bool \<Rightarrow> (wl_frontend \<Rightarrow> fd list \<times> wl_frontend) \<Rightarrow> bool \<Rightarrow>
    window_stack \<Rightarrow> fd list \<times> wl_frontend option" where
  "wl_frontend_create display_ok shm_ok socket_ok keymap globals_ok st =
     (let f = wl_zero st
      in if \<not> display_ok \<or> \<not> shm_ok \<or> \<not> socket_ok then (destroy_closes f, None)
         else let (cl, f1) = keymap f
         in if \<not> globals_ok then (cl @ destroy_closes f1, None) else (cl, Some f1))"

end
