(* ===== verification/Wayland_Inv.thy ===== *)
theory Wayland_Inv
  imports Wayland Transport_Own
begin

text \<open>
  The invariant of the Wayland frontend: every mapped surface has its window, and the
  window shows exactly the surface's pixel copy, which is alive and of the right size.
\<close>

section \<open>What a window shows of a pixel copy\<close>

definition shown :: "window \<Rightarrow> (nat \<times> int \<times> int \<times> int) option" where
  "shown v = (case buf v of Some (Content c) \<Rightarrow> Some (c, buf_w v, buf_h v, buf_stride v) | _ \<Rightarrow> None)"

definition cview :: "window_stack \<Rightarrow> u32 \<Rightarrow> (nat \<times> int \<times> int \<times> int) option" where
  "cview st i = (case window_by_id st i of None \<Rightarrow> None | Some v \<Rightarrow> shown v)"

lemma cview_destroy: "stack_wf st \<Longrightarrow> cview (window_destroy st i) = (cview st)(i := None)"
  by (simp add: cview_def by_id_destroy fun_eq_iff)

lemma cview_modify:
  "(\<And>v. win_id (g v) = win_id v) \<Longrightarrow>
   cview (window_modify st i g) = (cview st)(i := (case window_by_id st i of None \<Rightarrow> None | Some v \<Rightarrow> shown (g v)))"
  by (auto simp: cview_def by_id_modify fun_eq_iff split: option.splits)

lemma cview_modify_same:
  "(\<And>v. win_id (g v) = win_id v) \<Longrightarrow> (\<And>v. shown (g v) = shown v) \<Longrightarrow> cview (window_modify st i g) = cview st"
  by (auto simp: cview_modify fun_eq_iff cview_def split: option.splits)

lemma cview_focus: "stack_wf st \<Longrightarrow> cview (window_focus st i) = cview st"
  by (simp add: cview_def by_id_focus_any fun_eq_iff)

lemma cview_create:
  assumes "stack_wf st" "window_create st r x y w h col t = (i, st')" "i \<noteq> 0"
  shows "cview st' = cview st" "window_by_id st i = None" "i \<noteq> 0" "\<exists>v. window_by_id st' i = Some v"
proof -
  have room: "length (windows st) < 64" using assms(2,3) by (auto simp: window_create_def split: if_splits)
  have i: "i = next_id st" using by_id_create(1) [OF assms(1) room assms(2)] .
  obtain win where win: "windows st' = windows st @ [win]" "window_by_id st' = (window_by_id st)(i \<mapsto> win)"
    using by_id_create(2) [OF assms(1) room assms(2)] by blast
  have b: "buf win = None" using assms(2) room win(1) by (auto simp: window_create_def Let_def)
  show none: "window_by_id st i = None" using assms(1) i by (auto simp: window_by_id_None stack_wf_def)
  show "cview st' = cview st" using win(2) none b by (auto simp: cview_def shown_def fun_eq_iff)
  show "i \<noteq> 0" by (rule assms(3))
  show "\<exists>v. window_by_id st' i = Some v" using win(2) by simp
qed

section \<open>The core invariant\<close>

text \<open>
  Over the set \<open>S\<close> of surfaces, the pixel copies \<open>mem\<close>, the next allocation and the stack:
  each surface's copy is alive, as big as its dimensions say and its own; a mapped surface
  is a toplevel with a window of its own that shows the copy; and no other window shows one.
\<close>

definition copy_ok :: "(nat \<rightharpoonup> u8 list) \<Rightarrow> nat \<Rightarrow> fe_surface \<Rightarrow> bool" where
  "copy_ok mem n s \<longleftrightarrow>
     (case content s of
        None \<Rightarrow> cw s = 0 \<and> ch s = 0 \<and> fs_server_id s = 0
      | Some c \<Rightarrow> c < n \<and> 0 < cw s \<and> 0 < ch s \<and>
          (\<exists>bs. mem c = Some bs \<and> length bs = 4 * nat (cw s) * nat (ch s))) \<and>
     (fs_server_id s \<noteq> 0 \<longrightarrow> xdg_toplevel s \<noteq> None)"

definition window_ok :: "window_stack \<Rightarrow> fe_surface \<Rightarrow> bool" where
  "window_ok st s \<longleftrightarrow>
     (fs_server_id s \<noteq> 0 \<longrightarrow>
        cview st (fs_server_id s) = Some (the (content s), cw s, ch s, cw s * 4))"

definition separate :: "fe_surface \<Rightarrow> fe_surface \<Rightarrow> bool" where
  "separate s t \<longleftrightarrow> (content s = None \<or> content s \<noteq> content t) \<and> (fs_server_id s = 0 \<or> fs_server_id s \<noteq> fs_server_id t)"

definition core :: "fe_surface set \<Rightarrow> (nat \<rightharpoonup> u8 list) \<Rightarrow> nat \<Rightarrow> window_stack \<Rightarrow> bool" where
  "core S mem n st \<longleftrightarrow> stack_wf st \<and>
     (\<forall>s \<in> S. copy_ok mem n s \<and> window_ok st s) \<and>
     (\<forall>s \<in> S. \<forall>t \<in> S. s \<noteq> t \<longrightarrow> separate s t) \<and>
     (\<forall>i. cview st i \<noteq> None \<longrightarrow> (\<exists>s \<in> S. fs_server_id s = i \<and> i \<noteq> 0))"

lemma coreD:
  assumes "core S mem n st"
  shows "stack_wf st" "s \<in> S \<Longrightarrow> copy_ok mem n s" "s \<in> S \<Longrightarrow> window_ok st s"
    "s \<in> S \<Longrightarrow> t \<in> S \<Longrightarrow> s \<noteq> t \<Longrightarrow> separate s t"
    "cview st i \<noteq> None \<Longrightarrow> \<exists>s \<in> S. fs_server_id s = i \<and> i \<noteq> 0"
  using assms by (auto simp: core_def)

text \<open>Replacing one surface: the others must keep their copy, their window and their distance.\<close>

lemma core_replace:
  assumes "core S mem n st" "s0 \<in> S" "n \<le> n'" "stack_wf st'"
    and "copy_ok mem' n' s" "window_ok st' s"
    and mem: "\<And>c. content s0 \<noteq> Some c \<Longrightarrow> c < n \<Longrightarrow> mem' c = mem c"
    and view: "\<And>i. i \<noteq> fs_server_id s0 \<Longrightarrow> i \<noteq> fs_server_id s \<Longrightarrow> cview st' i = cview st i"
    and copy: "content s = None \<or> content s = content s0 \<or> (\<exists>c. content s = Some c \<and> n \<le> c)"
    and win: "fs_server_id s = 0 \<or> fs_server_id s = fs_server_id s0 \<or> window_by_id st (fs_server_id s) = None"
    and gone: "fs_server_id s0 = fs_server_id s \<or> fs_server_id s0 = 0 \<or> cview st' (fs_server_id s0) = None"
    and zero: "cview st' 0 = None"
  shows "core (insert s (S - {s0})) mem' n' st'"
proof -
  have other: "copy_ok mem' n' t \<and> window_ok st' t \<and> separate s t \<and> separate t s" if "t \<in> S" "t \<noteq> s0" for t
  proof -
    have sep: "separate t s0" "separate s0 t" using coreD(4) [OF assms(1)] assms(2) that by auto
    have t: "copy_ok mem n t" "window_ok st t" using coreD(2,3) [OF assms(1) that(1)] by auto
    have "copy_ok mem' n' t"
      using t(1) sep(1) mem assms(3) by (fastforce simp: copy_ok_def separate_def split: option.splits)
    moreover have live: "fs_server_id t \<noteq> 0 \<Longrightarrow> window_by_id st (fs_server_id t) \<noteq> None"
      using t(2) by (auto simp: window_ok_def cview_def split: option.splits)
    then have ids: "fs_server_id t \<noteq> 0 \<Longrightarrow> fs_server_id t \<noteq> fs_server_id s \<and> fs_server_id t \<noteq> fs_server_id s0"
      using win sep by (auto simp: separate_def)
    then have "window_ok st' t" using t(2) view by (simp add: window_ok_def)
    moreover have "content s = None \<or> content s \<noteq> content t"
      using copy t(1) sep(2) by (auto simp: copy_ok_def separate_def split: option.splits)
    ultimately show ?thesis using ids by (auto simp: separate_def)
  qed
  have "\<exists>t \<in> insert s (S - {s0}). fs_server_id t = i \<and> i \<noteq> 0" if i: "cview st' i \<noteq> None" for i
  proof (cases "i = fs_server_id s")
    case True
    then show ?thesis using i zero by (intro bexI [of _ s]) auto
  next
    case False
    then have ne: "i \<noteq> fs_server_id s0" using i gone zero by (metis (no_types))
    then have "cview st i \<noteq> None" using view False i by metis
    with coreD(5) [OF assms(1)] ne show ?thesis by blast
  qed
  with other assms(4-6) coreD(4) [OF assms(1)] show ?thesis unfolding core_def by blast
qed

lemma core_zero: "core S mem n st \<Longrightarrow> cview st 0 = None"
  using coreD(5) by blast

text \<open>Fields the invariant does not mention can change freely.\<close>

lemma core_touch:
  assumes "core S mem n st" "s0 \<in> S" "content s = content s0" "cw s = cw s0" "ch s = ch s0"
    "fs_server_id s = fs_server_id s0" "xdg_toplevel s \<noteq> None \<or> fs_server_id s = 0"
    "stack_wf st'" "cview st' = cview st"
  shows "core (insert s (S - {s0})) mem n st'"
proof (rule core_replace [OF assms(1,2)])
  show "copy_ok mem n s" "window_ok st' s"
    using coreD(2,3) [OF assms(1,2)] assms(3-7,9) by (auto simp: copy_ok_def window_ok_def split: option.splits)
  show "cview st' 0 = None" using core_zero [OF assms(1)] assms(9) by simp
qed (use assms in auto)

text \<open>Unmapping: the window is gone, the copy is freed.\<close>

lemma core_unmap:
  assumes "core S mem n st" "s0 \<in> S" "fs_server_id s = 0" "content s = None" "cw s = 0" "ch s = 0"
    and "st' = (if fs_server_id s0 \<noteq> 0 then window_destroy st (fs_server_id s0) else st)"
    and "\<And>c. content s0 \<noteq> Some c \<Longrightarrow> mem' c = mem c"
  shows "core (insert s (S - {s0})) mem' n st'"
proof (rule core_replace [OF assms(1,2)])
  note wf = coreD(1) [OF assms(1)]
  show "stack_wf st'" using wf by (simp add: assms(7) stack_wf_destroy)
  show "copy_ok mem' n s" "window_ok st' s" using assms(3-6) by (simp_all add: copy_ok_def window_ok_def)
  show "cview st' 0 = None" "fs_server_id s0 = fs_server_id s \<or> fs_server_id s0 = 0 \<or> cview st' (fs_server_id s0) = None"
    using core_zero [OF assms(1)] by (simp_all add: assms(7) cview_destroy [OF wf])
  show "cview st' i = cview st i" if "i \<noteq> fs_server_id s0" for i
    using that by (simp add: assms(7) cview_destroy [OF wf])
qed (use assms in auto)

section \<open>The invariant\<close>

text \<open>What libwayland guarantees of a shm buffer, and what the row copy needs besides: whole rows.\<close>

definition shm_fits :: "shm_buffer \<Rightarrow> bool" where
  "shm_fits b \<longleftrightarrow> 0 \<le> sb_stride b \<and>
     (sb_h b - 1) * sb_stride b + 4 * sb_w b \<le> int (length (sb_data b))"

definition wl_inv :: "wl_frontend \<Rightarrow> bool" where
  "wl_inv f \<longleftrightarrow>
     core (set (surfaces f)) (contents f) (next_content f) (wl_stack f) \<and>
     distinct (map fs_addr (surfaces f)) \<and> (\<forall>s \<in> set (surfaces f). fs_addr s < next_addr f) \<and>
     ran (toplevels f) \<union> ran (xdg_surfaces f) \<subseteq> fs_addr ` set (surfaces f) \<and>
     (\<forall>s \<in> set (surfaces f). \<forall>b. attached s \<longrightarrow> pending_buffer s = Some b \<longrightarrow> b \<in> dom (buffers f)) \<and>
     (\<forall>b shm. buffers f b = Some (Some shm) \<longrightarrow> shm_fits shm)"

lemma wl_invD:
  assumes "wl_inv f"
  shows "core (set (surfaces f)) (contents f) (next_content f) (wl_stack f)"
    "distinct (map fs_addr (surfaces f))" "s \<in> set (surfaces f) \<Longrightarrow> fs_addr s < next_addr f"
    "ran (toplevels f) \<union> ran (xdg_surfaces f) \<subseteq> fs_addr ` set (surfaces f)"
    "s \<in> set (surfaces f) \<Longrightarrow> attached s \<Longrightarrow> pending_buffer s = Some b \<Longrightarrow> b \<in> dom (buffers f)"
    "buffers f b' = Some (Some shm) \<Longrightarrow> shm_fits shm"
  using assms by (auto simp: wl_inv_def)

lemma surf_at_Some: "surf_at f a = Some s \<Longrightarrow> s \<in> set (surfaces f) \<and> fs_addr s = a"
  by (auto simp: surf_at_def find_Some_iff)

lemma surf_at_live: "a \<in> fs_addr ` set (surfaces f) \<Longrightarrow> \<exists>s. surf_at f a = Some s"
  by (auto simp: surf_at_def find_None_iff not_None_eq [symmetric] simp del: not_None_eq)

text \<open>\<open>f'\<close> is \<open>f\<close> with the surface \<open>s0\<close> replaced by \<open>s\<close>, the roles and buffers as before.\<close>

definition replaced :: "fe_surface \<Rightarrow> fe_surface \<Rightarrow> wl_frontend \<Rightarrow> wl_frontend \<Rightarrow> bool" where
  "replaced s0 s f f' \<longleftrightarrow> s0 \<in> set (surfaces f) \<and> fs_addr s = fs_addr s0 \<and>
     surfaces f' = map (\<lambda>t. if fs_addr t = fs_addr s then s else t) (surfaces f) \<and> next_addr f' = next_addr f"

lemma replaced_set:
  assumes "wl_inv f" "replaced s0 s f f'"
  shows "set (surfaces f') = insert s (set (surfaces f) - {s0})" "fs_addr ` set (surfaces f') = fs_addr ` set (surfaces f)"
    "map fs_addr (surfaces f') = map fs_addr (surfaces f)"
proof -
  have inj: "inj_on fs_addr (set (surfaces f))" using wl_invD(2) [OF assms(1)] by (simp add: distinct_map)
  have s: "s0 \<in> set (surfaces f)" "fs_addr s = fs_addr s0"
    and f': "surfaces f' = map (\<lambda>t. if fs_addr t = fs_addr s then s else t) (surfaces f)"
    using assms(2) by (auto simp: replaced_def)
  show "set (surfaces f') = insert s (set (surfaces f) - {s0})"
    using s inj_onD [OF inj, of _ s0] by (fastforce simp: f' split: if_splits)
  show "map fs_addr (surfaces f') = map fs_addr (surfaces f)" by (auto simp: f')
  then show "fs_addr ` set (surfaces f') = fs_addr ` set (surfaces f)" by (metis set_map)
qed

lemma wl_inv_replaced:
  assumes "wl_inv f" "replaced s0 s f f'"
    and "core (insert s (set (surfaces f) - {s0})) (contents f') (next_content f') (wl_stack f')"
    and "ran (toplevels f') \<union> ran (xdg_surfaces f') \<subseteq> fs_addr ` set (surfaces f)" "buffers f' = buffers f"
    and "attached s \<Longrightarrow> pending_buffer s \<noteq> None \<Longrightarrow> the (pending_buffer s) \<in> dom (buffers f)"
  shows "wl_inv f'"
proof -
  note r = replaced_set [OF assms(1,2)]
  have "fs_addr t < next_addr f'" if "t \<in> set (surfaces f')" for t
    using that wl_invD(3) [OF assms(1)] assms(2) by (auto simp: r replaced_def)
  moreover have "b \<in> dom (buffers f')" if "t \<in> set (surfaces f')" "attached t" "pending_buffer t = Some b" for t b
    using that wl_invD(5) [OF assms(1), of t b] assms(5,6) by (auto simp: r)
  ultimately show ?thesis
    unfolding wl_inv_def using assms(3-5) wl_invD(2,6) [OF assms(1)] r by auto
qed

lemma replaced_put:
  "s0 \<in> set (surfaces f) \<Longrightarrow> fs_addr s = fs_addr s0 \<Longrightarrow> surfaces g = surfaces f \<Longrightarrow> next_addr g = next_addr f \<Longrightarrow>
   replaced s0 s f (put_surf s g)"
  by (simp add: replaced_def put_surf_def)

lemma put_surf_sel [simp]:
  "contents (put_surf s f) = contents f" "next_content (put_surf s f) = next_content f"
  "wl_stack (put_surf s f) = wl_stack f" "toplevels (put_surf s f) = toplevels f"
  "xdg_surfaces (put_surf s f) = xdg_surfaces f" "buffers (put_surf s f) = buffers f"
  "next_addr (put_surf s f) = next_addr f" "cascade (put_surf s f) = cascade f"
  by (simp_all add: put_surf_def)

lemma free_content_sel [simp]:
  "surfaces (free_content c f) = surfaces f" "next_content (free_content c f) = next_content f"
  "wl_stack (free_content c f) = wl_stack f" "toplevels (free_content c f) = toplevels f"
  "xdg_surfaces (free_content c f) = xdg_surfaces f" "buffers (free_content c f) = buffers f"
  "next_addr (free_content c f) = next_addr f"
  "contents (free_content c f) x = (if c = Some x then None else contents f x)"
  by (auto simp: free_content_def split: option.split)

text \<open>Changes of fields outside the invariant: the events sent, focus, frame callbacks.\<close>

definition same_core :: "wl_frontend \<Rightarrow> wl_frontend \<Rightarrow> bool" where
  "same_core f f' \<longleftrightarrow> surfaces f' = surfaces f \<and> contents f' = contents f \<and> next_content f' = next_content f \<and>
     wl_stack f' = wl_stack f \<and> next_addr f' = next_addr f \<and> toplevels f' = toplevels f \<and>
     xdg_surfaces f' = xdg_surfaces f \<and> buffers f' = buffers f"

lemma wl_inv_same: "wl_inv f \<Longrightarrow> same_core f f' \<Longrightarrow> wl_inv f'"
  by (simp add: wl_inv_def same_core_def)

lemma same_core_emit [simp]: "same_core f (emit es f)"
  by (simp add: same_core_def emit_def)

lemma same_core_fire [simp]: "same_core f (fire_frame_callbacks f)"
  by (simp add: same_core_def fire_frame_callbacks_def emit_def)

lemmas wl_inv_emit = wl_inv_same [OF _ same_core_emit] wl_inv_same [OF _ same_core_fire]

end
