(* ===== verification/Wayland_Run.thy ===== *)
theory Wayland_Run
  imports Wayland_Inv
begin

text \<open>Every handler of the Wayland frontend keeps the invariant; runs of the frontend.\<close>

section \<open>Handlers\<close>

lemma replaced_id: "replaced s0 s f f' \<Longrightarrow> s0 \<in> set (surfaces f)"
  by (simp add: replaced_def)

lemma wl_inv_unmap:
  assumes "wl_inv f" "s0 \<in> set (surfaces f)" "fs_addr s = fs_addr s0" "content s = content s0"
    "fs_server_id s = fs_server_id s0" "attached s \<Longrightarrow> attached s0 \<and> pending_buffer s = pending_buffer s0"
    and g: "surfaces g = surfaces f" "contents g = contents f" "next_content g = next_content f" "wl_stack g = wl_stack f"
      "next_addr g = next_addr f" "xdg_surfaces g = xdg_surfaces f" "buffers g = buffers f" "ran (toplevels g) \<subseteq> ran (toplevels f)"
  shows "wl_inv (surface_unmap s g)"
proof -
  let ?s = "s\<lparr>fs_server_id := 0, content := None, cw := 0, ch := 0\<rparr>"
  have "replaced s0 ?s f (surface_unmap s g)"
    using assms(2,3) g by (auto simp: surface_unmap_def Let_def intro!: replaced_put)
  then show ?thesis
  proof (rule wl_inv_replaced [OF assms(1)])
    show "core (insert ?s (set (surfaces f) - {s0})) (contents (surface_unmap s g)) (next_content (surface_unmap s g))
        (wl_stack (surface_unmap s g))"
      using assms(4,5) g core_unmap [OF wl_invD(1) [OF assms(1)] assms(2), of ?s "wl_stack (surface_unmap s g)" "contents (surface_unmap s g)"]
      by (auto simp: surface_unmap_def Let_def)
  qed (use assms wl_invD(4,5) [OF assms(1)] in \<open>auto simp: surface_unmap_def Let_def\<close>)
qed

lemma copy_rows_length: "copy_rows data stride w y h = Some bs \<Longrightarrow> length bs = 4 * w * h"
  by (induction data stride w y h arbitrary: bs rule: copy_rows.induct) (auto simp: Let_def split: if_splits option.splits)

text \<open>What the copy leaves behind for the surface, before the window is updated.\<close>

lemma copy_effect:
  assumes "copy_shm_buffer ok b s f = Some (s2, f2)" "copy_ok (contents f) (next_content f) s" "s \<in> set (surfaces f)"
  shows "replaced s s2 f f2 \<or> (s2 = s \<and> surfaces f2 = surfaces f \<and> next_addr f2 = next_addr f)"
    "copy_ok (contents f2) (next_content f2) s2" "next_content f \<le> next_content f2"
    "\<And>c. content s \<noteq> Some c \<Longrightarrow> c < next_content f \<Longrightarrow> contents f2 c = contents f c"
    "content s2 = content s \<or> (\<exists>c. content s2 = Some c \<and> next_content f \<le> c)"
    "fs_server_id s2 = fs_server_id s" "attached s2 = attached s" "xdg_toplevel s2 = xdg_toplevel s" "fs_addr s2 = fs_addr s"
    "wl_stack f2 = wl_stack f" "toplevels f2 = toplevels f" "xdg_surfaces f2 = xdg_surfaces f" "buffers f2 = buffers f"
proof -
  consider (A) "s2 = s" "f2 = f"
    | (B) bytes where "0 < sb_w b" "0 < sb_h b" "length bytes = 4 * nat (sb_w b) * nat (sb_h b)"
        "s2 = s\<lparr>content := Some (next_content f), cw := sb_w b, ch := sb_h b\<rparr>"
        "f2 = put_surf s2 ((free_content (content s) f)\<lparr>contents := (contents (free_content (content s) f))(next_content f \<mapsto> bytes),
                next_content := Suc (next_content f)\<rparr>)"
    | (C) bytes c where "cw s = sb_w b" "ch s = sb_h b" "length bytes = 4 * nat (sb_w b) * nat (sb_h b)" "content s = Some c"
        "s2 = s" "f2 = f\<lparr>contents := (contents f)(c \<mapsto> bytes)\<rparr>"
  proof -
    let ?diff = "cw s \<noteq> sb_w b \<or> ch s \<noteq> sb_h b"
    note c = assms(1) [unfolded copy_shm_buffer_def Let_def]
    show ?thesis
    proof (cases "sb_w b \<le> 0 \<or> sb_h b \<le> 0 \<or> ?diff \<and> \<not> ok")
      case True
      with c show ?thesis by (intro that(1)) (simp_all split: if_splits)
    next
      case False
      then obtain bytes where bytes: "copy_rows (sb_data b) (sb_stride b) (nat (sb_w b)) 0 (nat (sb_h b)) = Some bytes"
        using c by (auto split: option.splits)
      note len = copy_rows_length [OF bytes]
      show ?thesis
      proof (cases ?diff)
        case True
        then have "ok" using False by blast
        with True False c bytes len show ?thesis by (intro that(2) [of bytes]) auto
      next
        case same: False
        then obtain n where "content s = Some n" using False c bytes by (auto split: option.splits)
        with same False c bytes len show ?thesis by (intro that(3) [of bytes n]) simp_all
      qed
    qed
  qed
  note cases = this
  show "replaced s s2 f f2 \<or> (s2 = s \<and> surfaces f2 = surfaces f \<and> next_addr f2 = next_addr f)"
    using cases by cases (use assms(3) in \<open>simp_all add: replaced_put\<close>)
  show "copy_ok (contents f2) (next_content f2) s2"
    using cases by cases (use assms(2) in \<open>auto simp: copy_ok_def split: option.splits\<close>)
  show "next_content f \<le> next_content f2" "fs_server_id s2 = fs_server_id s" "attached s2 = attached s"
    "xdg_toplevel s2 = xdg_toplevel s" "wl_stack f2 = wl_stack f" "toplevels f2 = toplevels f" "fs_addr s2 = fs_addr s"
    "xdg_surfaces f2 = xdg_surfaces f" "buffers f2 = buffers f"
    by (rule cases; simp)+
  show "contents f2 c = contents f c" if "content s \<noteq> Some c" "c < next_content f" for c
    using cases by cases (use that in simp_all)
  show "content s2 = content s \<or> (\<exists>c. content s2 = Some c \<and> next_content f \<le> c)"
    using cases by cases simp_all
qed

lemma replaced_trans:
  assumes "wl_inv f" "replaced s0 s1 f f1" "replaced s1 s2 f1 f2"
  shows "replaced s0 s2 f f2"
proof -
  have "map (\<lambda>t. if fs_addr t = fs_addr s2 then s2 else t) (surfaces f1) =
      map (\<lambda>t. if fs_addr t = fs_addr s2 then s2 else t) (surfaces f)"
    using assms(2,3) by (auto simp: replaced_def)
  with assms(2,3) show ?thesis by (auto simp: replaced_def)
qed

text \<open>The window of a surface after its content changed, or its first window.\<close>

lemma map_update_effect:
  assumes "stack_wf st" "\<not> ids_exhausted st" "content s = Some c" "wl_stack f = st"
    and "fs_server_id s \<noteq> 0 \<Longrightarrow> window_by_id st (fs_server_id s) \<noteq> None"
    and "f' = surface_map_or_update s f"
  shows "\<exists>i. let s' = s\<lparr>fs_server_id := i\<rparr> in
      (surfaces f' = surfaces (put_surf s' f) \<or> (s' = s \<and> surfaces f' = surfaces f)) \<and>
      (i = fs_server_id s \<or> window_by_id st i = None) \<and> (fs_server_id s \<noteq> 0 \<longrightarrow> i = fs_server_id s) \<and>
      window_ok (wl_stack f') s' \<and> stack_wf (wl_stack f') \<and> (\<forall>j. j \<noteq> i \<longrightarrow> cview (wl_stack f') j = cview st j)"
    "contents f' = contents f" "next_content f' = next_content f" "next_addr f' = next_addr f"
    "toplevels f' = toplevels f" "xdg_surfaces f' = xdg_surfaces f" "buffers f' = buffers f"
proof -
  show "contents f' = contents f" "next_content f' = next_content f" "next_addr f' = next_addr f"
    "toplevels f' = toplevels f" "xdg_surfaces f' = xdg_surfaces f" "buffers f' = buffers f"
    by (simp_all add: assms(6) surface_map_or_update_def Let_def split: prod.split)
  show "\<exists>i. let s' = s\<lparr>fs_server_id := i\<rparr> in
      (surfaces f' = surfaces (put_surf s' f) \<or> (s' = s \<and> surfaces f' = surfaces f)) \<and>
      (i = fs_server_id s \<or> window_by_id st i = None) \<and> (fs_server_id s \<noteq> 0 \<longrightarrow> i = fs_server_id s) \<and>
      window_ok (wl_stack f') s' \<and> stack_wf (wl_stack f') \<and> (\<forall>j. j \<noteq> i \<longrightarrow> cview (wl_stack f') j = cview st j)"
  proof (cases "fs_server_id s = 0")
    case False
    let ?g = "\<lambda>v. (show_content s v)\<lparr>win_w := cw s, win_h := ch s + DECOR_TITLEBAR_H\<rparr>"
    have st': "wl_stack f' = window_modify st (fs_server_id s) ?g" "surfaces f' = surfaces f"
      using False by (simp_all add: assms(4,6) surface_map_or_update_def)
    have id: "win_id (?g v) = win_id v" "shown (?g v) = Some (c, cw s, ch s, cw s * 4)" for v
      using assms(3) by (simp_all add: show_content_def shown_def)
    have "cview (wl_stack f') = (cview st)(fs_server_id s := Some (c, cw s, ch s, cw s * 4))"
      using assms(5) False id by (auto simp: st' cview_modify)
    moreover have "stack_wf (wl_stack f')" unfolding st' by (rule stack_wf_modify [OF assms(1)]) (rule id(1))
    ultimately show ?thesis using st'(2) assms(3)
      by (intro exI [of _ "fs_server_id s"]) (simp add: window_ok_def)
  next
    case True
    let ?n = "cascade f smod 8"
    obtain i st1 where c: "window_create st WIN_NORMAL (120 + 40 * ?n) (90 + 40 * ?n) (cw s) (ch s + DECOR_TITLEBAR_H) 0x00202020
        (Some (if fs_title s \<noteq> [] then fs_title s else ''Wayland'')) = (i, st1)" by fastforce
    have wf1: "stack_wf st1" using stack_wf_create [OF assms(1,2)] c by (metis snd_conv)
    show ?thesis
    proof (cases "i = 0")
      case i0: True
      have "st1 = st" using c i0 assms(1) by (auto simp: window_create_def Let_def stack_wf_def split: if_splits)
      then have "wl_stack f' = st" "surfaces f' = surfaces f"
        using c True i0 by (simp_all add: assms(4,6) surface_map_or_update_def Let_def)
      with True assms(1) show ?thesis by (intro exI [of _ 0]) (simp add: window_ok_def)
    next
      case i: False
      note cr = cview_create [OF assms(1) c i]
      let ?st2 = "window_modify st1 i (show_content s)"
      have id: "win_id (show_content s v) = win_id v" "shown (show_content s v) = Some (c, cw s, ch s, cw s * 4)" for v
        using assms(3) by (simp_all add: show_content_def shown_def)
      have wf2: "stack_wf ?st2" using wf1 by (rule stack_wf_modify) (rule id(1))
      have f': "wl_stack f' = window_focus ?st2 i" "surfaces f' = surfaces (put_surf (s\<lparr>fs_server_id := i\<rparr>) f)"
        using c True i by (simp_all add: assms(4,6) surface_map_or_update_def Let_def put_surf_def)
      have "cview (wl_stack f') = (cview st)(i := Some (c, cw s, ch s, cw s * 4))"
        using cr(4) id by (auto simp: f' cview_focus [OF wf2] cview_modify cr(1))
      moreover have "stack_wf (wl_stack f')" unfolding f' using wf2 by (rule stack_wf_focus)
      ultimately show ?thesis using f'(2) True assms(3) cr(2)
        by (intro exI [of _ i]) (simp add: window_ok_def)
    qed
  qed
qed

lemma wl_inv_commit_buffer:
  assumes "wl_inv f" "s0 \<in> set (surfaces f)" "s1 = s0\<lparr>attached := False, pending_buffer := None\<rparr>" "f1 = put_surf s1 f"
    and "copy_shm_buffer ok b s1 f1 = Some (s2, f2)" "\<not> ids_exhausted (wl_stack f)"
    and "f3 = emit es f2" "f' = (if content s2 \<noteq> None \<and> xdg_toplevel s2 \<noteq> None then surface_map_or_update s2 f3 else f3)"
  shows "wl_inv f'"
proof -
  have inv1: "wl_inv f1" and s1: "s1 \<in> set (surfaces f1)"
  proof -
    have r: "replaced s0 s1 f f1" unfolding assms(4) using assms(2,3) by (intro replaced_put) auto
    have "xdg_toplevel s1 \<noteq> None \<or> fs_server_id s1 = 0"
      using coreD(2) [OF wl_invD(1) [OF assms(1)] assms(2)] assms(3) by (auto simp: copy_ok_def)
    then show "wl_inv f1"
      using wl_invD(1,4) [OF assms(1)] assms(2-4)
      by (intro wl_inv_replaced [OF assms(1) r] core_touch) (auto simp: coreD(1))
    show "s1 \<in> set (surfaces f1)" using replaced_set(1) [OF assms(1) r] by simp
  qed
  let ?S = "set (surfaces f1)" and ?st = "wl_stack f1"
  note core = wl_invD(1) [OF inv1]
  note e = copy_effect [OF assms(5) coreD(2) [OF core s1] s1]
  have st: "?st = wl_stack f" by (simp add: assms(4))
  have wok: "window_ok ?st s1" and cok: "copy_ok (contents f1) (next_content f1) s1" using coreD(2,3) [OF core s1] by auto
  have live: "fs_server_id s2 \<noteq> 0 \<Longrightarrow> window_by_id ?st (fs_server_id s2) \<noteq> None \<and> content s2 \<noteq> None \<and> xdg_toplevel s2 \<noteq> None"
    using wok cok e(2,6,8) by (auto simp: window_ok_def cview_def copy_ok_def split: option.splits)
  have f3: "surfaces f3 = surfaces f2" "contents f3 = contents f2" "next_content f3 = next_content f2" "wl_stack f3 = ?st"
      "next_addr f3 = next_addr f2" "toplevels f3 = toplevels f1" "xdg_surfaces f3 = xdg_surfaces f1" "buffers f3 = buffers f1"
    by (simp_all add: assms(7) emit_def e(10-13))
  have r12: "surfaces f2 = map (\<lambda>t. if fs_addr t = fs_addr s2 then s2 else t) (surfaces f1)"
  proof (cases "replaced s1 s2 f1 f2")
    case False
    then have "s2 = s1" "surfaces f2 = surfaces f1" using e(1) by auto
    moreover have "map (\<lambda>t. if fs_addr t = fs_addr s1 then s1 else t) (surfaces f1) = surfaces f1"
      using wl_invD(2) [OF inv1] s1 by (intro map_idI) (auto simp: distinct_map inj_on_def)
    ultimately show ?thesis by (simp only:)
  qed (simp add: replaced_def)
  have addr: "next_addr f2 = next_addr f1" using e(1) by (auto simp: replaced_def)
  have att: "\<not> attached s2" using e(7) by (simp add: assms(3))
  show ?thesis
  proof (cases "content s2 \<noteq> None \<and> xdg_toplevel s2 \<noteq> None")
    case False
    have z: "fs_server_id s2 = 0" "fs_server_id s1 = 0" using False live e(6) by metis+
    have f': "f' = f3" unfolding assms(8) by (rule if_not_P [OF False])
    have "replaced s1 s2 f1 f'" using s1 e(9) r12 f3 addr by (simp add: replaced_def f')
    then show ?thesis
    proof (rule wl_inv_replaced [OF inv1])
      show "core (insert s2 (?S - {s1})) (contents f') (next_content f') (wl_stack f')"
        using e(2-5) z core_zero [OF core] coreD(1) [OF core]
        by (intro core_replace [OF core s1]) (simp_all add: f' f3 window_ok_def)
    qed (use att wl_invD(4) [OF inv1] in \<open>auto simp: f' f3\<close>)
  next
    case True
    then obtain c where c: "content s2 = Some c" by blast
    have f': "f' = surface_map_or_update s2 f3" unfolding assms(8) by (rule if_P [OF True])
    have ids: "\<not> ids_exhausted ?st" using assms(6) st by simp
    have "fs_server_id s2 \<noteq> 0 \<Longrightarrow> window_by_id ?st (fs_server_id s2) \<noteq> None" using live by blast
    note m = map_update_effect [OF coreD(1) [OF core] ids c f3(4) this f']
    obtain i where i: "surfaces f' = surfaces (put_surf (s2\<lparr>fs_server_id := i\<rparr>) f3) \<or> (s2\<lparr>fs_server_id := i\<rparr> = s2 \<and> surfaces f' = surfaces f3)"
        "i = fs_server_id s2 \<or> window_by_id ?st i = None" "fs_server_id s2 \<noteq> 0 \<longrightarrow> i = fs_server_id s2"
        "window_ok (wl_stack f') (s2\<lparr>fs_server_id := i\<rparr>)" "stack_wf (wl_stack f')"
        "\<And>j. j \<noteq> i \<Longrightarrow> cview (wl_stack f') j = cview ?st j"
      using m(1) live by (auto simp: Let_def)
    let ?s = "s2\<lparr>fs_server_id := i\<rparr>"
    have sf: "surfaces f' = map (\<lambda>t. if fs_addr t = fs_addr ?s then ?s else t) (surfaces f1)"
      using i(1)
    proof
      assume "surfaces f' = surfaces (put_surf ?s f3)"
      then show ?thesis by (simp add: put_surf_def f3 r12 comp_def cong: if_cong)
    next
      assume "?s = s2 \<and> surfaces f' = surfaces f3"
      then show ?thesis by (simp only: f3 r12)
    qed
    have "replaced s1 ?s f1 f'" using s1 e(9) sf m(4) f3 addr by (simp add: replaced_def)
    then show ?thesis
    proof (rule wl_inv_replaced [OF inv1])
      show "core (insert ?s (?S - {s1})) (contents f') (next_content f') (wl_stack f')"
      proof (rule core_replace [OF core s1])
        show "copy_ok (contents f') (next_content f') ?s"
          using e(2) True by (auto simp: m(2,3) f3 copy_ok_def split: option.splits)
        show "cview (wl_stack f') 0 = None"
        proof (cases "i = 0")
          case True
          have "window_by_id (wl_stack f') 0 = None" using i(5) by (rule window_by_id_zero)
          then show ?thesis by (simp add: cview_def)
        qed (use i(6) [of 0] core_zero [OF core] in simp)
        show "fs_server_id s1 = fs_server_id ?s \<or> fs_server_id s1 = 0 \<or> cview (wl_stack f') (fs_server_id s1) = None"
          using i(3) e(6) by auto
        show "fs_server_id ?s = 0 \<or> fs_server_id ?s = fs_server_id s1 \<or> window_by_id ?st (fs_server_id ?s) = None"
          using i(2) e(6) by auto
      qed (use e(3-5) i(4-6) m(2,3) f3(2,3) in \<open>auto simp: e(6)\<close>)
    qed (use att wl_invD(4) [OF inv1] m(5-7) f3(6-8) in simp_all)
  qed
qed

lemma fits_copies:
  "int y * stride + (int h - 1) * stride + 4 * int w \<le> int (length data) \<Longrightarrow> 0 \<le> stride \<Longrightarrow>
   \<exists>bs. copy_rows data stride w y h = Some bs"
proof (induction data stride w y h rule: copy_rows.induct)
  case (2 data stride w y h)
  have row: "int y * stride + 4 * int w \<le> int (length data)"
  proof -
    have "0 \<le> stride * int h" using 2(3) by simp
    then show ?thesis using 2(2) by (simp add: algebra_simps)
  qed
  have pos: "0 \<le> int y * stride" using 2(3) by simp
  then have "int (nat (int y * stride) + 4 * w) \<le> int (length data)" using row by simp
  then have in_range: "nat (int y * stride) + 4 * w \<le> length data" by (simp only: of_nat_le_iff)
  have "int (Suc y) * stride + (int h - 1) * stride + 4 * int w \<le> int (length data)"
    using 2(2) by (simp add: algebra_simps)
  then obtain bs where "copy_rows data stride w (Suc y) h = Some bs"
    using 2(1) [OF refl] pos in_range 2(3) by auto
  then show ?case using pos in_range by (simp add: Let_def)
qed simp

lemma copy_succeeds:
  assumes "shm_fits b" "copy_ok mem n s"
  shows "copy_shm_buffer ok b s f \<noteq> None"
proof (cases "sb_w b \<le> 0 \<or> sb_h b \<le> 0")
  case False
  then have "\<exists>bs. copy_rows (sb_data b) (sb_stride b) (nat (sb_w b)) 0 (nat (sb_h b)) = Some bs"
    using assms(1) by (intro fits_copies) (auto simp: shm_fits_def)
  moreover have "cw s = sb_w b \<Longrightarrow> content s \<noteq> None"
    using assms(2) False by (cases "content s") (auto simp: copy_ok_def)
  ultimately show ?thesis using False by (auto simp: copy_shm_buffer_def Let_def split: option.splits)
qed (simp add: copy_shm_buffer_def)

lemma surface_commit_inv:
  assumes "wl_inv f" "a \<in> fs_addr ` set (surfaces f)" "\<not> ids_exhausted (wl_stack f)"
  shows "\<exists>f'. surf_commit ok a f = Some f' \<and> wl_inv f'"
proof -
  obtain s where at: "surf_at f a = Some s" using surf_at_live [OF assms(2)] by blast
  then have s: "s \<in> set (surfaces f)" "fs_addr s = a" using surf_at_Some by auto
  note core = wl_invD(1) [OF assms(1)]
  have cok: "copy_ok (contents f) (next_content f) s" using coreD(2) [OF core s(1)] .
  have top: "xdg_toplevel s \<noteq> None \<or> fs_server_id s = 0" using cok by (auto simp: copy_ok_def)
  note def = surf_commit_def [of ok a f, unfolded at option.case]
  show ?thesis
  proof (cases "xdg_surface s \<noteq> None \<and> \<not> initial_configured s")
    case True
    then obtain x where x: "xdg_surface s = Some x" by blast
    let ?s = "s\<lparr>initial_configured := True\<rparr>"
    let ?es = "(case xdg_toplevel s of None \<Rightarrow> [] | Some t \<Rightarrow> [Toplevel_Configure t 0 0]) @ [Surface_Configure x]"
    have r: "replaced s ?s f (put_surf ?s (emit ?es f))" using s(1) by (intro replaced_put) (simp_all add: emit_def)
    have "wl_inv (put_surf ?s (emit ?es f))"
      using wl_invD(4,5) [OF assms(1)] s(1) top core
      by (intro wl_inv_replaced [OF assms(1) r]) (auto simp: emit_def coreD(1) intro!: core_touch)
    with True x show ?thesis by (simp add: def)
  next
    case conf: False
    show ?thesis
    proof (cases "attached s")
      case False
      with conf assms(1) wl_inv_emit(2) show ?thesis
        by (auto simp: def split: option.splits bool.splits)
    next
      case True
      let ?s1 = "s\<lparr>attached := False, pending_buffer := None\<rparr>"
      let ?f1 = "put_surf ?s1 f"
      show ?thesis
      proof (cases "pending_buffer s")
        case None
        have r: "replaced s ?s1 f ?f1" using s(1) by (intro replaced_put) simp_all
        have inv1: "wl_inv ?f1"
          using wl_invD(4) [OF assms(1)] s(1) top core
          by (intro wl_inv_replaced [OF assms(1) r]) (auto simp: coreD(1) intro!: core_touch)
        have "?s1 \<in> set (surfaces ?f1)" using replaced_set(1) [OF assms(1) r] by simp
        then have "wl_inv (surface_unmap ?s1 ?f1)" by (intro wl_inv_unmap [OF inv1, of ?s1]) simp_all
        with conf True None wl_inv_emit(2) show ?thesis by (auto simp: def Let_def split: option.splits bool.splits)
      next
        case (Some b)
        then obtain ob where ob: "buffers f b = Some ob" using wl_invD(5) [OF assms(1) s(1) True] by blast
        show ?thesis
        proof (cases ob)
          case None
          have r: "replaced s ?s1 f ?f1" using s(1) by (intro replaced_put) simp_all
          have "wl_inv ?f1"
            using wl_invD(4) [OF assms(1)] s(1) top core
            by (intro wl_inv_replaced [OF assms(1) r]) (auto simp: coreD(1) intro!: core_touch)
          with conf True Some ob None show ?thesis
            by (auto simp: def Let_def intro!: wl_inv_emit split: option.splits bool.splits)
        next
          case shm: (Some shm)
          have "copy_ok (contents f) (next_content f) ?s1" using cok by (cases "content s") (simp_all add: copy_ok_def)
          moreover have "shm_fits shm" using wl_invD(6) [OF assms(1)] ob shm by blast
          ultimately have "copy_shm_buffer ok shm ?s1 ?f1 \<noteq> None" by (intro copy_succeeds)
          then obtain s2 f2 where c: "copy_shm_buffer ok shm ?s1 ?f1 = Some (s2, f2)" by auto
          note inv = wl_inv_commit_buffer [OF assms(1) s(1) refl refl c assms(3) refl refl, of "[Buffer_Release b]"]
          have "surf_commit ok a f = Some (fire_frame_callbacks
              (if content s2 \<noteq> None \<and> xdg_toplevel s2 \<noteq> None then surface_map_or_update s2 (emit [Buffer_Release b] f2)
               else emit [Buffer_Release b] f2))"
            using conf True Some ob shm c by (auto simp: def Let_def split: option.splits bool.splits)
          with wl_inv_emit(2) [OF inv] show ?thesis by simp
        qed
      qed
    qed
  qed
qed

end
