(* ===== verification/Compositor.thy ===== *)
theory Compositor
  imports Transport WM Platform
begin

text \<open>
  The CPU compositor of \<open>src/src/server.c\<close>: rectangles, client buffers, the cursor and the
  scene.

  Memory is explicit. The framebuffer is the word list of its mapping and a store outside
  it (or not on a word boundary) fails; a client buffer or a Wayland pixel copy is the
  bytes \<open>mem p\<close> of its allocation, none if it is not mapped, and a load outside it fails;
  a signed \<open>int\<close> addition or subtraction that overflows fails. \<open>None\<close> is such a failure,
  and the results show when there is none.
\<close>

section \<open>Arithmetic and memory\<close>

definition c_int :: "int \<Rightarrow> int option" where
  "c_int i = (if in_int i then Some i else None)"

definition fb_store :: "dumb_fb \<Rightarrow> int \<Rightarrow> int \<Rightarrow> u32 \<Rightarrow> dumb_fb option" where
  "fb_store fb x y v =
     (case fb_map fb of
        None \<Rightarrow> None
      | Some m \<Rightarrow>
          (let off = y * uint (fb_stride fb) + 4 * x
           in if 0 \<le> off \<and> 4 dvd off \<and> nat (off div 4) < length m
              then Some (fb\<lparr>fb_map := Some (m[nat (off div 4) := v])\<rparr>) else None))"

definition fb_load :: "dumb_fb \<Rightarrow> int \<Rightarrow> int \<Rightarrow> u32 option" where
  "fb_load fb x y =
     (case fb_map fb of
        None \<Rightarrow> None
      | Some m \<Rightarrow>
          (let off = y * uint (fb_stride fb) + 4 * x
           in if 0 \<le> off \<and> 4 dvd off \<and> nat (off div 4) < length m then Some (m ! nat (off div 4)) else None))"

type_synonym memory = "pixels \<Rightarrow> u8 list option"

definition mem_load :: "memory \<Rightarrow> pixels \<Rightarrow> int \<Rightarrow> u32 option" where
  "mem_load mem p off =
     (case mem p of
        None \<Rightarrow> None
      | Some bs \<Rightarrow> if 0 \<le> off \<and> nat off + 4 \<le> length bs then Some (rd32 bs (nat off)) else None)"

section \<open>Drawing\<close>

definition COLOR_DESKTOP :: u32 where "COLOR_DESKTOP = 0x00101820"
definition COLOR_TB_FOCUS :: u32 where "COLOR_TB_FOCUS = 0x003a6fd0"
definition COLOR_TB_PLAIN :: u32 where "COLOR_TB_PLAIN = 0x00606060"

definition CURSOR :: "string list" where
  "CURSOR =
     [''X          '', ''XX         '', ''X.X        '', ''X..X       '',
      ''X...X      '', ''X....X     '', ''X.....X    '', ''X......X   '',
      ''X.......X  '', ''X....XXXXX '', ''X..X..X    '', ''X.X X..X   '',
      ''XX   X..X  '', ''X    X..X  '', ''      X..X '', ''       XX  '']"

definition fill_rect :: "int \<Rightarrow> int \<Rightarrow> int \<Rightarrow> int \<Rightarrow> u32 \<Rightarrow> dumb_fb \<Rightarrow> dumb_fb option" where
  "fill_rect x y w h col fb =
     (let x0 = (if x < 0 then 0 else x); y0 = (if y < 0 then 0 else y)
      in case c_int (x + w) of None \<Rightarrow> None | Some xw \<Rightarrow>
         (let x1 = (if xw > fb_w fb then fb_w fb else xw)
      in case c_int (y + h) of None \<Rightarrow> None | Some yh \<Rightarrow>
         (let y1 = (if yh > fb_h fb then fb_h fb else yh)
          in foldM (\<lambda>yy. foldM (\<lambda>xx fb. fb_store fb xx yy col) [x0..x1 - 1]) [y0..y1 - 1] fb)))"

definition blit_pixel :: "memory \<Rightarrow> window \<Rightarrow> pixels \<Rightarrow> int \<Rightarrow> int \<Rightarrow> int \<Rightarrow> dumb_fb \<Rightarrow> dumb_fb option" where
  "blit_pixel mem v p r y c fb =
     (case c_int (win_x v + c) of None \<Rightarrow> None | Some x \<Rightarrow>
        if x < 0 \<or> x \<ge> fb_w fb then Some fb
        else case mem_load mem p (r * buf_stride v + 4 * c) of None \<Rightarrow> None | Some px \<Rightarrow> fb_store fb x y px)"

definition blit_row :: "memory \<Rightarrow> window \<Rightarrow> pixels \<Rightarrow> int \<Rightarrow> int \<Rightarrow> int \<Rightarrow> dumb_fb \<Rightarrow> dumb_fb option" where
  "blit_row mem v p dst_y0 cols r fb =
     (case c_int (dst_y0 + r) of None \<Rightarrow> None | Some y \<Rightarrow>
        if y < 0 \<or> y \<ge> fb_h fb then Some fb
        else foldM (blit_pixel mem v p r y) [0..cols - 1] fb)"

definition blit_buffer :: "memory \<Rightarrow> window \<Rightarrow> pixels \<Rightarrow> int \<Rightarrow> dumb_fb \<Rightarrow> dumb_fb option" where
  "blit_buffer mem v p cy0 fb =
     (case c_int (win_y v + cy0) of None \<Rightarrow> None | Some dst_y0 \<Rightarrow>
      case c_int (win_h v - cy0) of None \<Rightarrow> None | Some content_h \<Rightarrow>
        (let rows = (if content_h < buf_h v then content_h else buf_h v);
             cols = (if win_w v < buf_w v then win_w v else buf_w v)
         in foldM (blit_row mem v p dst_y0 cols) [0..rows - 1] fb))"

text \<open>One 8-bit channel of the alpha blend, at bit \<open>s\<close>, and the pixel it gives.\<close>

definition channel :: "nat \<Rightarrow> u32 \<Rightarrow> u32" where
  "channel s px = drop_bit s px AND 0xff"

definition blend_channel :: "nat \<Rightarrow> u32 \<Rightarrow> u32 \<Rightarrow> u32" where
  "blend_channel s px d =
     (let a = drop_bit 24 px in (channel s px * a + channel s d * (255 - a)) div 255)"

definition cursor_blend :: "u32 \<Rightarrow> u32 \<Rightarrow> u32" where
  "cursor_blend px d =
     (if drop_bit 24 px = 0 then d
      else if drop_bit 24 px = 0xff then px AND 0x00ffffff
      else push_bit 16 (blend_channel 16 px d) OR push_bit 8 (blend_channel 8 px d) OR blend_channel 0 px d)"

definition cursor_pixel :: "cl_cursor \<Rightarrow> int \<Rightarrow> int \<Rightarrow> int \<Rightarrow> int \<Rightarrow> dumb_fb \<Rightarrow> dumb_fb option" where
  "cursor_pixel cur ox r y c fb =
     (case c_int (ox + c) of None \<Rightarrow> None | Some x \<Rightarrow>
        if x < 0 \<or> x \<ge> fb_w fb then Some fb
        else let i = r * cur_w cur + c
             in if i < 0 \<or> i \<ge> int (length (cur_argb cur)) then None
                else let px = cur_argb cur ! nat i
                     in if drop_bit 24 px = 0 then Some fb
                        else if drop_bit 24 px = 0xff then fb_store fb x y (px AND 0x00ffffff)
                        else case fb_load fb x y of None \<Rightarrow> None
                             | Some d \<Rightarrow> fb_store fb x y (cursor_blend px d))"

definition cursor_row :: "cl_cursor \<Rightarrow> int \<Rightarrow> int \<Rightarrow> int \<Rightarrow> dumb_fb \<Rightarrow> dumb_fb option" where
  "cursor_row cur ox oy r fb =
     (case c_int (oy + r) of None \<Rightarrow> None | Some y \<Rightarrow>
        if y < 0 \<or> y \<ge> fb_h fb then Some fb
        else foldM (cursor_pixel cur ox r y) [0..cur_w cur - 1] fb)"

definition arrow_pixel :: "int \<Rightarrow> int \<Rightarrow> int \<Rightarrow> int \<Rightarrow> dumb_fb \<Rightarrow> dumb_fb option" where
  "arrow_pixel cx cy r c fb =
     (let p = (CURSOR ! nat r) ! nat c
      in case c_int (cx + c) of None \<Rightarrow> None | Some x \<Rightarrow>
         case c_int (cy + r) of None \<Rightarrow> None | Some y \<Rightarrow>
           if p = CHR '' '' then Some fb
           else if x < 0 \<or> x \<ge> fb_w fb \<or> y < 0 \<or> y \<ge> fb_h fb then Some fb
           else fb_store fb x y (if p = CHR ''X'' then 0 else 0x00ffffff))"

definition draw_cursor :: "int \<Rightarrow> int \<Rightarrow> cl_cursor option \<Rightarrow> dumb_fb \<Rightarrow> dumb_fb option" where
  "draw_cursor cx cy cur fb =
     (if (case cur of None \<Rightarrow> False | Some c \<Rightarrow> cur_hidden c) then Some fb
      else case cur of
        Some c \<Rightarrow>
          if cur_custom c
          then (case c_int (cx - cur_hotspot_x c) of None \<Rightarrow> None | Some ox \<Rightarrow>
                case c_int (cy - cur_hotspot_y c) of None \<Rightarrow> None | Some oy \<Rightarrow>
                  foldM (cursor_row c ox oy) [0..cur_h c - 1] fb)
          else foldM (\<lambda>r. foldM (arrow_pixel cx cy r) [0..int (length (CURSOR ! nat r)) - 1]) [0..15] fb
      | None \<Rightarrow> foldM (\<lambda>r. foldM (arrow_pixel cx cy r) [0..int (length (CURSOR ! nat r)) - 1]) [0..15] fb)"

definition draw_window :: "memory \<Rightarrow> u32 \<Rightarrow> window \<Rightarrow> dumb_fb \<Rightarrow> dumb_fb option" where
  "draw_window mem focus v fb =
     (if \<not> mapped v then Some fb
      else let chrome = window_has_ssd v; cy0 = (if chrome then DECOR_TITLEBAR_H else 0)
      in case (if chrome
               then fill_rect (win_x v) (win_y v) (win_w v) DECOR_TITLEBAR_H
                      (if win_id v = focus then COLOR_TB_FOCUS else COLOR_TB_PLAIN) fb
               else Some fb) of None \<Rightarrow> None | Some fb1 \<Rightarrow>
         case c_int (win_y v + cy0) of None \<Rightarrow> None | Some yc \<Rightarrow>
         case c_int (win_h v - cy0) of None \<Rightarrow> None | Some hc \<Rightarrow>
         case fill_rect (win_x v) yc (win_w v) hc (color v) fb1 of None \<Rightarrow> None | Some fb2 \<Rightarrow>
         case buf v of None \<Rightarrow> Some fb2 | Some p \<Rightarrow> blit_buffer mem v p cy0 fb2)"

definition composite :: "memory \<Rightarrow> wm \<Rightarrow> window_stack \<Rightarrow> cl_cursor option \<Rightarrow> dumb_fb \<Rightarrow> dumb_fb option" where
  "composite mem m s cur fb =
     (case fill_rect 0 0 (fb_w fb) (fb_h fb) COLOR_DESKTOP fb of None \<Rightarrow> None | Some fb1 \<Rightarrow>
      case foldM (draw_window mem (focus_id s)) (windows s) fb1 of None \<Rightarrow> None | Some fb2 \<Rightarrow>
        draw_cursor (cursor_x m) (cursor_y m) cur fb2)"

end
