(* ===== verification/Compositor_Spec.thy ===== *)
theory Compositor_Spec
  imports Compositor
begin

text \<open>
  What the compositor draws. A drawing routine \<open>draws\<close> an image transformation when it
  always succeeds on a framebuffer of the right shape and changes its picture by exactly
  that transformation; the picture of a scene is then computed pixel by pixel, and each
  pixel is the one of the window the hit-test finds there.
\<close>

section \<open>Images\<close>

type_synonym image = "int \<Rightarrow> int \<Rightarrow> u32"

definition apply_on :: "(int \<times> int) set \<Rightarrow> (int \<Rightarrow> int \<Rightarrow> u32 \<Rightarrow> u32) \<Rightarrow> image \<Rightarrow> image" where
  "apply_on S F im = (\<lambda>x y. if (x, y) \<in> S then F x y (im x y) else im x y)"

lemma apply_on_empty [simp]: "apply_on {} F = id"
  by (auto simp: apply_on_def)

lemma apply_on_join: "S \<inter> T = {} \<Longrightarrow> apply_on T F \<circ> apply_on S F = apply_on (S \<union> T) F"
  by (auto simp: apply_on_def fun_eq_iff)

lemma apply_on_cong: "S = T \<Longrightarrow> (\<And>x y d. (x, y) \<in> T \<Longrightarrow> F x y d = G x y d) \<Longrightarrow> apply_on S F = apply_on T G"
  by (auto simp: apply_on_def fun_eq_iff)

definition draws :: "('s \<Rightarrow> bool) \<Rightarrow> ('s \<Rightarrow> image) \<Rightarrow> ('s \<Rightarrow> 's option) \<Rightarrow> (image \<Rightarrow> image) \<Rightarrow> bool" where
  "draws ok pic f g \<longleftrightarrow> (\<forall>s. ok s \<longrightarrow> (\<exists>s'. f s = Some s' \<and> ok s' \<and> pic s' = g (pic s)))"

text \<open>
  A canvas: a store that shows a picture, whose cells inside an area can be written and
  read one by one.
\<close>

locale canvas =
  fixes ok :: "'s \<Rightarrow> bool" and pic :: "'s \<Rightarrow> image" and area :: "(int \<times> int) set"
    and store :: "'s \<Rightarrow> int \<Rightarrow> int \<Rightarrow> u32 \<Rightarrow> 's option" and load :: "'s \<Rightarrow> int \<Rightarrow> int \<Rightarrow> u32 option"
  assumes store_law: "ok s \<Longrightarrow> (x, y) \<in> area \<Longrightarrow>
      \<exists>s'. store s x y v = Some s' \<and> ok s' \<and> pic s' = apply_on {(x, y)} (\<lambda>_ _ _. v) (pic s)"
    and load_law: "ok s \<Longrightarrow> (x, y) \<in> area \<Longrightarrow> load s x y = Some (pic s x y)"
begin

lemma draws_skip: "draws ok pic Some (apply_on {} F)"
  by (simp add: draws_def)

lemma draws_store:
  assumes "(x, y) \<in> area" "\<And>d. F x y d = v"
  shows "draws ok pic (\<lambda>s. store s x y v) (apply_on {(x, y)} F)"
proof -
  have "apply_on {(x, y)} F = apply_on {(x, y)} (\<lambda>_ _ _. v)"
    using assms(2) by (intro apply_on_cong) auto
  then show ?thesis using store_law assms(1) by (simp add: draws_def)
qed

text \<open>Reading a cell and writing it back changed.\<close>

lemma draws_update:
  assumes "(x, y) \<in> area"
  shows "draws ok pic (\<lambda>s. case load s x y of None \<Rightarrow> None | Some d \<Rightarrow> store s x y (F x y d)) (apply_on {(x, y)} F)"
proof -
  have "apply_on {(x, y)} (\<lambda>_ _ _. F x y (im x y)) im = apply_on {(x, y)} F im" for im
    by (auto simp: apply_on_def fun_eq_iff)
  moreover have "\<exists>s'. store s x y (F x y (pic s x y)) = Some s' \<and> ok s' \<and>
      pic s' = apply_on {(x, y)} (\<lambda>_ _ _. F x y (pic s x y)) (pic s)" if "ok s" for s
    by (rule store_law [OF that assms])
  ultimately show ?thesis using load_law [OF _ assms] by (simp add: draws_def)
qed

lemma draws_seq:
  "draws ok pic f g \<Longrightarrow> draws ok pic f' g' \<Longrightarrow>
   draws ok pic (\<lambda>s. case f s of None \<Rightarrow> None | Some s' \<Rightarrow> f' s') (g' \<circ> g)"
  by (fastforce simp: draws_def)

lemma draws_fold:
  "(\<And>i. i \<in> set is \<Longrightarrow> draws ok pic (f i) (g i)) \<Longrightarrow> draws ok pic (foldM f is) (fold g is)"
proof (induction "is")
  case (Cons i "is")
  then have "draws ok pic (\<lambda>s. case f i s of None \<Rightarrow> None | Some s' \<Rightarrow> foldM f is s') (fold g is \<circ> g i)"
    by (intro draws_seq) simp_all
  then show ?case by (simp add: draws_def)
qed (simp add: draws_def)

text \<open>A loop whose rounds draw with one pixel function on disjoint sets.\<close>

lemma draws_loop:
  "(\<And>i. i \<in> set is \<Longrightarrow> draws ok pic (f i) (apply_on (S i) F)) \<Longrightarrow> distinct is \<Longrightarrow>
   (\<And>i j. i \<noteq> j \<Longrightarrow> S i \<inter> S j = {}) \<Longrightarrow> draws ok pic (foldM f is) (apply_on (\<Union>i \<in> set is. S i) F)"
proof (induction "is")
  case (Cons i "is")
  have "draws ok pic (foldM f is) (apply_on (\<Union>i \<in> set is. S i) F)"
    using Cons.prems by (intro Cons.IH) auto
  then have "draws ok pic (\<lambda>s. case f i s of None \<Rightarrow> None | Some s' \<Rightarrow> foldM f is s')
      (apply_on (\<Union>i \<in> set is. S i) F \<circ> apply_on (S i) F)"
    using Cons.prems(1) by (intro draws_seq) simp_all
  moreover have "S i \<inter> S j = {}" if "j \<in> set is" for j
    using Cons.prems(2) Cons.prems(3) [of i j] that by auto
  then have "S i \<inter> (\<Union>j \<in> set is. S j) = {}" by blast
  ultimately show ?case by (simp add: draws_def apply_on_join)
qed (simp add: draws_def)

end

section \<open>The framebuffer as a canvas\<close>

text \<open>
  What \<open>dumb_fb_create\<close> gives for a 32-bit framebuffer: the pitch covers a row and is a
  whole number of pixels, and the mapping covers every row.
\<close>

definition fb_good :: "dumb_fb \<Rightarrow> bool" where
  "fb_good fb \<longleftrightarrow> 0 \<le> fb_w fb \<and> 0 \<le> fb_h fb \<and> in_int (fb_w fb) \<and> in_int (fb_h fb) \<and>
     4 dvd uint (fb_stride fb) \<and> 4 * fb_w fb \<le> uint (fb_stride fb) \<and>
     (\<exists>m. fb_map fb = Some m \<and> uint (fb_stride fb) * fb_h fb \<le> 4 * int (length m))"

text \<open>A framebuffer that differs from \<open>fb0\<close> in its pixels only.\<close>

definition fb_like :: "dumb_fb \<Rightarrow> dumb_fb \<Rightarrow> bool" where
  "fb_like fb0 fb \<longleftrightarrow> fb_good fb \<and> fb = fb0\<lparr>fb_map := fb_map fb\<rparr>"

definition screen :: "dumb_fb \<Rightarrow> (int \<times> int) set" where
  "screen fb = {0..<fb_w fb} \<times> {0..<fb_h fb}"

definition picture :: "dumb_fb \<Rightarrow> image" where
  "picture fb = (\<lambda>x y. if (x, y) \<in> screen fb then the (fb_load fb x y) else 0)"

lemma fb_like_refl: "fb_good fb \<Longrightarrow> fb_like fb fb"
  by (simp add: fb_like_def)

lemma fb_like_good: "fb_like fb0 fb \<Longrightarrow> fb_good fb"
  by (simp add: fb_like_def)

lemma fb_like_write:
  assumes "fb_like fb0 fb" "fb_map fb = Some m" "length m' = length m"
  shows "fb_like fb0 (fb\<lparr>fb_map := Some m'\<rparr>)"
proof -
  have "fb\<lparr>fb_map := Some m'\<rparr> = fb0\<lparr>fb_map := Some m'\<rparr>"
    using assms(1) by (cases fb, cases fb0) (simp add: fb_like_def)
  then show ?thesis using assms by (auto simp: fb_like_def fb_good_def)
qed

lemma fb_like_sel: "fb_like fb0 fb \<Longrightarrow> fb_w fb = fb_w fb0 \<and> fb_h fb = fb_h fb0 \<and> screen fb = screen fb0"
  by (cases fb, cases fb0) (simp add: fb_like_def screen_def)

text \<open>Pixels on the screen are words inside the mapping, different ones for different pixels.\<close>

lemma fb_offset:
  assumes "fb_good fb" "(x, y) \<in> screen fb" "fb_map fb = Some m"
  defines "off \<equiv> y * uint (fb_stride fb) + 4 * x"
  shows "0 \<le> off" "4 dvd off" "nat (off div 4) < length m"
proof -
  let ?s = "uint (fb_stride fb)"
  have b: "0 \<le> x" "x < fb_w fb" "0 \<le> y" "y < fb_h fb" using assms(2) by (auto simp: screen_def)
  have s: "4 dvd ?s" "4 * fb_w fb \<le> ?s" "?s * fb_h fb \<le> 4 * int (length m)"
    using assms(1,3) by (auto simp: fb_good_def)
  show "0 \<le> off" using b by (simp add: off_def)
  show "4 dvd off" using s(1) by (simp add: off_def)
  have "y * ?s + ?s \<le> ?s * fb_h fb"
    using b mult_right_mono [of "y + 1" "fb_h fb" ?s] by (simp add: algebra_simps)
  then have "off + 4 \<le> 4 * int (length m)" using s b by (simp add: off_def)
  then show "nat (off div 4) < length m" using \<open>0 \<le> off\<close> by simp
qed

lemma word_index: "0 \<le> off \<Longrightarrow> 4 dvd off \<Longrightarrow> off = 4 * int (nat (off div 4))"
  by auto

lemma fb_offset_inj:
  assumes "fb_good fb" "(x, y) \<in> screen fb" "(x', y') \<in> screen fb"
    and "y * uint (fb_stride fb) + 4 * x = y' * uint (fb_stride fb) + 4 * x'"
  shows "x = x' \<and> y = y'"
proof -
  let ?s = "uint (fb_stride fb)"
  have b: "0 \<le> 4 * x" "4 * x < ?s" "0 \<le> 4 * x'" "4 * x' < ?s"
    using assms(1-3) by (auto simp: screen_def fb_good_def)
  have "y = (y * ?s + 4 * x) div ?s" "y' = (y' * ?s + 4 * x') div ?s" using b by simp_all
  then have "y = y'" using assms(4) by metis
  with assms(4) show ?thesis by simp
qed

lemma fb_store_law:
  assumes "fb_like fb0 fb" "(x, y) \<in> screen fb0"
  shows "\<exists>fb'. fb_store fb x y v = Some fb' \<and> fb_like fb0 fb' \<and>
    picture fb' = apply_on {(x, y)} (\<lambda>_ _ _. v) (picture fb)"
proof -
  note good = fb_like_good [OF assms(1)]
  have scr: "screen fb = screen fb0" using fb_like_sel [OF assms(1)] by simp
  obtain m where m: "fb_map fb = Some m" using good by (auto simp: fb_good_def)
  let ?off = "\<lambda>x y. y * uint (fb_stride fb) + 4 * x"
  let ?n = "\<lambda>x y. nat (?off x y div 4)"
  let ?fb = "fb\<lparr>fb_map := Some (m[?n x y := v])\<rparr>"
  note o = fb_offset [OF good _ m, unfolded scr]
  have st: "fb_store fb x y v = Some ?fb" using o [OF assms(2)] m by (simp add: fb_store_def)
  have like: "fb_like fb0 ?fb" using fb_like_write [OF assms(1) m] by simp
  have ld: "fb_load ?fb x' y' = Some (m[?n x y := v] ! ?n x' y')" "fb_load fb x' y' = Some (m ! ?n x' y')"
    if "(x', y') \<in> screen fb0" for x' y'
    using o [OF that] m by (simp_all add: fb_load_def)
  have "picture ?fb x' y' = apply_on {(x, y)} (\<lambda>_ _ _. v) (picture fb) x' y'" for x' y'
  proof (cases "(x', y') \<in> screen fb0")
    case True
    have "?off x' y' = ?off x y" if "?n x' y' = ?n x y"
      using word_index [OF o(1,2) [OF assms(2)]] word_index [OF o(1,2) [OF True]] that by (simp only:)
    then have "?n x' y' = ?n x y \<longleftrightarrow> (x', y') = (x, y)"
      using fb_offset_inj [OF good, unfolded scr, OF True assms(2)] by auto
    then have "m[?n x y := v] ! ?n x' y' = (if (x', y') = (x, y) then v else m ! ?n x' y')"
      using o(3) [OF assms(2)] by (cases "?n x' y' = ?n x y") (simp_all only: nth_list_update_eq nth_list_update_neq
          if_True if_False simp_thms not_sym)
    moreover have "(x', y') \<in> screen ?fb" "(x', y') \<in> screen fb" using True scr fb_like_sel [OF like] by simp_all
    ultimately show ?thesis using ld [OF True] by (simp add: picture_def apply_on_def)
  next
    case False
    then show ?thesis using assms(2) fb_like_sel [OF like] by (auto simp: picture_def apply_on_def scr)
  qed
  then show ?thesis using st like by blast
qed

lemma fb_load_law:
  assumes "fb_like fb0 fb" "(x, y) \<in> screen fb0"
  shows "fb_load fb x y = Some (picture fb x y)"
proof -
  have xy: "(x, y) \<in> screen fb" using fb_like_sel [OF assms(1)] assms(2) by simp
  obtain m where "fb_map fb = Some m" using fb_like_good [OF assms(1)] by (auto simp: fb_good_def)
  with fb_offset [OF fb_like_good [OF assms(1)] xy this] xy show ?thesis by (simp add: fb_load_def picture_def)
qed

interpretation fbuf: canvas "fb_like fb0" picture "screen fb0" fb_store fb_load for fb0
  by unfold_locales (rule fb_store_law, assumption+, rule fb_load_law, assumption+)

text \<open>\<open>renders fb0 f g\<close>: on every framebuffer shaped like \<open>fb0\<close>, \<open>f\<close> succeeds and applies \<open>g\<close> to its picture.\<close>

abbreviation renders :: "dumb_fb \<Rightarrow> (dumb_fb \<Rightarrow> dumb_fb option) \<Rightarrow> (image \<Rightarrow> image) \<Rightarrow> bool" where
  "renders fb0 \<equiv> draws (fb_like fb0) picture"

text \<open>A routine may read the size of the framebuffer it draws on.\<close>

lemma renders_size:
  "(\<And>fb. fb_w fb = fb_w fb0 \<Longrightarrow> fb_h fb = fb_h fb0 \<Longrightarrow> f fb = f' fb) \<Longrightarrow> renders fb0 f' g \<Longrightarrow> renders fb0 f g"
  using fb_like_sel by (force simp: draws_def)

section \<open>Rectangles\<close>

definition rect :: "int \<Rightarrow> int \<Rightarrow> int \<Rightarrow> int \<Rightarrow> (int \<times> int) set" where
  "rect x y w h = {x..<x + w} \<times> {y..<y + h}"

lemma c_int_ok: "in_int i \<Longrightarrow> c_int i = Some i"
  by (simp add: c_int_def)

lemma in_int_between: "in_int a \<Longrightarrow> in_int b \<Longrightarrow> a \<le> i \<Longrightarrow> i \<le> b \<Longrightarrow> in_int i"
  by (simp add: in_int_def)

lemma fill_rect_renders:
  assumes "in_int (x + w)" "in_int (y + h)"
  shows "renders fb0 (fill_rect x y w h col) (apply_on (rect x y w h \<inter> screen fb0) (\<lambda>_ _ _. col))"
proof (rule renders_size)
  let ?x0 = "if x < 0 then 0 else x" and ?y0 = "if y < 0 then 0 else y"
  let ?x1 = "if x + w > fb_w fb0 then fb_w fb0 else x + w" and ?y1 = "if y + h > fb_h fb0 then fb_h fb0 else y + h"
  let ?f = "foldM (\<lambda>yy. foldM (\<lambda>xx fb. fb_store fb xx yy col) [?x0..?x1 - 1]) [?y0..?y1 - 1]"
  show "fill_rect x y w h col fb = ?f fb" if "fb_w fb = fb_w fb0" "fb_h fb = fb_h fb0" for fb
    unfolding fill_rect_def Let_def c_int_ok [OF assms(1)] c_int_ok [OF assms(2)] option.case that ..
  let ?F = "\<lambda>(_ :: int) (_ :: int) (_ :: u32). col"
  have row: "renders fb0 (foldM (\<lambda>xx fb. fb_store fb xx yy col) [?x0..?x1 - 1])
      (apply_on (\<Union>xx \<in> set [?x0..?x1 - 1]. {(xx, yy)}) ?F)" if "yy \<in> set [?y0..?y1 - 1]" for yy
    using that by (intro fbuf.draws_loop fbuf.draws_store) (auto simp: screen_def split: if_splits)
  have "renders fb0 ?f (apply_on (\<Union>yy \<in> set [?y0..?y1 - 1]. \<Union>xx \<in> set [?x0..?x1 - 1]. {(xx, yy)}) ?F)"
    by (intro fbuf.draws_loop row) auto
  moreover have "(\<Union>yy \<in> set [?y0..?y1 - 1]. \<Union>xx \<in> set [?x0..?x1 - 1]. {(xx, yy)}) = rect x y w h \<inter> screen fb0"
    by (auto simp: rect_def screen_def)
  ultimately show "renders fb0 ?f (apply_on (rect x y w h \<inter> screen fb0) ?F)" by simp
qed

section \<open>Client buffers\<close>

text \<open>The visible part of a buffer that starts \<open>cy0\<close> rows below the window's top, and its content.\<close>

definition blit_area :: "window \<Rightarrow> int \<Rightarrow> (int \<times> int) set" where
  "blit_area v cy0 = rect (win_x v) (win_y v + cy0) (min (win_w v) (buf_w v)) (min (win_h v - cy0) (buf_h v))"

definition buf_pixel :: "memory \<Rightarrow> window \<Rightarrow> pixels \<Rightarrow> int \<Rightarrow> int \<Rightarrow> int \<Rightarrow> u32 option" where
  "buf_pixel mem v p cy0 x y = mem_load mem p ((y - (win_y v + cy0)) * buf_stride v + 4 * (x - win_x v))"

definition buf_readable :: "memory \<Rightarrow> window \<Rightarrow> pixels \<Rightarrow> int \<Rightarrow> bool" where
  "buf_readable mem v p cy0 \<longleftrightarrow> (\<forall>(x, y) \<in> blit_area v cy0. buf_pixel mem v p cy0 x y \<noteq> None)"

lemma blit_renders:
  assumes "in_int (win_x v)" "in_int (win_x v + win_w v)" "in_int (win_y v + cy0)" "in_int (win_h v - cy0)"
    "in_int (win_y v + win_h v)" "buf_readable mem v p cy0"
  shows "renders fb0 (blit_buffer mem v p cy0)
    (apply_on (blit_area v cy0 \<inter> screen fb0) (\<lambda>x y _. the (buf_pixel mem v p cy0 x y)))"
proof -
  let ?F = "\<lambda>x y (_ :: u32). the (buf_pixel mem v p cy0 x y)" and ?dy = "win_y v + cy0"
  let ?rows = "if win_h v - cy0 < buf_h v then win_h v - cy0 else buf_h v"
  let ?cols = "if win_w v < buf_w v then win_w v else buf_w v"
  let ?S = "\<lambda>r c. {(win_x v + c, ?dy + r)} \<inter> screen fb0"
  have pixel: "renders fb0 (blit_pixel mem v p r (?dy + r) c) (apply_on (?S r c) ?F)"
    if r: "r \<in> set [0..?rows - 1]" and y: "0 \<le> ?dy + r" "?dy + r < fb_h fb0" and c: "c \<in> set [0..?cols - 1]" for r c
  proof -
    have x: "c_int (win_x v + c) = Some (win_x v + c)"
      using c by (intro c_int_ok in_int_between [OF assms(1,2)]) (auto split: if_splits)
    have "(win_x v + c, ?dy + r) \<in> blit_area v cy0"
      using r c by (auto simp: blit_area_def rect_def min_def split: if_splits)
    then obtain px where px: "mem_load mem p (r * buf_stride v + 4 * c) = Some px"
      using assms(6) by (force simp: buf_readable_def buf_pixel_def)
    show ?thesis
    proof (cases "0 \<le> win_x v + c \<and> win_x v + c < fb_w fb0")
      case True
      then have S: "?S r c = {(win_x v + c, ?dy + r)}" using y by (auto simp: screen_def)
      have "renders fb0 (\<lambda>fb. fb_store fb (win_x v + c) (?dy + r) px) (apply_on (?S r c) ?F)"
        unfolding S using S px by (intro fbuf.draws_store) (auto simp: buf_pixel_def)
      then show ?thesis using True x px by (elim renders_size [rotated]) (simp add: blit_pixel_def)
    next
      case False
      then have S: "?S r c = {}" by (auto simp: screen_def)
      show ?thesis unfolding S
        using False x by (intro renders_size [OF _ fbuf.draws_skip]) (auto simp: blit_pixel_def)
    qed
  qed
  have row: "renders fb0 (blit_row mem v p ?dy ?cols r) (apply_on (\<Union>c \<in> set [0..?cols - 1]. ?S r c) ?F)"
    if r: "r \<in> set [0..?rows - 1]" for r
  proof -
    have y: "c_int (?dy + r) = Some (?dy + r)"
      using r by (intro c_int_ok in_int_between [OF assms(3,5)]) (auto split: if_splits)
    show ?thesis
    proof (cases "0 \<le> ?dy + r \<and> ?dy + r < fb_h fb0")
      case True
      have "renders fb0 (foldM (blit_pixel mem v p r (?dy + r)) [0..?cols - 1]) (apply_on (\<Union>c \<in> set [0..?cols - 1]. ?S r c) ?F)"
        using r True by (intro fbuf.draws_loop pixel) auto
      then show ?thesis using True y by (elim renders_size [rotated]) (simp add: blit_row_def)
    next
      case False
      then have S: "(\<Union>c \<in> set [0..?cols - 1]. ?S r c) = {}" by (auto simp: screen_def)
      show ?thesis unfolding S
        using False y by (intro renders_size [OF _ fbuf.draws_skip]) (auto simp: blit_row_def)
    qed
  qed
  have "renders fb0 (foldM (blit_row mem v p ?dy ?cols) [0..?rows - 1])
      (apply_on (\<Union>r \<in> set [0..?rows - 1]. \<Union>c \<in> set [0..?cols - 1]. ?S r c) ?F)"
    by (intro fbuf.draws_loop row) auto
  moreover have "(\<Union>r \<in> set [0..?rows - 1]. \<Union>c \<in> set [0..?cols - 1]. ?S r c) = blit_area v cy0 \<inter> screen fb0"
  proof -
    have "(x, y) \<in> (\<Union>r \<in> set [0..?rows - 1]. \<Union>c \<in> set [0..?cols - 1]. ?S r c)"
      if "(x, y) \<in> blit_area v cy0 \<inter> screen fb0" for x y
      using that by (intro UN_I [of "y - ?dy"] UN_I [of "x - win_x v"]) (auto simp: blit_area_def rect_def)
    then show ?thesis by (auto simp: blit_area_def rect_def)
  qed
  ultimately show ?thesis
    unfolding blit_buffer_def c_int_ok [OF assms(3)] c_int_ok [OF assms(4)] option.case Let_def by simp
qed

section \<open>The cursor\<close>

text \<open>The pixel at \<open>(x, y)\<close> once the cursor is drawn over a pixel \<open>d\<close>.\<close>

definition arrow_over :: "int \<Rightarrow> int \<Rightarrow> int \<Rightarrow> int \<Rightarrow> u32 \<Rightarrow> u32" where
  "arrow_over cx cy x y d =
     (let r = y - cy; c = x - cx
      in if 0 \<le> r \<and> r < 16 \<and> 0 \<le> c \<and> c < int (length (CURSOR ! nat r)) \<and> CURSOR ! nat r ! nat c \<noteq> CHR '' ''
         then (if CURSOR ! nat r ! nat c = CHR ''X'' then 0 else 0x00ffffff) else d)"

definition shape_over :: "cl_cursor \<Rightarrow> int \<Rightarrow> int \<Rightarrow> int \<Rightarrow> int \<Rightarrow> u32 \<Rightarrow> u32" where
  "shape_over cur ox oy x y d =
     (if (x, y) \<in> rect ox oy (cur_w cur) (cur_h cur)
      then cursor_blend (cur_argb cur ! nat ((y - oy) * cur_w cur + (x - ox))) d else d)"

definition cursor_over :: "int \<Rightarrow> int \<Rightarrow> cl_cursor option \<Rightarrow> int \<Rightarrow> int \<Rightarrow> u32 \<Rightarrow> u32" where
  "cursor_over cx cy cur x y d =
     (case cur of
        None \<Rightarrow> arrow_over cx cy x y d
      | Some c \<Rightarrow> if cur_hidden c then d
                  else if cur_custom c then shape_over c (cx - cur_hotspot_x c) (cy - cur_hotspot_y c) x y d
                  else arrow_over cx cy x y d)"

definition origin_fits :: "int \<Rightarrow> bool" where
  "origin_fits i \<longleftrightarrow> in_int i \<and> in_int (i + 64)"

text \<open>The cursor's position and hotspot do not overflow, and its pixels are all there.\<close>

definition cursor_fits :: "int \<Rightarrow> int \<Rightarrow> cl_cursor option \<Rightarrow> bool" where
  "cursor_fits cx cy cur \<longleftrightarrow> origin_fits cx \<and> origin_fits cy \<and>
     (case cur of None \<Rightarrow> True
      | Some c \<Rightarrow> origin_fits (cx - cur_hotspot_x c) \<and> origin_fits (cy - cur_hotspot_y c) \<and>
          0 \<le> cur_w c \<and> cur_w c \<le> CL_CURSOR_MAX \<and> 0 \<le> cur_h c \<and> cur_h c \<le> CL_CURSOR_MAX \<and>
          cur_w c * cur_h c \<le> int (length (cur_argb c)))"

lemma origin_fits_add: "origin_fits i \<Longrightarrow> 0 \<le> c \<Longrightarrow> c \<le> 64 \<Longrightarrow> c_int (i + c) = Some (i + c)"
  by (rule c_int_ok) (auto simp: origin_fits_def in_int_def)

lemma CURSOR_rows: "r < 16 \<Longrightarrow> length (CURSOR ! r) = 11"
proof -
  have "\<forall>s \<in> set CURSOR. length s = 11" "length CURSOR = 16" by (simp_all add: CURSOR_def)
  then show "r < 16 \<Longrightarrow> length (CURSOR ! r) = 11" by (metis nth_mem)
qed

text \<open>Off the screen a pixel routine does nothing; on it, it renders its own function.\<close>

lemma renders_clipped:
  assumes "(x, y) \<in> screen fb0 \<Longrightarrow> renders fb0 f (apply_on {(x, y)} F)"
    and "(x, y) \<notin> screen fb0 \<Longrightarrow> (\<And>fb. fb_w fb = fb_w fb0 \<Longrightarrow> fb_h fb = fb_h fb0 \<Longrightarrow> f fb = Some fb)"
  shows "renders fb0 f (apply_on ({(x, y)} \<inter> screen fb0) F)"
proof (cases "(x, y) \<in> screen fb0")
  case True
  then have "{(x, y)} \<inter> screen fb0 = {(x, y)}" by simp
  with assms(1) [OF True] show ?thesis by simp
next
  case False
  then have S: "{(x, y)} \<inter> screen fb0 = {}" by simp
  show ?thesis unfolding S using assms(2) [OF False] by (rule renders_size [OF _ fbuf.draws_skip])
qed

lemma apply_on_same: "(\<And>x y d. (x, y) \<in> S \<Longrightarrow> F x y d = d) \<Longrightarrow> apply_on S F = id"
  by (auto simp: apply_on_def fun_eq_iff)

lemma arrow_pixel_renders:
  assumes "origin_fits cx" "origin_fits cy" "0 \<le> r" "r < 16" "0 \<le> c" "c < int (length (CURSOR ! nat r))"
  shows "renders fb0 (arrow_pixel cx cy r c) (apply_on ({(cx + c, cy + r)} \<inter> screen fb0) (arrow_over cx cy))"
proof -
  let ?p = "CURSOR ! nat r ! nat c"
  have c: "c \<le> 11" using assms(3-6) CURSOR_rows [of "nat r"] by simp
  have x: "c_int (cx + c) = Some (cx + c)" "c_int (cy + r) = Some (cy + r)"
    using assms c by (auto intro!: origin_fits_add)
  have F: "arrow_over cx cy (cx + c) (cy + r) d =
      (if ?p = CHR '' '' then d else if ?p = CHR ''X'' then 0 else 0x00ffffff)" for d
    using assms by (simp add: arrow_over_def Let_def)
  show ?thesis
  proof (cases "?p = CHR '' ''")
    case True
    then have "apply_on ({(cx + c, cy + r)} \<inter> screen fb0) (arrow_over cx cy) = id"
      using F by (intro apply_on_same) auto
    then show ?thesis using True x by (simp add: arrow_pixel_def draws_def)
  next
    case False
    show ?thesis
    proof (rule renders_clipped)
      assume scr: "(cx + c, cy + r) \<in> screen fb0"
      have "renders fb0 (\<lambda>fb. fb_store fb (cx + c) (cy + r) (if ?p = CHR ''X'' then 0 else 0x00ffffff))
          (apply_on {(cx + c, cy + r)} (arrow_over cx cy))"
        using scr F False by (intro fbuf.draws_store) simp_all
      with scr False x show "renders fb0 (arrow_pixel cx cy r c) (apply_on {(cx + c, cy + r)} (arrow_over cx cy))"
        by (elim renders_size [rotated]) (simp add: arrow_pixel_def screen_def)
    qed (use False x in \<open>auto simp: arrow_pixel_def screen_def\<close>)
  qed
qed

lemma arrow_renders:
  assumes "origin_fits cx" "origin_fits cy"
  shows "renders fb0 (foldM (\<lambda>r. foldM (arrow_pixel cx cy r) [0..int (length (CURSOR ! nat r)) - 1]) [0..15])
    (apply_on (screen fb0) (arrow_over cx cy))"
proof -
  let ?S = "\<lambda>r. \<Union>c \<in> set [0..int (length (CURSOR ! nat r)) - 1]. {(cx + c, cy + r)} \<inter> screen fb0"
  have "renders fb0 (foldM (arrow_pixel cx cy r) [0..int (length (CURSOR ! nat r)) - 1]) (apply_on (?S r) (arrow_over cx cy))"
    if r: "r \<in> set [0..15]" for r
  proof (rule fbuf.draws_loop)
    fix c assume "c \<in> set [0..int (length (CURSOR ! nat r)) - 1]"
    then show "renders fb0 (arrow_pixel cx cy r c) (apply_on ({(cx + c, cy + r)} \<inter> screen fb0) (arrow_over cx cy))"
      using r by (intro arrow_pixel_renders assms) auto
  qed auto
  then have "renders fb0 (foldM (\<lambda>r. foldM (arrow_pixel cx cy r) [0..int (length (CURSOR ! nat r)) - 1]) [0..15])
      (apply_on (\<Union>r \<in> set [0..15]. ?S r) (arrow_over cx cy))"
    by (rule fbuf.draws_loop) auto
  moreover have "apply_on (\<Union>r \<in> set [0..15]. ?S r) (arrow_over cx cy) = apply_on (screen fb0) (arrow_over cx cy)"
  proof (intro ext)
    fix im x y
    have "(x, y) \<in> (\<Union>r \<in> set [0..15]. ?S r)"
      if "(x, y) \<in> screen fb0" "0 \<le> y - cy" "y - cy < 16" "0 \<le> x - cx" "x - cx < int (length (CURSOR ! nat (y - cy)))"
      using that by (intro UN_I [of "y - cy"] UN_I [of "x - cx"]) auto
    then have "(x, y) \<in> (\<Union>r \<in> set [0..15]. ?S r) \<or> arrow_over cx cy x y (im x y) = im x y \<or> (x, y) \<notin> screen fb0"
      unfolding arrow_over_def Let_def by argo
    then show "apply_on (\<Union>r \<in> set [0..15]. ?S r) (arrow_over cx cy) im x y = apply_on (screen fb0) (arrow_over cx cy) im x y"
      by (auto simp: apply_on_def)
  qed
  ultimately show ?thesis by simp
qed

lemma cursor_pixel_renders:
  assumes "origin_fits ox" "0 \<le> r" "r < cur_h cur" "0 \<le> c" "c < cur_w cur" "cur_w cur \<le> 64"
    and "cur_w cur * cur_h cur \<le> int (length (cur_argb cur))" "0 \<le> oy + r" "oy + r < fb_h fb0"
  shows "renders fb0 (cursor_pixel cur ox r (oy + r) c) (apply_on ({(ox + c, oy + r)} \<inter> screen fb0) (shape_over cur ox oy))"
proof -
  have x: "c_int (ox + c) = Some (ox + c)" using assms by (intro origin_fits_add) auto
  let ?i = "r * cur_w cur + c"
  have "r * cur_w cur + cur_w cur \<le> cur_w cur * cur_h cur"
    using mult_right_mono [of "r + 1" "cur_h cur" "cur_w cur"] assms by (simp add: algebra_simps)
  then have i: "0 \<le> ?i" "?i < int (length (cur_argb cur))" using assms by auto
  let ?px = "cur_argb cur ! nat ?i"
  have F: "shape_over cur ox oy (ox + c) (oy + r) d = cursor_blend ?px d" for d
    using assms by (simp add: shape_over_def rect_def)
  show ?thesis
  proof (cases "drop_bit 24 ?px = 0")
    case True
    then have "apply_on ({(ox + c, oy + r)} \<inter> screen fb0) (shape_over cur ox oy) = id"
      using F by (intro apply_on_same) (auto simp: cursor_blend_def)
    then show ?thesis using True x i by (simp add: cursor_pixel_def draws_def Let_def)
  next
    case a0: False
    show ?thesis
    proof (rule renders_clipped)
      assume scr: "(ox + c, oy + r) \<in> screen fb0"
      show "renders fb0 (cursor_pixel cur ox r (oy + r) c) (apply_on {(ox + c, oy + r)} (shape_over cur ox oy))"
      proof (cases "drop_bit 24 ?px = 0xff")
        case True
        have "renders fb0 (\<lambda>fb. fb_store fb (ox + c) (oy + r) (?px AND 0x00ffffff))
            (apply_on {(ox + c, oy + r)} (shape_over cur ox oy))"
          using scr F True by (intro fbuf.draws_store) (simp_all add: cursor_blend_def)
        with True scr a0 x i show ?thesis
          by (elim renders_size [rotated]) (simp add: cursor_pixel_def screen_def Let_def)
      next
        case False
        have "renders fb0 (\<lambda>fb. case fb_load fb (ox + c) (oy + r) of None \<Rightarrow> None
              | Some d \<Rightarrow> fb_store fb (ox + c) (oy + r) (cursor_blend ?px d))
            (apply_on {(ox + c, oy + r)} (shape_over cur ox oy))"
          using fbuf.draws_update [OF scr, of "shape_over cur ox oy"] unfolding F .
        with False scr a0 x i show ?thesis
          by (elim renders_size [rotated]) (simp add: cursor_pixel_def screen_def Let_def)
      qed
    qed (use x assms in \<open>auto simp: cursor_pixel_def screen_def\<close>)
  qed
qed

lemma shape_renders:
  assumes "origin_fits ox" "origin_fits oy" "cur_w cur \<le> 64" "cur_h cur \<le> 64"
    and "cur_w cur * cur_h cur \<le> int (length (cur_argb cur))"
  shows "renders fb0 (foldM (cursor_row cur ox oy) [0..cur_h cur - 1]) (apply_on (screen fb0) (shape_over cur ox oy))"
proof -
  let ?S = "\<lambda>r. \<Union>c \<in> set [0..cur_w cur - 1]. {(ox + c, oy + r)} \<inter> screen fb0"
  have row: "renders fb0 (cursor_row cur ox oy r) (apply_on (?S r) (shape_over cur ox oy))"
    if r: "r \<in> set [0..cur_h cur - 1]" for r
  proof -
    have y: "c_int (oy + r) = Some (oy + r)" using r assms by (intro origin_fits_add) auto
    show ?thesis
    proof (cases "0 \<le> oy + r \<and> oy + r < fb_h fb0")
      case True
      have "renders fb0 (foldM (cursor_pixel cur ox r (oy + r)) [0..cur_w cur - 1]) (apply_on (?S r) (shape_over cur ox oy))"
        using r True assms by (intro fbuf.draws_loop cursor_pixel_renders) auto
      then show ?thesis using True y by (elim renders_size [rotated]) (simp add: cursor_row_def)
    next
      case False
      then have S: "?S r = {}" by (auto simp: screen_def)
      show ?thesis unfolding S
        using False y by (intro renders_size [OF _ fbuf.draws_skip]) (auto simp: cursor_row_def)
    qed
  qed
  have "renders fb0 (foldM (cursor_row cur ox oy) [0..cur_h cur - 1])
      (apply_on (\<Union>r \<in> set [0..cur_h cur - 1]. ?S r) (shape_over cur ox oy))"
    by (intro fbuf.draws_loop row) auto
  moreover have "apply_on (\<Union>r \<in> set [0..cur_h cur - 1]. ?S r) (shape_over cur ox oy) = apply_on (screen fb0) (shape_over cur ox oy)"
  proof (intro ext)
    fix im x y
    have "(x, y) \<in> (\<Union>r \<in> set [0..cur_h cur - 1]. ?S r)"
      if "(x, y) \<in> screen fb0" "(x, y) \<in> rect ox oy (cur_w cur) (cur_h cur)"
      using that by (intro UN_I [of "y - oy"] UN_I [of "x - ox"]) (auto simp: rect_def)
    then have "(x, y) \<in> (\<Union>r \<in> set [0..cur_h cur - 1]. ?S r) \<or> shape_over cur ox oy x y (im x y) = im x y \<or> (x, y) \<notin> screen fb0"
      unfolding shape_over_def by argo
    then show "apply_on (\<Union>r \<in> set [0..cur_h cur - 1]. ?S r) (shape_over cur ox oy) im x y = apply_on (screen fb0) (shape_over cur ox oy) im x y"
      by (auto simp: apply_on_def)
  qed
  ultimately show ?thesis by simp
qed

lemma draw_cursor_cases:
  "case cur of None \<Rightarrow> True | Some c \<Rightarrow> \<not> cur_hidden c \<and> \<not> cur_custom c \<Longrightarrow>
   draw_cursor cx cy cur = foldM (\<lambda>r. foldM (arrow_pixel cx cy r) [0..int (length (CURSOR ! nat r)) - 1]) [0..15]"
  "cur_hidden c \<Longrightarrow> draw_cursor cx cy (Some c) = Some"
  "\<not> cur_hidden c \<Longrightarrow> cur_custom c \<Longrightarrow> in_int (cx - cur_hotspot_x c) \<Longrightarrow> in_int (cy - cur_hotspot_y c) \<Longrightarrow>
   draw_cursor cx cy (Some c) = foldM (cursor_row c (cx - cur_hotspot_x c) (cy - cur_hotspot_y c)) [0..cur_h c - 1]"
  by (auto simp: draw_cursor_def c_int_ok fun_eq_iff split: option.splits)

lemma draw_cursor_renders:
  assumes "cursor_fits cx cy cur"
  shows "renders fb0 (draw_cursor cx cy cur) (apply_on (screen fb0) (cursor_over cx cy cur))"
proof -
  have o: "origin_fits cx" "origin_fits cy" using assms by (auto simp: cursor_fits_def)
  have arrow: "cursor_over cx cy cur = arrow_over cx cy"
    if "case cur of None \<Rightarrow> True | Some c \<Rightarrow> \<not> cur_hidden c \<and> \<not> cur_custom c"
    using that by (auto simp: cursor_over_def fun_eq_iff split: option.splits)
  show ?thesis
  proof (cases "case cur of None \<Rightarrow> True | Some c \<Rightarrow> \<not> cur_hidden c \<and> \<not> cur_custom c")
    case True
    then show ?thesis using arrow_renders [OF o] arrow [OF True] draw_cursor_cases(1) [OF True] by simp
  next
    case False
    then obtain c where c: "cur = Some c" "cur_hidden c \<or> cur_custom c" by (auto split: option.splits)
    show ?thesis
    proof (cases "cur_hidden c")
      case True
      then have "apply_on (screen fb0) (cursor_over cx cy cur) = id"
        using c by (intro apply_on_same) (simp add: cursor_over_def)
      then show ?thesis using True c draw_cursor_cases(2) [OF True] by (simp add: draws_def)
    next
      case False
      then have "cursor_over cx cy cur = shape_over c (cx - cur_hotspot_x c) (cy - cur_hotspot_y c)"
        using c by (simp add: cursor_over_def fun_eq_iff)
      then show ?thesis
        using assms c False shape_renders [of "cx - cur_hotspot_x c" "cy - cur_hotspot_y c" c fb0]
        by (simp add: draw_cursor_cases(3) cursor_fits_def origin_fits_def)
    qed
  qed
qed

section \<open>The scene\<close>

text \<open>Where the coordinates of a window do not overflow, and its title bar is inside it.\<close>

definition geom_ok :: "window \<Rightarrow> bool" where
  "geom_ok v \<longleftrightarrow> in_int (win_x v) \<and> in_int (win_y v) \<and> in_int (win_h v) \<and> in_int (win_x v + win_w v) \<and>
     in_int (win_y v + win_h v) \<and> (window_has_ssd v \<longrightarrow> DECOR_TITLEBAR_H \<le> win_h v)"

definition chrome_h :: "window \<Rightarrow> int" where
  "chrome_h v = (if window_has_ssd v then DECOR_TITLEBAR_H else 0)"

text \<open>What a window shows at a point inside it: title bar, buffer, or placeholder colour.\<close>

definition window_look :: "memory \<Rightarrow> u32 \<Rightarrow> window \<Rightarrow> int \<Rightarrow> int \<Rightarrow> u32" where
  "window_look mem focus v x y =
     (if y < win_y v + chrome_h v then (if win_id v = focus then COLOR_TB_FOCUS else COLOR_TB_PLAIN)
      else case buf v of
             None \<Rightarrow> color v
           | Some p \<Rightarrow> if (x, y) \<in> blit_area v (chrome_h v) then the (buf_pixel mem v p (chrome_h v) x y) else color v)"

definition drawable :: "memory \<Rightarrow> window \<Rightarrow> bool" where
  "drawable mem v \<longleftrightarrow> geom_ok v \<and>
     (case buf v of None \<Rightarrow> True | Some p \<Rightarrow> buf_readable mem v p (chrome_h v))"

definition hit_area :: "window \<Rightarrow> (int \<times> int) set" where
  "hit_area v = (if mapped v then rect (win_x v) (win_y v) (win_w v) (win_h v) else {})"

lemma hit_area: "(x, y) \<in> hit_area v \<longleftrightarrow> mapped v \<and> hit x y v"
  by (auto simp: hit_area_def rect_def hit_def)

lemma draw_window_renders:
  assumes "drawable mem v"
  shows "renders fb0 (draw_window mem focus v) (apply_on (hit_area v \<inter> screen fb0) (\<lambda>x y _. window_look mem focus v x y))"
proof (cases "mapped v")
  case False
  then show ?thesis by (simp add: draw_window_def hit_area_def draws_def)
next
  case True
  note g = assms [unfolded drawable_def geom_ok_def]
  let ?cy = "chrome_h v" and ?tb = "if win_id v = focus then COLOR_TB_FOCUS else COLOR_TB_PLAIN"
  let ?bar = "rect (win_x v) (win_y v) (win_w v) ?cy" and ?body = "rect (win_x v) (win_y v + ?cy) (win_w v) (win_h v - ?cy)"
  have cy: "0 \<le> ?cy" "?cy \<le> 28" by (simp_all add: chrome_h_def)
  have in_y: "in_int (win_y v + ?cy)"
    using g by (cases "window_has_ssd v") (auto simp: chrome_h_def in_int_def)
  have in_h: "in_int (win_h v - ?cy)"
    using g by (cases "window_has_ssd v") (auto simp: chrome_h_def in_int_def)
  let ?chrome = "\<lambda>fb. if window_has_ssd v then fill_rect (win_x v) (win_y v) (win_w v) DECOR_TITLEBAR_H ?tb fb else Some fb"
  let ?blit = "\<lambda>fb. case buf v of None \<Rightarrow> Some fb | Some p \<Rightarrow> blit_buffer mem v p ?cy fb"
  have chrome: "renders fb0 ?chrome (apply_on (?bar \<inter> screen fb0) (\<lambda>_ _ _. ?tb))"
  proof (cases "window_has_ssd v")
    case True
    then show ?thesis
      using fill_rect_renders [of "win_x v" "win_w v" "win_y v" ?cy fb0 ?tb] g in_y by (simp add: chrome_h_def)
  next
    case False
    then have "?bar = {}" by (auto simp: rect_def chrome_h_def)
    with False show ?thesis by (simp add: draws_def)
  qed
  have body: "renders fb0 (fill_rect (win_x v) (win_y v + ?cy) (win_w v) (win_h v - ?cy) (color v))
      (apply_on (?body \<inter> screen fb0) (\<lambda>_ _ _. color v))"
    using g by (intro fill_rect_renders) simp_all
  have blit: "renders fb0 ?blit (apply_on ((if buf v = None then {} else blit_area v ?cy) \<inter> screen fb0)
      (\<lambda>x y _. the (buf_pixel mem v (the (buf v)) ?cy x y)))"
  proof (cases "buf v")
    case None
    then show ?thesis by (simp add: draws_def)
  next
    case (Some p)
    then show ?thesis using blit_renders [of v ?cy mem p fb0] g in_y in_h by simp
  qed
  have "draw_window mem focus v = (\<lambda>fb. case ?chrome fb of None \<Rightarrow> None | Some fb1 \<Rightarrow>
      case fill_rect (win_x v) (win_y v + ?cy) (win_w v) (win_h v - ?cy) (color v) fb1 of None \<Rightarrow> None | Some fb2 \<Rightarrow> ?blit fb2)"
    using True c_int_ok [OF in_y] c_int_ok [OF in_h]
    by (auto simp: draw_window_def chrome_h_def Let_def fun_eq_iff split: option.splits)
  moreover note fbuf.draws_seq [OF chrome fbuf.draws_seq [OF body blit]]
  moreover have "apply_on ((if buf v = None then {} else blit_area v ?cy) \<inter> screen fb0)
        (\<lambda>x y _. the (buf_pixel mem v (the (buf v)) ?cy x y)) \<circ>
      apply_on (?body \<inter> screen fb0) (\<lambda>_ _ _. color v) \<circ> apply_on (?bar \<inter> screen fb0) (\<lambda>_ _ _. ?tb) =
      apply_on (hit_area v \<inter> screen fb0) (\<lambda>x y _. window_look mem focus v x y)"
  proof (intro ext)
    fix im :: image and x y :: int
    let ?xy = "(x, y)"
    have "window_has_ssd v \<Longrightarrow> 28 \<le> win_h v" using g by simp
    then have hit: "?xy \<in> hit_area v \<longleftrightarrow> ?xy \<in> ?bar \<or> ?xy \<in> ?body"
      using True cy by (cases "window_has_ssd v") (auto simp: hit_area_def rect_def chrome_h_def)
    have bar: "?xy \<in> ?bar \<Longrightarrow> y < win_y v + ?cy" and body: "?xy \<in> ?body \<Longrightarrow> \<not> y < win_y v + ?cy"
      and blit: "?xy \<in> blit_area v ?cy \<Longrightarrow> ?xy \<in> ?body"
      by (auto simp: rect_def blit_area_def)
    show "(apply_on ((if buf v = None then {} else blit_area v ?cy) \<inter> screen fb0)
        (\<lambda>x y _. the (buf_pixel mem v (the (buf v)) ?cy x y)) \<circ>
      apply_on (?body \<inter> screen fb0) (\<lambda>_ _ _. color v) \<circ> apply_on (?bar \<inter> screen fb0) (\<lambda>_ _ _. ?tb)) im x y =
      apply_on (hit_area v \<inter> screen fb0) (\<lambda>x y _. window_look mem focus v x y) im x y"
    proof (cases "?xy \<in> screen fb0")
      case True
      show ?thesis
        using hit bar body blit True
        by (cases "?xy \<in> ?body"; cases "?xy \<in> ?bar"; cases "buf v"; cases "?xy \<in> blit_area v ?cy")
          (simp_all add: apply_on_def window_look_def)
    qed (simp add: apply_on_def)
  qed
  ultimately show ?thesis by simp
qed

end
