(* ===== verification/Compositor_Scene.thy ===== *)
theory Compositor_Scene
  imports Compositor_Spec
begin

text \<open>The composed scene: what is on the screen, and the frames that cannot be drawn.\<close>

section \<open>The picture of a scene\<close>

definition scene_pixel :: "memory \<Rightarrow> window_stack \<Rightarrow> int \<Rightarrow> int \<Rightarrow> u32" where
  "scene_pixel mem s x y =
     (case window_at s x y of None \<Rightarrow> COLOR_DESKTOP | Some v \<Rightarrow> window_look mem (focus_id s) v x y)"

lemma painted_last_wins:
  "(x, y) \<in> A \<Longrightarrow>
   fold (\<lambda>v. apply_on (hit_area v \<inter> A) (\<lambda>x y _. look v x y)) ws im x y =
     (case find (\<lambda>v. mapped v \<and> hit x y v) (rev ws) of None \<Rightarrow> im x y | Some v \<Rightarrow> look v x y)"
  by (induction ws rule: rev_induct) (auto simp: apply_on_def hit_area)

lemma draw_window_renders':
  "(mapped v \<Longrightarrow> drawable mem v) \<Longrightarrow>
   renders fb0 (draw_window mem focus v) (apply_on (hit_area v \<inter> screen fb0) (\<lambda>x y _. window_look mem focus v x y))"
proof (cases "mapped v")
  case False
  then have "draw_window mem focus v = Some" by (simp add: draw_window_def fun_eq_iff)
  with False show ?thesis by (simp add: hit_area_def draws_def)
qed (simp add: draw_window_renders)

lemma composite_renders:
  assumes "fb_good fb0" "\<And>v. v \<in> set (windows s) \<Longrightarrow> mapped v \<Longrightarrow> drawable mem v"
    and "cursor_fits (cursor_x m) (cursor_y m) cur"
  shows "renders fb0 (composite mem m s cur)
    (apply_on (screen fb0) (\<lambda>x y _. cursor_over (cursor_x m) (cursor_y m) cur x y (scene_pixel mem s x y)))"
proof -
  let ?look = "window_look mem (focus_id s)"
  let ?base = "fill_rect 0 0 (fb_w fb0) (fb_h fb0) COLOR_DESKTOP"
  have base: "renders fb0 ?base (apply_on (rect 0 0 (fb_w fb0) (fb_h fb0) \<inter> screen fb0) (\<lambda>_ _ _. COLOR_DESKTOP))"
    using assms(1) by (intro fill_rect_renders) (simp_all add: fb_good_def)
  have wins: "renders fb0 (foldM (draw_window mem (focus_id s)) (windows s))
      (fold (\<lambda>v. apply_on (hit_area v \<inter> screen fb0) (\<lambda>x y _. ?look v x y)) (windows s))"
    using assms(2) by (intro fbuf.draws_fold draw_window_renders') blast
  note seq = fbuf.draws_seq [OF base fbuf.draws_seq [OF wins draw_cursor_renders [OF assms(3)]]]
  have area: "rect 0 0 (fb_w fb0) (fb_h fb0) \<inter> screen fb0 = screen fb0" by (auto simp: rect_def screen_def)
  have "(apply_on (screen fb0) (cursor_over (cursor_x m) (cursor_y m) cur) \<circ>
      fold (\<lambda>v. apply_on (hit_area v \<inter> screen fb0) (\<lambda>x y _. ?look v x y)) (windows s)) \<circ>
      apply_on (screen fb0) (\<lambda>_ _ _. COLOR_DESKTOP) =
      apply_on (screen fb0) (\<lambda>x y _. cursor_over (cursor_x m) (cursor_y m) cur x y (scene_pixel mem s x y))"
  proof (intro ext)
    fix im x y
    have out: "fold (\<lambda>v. apply_on (hit_area v \<inter> screen fb0) (\<lambda>x y _. ?look v x y)) ws im' x y = im' x y"
      if "(x, y) \<notin> screen fb0" for ws im'
      using that by (induction ws arbitrary: im') (auto simp: apply_on_def)
    show "(apply_on (screen fb0) (cursor_over (cursor_x m) (cursor_y m) cur) \<circ>
        fold (\<lambda>v. apply_on (hit_area v \<inter> screen fb0) (\<lambda>x y _. ?look v x y)) (windows s) \<circ>
        apply_on (screen fb0) (\<lambda>_ _ _. COLOR_DESKTOP)) im x y =
        apply_on (screen fb0) (\<lambda>x y _. cursor_over (cursor_x m) (cursor_y m) cur x y (scene_pixel mem s x y)) im x y"
      using out painted_last_wins [of x y "screen fb0" ?look "windows s"]
      by (auto simp: apply_on_def [of "screen fb0" "cursor_over _ _ _"] scene_pixel_def window_at_find
          apply_on_def [of "screen fb0" "\<lambda>x y _. _ x y"] apply_on_def [of "screen fb0" "\<lambda>_ _ _. _"] split: option.splits)
  qed
  moreover have "renders fb0 (\<lambda>fb. case ?base fb of None \<Rightarrow> None | Some fb1 \<Rightarrow>
      case foldM (draw_window mem (focus_id s)) (windows s) fb1 of None \<Rightarrow> None | Some fb2 \<Rightarrow>
        draw_cursor (cursor_x m) (cursor_y m) cur fb2) g \<Longrightarrow> renders fb0 (composite mem m s cur) g" for g
    by (erule renders_size [rotated]) (simp add: composite_def)
  ultimately show ?thesis using seq unfolding area by simp
qed

section \<open>Frames that cannot be drawn\<close>

text \<open>A loop fails when one of its rounds does, whatever came before.\<close>

lemma foldM_fails:
  assumes "i \<in> set is" "\<And>s. P s \<Longrightarrow> f i s = None" "\<And>j s s'. P s \<Longrightarrow> f j s = Some s' \<Longrightarrow> P s'" "P s"
  shows "foldM f is s = None"
  using assms(1,4)
proof (induction "is" arbitrary: s)
  case (Cons j js)
  then show ?case using assms(2,3) by (cases "f j s") auto
qed simp

lemma foldM_inv: "(\<And>j s s'. P s \<Longrightarrow> f j s = Some s' \<Longrightarrow> P s') \<Longrightarrow> P s \<Longrightarrow> foldM f is s = Some s' \<Longrightarrow> P s'"
  by (induction "is" arbitrary: s) (auto split: option.splits)

text \<open>What storing a pixel keeps, every drawing routine keeps.\<close>

locale drawing =
  fixes P :: "dumb_fb \<Rightarrow> bool"
  assumes store: "P fb \<Longrightarrow> fb_store fb x y v = Some fb' \<Longrightarrow> P fb'"
begin

lemma stores: "P fb \<Longrightarrow> foldM (\<lambda>x fb. fb_store fb x y v) xs fb = Some fb' \<Longrightarrow> P fb'"
  by (rule foldM_inv [of P]) (rule store)

lemma fill: "P fb \<Longrightarrow> fill_rect x y ww hh col fb = Some fb' \<Longrightarrow> P fb'"
  by (auto simp: fill_rect_def Let_def split: option.splits intro: foldM_inv [of P, OF stores])

lemma pixel: "P fb \<Longrightarrow> blit_pixel mem v p r y c fb = Some fb' \<Longrightarrow> P fb'"
  by (auto simp: blit_pixel_def split: option.splits if_splits elim: store)

lemma row: "P fb \<Longrightarrow> blit_row mem v p dy cols r fb = Some fb' \<Longrightarrow> P fb'"
  by (auto simp: blit_row_def split: option.splits if_splits intro: foldM_inv [of P, OF pixel])

lemma blit: "P fb \<Longrightarrow> blit_buffer mem v p cy0 fb = Some fb' \<Longrightarrow> P fb'"
  by (auto simp: blit_buffer_def Let_def split: option.splits intro: foldM_inv [of P, OF row])

lemma win: "P fb \<Longrightarrow> draw_window mem focus v fb = Some fb' \<Longrightarrow> P fb'"
  by (auto simp: draw_window_def Let_def split: option.splits if_splits
      intro: fill fill [OF fill] blit [OF fill] blit [OF fill [OF fill]])

lemma cursor: "P fb \<Longrightarrow> draw_cursor cx cy cur fb = Some fb' \<Longrightarrow> P fb'"
proof -
  have px: "P s \<Longrightarrow> cursor_pixel c ox r y j s = Some s' \<Longrightarrow> P s'" for c ox r y j s s'
    by (auto simp: cursor_pixel_def Let_def split: option.splits if_splits elim: store)
  have row: "P s \<Longrightarrow> cursor_row c ox oy r s = Some s' \<Longrightarrow> P s'" for c ox oy r s s'
    by (auto simp: cursor_row_def split: option.splits if_splits intro: foldM_inv [of P, OF px])
  have arrow: "P s \<Longrightarrow> arrow_pixel cx cy r c s = Some s' \<Longrightarrow> P s'" for r c s s'
    by (auto simp: arrow_pixel_def Let_def split: option.splits if_splits elim: store)
  have rows: "P s \<Longrightarrow> foldM (arrow_pixel cx cy r) cs s = Some s' \<Longrightarrow> P s'" for r cs s s'
    by (rule foldM_inv [of P]) (rule arrow)
  have arrows: "P s \<Longrightarrow> foldM (\<lambda>r. foldM (arrow_pixel cx cy r) (cs r)) rs s = Some s' \<Longrightarrow> P s'" for cs rs s s'
    by (rule foldM_inv [of P]) (rule rows)
  have image: "P s \<Longrightarrow> foldM (cursor_row c ox oy) rs s = Some s' \<Longrightarrow> P s'" for c ox oy rs s s'
    by (rule foldM_inv [of P]) (rule row)
  show "P fb \<Longrightarrow> draw_cursor cx cy cur fb = Some fb' \<Longrightarrow> P fb'"
    unfolding draw_cursor_def by (cases cur) (auto simp del: upto_rec_numeral split: option.splits if_splits intro: arrows image)
qed

lemma composite: "P fb \<Longrightarrow> composite mem m s cur fb = Some fb' \<Longrightarrow> P fb'"
proof -
  have wins: "P fb \<Longrightarrow> foldM (draw_window mem (focus_id s)) vs fb = Some fb' \<Longrightarrow> P fb'" for vs fb fb'
    by (rule foldM_inv [of P]) (rule win)
  show "P fb \<Longrightarrow> composite mem m s cur fb = Some fb' \<Longrightarrow> P fb'"
    by (auto simp: composite_def split: option.splits intro: cursor [OF wins [OF fill]])
qed

end

text \<open>No routine changes the size of the framebuffer, or which objects of the kernel it is.\<close>

definition sized :: "int \<Rightarrow> int \<Rightarrow> dumb_fb \<Rightarrow> bool" where
  "sized w h fb \<longleftrightarrow> fb_w fb = w \<and> fb_h fb = h"

interpretation sized_drawing: drawing "sized w h" for w h
  by unfold_locales (auto simp: sized_def fb_store_def Let_def split: option.splits if_splits)

lemmas sized_fill = sized_drawing.fill and sized_pixel = sized_drawing.pixel and sized_row = sized_drawing.row
  and sized_window = sized_drawing.win

definition same_object :: "dumb_fb \<Rightarrow> dumb_fb \<Rightarrow> bool" where
  "same_object fb0 fb \<longleftrightarrow> fb_handle fb = fb_handle fb0 \<and> fb_id fb = fb_id fb0 \<and> (fb_map fb = None \<longleftrightarrow> fb_map fb0 = None)"

interpretation object_drawing: drawing "same_object fb0" for fb0
  by unfold_locales (auto simp: same_object_def fb_store_def Let_def split: option.splits if_splits)

lemmas fails_sized = foldM_fails [where P = "sized w h" for w h]

lemma pixels_fail:
  "c \<in> set cs \<Longrightarrow> (\<And>fb. sized w h fb \<Longrightarrow> blit_pixel mem v p r y c fb = None) \<Longrightarrow> sized w h fb \<Longrightarrow>
   foldM (blit_pixel mem v p r y) cs fb = None"
  using fails_sized [of c cs w h "blit_pixel mem v p r y"] sized_pixel by blast

lemma rows_fail:
  "r \<in> set rs \<Longrightarrow> (\<And>fb. sized w h fb \<Longrightarrow> blit_row mem v p dy cols r fb = None) \<Longrightarrow> sized w h fb \<Longrightarrow>
   foldM (blit_row mem v p dy cols) rs fb = None"
  using fails_sized [of r rs w h "blit_row mem v p dy cols"] sized_row by blast

lemma windows_fail:
  "v \<in> set vs \<Longrightarrow> (\<And>fb. sized w h fb \<Longrightarrow> draw_window mem focus v fb = None) \<Longrightarrow> sized w h fb \<Longrightarrow>
   foldM (draw_window mem focus) vs fb = None"
  using fails_sized [of v vs w h "draw_window mem focus"] sized_window by blast

lemma blit_faults:
  assumes "sized w h fb" "(x, y) \<in> blit_area v cy0" "0 \<le> x" "x < w" "0 \<le> y" "y < h"
    and "buf_pixel mem v p cy0 x y = None"
  shows "blit_buffer mem v p cy0 fb = None"
proof -
  let ?dy = "win_y v + cy0" and ?r = "y - (win_y v + cy0)" and ?c = "x - win_x v"
  let ?cols = "if win_w v < buf_w v then win_w v else buf_w v"
  let ?rows = "if win_h v - cy0 < buf_h v then win_h v - cy0 else buf_h v"
  have "blit_pixel mem v p ?r y ?c fb = None" if "sized w h fb" for fb
    using that assms by (simp add: blit_pixel_def sized_def buf_pixel_def c_int_def)
  moreover have "?c \<in> set [0..?cols - 1]" using assms(2) by (auto simp: blit_area_def rect_def)
  ultimately have "foldM (blit_pixel mem v p ?r y) [0..?cols - 1] fb = None" if "sized w h fb" for fb
    using pixels_fail [OF _ _ that] by blast
  then have "blit_row mem v p ?dy ?cols ?r fb = None" if "sized w h fb" for fb
    using that assms by (simp add: blit_row_def sized_def c_int_def)
  moreover have "?r \<in> set [0..?rows - 1]" using assms(2) by (auto simp: blit_area_def rect_def)
  ultimately have "foldM (blit_row mem v p ?dy ?cols) [0..?rows - 1] fb = None"
    using rows_fail [OF _ _ assms(1)] by blast
  then show ?thesis by (simp add: blit_buffer_def Let_def c_int_def)
qed

lemma composite_faults:
  assumes "v \<in> set (windows s)" "\<And>fb'. sized (fb_w fb) (fb_h fb) fb' \<Longrightarrow> draw_window mem (focus_id s) v fb' = None"
  shows "composite mem m s cur fb = None"
proof -
  have "foldM (draw_window mem (focus_id s)) (windows s) fb1 = None" if "sized (fb_w fb) (fb_h fb) fb1" for fb1
    using windows_fail [OF assms(1) assms(2) that] by blast
  moreover have "fill_rect 0 0 (fb_w fb) (fb_h fb) COLOR_DESKTOP fb = Some fb1 \<Longrightarrow> sized (fb_w fb) (fb_h fb) fb1" for fb1
    using sized_fill [of "fb_w fb" "fb_h fb" fb] by (simp add: sized_def)
  ultimately show ?thesis by (auto simp: composite_def split: option.split)
qed

section \<open>Blending\<close>

lemma channel_take: "channel s px = take_bit 8 (drop_bit s px)"
  by (simp add: channel_def take_bit_eq_mask mask_eq_exp_minus_1)

lemma channel_less: "unat (channel s px) < 256"
  using take_bit_nat_less_exp [of 8 "unat (drop_bit s px)"] by (simp add: channel_take unsigned_take_bit_eq)

lemma alpha_less: "unat (drop_bit 24 (px :: u32)) < 256"
  using unsigned_less [of px, where ?'a = nat] by (simp add: drop_bit_eq_div unat_div less_mult_imp_div_less)

text \<open>The 32-bit arithmetic of the blend does not overflow, and a channel stays a channel.\<close>

lemma blend_channel_unat:
  fixes px d :: u32
  defines "a \<equiv> unat (drop_bit 24 px)"
  shows "unat (blend_channel s px d) = (unat (channel s px) * a + unat (channel s d) * (255 - a)) div 255"
    and "unat (blend_channel s px d) < 256"
proof -
  have a: "a \<le> 255" using alpha_less [of px] by (simp add: a_def)
  let ?p = "unat (channel s px)" and ?q = "unat (channel s d)"
  have p: "?p \<le> 255" "?q \<le> 255" using channel_less [of s px] channel_less [of s d] by simp_all
  have "?p * a \<le> 255 * a" "?q * (255 - a) \<le> 255 * (255 - a)" using p by simp_all
  moreover have "255 * a + 255 * (255 - a) = 255 * 255" using a by (simp add: algebra_simps)
  ultimately have sum: "?p * a + ?q * (255 - a) \<le> 255 * 255" by linarith
  have m1: "unat (channel s px * drop_bit 24 px) = ?p * a"
    using sum by (subst unat_mult_lem [THEN iffD1]) (simp_all add: a_def)
  have sub: "unat (255 - drop_bit 24 px) = 255 - a"
    using a by (subst unat_sub) (simp_all add: a_def word_le_nat_alt)
  have m2: "unat (channel s d * (255 - drop_bit 24 px)) = ?q * (255 - a)"
    using sum by (subst unat_mult_lem [THEN iffD1]) (simp_all add: sub)
  have "unat (channel s px * drop_bit 24 px + channel s d * (255 - drop_bit 24 px)) = ?p * a + ?q * (255 - a)"
    using sum by (subst unat_add_lem [THEN iffD1]) (simp_all add: m1 m2)
  then show *: "unat (blend_channel s px d) = (?p * a + ?q * (255 - a)) div 255"
    by (simp add: blend_channel_def Let_def unat_div)
  have "(?p * a + ?q * (255 - a)) div 255 \<le> 255" using div_le_mono [OF sum, of 255] by simp
  with * show "unat (blend_channel s px d) < 256" by simp
qed

lemma pack_channels:
  fixes r g b :: u32
  assumes "unat r < 256" "unat g < 256" "unat b < 256"
  defines "w \<equiv> push_bit 16 r OR push_bit 8 g OR b"
  shows "channel 16 w = r" "channel 8 w = g" "channel 0 w = b" "drop_bit 24 w = 0"
proof -
  have hi: "\<not> bit x n" if "unat x < 256" "8 \<le> n" for x :: u32 and n
  proof -
    have "take_bit 8 x = x" using that(1) by (simp add: word_unat_eq_iff unsigned_take_bit_eq take_bit_nat_eq_self)
    then show ?thesis using that(2) by (metis bit_take_bit_iff not_le)
  qed
  note h = hi [OF assms(1)] hi [OF assms(2)] hi [OF assms(3)]
  have w: "bit w n \<longleftrightarrow> (n < 8 \<and> bit b n) \<or> (8 \<le> n \<and> n < 16 \<and> bit g (n - 8)) \<or> (16 \<le> n \<and> n < 24 \<and> bit r (n - 16))"
    if "n < 32" for n
    using that h [of n] h [of "n - 8"] h [of "n - 16"]
    by (cases "n < 8"; cases "n < 16"; cases "n < 24") (simp_all add: w_def bit_or_iff bit_push_bit_iff)
  have ch: "bit (channel s w) n \<longleftrightarrow> n < 8 \<and> bit w (s + n)" for s n
    by (simp add: channel_take bit_take_bit_iff bit_drop_bit_eq)
  show "channel 16 w = r"
  proof (rule bit_eqI)
    fix n show "bit (channel 16 w) n = bit r n" using h(1) [of n] w [of "16 + n"] by (cases "n < 8") (simp_all add: ch)
  qed
  show "channel 8 w = g"
  proof (rule bit_eqI)
    fix n show "bit (channel 8 w) n = bit g n" using h(2) [of n] w [of "8 + n"] by (cases "n < 8") (simp_all add: ch)
  qed
  show "channel 0 w = b"
  proof (rule bit_eqI)
    fix n show "bit (channel 0 w) n = bit b n" using h(3) [of n] w [of n] by (cases "n < 8") (simp_all add: ch)
  qed
  show "drop_bit 24 w = 0"
  proof (rule bit_eqI)
    fix n show "bit (drop_bit 24 w) n = bit (0 :: u32) n"
      using w [of "24 + n"] bit_imp_le_length [of w "24 + n"] by (cases "n < 8") (auto simp: bit_drop_bit_eq)
  qed
qed

section \<open>A concrete screen\<close>

text \<open>A 2x1 framebuffer, the arrow at its left pixel, and the demo scene behind it.\<close>

definition tiny_fb :: dumb_fb where
  "tiny_fb = \<lparr>fb_id = 1, fb_handle = 1, fb_stride = 8, fb_size = 8, fb_map = Some [0, 0], fb_w = 2, fb_h = 1\<rparr>"

definition tiny_wm :: wm where
  "tiny_wm = \<lparr>screen_w = 2, screen_h = 1, cursor_x = 0, cursor_y = 0, moving = False, move_id = 0,
     grab_dx = 0, grab_dy = 0, reconfigured_id = 0\<rparr>"

lemma tiny_good: "fb_good tiny_fb"
  by (simp add: fb_good_def tiny_fb_def in_int_def)

lemma tiny_cursor: "cursor_fits (cursor_x tiny_wm) (cursor_y tiny_wm) None"
  by (simp add: cursor_fits_def origin_fits_def tiny_wm_def in_int_def)

text \<open>An application window at the origin, undecorated, without a buffer.\<close>

definition tiny_window :: window where
  "tiny_window = \<lparr>win_id = 1, role = WIN_NORMAL, win_x = 0, win_y = 0, win_w = 2, win_h = 1, mapped = True,
     color = 7, title = [], buf = None, buf_w = 0, buf_h = 0, buf_stride = 0, snapped = False,
     saved_x = 0, saved_y = 0, saved_w = 0, saved_h = 0, app_decorated = True\<rparr>"

definition tiny_stack :: "window \<Rightarrow> window_stack" where
  "tiny_stack v = \<lparr>windows = [v], focus_id = 0, next_id = 2\<rparr>"

section \<open>Properties\<close>

text \<open>
  C5: What a frame shows is exactly the scene: under the cursor, each pixel of the screen is
  the look of the window the hit-test returns there, or the desktop colour, and the
  framebuffer keeps its identity and shape. This is so, and no access is out of bounds and
  no addition overflows, given that
  \<^item> the framebuffer is mapped and its mapping covers its rows (\<open>fb_good\<close>);
  \<^item> every mapped window is \<open>drawable\<close>: its rectangle stays within \<open>int\<close>, its height is at
    least the title bar's if it has one, and the rows of its buffer are in the memory it
    names;
  \<^item> the cursor and its hotspot stay within \<open>int\<close> and its image is complete (\<open>cursor_fits\<close>).
  The code checks none of the three; \<open>geometry_overflow_faults\<close> and \<open>short_stride_faults\<close>
  below show drawings that go wrong without the second.
\<close>

theorem composite_exact:
  assumes "fb_good fb" "\<And>v. v \<in> set (windows s) \<Longrightarrow> mapped v \<Longrightarrow> drawable mem v"
    and "cursor_fits (cursor_x m) (cursor_y m) cur"
  shows "\<exists>fb'. composite mem m s cur fb = Some fb' \<and> fb' = fb\<lparr>fb_map := fb_map fb'\<rparr> \<and>
    (\<forall>x y. (x, y) \<in> screen fb \<longrightarrow>
       fb_load fb' x y = Some (cursor_over (cursor_x m) (cursor_y m) cur x y (scene_pixel mem s x y)))"
proof -
  obtain fb' where fb': "composite mem m s cur fb = Some fb'" "fb_like fb fb'"
      "picture fb' = apply_on (screen fb)
        (\<lambda>x y _. cursor_over (cursor_x m) (cursor_y m) cur x y (scene_pixel mem s x y)) (picture fb)"
    using composite_renders [OF assms] fb_like_refl [OF assms(1)] by (auto simp: draws_def)
  then have "fb_load fb' x y = Some (cursor_over (cursor_x m) (cursor_y m) cur x y (scene_pixel mem s x y))"
    if "(x, y) \<in> screen fb" for x y
    using fb_load_law [OF fb'(2) that] that by (simp add: apply_on_def)
  moreover have "fb' = fb\<lparr>fb_map := fb_map fb'\<rparr>" using fb'(2) by (simp only: fb_like_def)
  ultimately show ?thesis using fb'(1) by blast
qed

theorem composite_exact_witness:
  "\<exists>fb'. composite (\<lambda>_. None) tiny_wm demo_stack None tiny_fb = Some fb' \<and>
     fb_load fb' 0 0 = Some 0 \<and> fb_load fb' 1 0 = Some (color (windows demo_stack ! 0))"
proof -
  have "drawable (\<lambda>_. None) v" if "v \<in> set (windows demo_stack)" "mapped v" for v
    using that
    by (auto simp: demo_stack_defs Let_def drawable_def geom_ok_def in_int_def)
  from composite_exact [OF tiny_good this tiny_cursor]
  obtain fb' where fb': "composite (\<lambda>_. None) tiny_wm demo_stack None tiny_fb = Some fb'"
      "\<And>x y. (x, y) \<in> screen tiny_fb \<Longrightarrow> fb_load fb' x y =
         Some (cursor_over (cursor_x tiny_wm) (cursor_y tiny_wm) None x y (scene_pixel (\<lambda>_. None) demo_stack x y))"
    by blast
  have "scene_pixel (\<lambda>_. None) demo_stack 1 0 = color (windows demo_stack ! 0)"
    by (simp add: scene_pixel_def window_at_def demo_stack_defs Let_def hit_def window_look_def chrome_h_def
        window_has_ssd_def eval_nat_numeral)
  then have "fb_load fb' 0 0 = Some 0" "fb_load fb' 1 0 = Some (color (windows demo_stack ! 0))"
    using fb'(2) [of 0 0] fb'(2) [of 1 0]
    by (simp_all add: screen_def tiny_fb_def tiny_wm_def cursor_over_def arrow_over_def CURSOR_def)
  with fb'(1) show ?thesis by blast
qed

text \<open>
  The cursor's alpha blend is exact: in 32-bit arithmetic without overflow, each
  channel of the result is the weighted mean of the cursor's and the screen's channel,
  rounded down, and no channel spills into another.
\<close>

theorem cursor_blend_channels:
  assumes "s = 0 \<or> s = 8 \<or> s = 16" "a = unat (drop_bit 24 px)"
  shows "unat (channel s (cursor_blend px d)) = (unat (channel s px) * a + unat (channel s d) * (255 - a)) div 255 \<and>
    (a \<noteq> 0 \<longrightarrow> drop_bit 24 (cursor_blend px d) = 0)"
proof -
  have eq: "drop_bit 24 px = 0 \<longleftrightarrow> a = 0" "drop_bit 24 px = 0xff \<longleftrightarrow> a = 255"
    by (simp_all add: assms(2) word_unat_eq_iff)
  consider "a = 0" | "a = 255" | "a \<noteq> 0" "a \<noteq> 255" by blast
  then show ?thesis
  proof cases
    case 1
    then show ?thesis using eq by (simp add: cursor_blend_def)
  next
    case 2
    define rgb :: u32 where "rgb = 0x00ffffff"
    have mask: "bit rgb n \<longleftrightarrow> n < 24" for n
      using bit_mask_iff [of 24 n, where 'a = u32] by (auto simp: rgb_def mask_eq_exp_minus_1)
    have "channel s (px AND rgb) = channel s px"
      using assms(1) by (intro bit_eqI) (auto simp: channel_take bit_take_bit_iff bit_drop_bit_eq bit_and_iff mask)
    moreover have "drop_bit 24 (px AND rgb) = 0"
      by (intro bit_eqI) (simp add: bit_drop_bit_eq bit_and_iff mask)
    ultimately show ?thesis using 2 eq by (simp add: cursor_blend_def rgb_def)
  next
    case 3
    then have "cursor_blend px d = push_bit 16 (blend_channel 16 px d) OR push_bit 8 (blend_channel 8 px d) OR
        blend_channel 0 px d"
      using eq by (simp add: cursor_blend_def)
    then show ?thesis
      using assms blend_channel_unat(1) [of _ px d] pack_channels [OF blend_channel_unat(2) blend_channel_unat(2) blend_channel_unat(2)]
      by auto
  qed
qed

theorem cursor_blend_channels_witness:
  "unat (channel 8 (cursor_blend 0x80ff8000 0x00204060)) = 96"
  using cursor_blend_channels [of 8 128 "0x80ff8000" "0x00204060"] by (simp add: channel_def)

lemma stride_readable:
  assumes "mem (Mapping a) = Some bs" "length bs = buffer_len b"
    and "4 * unat (b_width b) \<le> unat (b_stride b)" "unat (b_stride b) < 2 ^ 31"
  shows "buf_readable mem (attach_buffer b a v) (Mapping a) cy0"
proof -
  let ?v = "attach_buffer b a v" and ?s = "unat (b_stride b)" and ?h = "unat (b_height b)"
  have small: "int_of_u32 u = int (unat u)" if "unat u < 2 ^ 31" for u
  proof -
    have "int (unat u) < int (2 ^ 31)" using that by (simp only: of_nat_less_iff)
    then have "signed_take_bit 31 (uint u) = uint u" by (intro signed_take_bit_int_eq_self) (simp_all add: order_trans [of _ 0])
    then show ?thesis by (simp add: int_of_u32_def sint_uint)
  qed
  have stride: "buf_stride ?v = int ?s" "buf_w ?v = int (unat (b_width b))"
    using assms(3,4) small [of "b_width b"] small [OF assms(4)] by (simp_all add: attach_buffer_def)
  have height: "buf_h ?v \<le> int ?h"
    by (simp add: attach_buffer_def int_of_u32_def sint_uint signed_take_bit_int_less_eq_self_iff order_trans [of _ 0])
  have "buf_pixel mem ?v (Mapping a) cy0 x y \<noteq> None" if "(x, y) \<in> blit_area ?v cy0" for x y
  proof -
    let ?r = "y - (win_y ?v + cy0)" and ?c = "x - win_x ?v"
    have rc: "0 \<le> ?r" "?r < int ?h" "0 \<le> ?c" "?c < int (unat (b_width b))"
      using that height stride by (auto simp: blit_area_def rect_def)
    have "?r * int ?s + int ?s \<le> int ?h * int ?s"
      using rc mult_right_mono [of "?r + 1" "int ?h" "int ?s"] by (simp add: algebra_simps)
    moreover have "4 * ?c + 4 \<le> int ?s"
    proof -
      have "int (4 * unat (b_width b)) \<le> int ?s" using assms(3) by (simp only: of_nat_le_iff)
      with rc(4) show ?thesis by simp
    qed
    ultimately have "?r * int ?s + 4 * ?c + 4 \<le> int ?h * int ?s" "0 \<le> ?r * int ?s + 4 * ?c" using rc by simp_all
    moreover have "int (length bs) = int ?h * int ?s" by (simp add: assms(2) buffer_len_def mult.commute)
    ultimately show ?thesis using assms(1) by (simp add: buf_pixel_def mem_load_def stride nat_le_iff)
  qed
  then show ?thesis by (auto simp: buf_readable_def)
qed

text \<open>
  A committed buffer whose rows fit the stride (and whose stride is positive as an
  \<open>int\<close>) is readable wherever the window shows it, whatever the window's size.
\<close>

theorem commit_stride_readable:
  assumes "mem (Mapping a) = Some bs" "length bs = buffer_len b"
    and "4 * unat (b_width b) \<le> unat (b_stride b)" "unat (b_stride b) < 2 ^ 31"
  shows "buf_readable mem (attach_buffer b a v) (Mapping a) cy0"
  using assms by (rule stride_readable)

definition tiny_buffer :: "u32 \<Rightarrow> cl_buffer" where
  "tiny_buffer stride = \<lparr>b_kind = 0, b_width = 2, b_height = 1, b_stride = stride, b_format = CL_FORMAT_XRGB8888,
     b_modifier = 0, b_has_fence = 0, b_pad = 0\<rparr>"

theorem commit_stride_readable_witness:
  "buf_readable (\<lambda>_. Some (replicate 8 0)) (attach_buffer (tiny_buffer 8) 0 tiny_window) (Mapping 0) 0"
  by (rule commit_stride_readable [where bs = "replicate 8 0"]) (simp_all add: tiny_buffer_def buffer_len_def)

lemma draw_window_blits:
  assumes "draw_window mem focus v fb = Some r" "mapped v" "buf v = Some p"
  shows "\<exists>fb1 fb2 yc hc. (fb1 = fb \<or> (\<exists>col. fill_rect (win_x v) (win_y v) (win_w v) DECOR_TITLEBAR_H col fb = Some fb1)) \<and>
    fill_rect (win_x v) yc (win_w v) hc (color v) fb1 = Some fb2 \<and> blit_buffer mem v p (chrome_h v) fb2 = Some r"
proof (cases "window_has_ssd v")
  case True
  with assms show ?thesis unfolding draw_window_def Let_def chrome_h_def
    by (simp split: option.splits) blast
next
  case False
  with assms show ?thesis unfolding draw_window_def Let_def chrome_h_def
    by (simp split: option.splits) blast
qed

lemma draw_window_faults:
  assumes "mapped v" "buf v = Some p" "sized w h fb"
    and "\<And>fb. sized w h fb \<Longrightarrow> blit_buffer mem v p (chrome_h v) fb = None"
  shows "draw_window mem focus v fb = None"
proof (rule ccontr)
  assume "draw_window mem focus v fb \<noteq> None"
  then obtain r where "draw_window mem focus v fb = Some r" by blast
  from draw_window_blits [OF this assms(1,2)] obtain fb2 where "sized w h fb2" "blit_buffer mem v p (chrome_h v) fb2 = Some r"
    using assms(3) sized_fill by metis
  with assms(4) show False by simp
qed

text \<open>
  The compositor reads past the mapping of a buffer whose rows are wider than its
  stride. The commit handler accepts such a buffer: it looks at neither the width nor the
  stride beyond being non-zero. The row that runs over has only to be visible.
\<close>

theorem short_stride_faults:
  assumes "v = attach_buffer b a v0" "v \<in> set (windows s)" "mapped v"
    and "mem (Mapping a) = Some bs" "length bs = buffer_len b" "unat (b_stride b) < 2 ^ 31"
    and "buf_h v = int (unat (b_height b))"
    and "x = win_x v + int (unat (b_stride b) div 4)" "y = win_y v + chrome_h v + int (unat (b_height b)) - 1"
    and "(x, y) \<in> blit_area v (chrome_h v)" "(x, y) \<in> screen fb"
  shows "composite mem m s cur fb = None"
proof -
  let ?s = "unat (b_stride b)" and ?h = "unat (b_height b)"
  have "int (unat (b_stride b)) < int (2 ^ 31)" using assms(6) by (simp only: of_nat_less_iff)
  then have "signed_take_bit 31 (uint (b_stride b)) = uint (b_stride b)"
    by (intro signed_take_bit_int_eq_self) (simp_all add: order_trans [of _ 0])
  then have stride: "buf_stride v = int ?s" using assms(1) by (simp add: attach_buffer_def int_of_u32_def sint_uint)
  have "0 < int ?h" using assms(7,9,10) by (auto simp: blit_area_def rect_def simp del: int_nat_eq uint_nat of_nat_unat)
  then have h: "0 < ?h" by (simp only: of_nat_0_less_iff)
  have buf: "buf v = Some (Mapping a)" using assms(1) by (simp add: attach_buffer_def)
  have "int ?s < 4 * int (?s div 4) + 4" using div_mult_mod_eq [of ?s 4] mod_less_divisor [of 4 ?s] by linarith
  moreover have "(int ?h - 1) * int ?s + int ?s = int ?h * int ?s" by (simp add: algebra_simps)
  moreover have "int (length bs) = int ?h * int ?s" by (simp add: assms(5) buffer_len_def mult.commute)
  ultimately have "int (length bs) < (int ?h - 1) * int ?s + 4 * int (?s div 4) + 4" by linarith
  then have "mem_load mem (Mapping a) ((int ?h - 1) * int ?s + 4 * int (?s div 4)) = None"
    using assms(4) h by (simp add: mem_load_def) linarith
  then have "buf_pixel mem v (Mapping a) (chrome_h v) x y = None"
    by (simp add: buf_pixel_def stride assms(8,9))
  then have "blit_buffer mem v (Mapping a) (chrome_h v) fb' = None" if "sized (fb_w fb) (fb_h fb) fb'" for fb'
    using assms(10,11) that by (intro blit_faults [of "fb_w fb" "fb_h fb" _ x y]) (auto simp: screen_def)
  then show ?thesis
    using draw_window_faults [OF assms(3) buf, of "fb_w fb" "fb_h fb" _ mem] by (intro composite_faults [OF assms(2)]) blast
qed

theorem short_stride_faults_witness:
  "buffer_ok (tiny_buffer 4) \<and>
   composite (\<lambda>_. Some (replicate 4 0)) tiny_wm (tiny_stack (attach_buffer (tiny_buffer 4) 0 tiny_window)) None tiny_fb = None"
proof
  show "buffer_ok (tiny_buffer 4)" by (simp add: buffer_ok_def tiny_buffer_def)
  let ?v = "attach_buffer (tiny_buffer 4) 0 tiny_window"
  show "composite (\<lambda>_. Some (replicate 4 0)) tiny_wm (tiny_stack ?v) None tiny_fb = None"
    by (rule short_stride_faults [where v = ?v and b = "tiny_buffer 4" and v0 = tiny_window and a = 0, OF refl _ _ refl _ _ _ refl refl])
      (simp_all add: tiny_stack_def tiny_buffer_def tiny_window_def attach_buffer_def buffer_len_def int_of_u32_def
        blit_area_def rect_def chrome_h_def window_has_ssd_def screen_def tiny_fb_def)
qed

text \<open>
  A client that gives its window a right edge beyond the range of \<open>int\<close> makes the
  compositor's arithmetic overflow, which C leaves undefined: nothing in the way checks
  the coordinates.
\<close>

theorem geometry_overflow_faults:
  assumes "stack_wf s" "window_by_id s i = Some v" "mapped v" "0 < w" "\<not> in_int (x + w)"
  shows "composite mem m (window_set_geometry s i x y w h) cur fb = None"
proof -
  let ?v = "v\<lparr>win_x := x, win_y := y, win_w := w, win_h := (if h > 0 then h else win_h v)\<rparr>"
  have "window_by_id (window_set_geometry s i x y w h) i = Some ?v"
    using assms(2,4) by (simp add: window_set_geometry_def by_id_modify)
  then have mem: "?v \<in> set (windows (window_set_geometry s i x y w h))" by (rule window_by_id_SomeD [THEN conjunct2])
  have "fill_rect x yy w hh col fb' = None" for yy hh col fb'
    using assms(5) by (simp add: fill_rect_def c_int_def)
  then have "draw_window mem focus ?v fb' = None" for focus fb'
    using assms(3) by (simp add: draw_window_def Let_def split: option.split)
  then show ?thesis by (intro composite_faults [OF mem])
qed

theorem geometry_overflow_faults_witness:
  "composite (\<lambda>_. None) tiny_wm (window_set_geometry demo_stack 2 2147483647 0 1 1) None tiny_fb = None"
proof -
  obtain v where "window_by_id demo_stack 2 = Some v" "mapped v"
    by (auto simp: demo_stack_defs window_by_id_def window_index_def Let_def)
  then show ?thesis by (rule geometry_overflow_faults [OF demo_stack_wf]) (simp_all add: in_int_def)
qed

end
