(* ===== verification/Wayland_Spec.thy ===== *)
theory Wayland_Spec
  imports Wayland_Run Compositor_Scene
begin

text \<open>
  Runs of the Wayland frontend: clients that destroy their objects in the order the
  protocol asks for cannot make it touch freed memory, and every pixel copy a window shows
  is there for the compositor to read. Clients that do not, can.
\<close>

section \<open>Requests and runs\<close>

text \<open>
  Requests of clients, the destruction of their objects, what the server routes to the
  frontend, and (\<open>R_Stack\<close>) a change of the window stack by another component.
\<close>

datatype wl_request =
    R_Create_Surface wl_client bool
  | R_Destroy_Surface wl_addr
  | R_Attach wl_addr "nat option"
  | R_Frame wl_addr "wl_res_id option"
  | R_Frame_Gone wl_res_id
  | R_Commit bool wl_addr
  | R_Get_Xdg_Surface wl_client wl_addr "wl_res_id option"
  | R_Destroy_Xdg_Surface wl_res_id
  | R_Get_Toplevel wl_client wl_res_id "wl_res_id option"
  | R_Destroy_Toplevel wl_res_id
  | R_Set_Title wl_res_id string
  | R_Get_Decoration wl_client wl_res_id "wl_res_id option"
  | R_New_Buffer nat "shm_buffer option"
  | R_Drop_Buffer nat
  | R_Get_Pointer "wl_res option" wl_client
  | R_Get_Keyboard "wl_res option" wl_client
  | R_Release wl_res_id
  | R_Motion int int
  | R_Button u32 bool
  | R_Key u32 bool
  | R_Focus u32
  | R_Dispatch
  | R_Stack window_stack

fun wl_step :: "wl_request \<Rightarrow> wl_frontend \<Rightarrow> wl_frontend option" where
  "wl_step (R_Create_Surface c ok) f = Some (comp_create_surface c ok f)"
| "wl_step (R_Destroy_Surface a) f = surface_resource_destroy a f"
| "wl_step (R_Attach a b) f = surf_attach a b f"
| "wl_step (R_Frame a cb) f = surf_frame a cb f"
| "wl_step (R_Frame_Gone cb) f = Some (frame_callback_destroy cb f)"
| "wl_step (R_Commit ok a) f = surf_commit ok a f"
| "wl_step (R_Get_Xdg_Surface c a r) f = wm_get_xdg_surface c a r f"
| "wl_step (R_Destroy_Xdg_Surface x) f = xdg_surface_resource_destroy x f"
| "wl_step (R_Get_Toplevel c x r) f = xs_get_toplevel c x r f"
| "wl_step (R_Destroy_Toplevel t) f = toplevel_resource_destroy t f"
| "wl_step (R_Set_Title t str) f = tl_set_title t str f"
| "wl_step (R_Get_Decoration c t r) f = decomgr_get c t r f"
| "wl_step (R_New_Buffer b shm) f = Some (f\<lparr>buffers := (buffers f)(b \<mapsto> shm)\<rparr>)"
| "wl_step (R_Drop_Buffer b) f = Some (f\<lparr>buffers := (buffers f)(b := None)\<rparr>)"
| "wl_step (R_Get_Pointer r c) f = Some (seat_get_pointer r c f)"
| "wl_step (R_Get_Keyboard r c) f = Some (seat_get_keyboard r c f)"
| "wl_step (R_Release r) f = Some (seat_resource_unlink r f)"
| "wl_step (R_Motion gx gy) f = Some (wl_frontend_pointer_motion gx gy f)"
| "wl_step (R_Button b p) f = Some (wl_frontend_pointer_button b p f)"
| "wl_step (R_Key k p) f = Some (wl_frontend_keyboard_key k p f)"
| "wl_step (R_Focus i) f = Some (wl_frontend_keyboard_focus i f)"
| "wl_step R_Dispatch f = Some (snd (wl_frontend_dispatch f))"
| "wl_step (R_Stack st) f = Some (f\<lparr>wl_stack := st\<rparr>)"

text \<open>
  The order the protocol asks for: an object is used and destroyed while it lives, a
  surface is destroyed after its role objects and a buffer not while it waits for a
  commit; the handles are not used up; a new buffer has whole rows; and other components
  leave the windows of the frontend alone.
\<close>

definition live_surf :: "wl_frontend \<Rightarrow> wl_addr \<Rightarrow> bool" where
  "live_surf f a \<longleftrightarrow> a \<in> fs_addr ` set (surfaces f)"

fun wl_ok :: "wl_frontend \<Rightarrow> wl_request \<Rightarrow> bool" where
  "wl_ok f (R_Destroy_Surface a) \<longleftrightarrow> live_surf f a \<and> a \<notin> ran (toplevels f) \<union> ran (xdg_surfaces f)"
| "wl_ok f (R_Attach a b) \<longleftrightarrow> live_surf f a \<and> (b = None \<or> the b \<in> dom (buffers f))"
| "wl_ok f (R_Frame a cb) \<longleftrightarrow> live_surf f a"
| "wl_ok f (R_Commit ok a) \<longleftrightarrow> live_surf f a \<and> \<not> ids_exhausted (wl_stack f)"
| "wl_ok f (R_Get_Xdg_Surface c a r) \<longleftrightarrow> live_surf f a"
| "wl_ok f (R_Destroy_Xdg_Surface x) \<longleftrightarrow> x \<in> dom (xdg_surfaces f)"
| "wl_ok f (R_Get_Toplevel c x r) \<longleftrightarrow> x \<in> dom (xdg_surfaces f)"
| "wl_ok f (R_Destroy_Toplevel t) \<longleftrightarrow> t \<in> dom (toplevels f)"
| "wl_ok f (R_Set_Title t str) \<longleftrightarrow> t \<in> dom (toplevels f)"
| "wl_ok f (R_Get_Decoration c t r) \<longleftrightarrow> t \<in> dom (toplevels f)"
| "wl_ok f (R_New_Buffer b shm) \<longleftrightarrow> shm = None \<or> shm_fits (the shm)"
| "wl_ok f (R_Drop_Buffer b) \<longleftrightarrow> \<not> (\<exists>s \<in> set (surfaces f). attached s \<and> pending_buffer s = Some b)"
| "wl_ok f (R_Stack st) \<longleftrightarrow> stack_wf st \<and> cview st = cview (wl_stack f)"
| "wl_ok f r \<longleftrightarrow> True"

lemma surf_live: "wl_inv f \<Longrightarrow> live_surf f a \<Longrightarrow> \<exists>s. surf_at f a = Some s \<and> s \<in> set (surfaces f) \<and> fs_addr s = a"
  using surf_at_live surf_at_Some unfolding live_surf_def by blast

lemma role_live: "wl_inv f \<Longrightarrow> toplevels f t = Some a \<or> xdg_surfaces f t = Some a \<Longrightarrow> live_surf f a"
  using wl_invD(4) unfolding live_surf_def by (blast intro: ranI)

text \<open>A handler that assigns to fields of one surface which the core does not depend on.\<close>

lemma wl_inv_touch:
  assumes "wl_inv f" "s0 \<in> set (surfaces f)" "fs_addr s = fs_addr s0" "content s = content s0" "cw s = cw s0" "ch s = ch s0"
    "fs_server_id s = fs_server_id s0" "xdg_toplevel s0 \<noteq> None \<Longrightarrow> xdg_toplevel s \<noteq> None"
    and "attached s \<Longrightarrow> pending_buffer s \<noteq> None \<Longrightarrow> the (pending_buffer s) \<in> dom (buffers f)"
    and g: "surfaces g = surfaces f" "contents g = contents f" "next_content g = next_content f" "next_addr g = next_addr f"
      "buffers g = buffers f" "stack_wf (wl_stack g)" "cview (wl_stack g) = cview (wl_stack f)"
      "ran (toplevels g) \<union> ran (xdg_surfaces g) \<subseteq> fs_addr ` set (surfaces f)"
  shows "wl_inv (put_surf s g)"
proof -
  have "replaced s0 s f (put_surf s g)" using assms(2,3) g by (intro replaced_put) auto
  moreover have "xdg_toplevel s \<noteq> None \<or> fs_server_id s = 0"
    using coreD(2) [OF wl_invD(1) [OF assms(1)] assms(2)] assms(7,8) by (auto simp: copy_ok_def)
  ultimately show ?thesis
    using assms(4-7,9) g by (intro wl_inv_replaced [OF assms(1)]) (auto intro!: core_touch [OF wl_invD(1) [OF assms(1)] assms(2)])
qed

lemma ran_upd: "ran (m(k \<mapsto> a)) \<subseteq> insert a (ran m)" "ran (m(k := None)) \<subseteq> ran m"
  by (auto simp: ran_def split: if_splits)

section \<open>Every step keeps the invariant\<close>

lemma create_surface_inv: "wl_inv f \<Longrightarrow> wl_inv (comp_create_surface c ok f)"
proof (cases ok)
  case True
  assume inv: "wl_inv f"
  let ?s = "\<lparr>fs_addr = next_addr f, fs_client = c, xdg_surface = None, xdg_toplevel = None, decoration = None,
     attached = False, pending_buffer = None, initial_configured = False, content = None, cw = 0, ch = 0,
     fs_server_id = 0, fs_title = []\<rparr>"
  note core = wl_invD(1) [OF inv]
  have lt: "\<forall>s \<in> set (surfaces f). fs_addr s < next_addr f" using wl_invD(3) [OF inv] by blast
  then have new: "next_addr f \<notin> fs_addr ` set (surfaces f)" by auto
  have "core (insert ?s (set (surfaces f))) (contents f) (next_content f) (wl_stack f)"
    using core by (auto simp: core_def copy_ok_def window_ok_def separate_def split: option.splits)
  then show ?thesis
    using True wl_invD(2,4-6) [OF inv] new lt
    by (auto simp: comp_create_surface_def wl_inv_def less_SucI)
qed (simp add: comp_create_surface_def wl_inv_emit)

lemma destroy_surface_inv:
  assumes "wl_inv f" "wl_ok f (R_Destroy_Surface a)"
  shows "\<exists>f'. surface_resource_destroy a f = Some f' \<and> wl_inv f'"
proof -
  obtain s where s: "surf_at f a = Some s" "s \<in> set (surfaces f)" "fs_addr s = a"
    using surf_live [OF assms(1)] assms(2) by auto
  let ?s = "s\<lparr>fs_server_id := 0, content := None, cw := 0, ch := 0\<rparr>"
  define f1 where "f1 = surface_unmap s f"
  have r: "replaced s ?s f f1"
    unfolding f1_def using s(2) by (auto simp: surface_unmap_def Let_def intro!: replaced_put)
  have inv1: "wl_inv f1" unfolding f1_def using assms(1) s(2) by (intro wl_inv_unmap [OF assms(1) s(2)]) simp_all
  have roles: "toplevels f1 = toplevels f" "xdg_surfaces f1 = xdg_surfaces f"
    by (simp_all add: f1_def surface_unmap_def Let_def)
  have s1: "?s \<in> set (surfaces f1)" using replaced_set(1) [OF assms(1) r] by simp
  let ?f' = "f1\<lparr>surfaces := filter (\<lambda>t. fs_addr t \<noteq> a) (surfaces f1)\<rparr>"
  have "set (surfaces ?f') = set (surfaces f1) - {?s}"
    using wl_invD(2) [OF inv1] s1 s(3) by (auto simp: distinct_map inj_on_def)
  moreover have "core (set (surfaces f1) - {?s}) (contents f1) (next_content f1) (wl_stack f1)"
    using wl_invD(1) [OF inv1] by (fastforce simp: core_def)
  moreover have "ran (toplevels f) \<union> ran (xdg_surfaces f) \<subseteq> fs_addr ` set (surfaces f1) - {a}"
    using wl_invD(4) [OF inv1] assms(2) roles by auto
  moreover have "fs_addr ` set (surfaces f1) - {a} \<subseteq> fs_addr ` (set (surfaces f1) - {?s})" using s(3) by auto
  ultimately have "wl_inv ?f'"
    using wl_invD(2,3,5,6) [OF inv1] unfolding wl_inv_def
    by (simp add: roles distinct_map_filter) blast
  then show ?thesis using s(1) by (simp add: surface_resource_destroy_def f1_def Let_def)
qed

lemma set_title_inv:
  assumes "wl_inv f" "surf_at f a = Some s" "toplevels f t = Some a"
  shows "\<exists>f'. tl_set_title t str f = Some f' \<and> wl_inv f'"
proof -
  have s: "s \<in> set (surfaces f)" "fs_addr s = a" using surf_at_Some assms(2) by auto
  let ?ti = "snprintf_s 64 str"
  let ?g = "if fs_server_id s \<noteq> 0
    then f\<lparr>wl_stack := window_modify (wl_stack f) (fs_server_id s) (\<lambda>v. v\<lparr>title := snprintf_s TITLE_CAP ?ti\<rparr>)\<rparr> else f"
  have wf: "stack_wf (wl_stack f)" using coreD(1) [OF wl_invD(1) [OF assms(1)]] .
  have "cview (window_modify (wl_stack f) (fs_server_id s) (\<lambda>v. v\<lparr>title := snprintf_s TITLE_CAP ?ti\<rparr>)) = cview (wl_stack f)"
    by (rule cview_modify_same) (auto simp: shown_def split: option.splits pixels.splits)
  then have view: "cview (wl_stack ?g) = cview (wl_stack f)" "stack_wf (wl_stack ?g)"
    using wf by (auto intro!: stack_wf_modify)
  have "tl_set_title t str f = Some (put_surf (s\<lparr>fs_title := ?ti\<rparr>) ?g)"
    using assms(2,3) by (simp add: tl_set_title_def Let_def put_surf_def)
  moreover have "wl_inv (put_surf (s\<lparr>fs_title := ?ti\<rparr>) ?g)"
    using view wl_invD(4) [OF assms(1)] wl_invD(5) [OF assms(1) s(1)] s(1)
    by (intro wl_inv_touch [OF assms(1) s(1)]) auto
  ultimately show ?thesis by blast
qed

lemma wl_step_inv:
  assumes "wl_inv f" "wl_ok f r"
  shows "\<exists>f'. wl_step r f = Some f' \<and> wl_inv f'"
proof (cases r)
  case (R_Create_Surface c ok)
  with create_surface_inv [OF assms(1)] show ?thesis by simp
next
  case (R_Destroy_Surface a)
  with destroy_surface_inv [OF assms(1)] assms(2) show ?thesis by simp
next
  case (R_Attach a b)
  then obtain s where s: "surf_at f a = Some s" "s \<in> set (surfaces f)" "fs_addr s = a"
    using surf_live [OF assms(1)] assms(2) by auto
  have "wl_inv (put_surf (s\<lparr>attached := True, pending_buffer := b\<rparr>) f)"
    using assms(2) R_Attach wl_invD(4) [OF assms(1)] coreD(1) [OF wl_invD(1) [OF assms(1)]]
    by (intro wl_inv_touch [OF assms(1) s(2)]) auto
  with R_Attach s show ?thesis by (simp add: surf_attach_def)
next
  case (R_Frame a cb)
  then obtain s where s: "surf_at f a = Some s" using surf_live [OF assms(1)] assms(2) by auto
  have "same_core f (case cb of None \<Rightarrow> f | Some r \<Rightarrow> f\<lparr>frame_callbacks := r # frame_callbacks f\<rparr>)"
    by (simp add: same_core_def split: option.split)
  with R_Frame s wl_inv_same [OF assms(1)] show ?thesis by (simp add: surf_frame_def)
next
  case (R_Commit ok a)
  with surface_commit_inv [OF assms(1), of a ok] assms(2) show ?thesis by (simp add: live_surf_def)
next
  case (R_Get_Xdg_Surface c a x)
  then obtain s where s: "surf_at f a = Some s" "s \<in> set (surfaces f)" "fs_addr s = a"
    using surf_live [OF assms(1)] assms(2) by auto
  have "wl_inv (put_surf (s\<lparr>xdg_surface := Some y\<rparr>) (f\<lparr>xdg_surfaces := (xdg_surfaces f)(y \<mapsto> a)\<rparr>))" for y
    using s wl_invD(4) [OF assms(1)] wl_invD(5) [OF assms(1) s(2)] coreD(1) [OF wl_invD(1) [OF assms(1)]] ran_upd(1) [of "xdg_surfaces f" y a]
    by (intro wl_inv_touch [OF assms(1) s(2)]) auto
  with R_Get_Xdg_Surface s wl_inv_emit(1) [OF assms(1)] show ?thesis by (auto simp: wm_get_xdg_surface_def split: option.split)
next
  case (R_Destroy_Xdg_Surface x)
  then obtain a where x: "xdg_surfaces f x = Some a" using assms(2) by auto
  then obtain s where s: "surf_at f a = Some s" "s \<in> set (surfaces f)" "fs_addr s = a"
    using surf_live [OF assms(1) role_live [OF assms(1)]] by blast
  have "wl_inv (put_surf (s\<lparr>xdg_surface := None\<rparr>) (f\<lparr>xdg_surfaces := (xdg_surfaces f)(x := None)\<rparr>))"
    using s wl_invD(4) [OF assms(1)] wl_invD(5) [OF assms(1) s(2)] coreD(1) [OF wl_invD(1) [OF assms(1)]] ran_upd(2) [of "xdg_surfaces f" x]
    by (intro wl_inv_touch [OF assms(1) s(2)]) auto
  with R_Destroy_Xdg_Surface x s show ?thesis by (simp add: xdg_surface_resource_destroy_def)
next
  case (R_Get_Toplevel c x y)
  then obtain a where x: "xdg_surfaces f x = Some a" using assms(2) by auto
  then obtain s where s: "surf_at f a = Some s" "s \<in> set (surfaces f)" "fs_addr s = a"
    using surf_live [OF assms(1) role_live [OF assms(1)]] by blast
  have "wl_inv (put_surf (s\<lparr>xdg_toplevel := Some z\<rparr>) (f\<lparr>toplevels := (toplevels f)(z \<mapsto> a)\<rparr>))" for z
    using s wl_invD(4) [OF assms(1)] wl_invD(5) [OF assms(1) s(2)] coreD(1) [OF wl_invD(1) [OF assms(1)]] ran_upd(1) [of "toplevels f" z a]
    by (intro wl_inv_touch [OF assms(1) s(2)]) auto
  with R_Get_Toplevel x s wl_inv_emit(1) [OF assms(1)] show ?thesis by (auto simp: xs_get_toplevel_def split: option.split)
next
  case (R_Destroy_Toplevel t)
  then obtain a where t: "toplevels f t = Some a" using assms(2) by auto
  then obtain s where s: "surf_at f a = Some s" "s \<in> set (surfaces f)" "fs_addr s = a"
    using surf_live [OF assms(1) role_live [OF assms(1)]] by blast
  have "wl_inv (surface_unmap (s\<lparr>xdg_toplevel := None\<rparr>) (f\<lparr>toplevels := (toplevels f)(t := None)\<rparr>))"
    using ran_upd(2) [of "toplevels f" t] by (intro wl_inv_unmap [OF assms(1) s(2)]) simp_all
  with R_Destroy_Toplevel t s show ?thesis by (simp add: toplevel_resource_destroy_def)
next
  case (R_Set_Title t str)
  then obtain a where t: "toplevels f t = Some a" using assms(2) by auto
  then obtain s where s: "surf_at f a = Some s" using surf_live [OF assms(1) role_live [OF assms(1)]] by blast
  with R_Set_Title set_title_inv [OF assms(1) s t] show ?thesis by simp
next
  case (R_Get_Decoration c t y)
  then obtain a where t: "toplevels f t = Some a" using assms(2) by auto
  then obtain s where s: "surf_at f a = Some s" "s \<in> set (surfaces f)" "fs_addr s = a"
    using surf_live [OF assms(1) role_live [OF assms(1)]] by blast
  have "wl_inv (put_surf (s\<lparr>decoration := Some z\<rparr>) f)" for z
    using s wl_invD(4) [OF assms(1)] wl_invD(5) [OF assms(1) s(2)] coreD(1) [OF wl_invD(1) [OF assms(1)]]
    by (intro wl_inv_touch [OF assms(1) s(2)]) auto
  with R_Get_Decoration t s wl_inv_emit(1) [OF assms(1)] wl_inv_emit(1) show ?thesis
    by (auto simp: decomgr_get_def deco_force_ssd_def split: option.split)
next
  case (R_New_Buffer b shm)
  with assms show ?thesis by (cases shm) (auto simp: wl_inv_def)
next
  case (R_Drop_Buffer b)
  with assms show ?thesis by (auto simp: wl_inv_def)
next
  case (R_Stack st)
  with assms show ?thesis by (auto simp: wl_inv_def core_def window_ok_def)
next
  case (R_Get_Pointer r c)
  with assms(1) show ?thesis by (auto simp: seat_get_pointer_def emit_def same_core_def intro!: wl_inv_same [OF assms(1)] split: option.split)
next
  case (R_Get_Keyboard r c)
  with assms(1) show ?thesis
    by (auto simp: seat_get_keyboard_def emit_def same_core_def intro!: wl_inv_same [OF assms(1)] split: option.split)
qed (auto intro!: wl_inv_same [OF assms(1)] simp: same_core_def frame_callback_destroy_def seat_resource_unlink_def emit_def
    wl_frontend_pointer_motion_def wl_frontend_pointer_button_def wl_frontend_keyboard_key_def
    wl_frontend_keyboard_focus_def wl_frontend_dispatch_def Let_def split: option.split)

text \<open>Runs: once a step is undefined, so is everything after it.\<close>

definition wl_exec :: "wl_request \<Rightarrow> wl_frontend option \<Rightarrow> wl_frontend option" where
  "wl_exec r x = (case x of None \<Rightarrow> None | Some f \<Rightarrow> wl_step r f)"

definition wl_good :: "wl_frontend option \<Rightarrow> wl_request \<Rightarrow> bool" where
  "wl_good x r = (case x of None \<Rightarrow> False | Some f \<Rightarrow> wl_ok f r)"

definition wl_safe :: "wl_frontend option \<Rightarrow> bool" where
  "wl_safe x = (case x of None \<Rightarrow> False | Some f \<Rightarrow> wl_inv f)"

interpretation wl_machine: guarded_machine wl_exec wl_good wl_safe
proof
  fix x r assume "wl_safe x" "wl_good x r"
  then obtain f where "x = Some f" "wl_inv f" "wl_ok f r"
    by (auto simp: wl_safe_def wl_good_def split: option.splits)
  with wl_step_inv [of f r] show "wl_safe (wl_exec r x)" by (auto simp: wl_safe_def wl_exec_def)
qed

lemma wl_inv_zero: "stack_wf st \<Longrightarrow> cview st = (\<lambda>_. None) \<Longrightarrow> wl_inv (wl_zero st)"
  by (simp add: wl_inv_def wl_zero_def core_def)

text \<open>A window that shows a pixel copy shows all of it and nothing else.\<close>

lemma wl_content:
  assumes "wl_inv f" "window_by_id (wl_stack f) i = Some v" "buf v = Some (Content c)"
  shows "\<exists>bs. contents f c = Some bs \<and> 0 < buf_w v \<and> 0 < buf_h v \<and> buf_stride v = 4 * buf_w v \<and>
    int (length bs) = buf_stride v * buf_h v"
proof -
  note core = wl_invD(1) [OF assms(1)]
  have view: "cview (wl_stack f) i = Some (c, buf_w v, buf_h v, buf_stride v)"
    using assms(2,3) by (simp add: cview_def shown_def)
  then obtain s where s: "s \<in> set (surfaces f)" "fs_server_id s = i" "i \<noteq> 0"
    using coreD(5) [OF core, of i] by auto
  have w: "the (content s) = c" "cw s = buf_w v" "ch s = buf_h v" "buf_stride v = cw s * 4"
    using coreD(3) [OF core s(1)] s(2,3) view by (auto simp: window_ok_def)
  obtain n where n: "content s = Some n" using coreD(2) [OF core s(1)] s(2,3) by (auto simp: copy_ok_def split: option.splits)
  then obtain bs where "contents f c = Some bs" "0 < cw s" "0 < ch s" "length bs = 4 * nat (cw s) * nat (ch s)"
    using coreD(2) [OF core s(1)] w(1) by (auto simp: copy_ok_def)
  with w show ?thesis by (intro exI [of _ bs]) simp
qed

lemma content_readable:
  assumes "mem (Content c) = Some bs" "0 < buf_w v" "0 < buf_h v" "buf_stride v = 4 * buf_w v"
    "int (length bs) = buf_stride v * buf_h v"
  shows "buf_readable mem v (Content c) cy0"
proof -
  have "buf_pixel mem v (Content c) cy0 x y \<noteq> None" if "(x, y) \<in> blit_area v cy0" for x y
  proof -
    let ?r = "y - (win_y v + cy0)" and ?c = "x - win_x v"
    have rc: "0 \<le> ?r" "?r < buf_h v" "0 \<le> ?c" "?c < buf_w v" using that by (auto simp: blit_area_def rect_def)
    have "(?r + 1) * buf_stride v \<le> buf_h v * buf_stride v"
      using rc assms(2,4) by (intro mult_right_mono) auto
    then have "?r * buf_stride v + buf_stride v \<le> int (length bs)" using assms(5) by (simp add: algebra_simps)
    moreover have "4 * ?c + 4 \<le> buf_stride v" using rc assms(4) by simp
    ultimately have hi: "?r * buf_stride v + 4 * ?c + 4 \<le> int (length bs)" by linarith
    have "0 \<le> ?r * buf_stride v" using rc assms(2,4) by simp
    then have "0 \<le> ?r * buf_stride v + 4 * ?c" using rc(3) by (intro add_nonneg_nonneg) simp_all
    with hi show ?thesis using assms(1) by (simp add: buf_pixel_def mem_load_def nat_le_iff)
  qed
  then show ?thesis by (auto simp: buf_readable_def)
qed

section \<open>Properties\<close>

text \<open>
  C3: However clients create, commit and destroy surfaces, as long as they destroy objects
  in the protocol's order, no handler of the Wayland frontend follows a dangling pointer,
  and at every moment each window that shows a client's pixels shows a live copy of
  exactly the window's buffer size, which the compositor can blit.
\<close>

theorem wayland_memory_safe:
  assumes "stack_wf st" "cview st = (\<lambda>_. None)" "guarded_run wl_exec wl_good rs (Some (wl_zero st))"
  shows "\<exists>f. fold wl_exec rs (Some (wl_zero st)) = Some f \<and>
    (\<forall>i v c. window_by_id (wl_stack f) i = Some v \<and> buf v = Some (Content c) \<longrightarrow>
       (\<exists>bs. contents f c = Some bs \<and> int (length bs) = buf_stride v * buf_h v \<and>
          (\<forall>mem cy0. mem (Content c) = Some bs \<longrightarrow> buf_readable mem v (Content c) cy0)))"
proof -
  have "wl_safe (fold wl_exec rs (Some (wl_zero st)))"
    using wl_machine.run_inv [OF _ assms(3)] wl_inv_zero [OF assms(1,2)] by (simp add: wl_safe_def)
  then obtain f where f: "fold wl_exec rs (Some (wl_zero st)) = Some f" "wl_inv f"
    by (auto simp: wl_safe_def split: option.splits)
  have "\<exists>bs. contents f c = Some bs \<and> int (length bs) = buf_stride v * buf_h v \<and>
      (\<forall>mem cy0. mem (Content c) = Some bs \<longrightarrow> buf_readable mem v (Content c) cy0)"
    if "window_by_id (wl_stack f) i = Some v" "buf v = Some (Content c)" for i v c
    using wl_content [OF f(2) that] content_readable by blast
  with f(1) show ?thesis by blast
qed

definition demo_shm :: shm_buffer where
  "demo_shm = \<lparr>sb_w = 2, sb_h = 1, sb_stride = 8, sb_data = [1, 2, 3, 0, 4, 5, 6, 0]\<rparr>"

text \<open>A client opens a toplevel and commits its first frame.\<close>

definition demo_client_run :: "wl_request list" where
  "demo_client_run =
     [R_Create_Surface 1 True, R_Get_Xdg_Surface 1 0 (Some 10), R_Get_Toplevel 1 10 (Some 11), R_Commit True 0,
      R_New_Buffer 5 (Some demo_shm), R_Attach 0 (Some 5), R_Commit True 0]"

lemmas wl_eval = wl_exec_def wl_good_def wl_zero_def comp_create_surface_def wm_get_xdg_surface_def surf_at_def put_surf_def
  xs_get_toplevel_def surf_commit_def surf_attach_def emit_def live_surf_def copy_shm_buffer_def demo_shm_def
  free_content_def surface_map_or_update_def fire_frame_callbacks_def Let_def shm_fits_def ids_exhausted_def

lemma demo_client_guarded: "guarded_run wl_exec wl_good demo_client_run (Some (wl_zero window_stack_init))"
  by (simp add: demo_client_run_def wl_eval window_stack_init_def)

lemma no_cview_init: "cview window_stack_init = (\<lambda>_. None)"
  by (simp add: cview_def window_by_id_map_of window_stack_init_def fun_eq_iff)

theorem wayland_memory_safe_witness:
  "\<exists>f. fold wl_exec demo_client_run (Some (wl_zero window_stack_init)) = Some f"
  using wayland_memory_safe [OF stack_wf_init no_cview_init demo_client_guarded] by blast

text \<open>
  Destroying a surface before its toplevel, which is what a vanishing client makes
  libwayland do, frees the surface and then uses it: the toplevel's destructor follows a
  pointer to freed memory.
\<close>

theorem surface_first_uses_freed:
  assumes "toplevels f t = Some a" "surf_at f a = Some s"
  shows "\<exists>f'. wl_step (R_Destroy_Surface a) f = Some f' \<and> toplevels f' t = Some a \<and>
    wl_step (R_Destroy_Toplevel t) f' = None"
proof -
  let ?f1 = "surface_unmap s f"
  let ?f' = "?f1\<lparr>surfaces := filter (\<lambda>t. fs_addr t \<noteq> a) (surfaces ?f1)\<rparr>"
  have "toplevels ?f1 = toplevels f" by (simp add: surface_unmap_def Let_def)
  moreover have "surf_at (?f'\<lparr>toplevels := T\<rparr>) a = None" "surf_at ?f' a = None" for T
    by (auto simp: surf_at_def find_None_iff)
  ultimately show ?thesis
    using assms by (simp add: surface_resource_destroy_def toplevel_resource_destroy_def Let_def)
qed

theorem surface_first_uses_freed_witness:
  "\<exists>f'. wl_step (R_Destroy_Surface 0)
     (the (fold wl_exec [R_Create_Surface 1 True, R_Get_Xdg_Surface 1 0 (Some 10), R_Get_Toplevel 1 10 (Some 11)]
        (Some (wl_zero window_stack_init)))) = Some f' \<and> wl_step (R_Destroy_Toplevel 11) f' = None"
proof -
  let ?f = "the (fold wl_exec [R_Create_Surface 1 True, R_Get_Xdg_Surface 1 0 (Some 10), R_Get_Toplevel 1 10 (Some 11)]
        (Some (wl_zero window_stack_init)))"
  have "toplevels ?f 11 = Some 0" "surf_at ?f 0 = Some (hd (surfaces ?f))" by (simp_all add: wl_eval)
  from surface_first_uses_freed [OF this] show ?thesis by blast
qed

lemma find_replace:
  "find (\<lambda>t. fs_addr t = a) xs = Some s0 \<Longrightarrow> fs_addr s = a \<Longrightarrow>
   find (\<lambda>t. fs_addr t = a) (map (\<lambda>t. if fs_addr t = a then s else t) xs) = Some s"
  by (induction xs) (auto split: if_splits)

text \<open>
  A client that attaches a buffer, destroys it and commits makes the frontend use the
  freed buffer: it remembers the buffer without watching for its destruction.
\<close>

theorem dropped_buffer_used:
  assumes "surf_at f a = Some s" "xdg_surface s = None \<or> initial_configured s" "buffers f b = Some shm"
  shows "\<exists>f'. wl_step (R_Attach a (Some b)) f = Some f' \<and>
    wl_exec (R_Commit ok a) (wl_step (R_Drop_Buffer b) f') = None"
proof -
  let ?s = "s\<lparr>attached := True, pending_buffer := Some b\<rparr>"
  have "surf_at (put_surf ?s f) a = Some ?s"
    using assms(1) surf_at_Some [OF assms(1)] by (auto simp: surf_at_def put_surf_def find_replace)
  then have "surf_at ((put_surf ?s f)\<lparr>buffers := B\<rparr>) a = Some ?s" for B by (simp add: surf_at_def)
  then show ?thesis
    using assms by (auto simp: surf_attach_def wl_exec_def surf_commit_def Let_def put_surf_def split: option.splits bool.splits)
qed

theorem dropped_buffer_used_witness:
  "\<exists>f'. wl_step (R_Attach 0 (Some 5))
       (the (fold wl_exec [R_Create_Surface 1 True, R_New_Buffer 5 (Some demo_shm)] (Some (wl_zero window_stack_init)))) = Some f' \<and>
     wl_exec (R_Commit True 0) (wl_step (R_Drop_Buffer 5) f') = None"
proof -
  let ?f = "the (fold wl_exec [R_Create_Surface 1 True, R_New_Buffer 5 (Some demo_shm)] (Some (wl_zero window_stack_init)))"
  have "surf_at ?f 0 = Some (hd (surfaces ?f))" "xdg_surface (hd (surfaces ?f)) = None" "buffers ?f 5 = Some (Some demo_shm)"
    by (simp_all add: wl_eval)
  from dropped_buffer_used [OF this(1) disjI1 [OF this(2)] this(3)] show ?thesis .
qed

end
