(* ===== verification/Wayland_Objects.thy ===== *)
theory Wayland_Objects
  imports Wayland_Spec
begin

text \<open>
  The protocol objects of the Wayland frontend: which interface, version, handlers and user
  data each has, from the globals clients bind (\<open>*_bind\<close> of \<open>src/src/wayland.c\<close>) to the
  objects their requests create. \<open>Wayland\<close> models what the handlers do to surfaces, windows
  and the seat; here is which handler a request reaches and with what kind of user data, the
  handlers that ignore or only destroy included.
\<close>

section \<open>Objects\<close>

datatype iface =
    WL_COMPOSITOR | WL_SURFACE | WL_REGION | WL_CALLBACK | WL_SUBCOMPOSITOR | WL_SUBSURFACE
  | WL_DATA_DEVICE_MANAGER | WL_DATA_SOURCE | WL_DATA_DEVICE
  | WL_SEAT | WL_POINTER | WL_KEYBOARD | WL_TOUCH | WL_OUTPUT
  | XDG_WM_BASE | XDG_POSITIONER | XDG_SURFACE | XDG_TOPLEVEL | XDG_POPUP
  | DECORATION_MANAGER | TOPLEVEL_DECORATION

text \<open>The user data: null, the frontend, or a surface.\<close>

datatype user_data = U_Null | U_Frontend | U_Surface wl_addr

text \<open>\<open>ob_impl\<close>: whether the object has a table of handlers (false: \<open>NULL\<close>).\<close>

record wl_object =
  ob_iface :: iface
  ob_version :: nat
  ob_impl :: bool
  ob_data :: user_data

section \<open>Handlers\<close>

text \<open>
  What a request handler does with objects: leave them alone, destroy its own, use user data, or
  create an object: its interface, its version (\<open>None\<close>: that of the object it is asked
  of), whether it gets handlers, its user data, and the user data the handler uses itself.
  \<open>Arg\<close> is the object passed as an argument; a use of a null pointer is a fault unless the
  code tests it.
\<close>

datatype whose = Own | Arg
datatype kind = Is_Surface | Is_Frontend
datatype new_data = N_Null | N_Own | N_Arg | N_Surface

datatype effect =
    Keeps
  | Destroys
  | Uses whose kind
  | Creates iface "nat option" bool new_data "(whose \<times> kind) option"

text \<open>An entry of a handler table; an interface's table is named as in the code.\<close>

type_synonym impl = "(string \<times> effect) list"

subsection \<open>Surfaces and regions\<close>

definition surf_destroy :: effect where [simp]: "surf_destroy = Destroys"
definition surf_attach_obj :: effect where [simp]: "surf_attach_obj = Uses Own Is_Surface"
definition surf_damage :: effect where [simp]: "surf_damage = Keeps"
definition surf_frame_obj :: effect where [simp]: "surf_frame_obj = Creates WL_CALLBACK (Some 1) False N_Null (Some (Own, Is_Surface))"
definition surf_noop_region :: effect where [simp]: "surf_noop_region = Keeps"
definition surf_commit_obj :: effect where [simp]: "surf_commit_obj = Uses Own Is_Surface"
definition surf_set_i32 :: effect where [simp]: "surf_set_i32 = Keeps"
definition surf_offset :: effect where [simp]: "surf_offset = Keeps"
definition region_destroy :: effect where [simp]: "region_destroy = Destroys"
definition region_op :: effect where [simp]: "region_op = Keeps"

definition surface_impl :: impl where [simp]:
  "surface_impl = [(''destroy'', surf_destroy), (''attach'', surf_attach_obj), (''damage'', surf_damage),
     (''frame'', surf_frame_obj), (''set_opaque_region'', surf_noop_region), (''set_input_region'', surf_noop_region),
     (''commit'', surf_commit_obj), (''set_buffer_transform'', surf_set_i32), (''set_buffer_scale'', surf_set_i32),
     (''damage_buffer'', surf_damage), (''offset'', surf_offset)]"

definition region_impl :: impl where [simp]:
  "region_impl = [(''destroy'', region_destroy), (''add'', region_op), (''subtract'', region_op)]"

subsection \<open>Compositor and subcompositor\<close>

definition comp_create_surface_obj :: effect where [simp]: "comp_create_surface_obj = Creates WL_SURFACE None True N_Surface (Some (Own, Is_Frontend))"
definition comp_create_region :: effect where [simp]: "comp_create_region = Creates WL_REGION (Some 1) True N_Null None"
definition res_destroy :: effect where [simp]: "res_destroy = Destroys"
definition sub_set_position :: effect where [simp]: "sub_set_position = Keeps"
definition sub_place :: effect where [simp]: "sub_place = Keeps"
definition sub_sync :: effect where [simp]: "sub_sync = Keeps"
definition subcomp_get_subsurface :: effect where [simp]: "subcomp_get_subsurface = Creates WL_SUBSURFACE None True N_Null None"

definition compositor_impl :: impl where [simp]:
  "compositor_impl = [(''create_surface'', comp_create_surface_obj), (''create_region'', comp_create_region)]"

definition subsurface_impl :: impl where [simp]:
  "subsurface_impl = [(''destroy'', res_destroy), (''set_position'', sub_set_position), (''place_above'', sub_place),
     (''place_below'', sub_place), (''set_sync'', sub_sync), (''set_desync'', sub_sync)]"

definition subcompositor_impl :: impl where [simp]:
  "subcompositor_impl = [(''destroy'', res_destroy), (''get_subsurface'', subcomp_get_subsurface)]"

subsection \<open>Clipboard\<close>

definition dsrc_offer :: effect where [simp]: "dsrc_offer = Keeps"
definition dsrc_set_actions :: effect where [simp]: "dsrc_set_actions = Keeps"
definition ddev_start_drag :: effect where [simp]: "ddev_start_drag = Keeps"
definition ddev_set_selection :: effect where [simp]: "ddev_set_selection = Keeps"
definition ddm_create_data_source :: effect where [simp]: "ddm_create_data_source = Creates WL_DATA_SOURCE None True N_Null None"
definition ddm_get_data_device :: effect where [simp]: "ddm_get_data_device = Creates WL_DATA_DEVICE None True N_Null None"

definition data_source_impl :: impl where [simp]:
  "data_source_impl = [(''offer'', dsrc_offer), (''destroy'', res_destroy), (''set_actions'', dsrc_set_actions)]"

definition data_device_impl :: impl where [simp]:
  "data_device_impl = [(''start_drag'', ddev_start_drag), (''set_selection'', ddev_set_selection), (''release'', res_destroy)]"

definition data_device_manager_impl :: impl where [simp]:
  "data_device_manager_impl = [(''create_data_source'', ddm_create_data_source), (''get_data_device'', ddm_get_data_device)]"

subsection \<open>Toplevels\<close>

definition tl_destroy :: effect where [simp]: "tl_destroy = Destroys"
definition tl_set_title_obj :: effect where [simp]: "tl_set_title_obj = Uses Own Is_Surface"
definition tl_set_str :: effect where [simp]: "tl_set_str = Keeps"
definition tl_set_res :: effect where [simp]: "tl_set_res = Keeps"
definition tl_noop :: effect where [simp]: "tl_noop = Keeps"
definition tl_show_menu :: effect where [simp]: "tl_show_menu = Keeps"
definition tl_move :: effect where [simp]: "tl_move = Keeps"
definition tl_resize :: effect where [simp]: "tl_resize = Keeps"
definition tl_set_geom :: effect where [simp]: "tl_set_geom = Keeps"

definition toplevel_impl :: impl where [simp]:
  "toplevel_impl = [(''destroy'', tl_destroy), (''set_parent'', tl_set_res), (''set_title'', tl_set_title_obj),
     (''set_app_id'', tl_set_str), (''show_window_menu'', tl_show_menu), (''move'', tl_move),
     (''resize'', tl_resize), (''set_max_size'', tl_set_geom), (''set_min_size'', tl_set_geom),
     (''set_maximized'', tl_noop), (''unset_maximized'', tl_noop), (''set_fullscreen'', tl_set_res),
     (''unset_fullscreen'', tl_noop), (''set_minimized'', tl_noop)]"

subsection \<open>xdg_surface and xdg_wm_base\<close>

definition xs_destroy :: effect where [simp]: "xs_destroy = Destroys"
definition xs_get_toplevel_obj :: effect where [simp]: "xs_get_toplevel_obj = Creates XDG_TOPLEVEL None True N_Own (Some (Own, Is_Surface))"
definition xs_get_popup :: effect where [simp]: "xs_get_popup = Creates XDG_POPUP (Some 1) False N_Null None"
definition xs_set_geometry :: effect where [simp]: "xs_set_geometry = Keeps"
definition xs_ack_configure :: effect where [simp]: "xs_ack_configure = Keeps"
definition wm_destroy :: effect where [simp]: "wm_destroy = Destroys"
definition wm_create_positioner :: effect where [simp]: "wm_create_positioner = Creates XDG_POSITIONER None False N_Null None"
definition wm_get_xdg_surface_obj :: effect where [simp]: "wm_get_xdg_surface_obj = Creates XDG_SURFACE None True N_Arg (Some (Arg, Is_Surface))"
definition wm_pong :: effect where [simp]: "wm_pong = Keeps"

definition xdg_surface_impl :: impl where [simp]:
  "xdg_surface_impl = [(''destroy'', xs_destroy), (''get_toplevel'', xs_get_toplevel_obj), (''get_popup'', xs_get_popup),
     (''set_window_geometry'', xs_set_geometry), (''ack_configure'', xs_ack_configure)]"

definition xdg_wm_base_impl :: impl where [simp]:
  "xdg_wm_base_impl = [(''destroy'', wm_destroy), (''create_positioner'', wm_create_positioner), (''get_xdg_surface'', wm_get_xdg_surface_obj),
     (''pong'', wm_pong)]"

subsection \<open>Decorations\<close>

text \<open>Both mode requests are answered with server-side decorations; the decoration may belong to no surface.\<close>

definition deco_destroy :: effect where [simp]: "deco_destroy = Destroys"
definition deco_set_mode :: effect where [simp]: "deco_set_mode = Keeps"
definition deco_unset_mode :: effect where [simp]: "deco_unset_mode = Keeps"
definition decomgr_destroy :: effect where [simp]: "decomgr_destroy = Destroys"
definition decomgr_get_obj :: effect where [simp]: "decomgr_get_obj = Creates TOPLEVEL_DECORATION (Some 1) True N_Arg None"

definition decoration_impl :: impl where [simp]:
  "decoration_impl = [(''destroy'', deco_destroy), (''set_mode'', deco_set_mode), (''unset_mode'', deco_unset_mode)]"

definition decomgr_impl :: impl where [simp]:
  "decomgr_impl = [(''destroy'', decomgr_destroy), (''get_toplevel_decoration'', decomgr_get_obj)]"

subsection \<open>Seat\<close>

definition ptr_set_cursor :: effect where [simp]: "ptr_set_cursor = Keeps"
definition res_release :: effect where [simp]: "res_release = Destroys"
definition seat_get_pointer_obj :: effect where [simp]: "seat_get_pointer_obj = Creates WL_POINTER None True N_Own (Some (Own, Is_Frontend))"
definition seat_get_keyboard_obj :: effect where [simp]: "seat_get_keyboard_obj = Creates WL_KEYBOARD None True N_Own (Some (Own, Is_Frontend))"
definition seat_get_touch :: effect where [simp]: "seat_get_touch = Creates WL_TOUCH None True N_Null None"
definition seat_release :: effect where [simp]: "seat_release = Destroys"

definition pointer_impl :: impl where [simp]:
  "pointer_impl = [(''set_cursor'', ptr_set_cursor), (''release'', res_release)]"

definition keyboard_impl :: impl where [simp]:
  "keyboard_impl = [(''release'', res_release)]"

definition touch_impl :: impl where [simp]:
  "touch_impl = [(''release'', res_release)]"

definition seat_impl :: impl where [simp]:
  "seat_impl = [(''get_pointer'', seat_get_pointer_obj), (''get_keyboard'', seat_get_keyboard_obj), (''get_touch'', seat_get_touch),
     (''release'', seat_release)]"

section \<open>Requests\<close>

text \<open>The table an object of an interface is given; positioners, popups, outputs and callbacks are given none.\<close>

fun impl_of :: "iface \<Rightarrow> impl" where
  "impl_of WL_COMPOSITOR = compositor_impl" | "impl_of WL_SURFACE = surface_impl" | "impl_of WL_REGION = region_impl"
| "impl_of WL_SUBCOMPOSITOR = subcompositor_impl" | "impl_of WL_SUBSURFACE = subsurface_impl"
| "impl_of WL_DATA_DEVICE_MANAGER = data_device_manager_impl" | "impl_of WL_DATA_SOURCE = data_source_impl"
| "impl_of WL_DATA_DEVICE = data_device_impl" | "impl_of WL_SEAT = seat_impl" | "impl_of WL_POINTER = pointer_impl"
| "impl_of WL_KEYBOARD = keyboard_impl" | "impl_of WL_TOUCH = touch_impl" | "impl_of XDG_WM_BASE = xdg_wm_base_impl"
| "impl_of XDG_SURFACE = xdg_surface_impl" | "impl_of XDG_TOPLEVEL = toplevel_impl" | "impl_of DECORATION_MANAGER = decomgr_impl"
| "impl_of TOPLEVEL_DECORATION = decoration_impl" | "impl_of WL_CALLBACK = []" | "impl_of WL_OUTPUT = []"
| "impl_of XDG_POSITIONER = []" | "impl_of XDG_POPUP = []"

type_synonym objects = "wl_res_id \<rightharpoonup> wl_object"

text \<open>\<open>wl_resource_get_user_data\<close> cast to a surface or the frontend.\<close>

definition is_kind :: "kind \<Rightarrow> user_data \<Rightarrow> bool" where
  "is_kind k d = (case k of Is_Surface \<Rightarrow> (case d of U_Surface _ \<Rightarrow> True | _ \<Rightarrow> False) | Is_Frontend \<Rightarrow> d = U_Frontend)"

text \<open>
  One request: the object it is for, its name, the object in its argument, the id the client
  picked for a new one, the surface it makes if it makes one, and whether allocations
  succeed. \<open>None\<close> is undefined behaviour: a handler looked up in a null table or missing from
  it, or user data used as what it is not.
\<close>

record obj_request =
  rq_id :: wl_res_id
  rq_name :: string
  rq_arg :: "wl_res_id option"
  rq_new :: wl_res_id
  rq_surface :: wl_addr
  rq_alloc :: bool

definition arg_data :: "objects \<Rightarrow> obj_request \<Rightarrow> user_data" where
  "arg_data t q = (case rq_arg q of None \<Rightarrow> U_Null | Some a \<Rightarrow> (case t a of None \<Rightarrow> U_Null | Some x \<Rightarrow> ob_data x))"

definition uses_ok :: "objects \<Rightarrow> obj_request \<Rightarrow> wl_object \<Rightarrow> (whose \<times> kind) option \<Rightarrow> bool" where
  "uses_ok t q ob u =
     (case u of None \<Rightarrow> True | Some (Own, k) \<Rightarrow> is_kind k (ob_data ob) | Some (Arg, k) \<Rightarrow> is_kind k (arg_data t q))"

definition serve :: "obj_request \<Rightarrow> wl_object \<Rightarrow> effect \<Rightarrow> objects \<Rightarrow> objects option" where
  "serve q ob h t =
     (case h of
        Keeps \<Rightarrow> Some t
      | Destroys \<Rightarrow> Some (t(rq_id q := None))
      | Uses who k \<Rightarrow> if uses_ok t q ob (Some (who, k)) then Some t else None
      | Creates i ver impl dat use \<Rightarrow>
          if \<not> uses_ok t q ob use then None
          else if \<not> rq_alloc q then Some t
          else Some (t(rq_new q \<mapsto>
            \<lparr>ob_iface = i, ob_version = (case ver of None \<Rightarrow> ob_version ob | Some v \<Rightarrow> v), ob_impl = impl,
             ob_data = (case dat of N_Null \<Rightarrow> U_Null | N_Own \<Rightarrow> ob_data ob | N_Arg \<Rightarrow> arg_data t q
                        | N_Surface \<Rightarrow> U_Surface (rq_surface q))\<rparr>)))"

definition obj_dispatch :: "obj_request \<Rightarrow> objects \<Rightarrow> objects option" where
  "obj_dispatch q t =
     (case t (rq_id q) of
        None \<Rightarrow> Some t
      | Some ob \<Rightarrow>
          if \<not> ob_impl ob then None
          else case map_of (impl_of (ob_iface ob)) (rq_name q) of
                 None \<Rightarrow> None
               | Some h \<Rightarrow> serve q ob h t)"

section \<open>Globals\<close>

text \<open>The globals with the versions advertised, and what each \<open>bind\<close> makes (all but the output get handlers).\<close>

definition COMPOSITOR_VERSION :: nat where [simp]: "COMPOSITOR_VERSION = 4"
definition SEAT_VERSION :: nat where [simp]: "SEAT_VERSION = 5"
definition OUTPUT_VERSION :: nat where [simp]: "OUTPUT_VERSION = 3"
definition XDG_WM_BASE_VERSION :: nat where [simp]: "XDG_WM_BASE_VERSION = 3"
definition DECORATION_VERSION :: nat where [simp]: "DECORATION_VERSION = 1"

definition globals :: "(iface \<times> nat) list" where [simp]:
  "globals = [(WL_COMPOSITOR, COMPOSITOR_VERSION), (WL_SUBCOMPOSITOR, 1), (WL_DATA_DEVICE_MANAGER, 3), (WL_SEAT, SEAT_VERSION),
     (WL_OUTPUT, OUTPUT_VERSION), (XDG_WM_BASE, XDG_WM_BASE_VERSION), (DECORATION_MANAGER, DECORATION_VERSION)]"

definition bind_with :: "iface \<Rightarrow> bool \<Rightarrow> nat \<Rightarrow> wl_res_id \<Rightarrow> bool \<Rightarrow> objects \<Rightarrow> objects" where
  "bind_with i impl ver r ok t = (if ok then t(r \<mapsto> \<lparr>ob_iface = i, ob_version = ver, ob_impl = impl, ob_data = U_Frontend\<rparr>) else t)"

definition compositor_bind where "compositor_bind = bind_with WL_COMPOSITOR True"
definition subcompositor_bind where "subcompositor_bind = bind_with WL_SUBCOMPOSITOR True"
definition data_device_manager_bind where "data_device_manager_bind = bind_with WL_DATA_DEVICE_MANAGER True"
definition xdg_wm_base_bind where "xdg_wm_base_bind = bind_with XDG_WM_BASE True"
definition decoration_bind where "decoration_bind = bind_with DECORATION_MANAGER True"
definition seat_bind where "seat_bind = bind_with WL_SEAT True"
definition output_bind where "output_bind = bind_with WL_OUTPUT False"

fun bind_global :: "iface \<Rightarrow> nat \<Rightarrow> wl_res_id \<Rightarrow> bool \<Rightarrow> objects \<Rightarrow> objects" where
  "bind_global WL_COMPOSITOR = compositor_bind" | "bind_global WL_SUBCOMPOSITOR = subcompositor_bind"
| "bind_global WL_DATA_DEVICE_MANAGER = data_device_manager_bind" | "bind_global WL_SEAT = seat_bind"
| "bind_global WL_OUTPUT = output_bind" | "bind_global XDG_WM_BASE = xdg_wm_base_bind"
| "bind_global DECORATION_MANAGER = decoration_bind" | "bind_global _ = (\<lambda>ver r ok t. t)"

text \<open>The events a bind sends, by the version bound.\<close>

datatype bind_event =
    Ev_Geometry string string | Ev_Mode u32 int int int | Ev_Scale int | Ev_Done | Ev_Capabilities u32 | Ev_Name string

definition output_bind_events :: "int \<Rightarrow> int \<Rightarrow> nat \<Rightarrow> bind_event list" where
  "output_bind_events sw sh ver =
     [Ev_Geometry ''glacier'' ''virtual'', Ev_Mode (1 OR 2) sw sh 60000] @
     (if ver \<ge> 2 then [Ev_Scale 1] else []) @ (if ver \<ge> 2 then [Ev_Done] else [])"

definition seat_bind_events :: "nat \<Rightarrow> bind_event list" where
  "seat_bind_events ver = [Ev_Capabilities (1 OR 2)] @ (if ver \<ge> 2 then [Ev_Name ''seat0''] else [])"

end
