(* ===== verification/Wayland_Types.thy ===== *)
theory Wayland_Types
  imports Wayland_Objects
begin

text \<open>
  The objects of the Wayland frontend are well typed: user data is always what the handlers
  take it for, and every request a client can make has a handler, but for the objects the
  code gives no handlers at all.
\<close>

section \<open>Types\<close>

definition has_impl :: "iface \<Rightarrow> bool" where
  "has_impl i \<longleftrightarrow> i \<notin> {XDG_POSITIONER, XDG_POPUP, WL_OUTPUT, WL_CALLBACK}"

fun max_version :: "iface \<Rightarrow> nat" where
  "max_version WL_COMPOSITOR = 4" | "max_version WL_SURFACE = 4"
| "max_version WL_DATA_DEVICE_MANAGER = 3" | "max_version WL_DATA_SOURCE = 3" | "max_version WL_DATA_DEVICE = 3"
| "max_version WL_SEAT = 5" | "max_version WL_POINTER = 5" | "max_version WL_KEYBOARD = 5" | "max_version WL_TOUCH = 5"
| "max_version WL_OUTPUT = 3" | "max_version XDG_WM_BASE = 3" | "max_version XDG_POSITIONER = 3"
| "max_version XDG_SURFACE = 3" | "max_version XDG_TOPLEVEL = 3" | "max_version _ = 1"

definition data_ok :: "iface \<Rightarrow> user_data \<Rightarrow> bool" where
  "data_ok i d \<longleftrightarrow>
     (if i \<in> {WL_SURFACE, XDG_SURFACE, XDG_TOPLEVEL, TOPLEVEL_DECORATION} then is_kind Is_Surface d
      else if i \<in> {WL_COMPOSITOR, WL_SUBCOMPOSITOR, WL_DATA_DEVICE_MANAGER, WL_SEAT, WL_OUTPUT, XDG_WM_BASE, DECORATION_MANAGER, WL_POINTER, WL_KEYBOARD}
        then is_kind Is_Frontend d
      else d = U_Null)"

definition object_ok :: "wl_object \<Rightarrow> bool" where
  "object_ok ob \<longleftrightarrow> ob_version ob \<le> max_version (ob_iface ob) \<and> ob_impl ob = has_impl (ob_iface ob) \<and> data_ok (ob_iface ob) (ob_data ob)"

definition objects_ok :: "objects \<Rightarrow> bool" where
  "objects_ok t \<longleftrightarrow> (\<forall>ob \<in> ran t. object_ok ob)"

section \<open>What clients can ask\<close>

text \<open>
  The protocol is not part of the program: \<open>P i v\<close> is the set of requests interface \<open>i\<close> has
  at version \<open>v\<close>. Up to the versions advertised it has those of the published protocol.
\<close>

fun published :: "iface \<Rightarrow> string set" where
  "published WL_COMPOSITOR = {''create_surface'', ''create_region''}"
| "published WL_SURFACE = {''destroy'', ''attach'', ''damage'', ''frame'', ''set_opaque_region'', ''set_input_region'', ''commit'',
     ''set_buffer_transform'', ''set_buffer_scale'', ''damage_buffer''}"
| "published WL_REGION = {''destroy'', ''add'', ''subtract''}"
| "published WL_CALLBACK = {}"
| "published WL_SUBCOMPOSITOR = {''destroy'', ''get_subsurface''}"
| "published WL_SUBSURFACE = {''destroy'', ''set_position'', ''place_above'', ''place_below'', ''set_sync'', ''set_desync''}"
| "published WL_DATA_DEVICE_MANAGER = {''create_data_source'', ''get_data_device''}"
| "published WL_DATA_SOURCE = {''offer'', ''destroy'', ''set_actions''}"
| "published WL_DATA_DEVICE = {''start_drag'', ''set_selection'', ''release''}"
| "published WL_SEAT = {''get_pointer'', ''get_keyboard'', ''get_touch'', ''release''}"
| "published WL_POINTER = {''set_cursor'', ''release''}"
| "published WL_KEYBOARD = {''release''}"
| "published WL_TOUCH = {''release''}"
| "published WL_OUTPUT = {''release''}"
| "published XDG_WM_BASE = {''destroy'', ''create_positioner'', ''get_xdg_surface'', ''pong''}"
| "published XDG_POSITIONER = {''destroy'', ''set_size'', ''set_anchor_rect'', ''set_anchor'', ''set_gravity'', ''set_constraint_adjustment'',
     ''set_offset'', ''set_reactive'', ''set_parent_size'', ''set_parent_configure''}"
| "published XDG_SURFACE = {''destroy'', ''get_toplevel'', ''get_popup'', ''set_window_geometry'', ''ack_configure''}"
| "published XDG_TOPLEVEL = {''destroy'', ''set_parent'', ''set_title'', ''set_app_id'', ''show_window_menu'', ''move'', ''resize'', ''set_max_size'',
     ''set_min_size'', ''set_maximized'', ''unset_maximized'', ''set_fullscreen'', ''unset_fullscreen'', ''set_minimized''}"
| "published XDG_POPUP = {''destroy'', ''grab''}"
| "published DECORATION_MANAGER = {''destroy'', ''get_toplevel_decoration''}"
| "published TOPLEVEL_DECORATION = {''destroy'', ''set_mode'', ''unset_mode''}"

definition follows_protocol :: "(iface \<Rightarrow> nat \<Rightarrow> string set) \<Rightarrow> bool" where
  "follows_protocol P \<longleftrightarrow> (\<forall>i v. v \<le> max_version i \<longrightarrow> P i v \<subseteq> published i)"

text \<open>libwayland passes on requests of the object's version whose object arguments have the interface the protocol gives.\<close>

definition arg_iface :: "string \<Rightarrow> iface option" where
  "arg_iface r = (if r = ''get_xdg_surface'' then Some WL_SURFACE else if r = ''get_toplevel_decoration'' then Some XDG_TOPLEVEL else None)"

definition legal :: "(iface \<Rightarrow> nat \<Rightarrow> string set) \<Rightarrow> objects \<Rightarrow> obj_request \<Rightarrow> bool" where
  "legal P t q \<longleftrightarrow> (\<exists>ob. t (rq_id q) = Some ob \<and> rq_name q \<in> P (ob_iface ob) (ob_version ob) \<and>
     (\<forall>i. arg_iface (rq_name q) = Some i \<longrightarrow> (\<exists>a x. rq_arg q = Some a \<and> t a = Some x \<and> ob_iface x = i)))"

datatype obj_event = Bind iface nat wl_res_id bool | Request obj_request

definition obj_exec :: "obj_event \<Rightarrow> objects option \<Rightarrow> objects option" where
  "obj_exec e x =
     (case x of None \<Rightarrow> None
      | Some t \<Rightarrow> (case e of Bind i v r ok \<Rightarrow> Some (bind_global i v r ok t) | Request q \<Rightarrow> obj_dispatch q t))"

text \<open>Events that can come, but for requests to objects without handlers.\<close>

definition obj_good :: "(iface \<Rightarrow> nat \<Rightarrow> string set) \<Rightarrow> objects option \<Rightarrow> obj_event \<Rightarrow> bool" where
  "obj_good P x e = (case x of None \<Rightarrow> False
     | Some t \<Rightarrow> (case e of Bind i v r ok \<Rightarrow> (\<exists>n. (i, n) \<in> set globals \<and> v \<le> n)
                 | Request q \<Rightarrow> legal P t q \<and> (\<forall>ob. t (rq_id q) = Some ob \<longrightarrow> has_impl (ob_iface ob))))"

definition obj_safe :: "objects option \<Rightarrow> bool" where
  "obj_safe x = (case x of None \<Rightarrow> False | Some t \<Rightarrow> objects_ok t)"

section \<open>Preservation\<close>

lemma objects_ok_upd: "objects_ok t \<Longrightarrow> object_ok ob \<Longrightarrow> objects_ok (t(r \<mapsto> ob))"
  by (auto simp: objects_ok_def ran_def)

lemma objects_ok_del: "objects_ok t \<Longrightarrow> objects_ok (t(r := None))"
  by (auto simp: objects_ok_def ran_def)

lemma bind_ok:
  assumes "objects_ok t" "(i, n) \<in> set globals" "v \<le> n"
  shows "objects_ok (bind_global i v r ok t)"
  using assms(2,3)
  by (auto simp: compositor_bind_def subcompositor_bind_def data_device_manager_bind_def xdg_wm_base_bind_def decoration_bind_def
      seat_bind_def output_bind_def bind_with_def object_ok_def has_impl_def data_ok_def is_kind_def intro!: objects_ok_upd assms(1))

text \<open>The handlers fit the objects they are installed for: what they use is there, what they make is well typed.\<close>

definition handler_ok :: "iface \<Rightarrow> effect \<Rightarrow> bool" where
  "handler_ok i h \<longleftrightarrow>
     (case h of Keeps \<Rightarrow> True | Destroys \<Rightarrow> True | Uses who k \<Rightarrow> who = Own \<and> (\<forall>d. data_ok i d \<longrightarrow> is_kind k d)
      | Creates j ver impl dat use \<Rightarrow> impl = has_impl j \<and> (case ver of None \<Rightarrow> max_version i \<le> max_version j | Some v \<Rightarrow> v \<le> max_version j) \<and>
          (\<forall>k. use = Some (Own, k) \<longrightarrow> (\<forall>d. data_ok i d \<longrightarrow> is_kind k d)) \<and>
          (dat = N_Null \<longrightarrow> data_ok j U_Null) \<and> (dat = N_Own \<longrightarrow> (\<forall>d. data_ok i d \<longrightarrow> data_ok j d)) \<and>
          (dat = N_Surface \<longrightarrow> (\<forall>a. data_ok j (U_Surface a))))"

lemma tables_fit: "list_all (\<lambda>(_, h). handler_ok i h) (impl_of i)"
  by (cases i) (auto simp: handler_ok_def has_impl_def data_ok_def is_kind_def split: user_data.splits)

lemma tables_complete: "has_impl i \<Longrightarrow> r \<in> published i \<Longrightarrow> map_of (impl_of i) r \<noteq> None"
  by (cases i) (auto simp: has_impl_def)

lemma tables_args:
  "map_of (impl_of i) r = Some (Creates j ver impl N_Arg use) \<Longrightarrow>
     arg_iface r \<noteq> None \<and> j \<in> {XDG_SURFACE, TOPLEVEL_DECORATION} \<and> (use = None \<or> use = Some (Arg, Is_Surface))"
  "map_of (impl_of i) r = Some (Creates j ver impl dat (Some (Arg, k))) \<Longrightarrow> arg_iface r \<noteq> None \<and> k = Is_Surface"
  by (cases i; simp add: arg_iface_def split: if_splits)+

lemma arg_is_surface:
  assumes "objects_ok t" "legal P t q" "arg_iface (rq_name q) \<noteq> None"
  shows "is_kind Is_Surface (arg_data t q)"
proof -
  obtain i where i: "arg_iface (rq_name q) = Some i" using assms(3) by blast
  then obtain a x where x: "rq_arg q = Some a" "t a = Some x" "ob_iface x = i" using assms(2) by (auto simp: legal_def)
  then have "object_ok x" using assms(1) by (auto simp: objects_ok_def ran_def)
  moreover have "i \<in> {WL_SURFACE, XDG_TOPLEVEL}" using i by (auto simp: arg_iface_def split: if_splits)
  ultimately show ?thesis using x by (auto simp: object_ok_def data_ok_def arg_data_def)
qed

lemma surface_data_ok: "is_kind Is_Surface d \<Longrightarrow> j \<in> {XDG_SURFACE, TOPLEVEL_DECORATION} \<Longrightarrow> data_ok j d"
  by (auto simp: data_ok_def)

lemma serve_ok:
  assumes "objects_ok t" "legal P t q" "t (rq_id q) = Some ob" "object_ok ob" "map_of (impl_of (ob_iface ob)) (rq_name q) = Some h"
  shows "\<exists>t'. serve q ob h t = Some t' \<and> objects_ok t'"
proof -
  have h: "handler_ok (ob_iface ob) h"
    using tables_fit [of "ob_iface ob"] map_of_SomeD [OF assms(5)] by (auto simp: list_all_iff)
  have dat: "data_ok (ob_iface ob) (ob_data ob)" "ob_version ob \<le> max_version (ob_iface ob)" using assms(4) by (simp_all add: object_ok_def)
  show ?thesis
  proof (cases h)
    case (Uses who k)
    with h dat assms(1) show ?thesis by (simp add: serve_def handler_ok_def uses_ok_def)
  next
    case (Creates j ver impl new use)
    have arg: "is_kind Is_Surface (arg_data t q)" if "arg_iface (rq_name q) \<noteq> None"
      using arg_is_surface [OF assms(1,2) that] .
    have "uses_ok t q ob use"
    proof (cases use)
      case (Some wk)
      obtain who k where wk: "wk = (who, k)" by fastforce
      show ?thesis
      proof (cases who)
        case Own
        with Some wk h Creates dat show ?thesis by (simp add: uses_ok_def handler_ok_def)
      next
        case Arg
        with Some wk Creates tables_args(2) assms(5) arg show ?thesis by (fastforce simp: uses_ok_def)
      qed
    qed (simp add: uses_ok_def)
    moreover have "data_ok j (case new of N_Null \<Rightarrow> U_Null | N_Own \<Rightarrow> ob_data ob | N_Arg \<Rightarrow> arg_data t q | N_Surface \<Rightarrow> U_Surface (rq_surface q))"
    proof (cases new)
      case N_Arg
      with tables_args(1) assms(5) Creates have "arg_iface (rq_name q) \<noteq> None" "j \<in> {XDG_SURFACE, TOPLEVEL_DECORATION}" by fastforce+
      with arg surface_data_ok N_Arg show ?thesis by simp
    qed (use h Creates dat in \<open>simp_all add: handler_ok_def\<close>)
    moreover have "impl = has_impl j" "(case ver of None \<Rightarrow> ob_version ob | Some v \<Rightarrow> v) \<le> max_version j"
      using h Creates dat(2) by (auto simp: handler_ok_def split: option.splits)
    ultimately show ?thesis
      using Creates assms(1) by (simp add: serve_def object_ok_def objects_ok_upd)
  qed (use assms(1) in \<open>simp_all add: serve_def objects_ok_del\<close>)
qed

lemma dispatch_ok:
  assumes "follows_protocol P" "objects_ok t" "legal P t q" "t (rq_id q) = Some ob"
  shows "if has_impl (ob_iface ob) then \<exists>t'. obj_dispatch q t = Some t' \<and> objects_ok t' else obj_dispatch q t = None"
proof -
  have ob: "object_ok ob" using assms(2,4) by (auto simp: objects_ok_def ran_def)
  have "rq_name q \<in> published (ob_iface ob)"
    using assms(1,3,4) ob unfolding follows_protocol_def legal_def object_ok_def by fastforce
  then have "has_impl (ob_iface ob) \<Longrightarrow> map_of (impl_of (ob_iface ob)) (rq_name q) \<noteq> None" by (rule tables_complete [rotated])
  then show ?thesis
    using serve_ok [OF assms(2-4) ob] assms(4) ob by (auto simp: obj_dispatch_def object_ok_def)
qed

lemma obj_step:
  assumes "follows_protocol P" "obj_safe x" "obj_good P x e" shows "obj_safe (obj_exec e x)"
proof -
  obtain t where t: "x = Some t" "objects_ok t" using assms(2) by (auto simp: obj_safe_def split: option.splits)
  show ?thesis
  proof (cases e)
    case (Bind i v r ok)
    with t assms(3) bind_ok show ?thesis by (auto simp: obj_exec_def obj_safe_def obj_good_def simp del: globals_def)
  next
    case (Request q)
    then obtain ob where ob: "legal P t q" "t (rq_id q) = Some ob" "has_impl (ob_iface ob)"
      using assms(3) t(1) by (auto simp: obj_good_def legal_def)
    with dispatch_ok [OF assms(1) t(2) ob(1,2)] Request t show ?thesis by (auto simp: obj_exec_def obj_safe_def)
  qed
qed

text \<open>The machine, for the published protocol (any other with the same requests is a case of it).\<close>

definition published_at :: "iface \<Rightarrow> nat \<Rightarrow> string set" where
  "published_at i v = published i"

interpretation objects_machine: guarded_machine obj_exec "obj_good published_at" obj_safe
  by unfold_locales (rule obj_step, simp_all add: follows_protocol_def published_at_def)

text \<open>A protocol that follows the published one makes no other request good.\<close>

lemma good_published:
  assumes "follows_protocol P" "obj_safe x" "obj_good P x e" shows "obj_good published_at x e"
proof -
  obtain t where t: "x = Some t" "objects_ok t" using assms(2) by (auto simp: obj_safe_def split: option.splits)
  have "legal published_at t q" if q: "legal P t q" for q
  proof -
    obtain ob where ob: "t (rq_id q) = Some ob" "rq_name q \<in> P (ob_iface ob) (ob_version ob)" using q by (auto simp: legal_def)
    then have "object_ok ob" using t(2) by (auto simp: objects_ok_def ran_def)
    then have "rq_name q \<in> published (ob_iface ob)" using assms(1) ob(2) by (auto simp: follows_protocol_def object_ok_def)
    with q ob(1) show ?thesis by (simp add: legal_def published_at_def)
  qed
  with assms(3) t(1) show ?thesis by (auto simp: obj_good_def split: obj_event.splits)
qed

lemma run_published:
  assumes "follows_protocol P" "obj_safe x" "guarded_run obj_exec (obj_good P) es x"
  shows "guarded_run obj_exec (obj_good published_at) es x"
  using assms(2,3)
  by (induction es arbitrary: x) (auto intro: good_published [OF assms(1)] obj_step [OF assms(1)])

text \<open>
  C8: The objects a client has are well typed, whatever it binds, creates and destroys: the user
  data of each is what its handlers take it for (a surface, the frontend, or nothing), its
  version is one the server advertised, and no request the protocol allows finds an empty
  place in the table of its handlers. The only faults are requests to the objects the code
  gives no table: positioners, popups and outputs.
\<close>

theorem wayland_objects_typed:
  assumes "follows_protocol P" "guarded_run obj_exec (obj_good P) es (Some Map.empty)"
  shows "\<exists>t. fold obj_exec es (Some Map.empty) = Some t \<and> objects_ok t \<and>
    (\<forall>q ob. legal P t q \<and> t (rq_id q) = Some ob \<longrightarrow> (obj_dispatch q t = None \<longleftrightarrow> ob_iface ob \<in> {XDG_POSITIONER, XDG_POPUP, WL_OUTPUT}))"
proof -
  have start: "obj_safe (Some Map.empty)" by (simp add: obj_safe_def objects_ok_def)
  from objects_machine.run_inv [OF start run_published [OF assms(1) start assms(2)]]
  obtain t where t: "fold obj_exec es (Some Map.empty) = Some t" "objects_ok t" by (auto simp: obj_safe_def split: option.splits)
  have "obj_dispatch q t = None \<longleftrightarrow> ob_iface ob \<in> {XDG_POSITIONER, XDG_POPUP, WL_OUTPUT}" if q: "legal P t q" "t (rq_id q) = Some ob" for q ob
  proof -
    have "object_ok ob" using t(2) q(2) by (auto simp: objects_ok_def ran_def)
    moreover from this have "rq_name q \<in> published (ob_iface ob)"
      using q assms(1) by (fastforce simp: legal_def object_ok_def follows_protocol_def)
    then have "ob_iface ob \<noteq> WL_CALLBACK" by auto
    ultimately show ?thesis
      using dispatch_ok [OF assms(1) t(2) q] by (auto simp: has_impl_def split: if_splits)
  qed
  with t show ?thesis by blast
qed

definition demo_request :: "wl_res_id \<Rightarrow> string \<Rightarrow> wl_res_id option \<Rightarrow> wl_res_id \<Rightarrow> obj_request" where
  "demo_request r n a new = \<lparr>rq_id = r, rq_name = n, rq_arg = a, rq_new = new, rq_surface = 0, rq_alloc = True\<rparr>"

definition demo_session :: "obj_event list" where
  "demo_session = [Bind WL_COMPOSITOR 4 2 True, Bind XDG_WM_BASE 3 3 True, Request (demo_request 2 ''create_surface'' None 4),
     Request (demo_request 3 ''get_xdg_surface'' (Some 4) 5), Request (demo_request 5 ''get_toplevel'' None 6)]"

theorem wayland_objects_typed_witness:
  "\<exists>t. fold obj_exec demo_session (Some Map.empty) = Some t \<and> objects_ok t \<and> map_option ob_iface (t 6) = Some XDG_TOPLEVEL"
proof -
  have run: "guarded_run obj_exec (obj_good published_at) demo_session (Some Map.empty)"
    by (simp add: demo_session_def demo_request_def obj_good_def obj_exec_def legal_def published_at_def arg_iface_def has_impl_def
        compositor_bind_def xdg_wm_base_bind_def bind_with_def obj_dispatch_def serve_def uses_ok_def is_kind_def arg_data_def)
  have top: "map_option (\<lambda>t. map_option ob_iface (t 6)) (fold obj_exec demo_session (Some Map.empty)) = Some (Some XDG_TOPLEVEL)"
    by (simp add: demo_session_def demo_request_def obj_exec_def compositor_bind_def xdg_wm_base_bind_def bind_with_def obj_dispatch_def
        serve_def uses_ok_def is_kind_def arg_data_def)
  have "follows_protocol published_at" by (simp add: follows_protocol_def published_at_def)
  from wayland_objects_typed [OF this run] top show ?thesis by auto
qed

text \<open>
  A menu brings the server down: a client that binds \<open>xdg_wm_base\<close>, creates a positioner and
  gives it a size, as every client must before it can open a popup, makes the server look
  the handler up in a null table.
\<close>

theorem positioner_faults:
  "fold obj_exec [Bind XDG_WM_BASE 3 2 True, Request (demo_request 2 ''create_positioner'' None 3),
     Request (demo_request 3 ''set_size'' None 0)] (Some Map.empty) = None"
  by (simp add: obj_exec_def demo_request_def xdg_wm_base_bind_def bind_with_def obj_dispatch_def serve_def uses_ok_def)

end
