(* ===== verification/Control.thy ===== *)
theory Control
  imports Protocol Platform
begin

text \<open>
  The control socket: \<open>src/include/control.h\<close> and \<open>src/src/control.c\<close>. Control-panel
  applets connect, send one request datagram and read one answer: the modes of the output,
  or the result of a resolution change.

  Struct layouts follow the C ABI of the source's platform (little endian, no padding in
  these structs). The callback \<open>apply\<close> acts on a state of the caller, of which the
  control socket reads the KMS target, as the C code does through its pointer.
\<close>

unbundle bit_operations_syntax

section \<open>The wire format\<close>

definition GLCTL_MAGIC :: u32 where "GLCTL_MAGIC = 0x4743544C"
definition GLCTL_SOCKET_NAME :: string where "GLCTL_SOCKET_NAME = ''glacier-ctl''"
definition GLCTL_MAX_MODES :: nat where [simp]: "GLCTL_MAX_MODES = 64"
definition GLCTL_MODE_PREFERRED :: u32 where [simp]: "GLCTL_MODE_PREFERRED = 1"
definition GLCTL_MODE_CURRENT :: u32 where [simp]: "GLCTL_MODE_CURRENT = 2"
definition SUN_PATH_LEN :: nat where [simp]: "SUN_PATH_LEN = 108"

datatype glctl_type = GLCTL_GET_OUTPUTS | GLCTL_SET_MODE | GLCTL_OUTPUTS | GLCTL_RESULT

fun glctl_code :: "glctl_type \<Rightarrow> u32" where
  "glctl_code GLCTL_GET_OUTPUTS = 1"
| "glctl_code GLCTL_SET_MODE = 2"
| "glctl_code GLCTL_OUTPUTS = 128"
| "glctl_code GLCTL_RESULT = 129"

record glctl_mode =
  gm_w :: u32
  gm_h :: u32
  gm_refresh_mhz :: u32
  gm_flags :: u32

text \<open>\<open>num_modes\<close> and \<open>num_outputs\<close> are the lengths of the lists.\<close>

record glctl_output =
  go_name :: string
  go_x :: int
  go_y :: int
  go_modes :: "glctl_mode list"

record glctl_request =
  rq_type :: u32
  rq_magic :: u32
  rq_output :: "u8 list"
  rq_w :: u32
  rq_h :: u32
  rq_refresh_mhz :: u32

record glctl_outputs =
  ou_type :: u32
  ou_magic :: u32
  ou_outputs :: "glctl_output list"

record glctl_result =
  re_type :: u32
  re_magic :: u32
  re_ok :: bool

datatype glctl_reply = Outputs glctl_outputs | Result glctl_result

definition sizeof_request :: nat where [simp]: "sizeof_request = 52"
definition offsetof_output :: nat where [simp]: "offsetof_output = 8"

text \<open>A request as it stands in its 52 bytes of memory.\<close>

definition get_request :: "u8 list \<Rightarrow> glctl_request" where
  "get_request m =
     \<lparr>rq_type = rd32 m 0, rq_magic = rd32 m 4, rq_output = take 32 (drop 8 m),
      rq_w = rd32 m 40, rq_h = rd32 m 44, rq_refresh_mhz = rd32 m 48\<rparr>"

text \<open>
  \<open>recv\<close> into the uninitialised struct: the datagram, cut to the size of the struct,
  overwrites a prefix of whatever the stack held.
\<close>

definition recv_into :: "u8 list \<Rightarrow> u8 list \<Rightarrow> u8 list" where
  "recv_into stack bs = (let d = take sizeof_request bs in d @ drop (length d) stack)"

section \<open>State\<close>

record control =
  ct_listen_fd :: fd
  ct_path :: string

definition control_create :: "bool \<Rightarrow> control option" where
  "control_create calloc_ok = (if \<not> calloc_ok then None else Some \<lparr>ct_listen_fd = -1, ct_path = []\<rparr>)"

definition glctl_default_socket_path :: "string option \<Rightarrow> string option \<Rightarrow> nat \<Rightarrow> string" where
  "glctl_default_socket_path override rt len =
     (if (case override of None \<Rightarrow> False | Some p \<Rightarrow> c_str p \<noteq> []) then snprintf_s len (the override)
      else if (case rt of None \<Rightarrow> False | Some p \<Rightarrow> c_str p \<noteq> [])
        then snprintf_s len (c_str (the rt) @ ''/'' @ GLCTL_SOCKET_NAME)
      else snprintf_s len (''/tmp/'' @ GLCTL_SOCKET_NAME))"

text \<open>What \<open>socket\<close>, \<open>bind\<close> and \<open>listen\<close> answer.\<close>

record listen_answers =
  la_socket :: "fd option"
  la_bind :: bool
  la_listen :: bool

definition control_listen :: "listen_answers \<Rightarrow> string option \<Rightarrow> string option \<Rightarrow> string option \<Rightarrow> control \<Rightarrow>
    glctl_reply kern \<Rightarrow> int \<times> control \<times> glctl_reply kern" where
  "control_listen a path override rt c k =
     (let resolved = (case path of Some p \<Rightarrow> snprintf_s SUN_PATH_LEN p
                      | None \<Rightarrow> glctl_default_socket_path override rt SUN_PATH_LEN)
      in case la_socket a of
           None \<Rightarrow> (-1, c, k)
         | Some f \<Rightarrow>
             (let k1 = kcall (K_Unlink resolved) k
              in if \<not> la_bind a \<or> \<not> la_listen a then (-1, c, k_close f k1)
                 else (0, c\<lparr>ct_listen_fd := f, ct_path := resolved\<rparr>, k1)))"

definition control_fd :: "control \<Rightarrow> fd" where
  "control_fd c = ct_listen_fd c"

definition control_destroy :: "control option \<Rightarrow> glctl_reply kern \<Rightarrow> glctl_reply kern" where
  "control_destroy co k =
     (case co of
        None \<Rightarrow> k
      | Some c \<Rightarrow>
          (let k1 = (if ct_listen_fd c \<ge> 0 then k_close (ct_listen_fd c) k else k)
           in if ct_path c \<noteq> [] then kcall (K_Unlink (ct_path c)) k1 else k1))"

section \<open>Listing the outputs\<close>

text \<open>\<open>%u\<close>\<close>

fun show_nat :: "nat \<Rightarrow> string" where
  "show_nat n = (if n < 10 then [char_of (48 + n)] else show_nat (n div 10) @ [char_of (48 + n mod 10)])"

declare show_nat.simps [simp del]

definition connector_type_name :: "u32 \<Rightarrow> string" where
  "connector_type_name t =
     (if t = 14 then ''eDP'' else if t = 7 then ''LVDS'' else if t = 10 then ''DP''
      else if t = 11 then ''HDMI-A'' else if t = 12 then ''HDMI-B'' else if t = 1 then ''VGA''
      else if t = 2 \<or> t = 3 \<or> t = 4 then ''DVI'' else if t = 15 then ''Virtual'' else ''Display'')"

definition connector_name :: "drm_connector \<Rightarrow> nat \<Rightarrow> string" where
  "connector_name c len = snprintf_s len (connector_type_name (dc_type c) @ ''-'' @ show_nat (unat (dc_type_id c)))"

text \<open>The rate in millihertz, as the control socket computes it; \<open>kms_set_mode_wh\<close> has its own expression.\<close>

definition mode_refresh_mhz :: "drm_mode \<Rightarrow> u32" where
  "mode_refresh_mhz m =
     (if htotal m \<noteq> 0 \<and> vtotal m \<noteq> 0
      then ucast (((ucast (mo_clock m) :: u64) * 1000000) div ucast ((ucast (htotal m) :: u32) * ucast (vtotal m)))
      else vrefresh m * 1000)"

definition wire_mode :: "kms \<Rightarrow> drm_mode \<Rightarrow> glctl_mode" where
  "wire_mode k m =
     (let fl1 = (if mo_type m AND DRM_MODE_TYPE_PREFERRED \<noteq> 0 then 0 OR GLCTL_MODE_PREFERRED else 0);
          fl2 = (if hdisplay m = hdisplay (mode k) \<and> vdisplay m = vdisplay (mode k) \<and> vrefresh m = vrefresh (mode k)
                 then fl1 OR GLCTL_MODE_CURRENT else fl1)
      in \<lparr>gm_w = ucast (hdisplay m), gm_h = ucast (vdisplay m), gm_refresh_mhz = mode_refresh_mhz m, gm_flags = fl2\<rparr>)"

fun list_modes :: "kms \<Rightarrow> drm_mode list \<Rightarrow> glctl_mode list \<Rightarrow> glctl_mode list" where
  "list_modes k [] out = out"
| "list_modes k (m # ms) out =
     (if \<not> length out < GLCTL_MAX_MODES then out
      else if mo_flags m AND DRM_MODE_FLAG_INTERLACE \<noteq> 0 then list_modes k ms out
      else list_modes k ms (out @ [wire_mode k m]))"

definition handle_get_outputs :: "drm_dev \<Rightarrow> kms \<Rightarrow> fd \<Rightarrow> glctl_reply kern \<Rightarrow> glctl_reply kern" where
  "handle_get_outputs dv k cfd ker =
     (let outs = (case dv_connector dv (connector_id k) of
                    None \<Rightarrow> []
                  | Some cn \<Rightarrow> [\<lparr>go_name = connector_name cn 32, go_x = 0, go_y = 0, go_modes = list_modes k (dc_modes cn) []\<rparr>])
      in k_send cfd (Outputs \<lparr>ou_type = glctl_code GLCTL_OUTPUTS, ou_magic = GLCTL_MAGIC, ou_outputs = outs\<rparr>) ker)"

section \<open>Requests\<close>

text \<open>
  A pending connection: its descriptor, the datagram waiting on it when it is accepted
  (\<open>None\<close> if there is none yet: \<open>recv\<close> returns -1), and what the stack happens to hold
  where the request goes. The loop ends when \<open>accept4\<close> has none left.
\<close>

record ctl_conn =
  cc_fd :: fd
  cc_msg :: "u8 list option"
  cc_stack :: "u8 list"

definition conn_request :: "ctl_conn \<Rightarrow> glctl_request" where
  "conn_request c = get_request (case cc_msg c of None \<Rightarrow> cc_stack c | Some bs \<Rightarrow> recv_into (cc_stack c) bs)"

definition conn_n :: "ctl_conn \<Rightarrow> int" where
  "conn_n c = (case cc_msg c of None \<Rightarrow> -1 | Some bs \<Rightarrow> int (min sizeof_request (length bs)))"

definition control_answer :: "('s \<Rightarrow> kms) \<Rightarrow> drm_dev \<Rightarrow> (int \<Rightarrow> int \<Rightarrow> int \<Rightarrow> 's \<Rightarrow> bool \<times> 's) option \<Rightarrow>
    fd \<Rightarrow> glctl_request \<Rightarrow> 's \<times> glctl_reply kern \<Rightarrow> 's \<times> glctl_reply kern" where
  "control_answer target dv apply cfd rq sk =
     (if rq_type rq = glctl_code GLCTL_GET_OUTPUTS
      then (fst sk, handle_get_outputs dv (target (fst sk)) cfd (snd sk))
      else if rq_type rq = glctl_code GLCTL_SET_MODE
      then (let (ok, s') = (case apply of
                  None \<Rightarrow> (False, fst sk)
                | Some f \<Rightarrow> f (int_of_u32 (rq_w rq)) (int_of_u32 (rq_h rq)) (int_of_u32 (rq_refresh_mhz rq)) (fst sk))
            in (s', k_send cfd (Result \<lparr>re_type = glctl_code GLCTL_RESULT, re_magic = GLCTL_MAGIC, re_ok = ok\<rparr>) (snd sk)))
      else sk)"

fun control_process :: "('s \<Rightarrow> kms) \<Rightarrow> drm_dev \<Rightarrow> (int \<Rightarrow> int \<Rightarrow> int \<Rightarrow> 's \<Rightarrow> bool \<times> 's) option \<Rightarrow>
    ctl_conn list \<Rightarrow> 's \<times> glctl_reply kern \<Rightarrow> 's \<times> glctl_reply kern" where
  "control_process target dv apply [] sk = sk"
| "control_process target dv apply (c # cs) sk =
     (let rq = conn_request c;
          sk1 = (if conn_n c \<ge> int offsetof_output \<and> rq_magic rq = GLCTL_MAGIC
                 then control_answer target dv apply (cc_fd c) rq sk else sk)
      in control_process target dv apply cs (fst sk1, k_close (cc_fd c) (snd sk1)))"

end
