(* ===== verification/Control_Spec.thy ===== *)
theory Control_Spec
  imports Control Platform_Spec
begin

text \<open>
  What the control socket promises: each connection is served and closed, the modes listed
  are the ones a change can ask for, and where a short request goes wrong.
\<close>

section \<open>Names and modes\<close>

lemma length_show_nat: "n < 10 ^ k \<Longrightarrow> 0 < k \<Longrightarrow> length (show_nat n) \<le> k"
proof (induction n arbitrary: k rule: show_nat.induct)
  case (1 n)
  show ?case
  proof (cases "n < 10")
    case False
    with 1(2) have "k \<noteq> 1" by auto
    then obtain k' where k: "k = Suc k'" "0 < k'" using 1(3) by (cases k) auto
    with 1(2) have "n div 10 < 10 ^ k'" by (simp add: less_mult_imp_div_less)
    with 1(1) [OF False this k(2)] k False show ?thesis by (subst show_nat.simps) simp
  qed (use 1(3) in \<open>simp add: show_nat.simps [of n]\<close>)
qed

text \<open>A connector's name always fits its field.\<close>

lemma connector_name_fits: "length (connector_type_name (dc_type c) @ ''-'' @ show_nat (unat (dc_type_id c))) < 32"
proof -
  have "unat (dc_type_id c) < 2 ^ 32" using unsigned_less [of "dc_type_id c", where 'a = nat] by simp
  then have "unat (dc_type_id c) < 10 ^ 10" by (rule less_trans) simp
  then have "length (show_nat (unat (dc_type_id c))) \<le> 10" by (rule length_show_nat) simp
  moreover have "length (connector_type_name (dc_type c)) \<le> 7" by (simp add: connector_type_name_def)
  ultimately show ?thesis by simp
qed

definition progressive :: "drm_mode \<Rightarrow> bool" where
  "progressive m \<longleftrightarrow> mo_flags m AND DRM_MODE_FLAG_INTERLACE = 0"

lemma list_modes_append:
  "length out \<le> 64 \<Longrightarrow> list_modes k ms out = take 64 (out @ map (wire_mode k) (filter progressive ms))"
proof (induction ms arbitrary: out)
  case (Cons m ms)
  show ?case
  proof (cases "length out < 64 \<and> progressive m")
    case True
    then show ?thesis using Cons.IH [of "out @ [wire_mode k m]"] by (simp add: progressive_def)
  next
    case False
    with Cons show ?thesis by (auto simp: progressive_def)
  qed
qed simp

lemma list_modes_filter:
  "list_modes k ms [] = take 64 (map (wire_mode k) (filter progressive ms))"
  by (simp add: list_modes_append)

text \<open>
  The modes listed for the output are exactly the first 64 progressive modes of the
  connector, in its order, each with its size, its refresh rate and its flags: the loop
  with its counter and its bound is the same as filtering, translating and cutting.
\<close>

theorem list_modes_reference:
  "list_modes k ms [] = take 64 (map (wire_mode k) (filter progressive ms))"
  by (rule list_modes_filter)

section \<open>Setting a listed mode\<close>

lemma int_of_u16: "int_of_u32 (ucast (x :: u16)) = int (unat x)"
proof -
  have "uint x < 2 ^ 16" using unsigned_less [of x, where 'a = int] by simp
  then have "in_int (uint x)" unfolding in_int_def by (simp add: order_trans [OF _ unsigned_greater_eq])
  moreover have "(ucast x :: u32) = u32_of_int (uint x)" unfolding u32_of_int_def by simp
  ultimately show ?thesis by (simp only: int_of_u32_of_int uint_nat)
qed

lemma mode_refresh_kms: "mode_refresh_mhz m = kms_mode_mhz m"
  by (simp add: mode_refresh_mhz_def kms_mode_mhz_def)

lemma refresh_diff_self: "refresh_diff (int_of_u32 (mode_refresh_mhz m)) m = 0"
  by (simp add: refresh_diff_def Let_def mode_refresh_kms)

lemma int_of_u32_0: "int_of_u32 r = 0 \<longleftrightarrow> r = 0"
  by (metis int_of_u32_def signed_0 u32_of_int_of_u32)

lemma refresh_diff_exact: "refresh_diff (int_of_u32 r) m = 0 \<Longrightarrow> r \<noteq> 0 \<Longrightarrow> mode_refresh_mhz m = r"
  by (auto simp: refresh_diff_def Let_def int_of_u32_0 mode_refresh_kms split: if_splits)

text \<open>
  C28: What the panel shows can be chosen: asking for any listed mode, with the size and
  refresh rate it was listed with, finds a mode of exactly that size and, unless the rate
  is 0, exactly that rate.
\<close>

theorem listed_mode_settable:
  assumes "gm \<in> set (list_modes k (dc_modes cn) [])" "dv_connector dv (connector_id k) = Some cn"
  shows "\<exists>k' d'. kms_set_mode_wh dv (Some b) k (int_of_u32 (gm_w gm)) (int_of_u32 (gm_h gm)) (int_of_u32 (gm_refresh_mhz gm)) d = (0, k', d') \<and>
    mode k' \<in> set (dc_modes cn) \<and> ucast (hdisplay (mode k')) = gm_w gm \<and> ucast (vdisplay (mode k')) = gm_h gm \<and>
    (gm_refresh_mhz gm = 0 \<or> mode_refresh_mhz (mode k') = gm_refresh_mhz gm)"
proof -
  obtain m where m: "m \<in> set (dc_modes cn)" "progressive m" "gm = wire_mode k m"
    using assms(1) set_take_subset by (fastforce simp: list_modes_filter)
  let ?w = "int_of_u32 (gm_w gm)" and ?h = "int_of_u32 (gm_h gm)" and ?r = "int_of_u32 (gm_refresh_mhz gm)"
  have gm: "gm_w gm = ucast (hdisplay m)" "gm_h gm = ucast (vdisplay m)" "gm_refresh_mhz gm = mode_refresh_mhz m"
    using m(3) by (simp_all add: wire_mode_def Let_def)
  have fits: "mode_fits ?w ?h m" using m(2) by (simp add: mode_fits_def progressive_def gm int_of_u16)
  note spec = best_mode_spec [where w = ?w and h = ?h and r = ?r and ms = "dc_modes cn"]
  obtain m' diff where best: "best_mode ?w ?h ?r (dc_modes cn) None = Some (m', diff)"
    using spec fits m(1) by (cases "best_mode ?w ?h ?r (dc_modes cn) None") auto
  then have m': "m' \<in> set (dc_modes cn)" "mode_fits ?w ?h m'" "refresh_diff ?r m' \<le> refresh_diff ?r m"
    using spec fits m(1) by auto
  have "refresh_diff ?r m' = 0" using m'(3) by (simp add: gm(3) refresh_diff_self)
  then have "gm_refresh_mhz gm = 0 \<or> mode_refresh_mhz m' = gm_refresh_mhz gm" using refresh_diff_exact by blast
  moreover have "hdisplay m' = hdisplay m" "vdisplay m' = vdisplay m"
    using m'(2) by (simp_all add: mode_fits_def gm int_of_u16 word_uint_eq_iff)
  ultimately show ?thesis
    using assms(2) best m'(1) by (simp add: kms_set_mode_wh_def create_blob_def gm)
qed

theorem listed_mode_settable_witness:
  "\<exists>k' d'. kms_set_mode_wh demo_dev (Some 9) (zero_kms\<lparr>connector_id := 31\<rparr>) 1920 1080 50000 no_drm = (0, k', d') \<and>
     mode_refresh_mhz (mode k') = 50000"
proof -
  let ?k = "zero_kms\<lparr>connector_id := 31\<rparr>"
  let ?gm = "\<lparr>gm_w = 1920, gm_h = 1080, gm_refresh_mhz = 50000, gm_flags = 0\<rparr>"
  have "?gm \<in> set (list_modes ?k (dc_modes demo_connector) [])"
    by (simp add: demo_connector_def mode_50_def mode_60_def wire_mode_def zero_kms_def zero_mode_def mode_refresh_mhz_def)
  from listed_mode_settable [OF this, of demo_dev 9 no_drm] show ?thesis
    by (auto simp: demo_dev_def int_of_u32_def)
qed

section \<open>Serving connections\<close>

text \<open>A connection that gets an answer: its datagram is there, long enough, marked, and of a known type.\<close>

definition served :: "ctl_conn \<Rightarrow> bool" where
  "served c \<longleftrightarrow> int offsetof_output \<le> conn_n c \<and> rq_magic (conn_request c) = GLCTL_MAGIC \<and>
     (rq_type (conn_request c) = glctl_code GLCTL_GET_OUTPUTS \<or> rq_type (conn_request c) = glctl_code GLCTL_SET_MODE)"

definition answers :: "ctl_conn \<Rightarrow> fd \<times> glctl_reply \<Rightarrow> bool" where
  "answers c r \<longleftrightarrow> fst r = cc_fd c \<and> rq_type (conn_request c) =
     (case snd r of Outputs _ \<Rightarrow> glctl_code GLCTL_GET_OUTPUTS | Result _ \<Rightarrow> glctl_code GLCTL_SET_MODE)"

lemma control_answer_trace:
  "control_answer target dv apply f rq (s, k) = (s', k') \<Longrightarrow>
   closed (trace k') = closed (trace k) \<and>
   (rq_type rq \<noteq> glctl_code GLCTL_SET_MODE \<longrightarrow> s' = s) \<and>
   (\<exists>rs. sent (trace k') = sent (trace k) @ rs \<and>
     (if rq_type rq = glctl_code GLCTL_GET_OUTPUTS then \<exists>out. rs = [(f, Outputs out)]
      else if rq_type rq = glctl_code GLCTL_SET_MODE then \<exists>r. rs = [(f, Result r)] else rs = []))"
  by (auto simp: control_answer_def handle_get_outputs_def Let_def split: if_splits prod.splits)

text \<open>
  C38: Every pending connection is closed exactly once, in the order accepted; it gets one
  answer, of the kind it asked for, exactly when its request is valid, and no answer
  otherwise; and unless some connection asks for a mode, nothing of the server changes.
\<close>

theorem control_process_serves:
  assumes "control_process target dv apply cs (s, k) = (s', k')"
  shows "closed (trace k') = closed (trace k) @ map cc_fd cs \<and>
    (\<exists>rs. sent (trace k') = sent (trace k) @ rs \<and> list_all2 answers (filter served cs) rs) \<and>
    (s' = s \<or> (\<exists>c \<in> set (filter served cs). rq_type (conn_request c) = glctl_code GLCTL_SET_MODE))"
  using assms
proof (induction cs arbitrary: s k)
  case (Cons c cs)
  let ?go = "conn_n c \<ge> int offsetof_output \<and> rq_magic (conn_request c) = GLCTL_MAGIC"
  obtain s1 k1 where a: "(if ?go then control_answer target dv apply (cc_fd c) (conn_request c) (s, k) else (s, k)) = (s1, k1)"
    by (meson surj_pair)
  with Cons.prems have rest: "control_process target dv apply cs (s1, k_close (cc_fd c) k1) = (s', k')"
    by (simp add: Let_def)
  note IH = Cons.IH [OF rest]
  show ?case
  proof (cases ?go)
    case True
    with a have "control_answer target dv apply (cc_fd c) (conn_request c) (s, k) = (s1, k1)" by simp
    note t = control_answer_trace [OF this]
    obtain rs where rs: "sent (trace k1) = sent (trace k) @ rs"
        "if rq_type (conn_request c) = glctl_code GLCTL_GET_OUTPUTS then \<exists>out. rs = [(cc_fd c, Outputs out)]
         else if rq_type (conn_request c) = glctl_code GLCTL_SET_MODE then \<exists>r. rs = [(cc_fd c, Result r)] else rs = []"
      using t by blast
    obtain rs' where rs': "sent (trace k') = sent (trace k1) @ rs'" "list_all2 answers (filter served cs) rs'"
      using IH by auto
    have "list_all2 answers (filter served (c # cs)) (rs @ rs')"
      using rs(2) rs'(2) True by (auto simp: served_def answers_def split: if_splits)
    moreover have "closed (trace k') = closed (trace k) @ map cc_fd (c # cs)" using IH t by simp
    moreover have "s' = s \<or> (\<exists>c \<in> set (filter served (c # cs)). rq_type (conn_request c) = glctl_code GLCTL_SET_MODE)"
      using IH t True by (auto simp: served_def)
    ultimately show ?thesis using rs(1) rs'(1) by (metis append.assoc)
  next
    case False
    from a [unfolded if_not_P [OF False]] have "s1 = s" "k1 = k" by simp_all
    with IH False show ?thesis by (auto simp: served_def)
  qed
qed simp

definition demo_conn :: "fd \<Rightarrow> ctl_conn" where
  "demo_conn f = \<lparr>cc_fd = f, cc_msg = Some (le_words [1, GLCTL_MAGIC]), cc_stack = replicate 52 0\<rparr>"

theorem control_process_serves_witness:
  "\<exists>s' k'. control_process (\<lambda>s. s) demo_dev None [demo_conn 7, demo_conn 8] (zero_kms, \<lparr>maps = Map.empty, next_map = 0, trace = []\<rparr>) = (s', k') \<and>
     closed (trace k') = [7, 8]"
proof -
  let ?k = "\<lparr>maps = Map.empty, next_map = 0, trace = []\<rparr> :: glctl_reply kern"
  obtain s' k' where c: "control_process (\<lambda>s. s) demo_dev None [demo_conn 7, demo_conn 8] (zero_kms, ?k) = (s', k')"
    by (meson surj_pair)
  with control_process_serves [OF c] show ?thesis by (simp add: demo_conn_def)
qed

text \<open>
  A \<open>SET_MODE\<close> datagram that ends before its fields is not refused: the size asked for
  is whatever the stack held there.
\<close>

theorem short_set_mode_uses_stack:
  assumes "8 \<le> length bs" "length bs \<le> 40" "length st = 52"
    and "rd32 bs 0 = glctl_code GLCTL_SET_MODE" "rd32 bs 4 = GLCTL_MAGIC"
  shows "fst (control_process target dv (Some f) [\<lparr>cc_fd = cfd, cc_msg = Some bs, cc_stack = st\<rparr>] (s, k)) =
    snd (f (int_of_u32 (rd32 st 40)) (int_of_u32 (rd32 st 44)) (int_of_u32 (rd32 st 48)) s)"
proof -
  let ?c = "\<lparr>cc_fd = cfd, cc_msg = Some bs, cc_stack = st\<rparr>"
  have m: "recv_into st bs = bs @ drop (length bs) st" using assms(2) by (simp add: recv_into_def Let_def)
  have lo: "rd32 (bs @ drop (length bs) st) i = rd32 bs i" if "i + 4 \<le> 8" for i
    using that assms(1) by (simp add: rd32_def nth_append)
  have hi: "rd32 (bs @ drop (length bs) st) i = rd32 st i" if "40 \<le> i" "i + 4 \<le> 52" for i
    using that assms(2,3) by (simp add: rd32_def nth_append)
  have "rq_type (conn_request ?c) = 2" "rq_magic (conn_request ?c) = GLCTL_MAGIC" "rq_w (conn_request ?c) = rd32 st 40"
    "rq_h (conn_request ?c) = rd32 st 44" "rq_refresh_mhz (conn_request ?c) = rd32 st 48" "8 \<le> conn_n ?c"
    using assms by (simp_all add: conn_request_def conn_n_def get_request_def m lo hi)
  then show ?thesis by (simp add: control_answer_def Let_def split: prod.split)
qed

theorem short_set_mode_uses_stack_witness:
  "fst (control_process (\<lambda>_. zero_kms) demo_dev (Some (\<lambda>w h r s. (True, (w, h, r))))
     [\<lparr>cc_fd = 7, cc_msg = Some (le_words [2, GLCTL_MAGIC]), cc_stack = le_words (replicate 10 0 @ [800, 600, 0])\<rparr>]
     ((0, 0, 0), \<lparr>maps = Map.empty, next_map = 0, trace = []\<rparr>)) = (800, 600, 0)"
proof -
  let ?bs = "le_words [2, GLCTL_MAGIC]" and ?ws = "replicate 10 0 @ [800, 600, 0]"
  have b: "8 \<le> length ?bs" "length ?bs \<le> 40" "length (le_words ?ws) = 52" by simp_all
  have r: "rd32 ?bs 0 = glctl_code GLCTL_SET_MODE" "rd32 ?bs 4 = GLCTL_MAGIC"
    using rd32_at [of 0 0 "[2, GLCTL_MAGIC]" "[]"] rd32_at [of 4 1 "[2, GLCTL_MAGIC]" "[]"] by simp_all
  have w: "rd32 (le_words ?ws) 40 = 800" "rd32 (le_words ?ws) 44 = 600" "rd32 (le_words ?ws) 48 = 0"
    using rd32_at [of 40 10 ?ws "[]"] rd32_at [of 44 11 ?ws "[]"] rd32_at [of 48 12 ?ws "[]"] by (simp_all add: nth_append)
  have n: "int_of_u32 800 = 800" "int_of_u32 600 = 600" "int_of_u32 0 = 0" by (simp_all add: int_of_u32_def)
  show ?thesis unfolding short_set_mode_uses_stack [OF b r] w n by simp
qed

text \<open>A client that has connected but not yet sent its request is dropped without an answer.\<close>

lemma early_connection_dropped:
  "cc_msg c = None \<Longrightarrow> control_process target dv apply [c] (s, k) = (s, k_close (cc_fd c) k)"
  by (simp add: conn_n_def)

section \<open>The rendezvous\<close>

text \<open>
  Listening is all or nothing: a failure closes the socket it made and leaves the control
  as it was; after success, destroying the control closes the socket and removes its path.
\<close>

lemma control_listen_result:
  assumes "control_listen a path override rt c k = (r, c', k')"
  shows "if r = 0
    then la_socket a = Some (ct_listen_fd c') \<and> closed (trace k') = closed (trace k) \<and> length (ct_path c') < SUN_PATH_LEN
    else r = -1 \<and> c' = c \<and> closed (trace k') = closed (trace k) @ (case la_socket a of None \<Rightarrow> [] | Some f \<Rightarrow> [f])"
  using assms
  by (auto simp: control_listen_def glctl_default_socket_path_def Let_def snprintf_s_def split: option.splits if_splits)

lemma control_destroy_closes:
  "0 \<le> ct_listen_fd c \<Longrightarrow> closed (trace (control_destroy (Some c) k)) = closed (trace k) @ [ct_listen_fd c]"
  by (simp add: control_destroy_def Let_def)

end
