(* ===== verification/Server.thy ===== *)
theory Server
  imports Compositor Control Wayland_Spec
begin

text \<open>
  The server of \<open>src/src/server.c\<close>: input routing, resolution changes and the main loop,
  which join the window manager, the two frontends, the compositor, the control socket
  and the display.

  In C every component holds a pointer to one window stack. Here the stack lives in the
  transport's \<open>world\<close>; \<open>wl_call\<close> lends it to the Wayland frontend for the length of a
  call and takes it back. A component that is \<open>NULL\<close> is \<open>None\<close>, or \<open>sv_xport\<close> false
  (the world then still carries the stack).
\<close>

section \<open>State\<close>

datatype input_kind = INPUT_MOTION | INPUT_MOTION_ABS | INPUT_BUTTON | INPUT_KEY

record input_event =
  ie_kind :: input_kind
  ie_dx :: real
  ie_dy :: real
  ie_ax :: real
  ie_ay :: real
  ie_button :: u32
  ie_keysym :: u32
  ie_keycode :: u32
  ie_pressed :: bool
  ie_alt_down :: bool
  ie_ctrl_down :: bool

text \<open>An atomic commit the loop made: whether a modeset was allowed, the framebuffer it shows, its entries, and the result.\<close>

record commit =
  cm_modeset :: bool
  cm_fb :: "u32 option"
  cm_req :: atomic_req
  cm_ok :: bool

record server =
  sv_w :: world
  sv_xport :: bool
  sv_wm :: wm
  sv_wl :: "wl_frontend option"
  sv_ctl :: "glctl_reply kern option"
  sv_kms :: kms
  sv_fbs :: "dumb_fb list"
  sv_drm :: drm
  sv_commits :: "commit list"
  seat_active :: bool
  sv_dirty :: bool
  sv_activity :: bool
  ctrl_held :: bool
  alt_held :: bool
  running :: bool
  terminals :: nat
  master :: bool
  need_modeset :: bool
  front :: nat
  last_activity :: int
  blanked :: bool

definition sv_stack :: "server \<Rightarrow> window_stack" where
  "sv_stack s = stk (sv_w s)"

definition put_stack :: "window_stack \<Rightarrow> server \<Rightarrow> server" where
  "put_stack st s = s\<lparr>sv_w := (sv_w s)\<lparr>stk := st\<rparr>\<rparr>"

definition wm_call :: "(wm \<Rightarrow> window_stack \<Rightarrow> wm \<times> window_stack) \<Rightarrow> server \<Rightarrow> server" where
  "wm_call g s = (let (m, st) = g (sv_wm s) (sv_stack s) in put_stack st (s\<lparr>sv_wm := m\<rparr>))"

text \<open>\<open>if (wl) ...\<close> and \<open>if (xport) ...\<close>\<close>

definition wl_call :: "(wl_frontend \<Rightarrow> wl_frontend) \<Rightarrow> server \<Rightarrow> server" where
  "wl_call g s =
     (case sv_wl s of
        None \<Rightarrow> s
      | Some f \<Rightarrow> (let f' = g (f\<lparr>wl_stack := sv_stack s\<rparr>) in put_stack (wl_stack f') (s\<lparr>sv_wl := Some f'\<rparr>)))"

definition xp_call :: "(world \<Rightarrow> world) \<Rightarrow> server \<Rightarrow> server" where
  "xp_call g s = (if sv_xport s then s\<lparr>sv_w := g (sv_w s)\<rparr> else s)"

section \<open>Input routing\<close>

text \<open>The parent's side: a fork. The child is a process of its own.\<close>

definition spawn_terminal :: "server \<Rightarrow> server" where
  "spawn_terminal s = s\<lparr>terminals := Suc (terminals s)\<rparr>"

definition route_motion :: "server \<Rightarrow> server" where
  "route_motion s =
     (let cx = cursor_x (sv_wm s); cy = cursor_y (sv_wm s);
          s1 = wl_call (wl_frontend_pointer_motion cx cy) s;
          s2 = xp_call (transport_pointer_motion cx cy) s1
      in s2\<lparr>sv_dirty := True\<rparr>)"

definition route_button :: "u32 \<Rightarrow> bool \<Rightarrow> server \<Rightarrow> server" where
  "route_button b p s =
     (let s1 = wl_call (wl_frontend_pointer_button b p) s;
          s2 = xp_call (transport_pointer_button b p (cursor_x (sv_wm s)) (cursor_y (sv_wm s))) s1
      in s2\<lparr>sv_dirty := True\<rparr>)"

text \<open>To the focused client: the Wayland frontend by its own focus, the transport by the stack's.\<close>

definition route_key :: "input_event \<Rightarrow> server \<Rightarrow> server" where
  "route_key ev s =
     (let s1 = wl_call (wl_frontend_keyboard_key (ie_keycode ev) (ie_pressed ev)) s
      in xp_call (transport_keyboard_key (focus_id (sv_stack s1)) (ie_keysym ev) (ie_pressed ev)) s1)"

definition track_modifiers :: "input_event \<Rightarrow> server \<Rightarrow> server" where
  "track_modifiers ev s =
     (if ie_keycode ev = 29 \<or> ie_keycode ev = 97 then s\<lparr>ctrl_held := ie_pressed ev\<rparr>
      else if ie_keycode ev = 56 \<or> ie_keycode ev = 100 then s\<lparr>alt_held := ie_pressed ev\<rparr>
      else s)"

definition on_key :: "input_event \<Rightarrow> server \<Rightarrow> server" where
  "on_key ev s =
     (let s1 = track_modifiers ev s
      in if ie_pressed ev \<and> ctrl_held s1 \<and> alt_held s1 \<and> ie_keycode ev = 20 then spawn_terminal s1
         else if ie_pressed ev \<and> ie_keysym ev = 0xff1b then s1\<lparr>running := False\<rparr>
         else let (used, st) = wm_key (sv_stack s1) (ie_keysym ev) (ie_pressed ev) (ie_alt_down ev);
                  s2 = put_stack st s1
              in if used then s2\<lparr>sv_dirty := True\<rparr> else route_key ev s2)"

definition on_input :: "input_event \<Rightarrow> server \<Rightarrow> server" where
  "on_input ev s0 =
     (let s = s0\<lparr>sv_activity := True\<rparr>
      in case ie_kind ev of
           INPUT_MOTION \<Rightarrow> route_motion (wm_call (\<lambda>m st. wm_pointer_motion m st (ie_dx ev) (ie_dy ev)) s)
         | INPUT_MOTION_ABS \<Rightarrow> route_motion (wm_call (\<lambda>m st. wm_pointer_motion_abs m st (ie_ax ev) (ie_ay ev)) s)
         | INPUT_BUTTON \<Rightarrow>
             route_button (ie_button ev) (ie_pressed ev)
               (wm_call (\<lambda>m st. wm_pointer_button m st (ie_button ev) (ie_pressed ev)) s)
         | INPUT_KEY \<Rightarrow> on_key ev s)"

section \<open>The demo scene\<close>

definition seed_windows :: "int \<Rightarrow> int \<Rightarrow> window_stack \<Rightarrow> window_stack" where
  "seed_windows sw sh s =
     (let (_, s1) = window_create s WIN_DESKTOP 0 0 sw sh 0x00204060 (Some ''desktop'');
          (_, s2) = window_create s1 WIN_NORMAL (sw sdiv 6) (sh sdiv 6) 520 360 0x00d8d8d8 (Some ''Window A'');
          (b, s3) = window_create s2 WIN_NORMAL (sw sdiv 3) (sh sdiv 3) 480 320 0x00eeeeee (Some ''Window B'')
      in window_focus s3 b)"

section \<open>Changing the resolution\<close>

text \<open>What the kernel answers to one change: the mode blob and the two framebuffers.\<close>

record mode_answers =
  ma_blob :: "u32 option"
  ma_fbs :: "nat \<Rightarrow> fb_answers"

text \<open>The reallocation loop, which stops at the first failure.\<close>

fun realloc_fbs :: "nat list \<Rightarrow> (nat \<Rightarrow> fb_answers) \<Rightarrow> int \<Rightarrow> int \<Rightarrow> dumb_fb list \<Rightarrow> drm \<Rightarrow> bool \<times> dumb_fb list \<times> drm" where
  "realloc_fbs [] a nw nh fbs d = (True, fbs, d)"
| "realloc_fbs (i # is) a nw nh fbs d =
     (let (_, d1) = dumb_fb_destroy (fbs ! i) d;
          (r, fb, d2) = dumb_fb_create (a i) nw nh d1;
          fbs' = fbs[i := fb]
      in if r \<noteq> 0 then (False, fbs', d2) else realloc_fbs is a nw nh fbs' d2)"

definition clamp_cursor :: "int \<Rightarrow> int \<Rightarrow> wm \<Rightarrow> wm" where
  "clamp_cursor nw nh m =
     (let m1 = m\<lparr>screen_w := nw, screen_h := nh\<rparr>;
          m2 = (if cursor_x m1 \<ge> nw then m1\<lparr>cursor_x := nw - 1\<rparr> else m1)
      in if cursor_y m2 \<ge> nh then m2\<lparr>cursor_y := nh - 1\<rparr> else m2)"

definition cover_screen :: "int \<Rightarrow> int \<Rightarrow> nat \<Rightarrow> window_stack \<Rightarrow> window_stack" where
  "cover_screen nw nh i s =
     (let w = windows s ! i in if role w = WIN_DESKTOP then window_set_geometry s (win_id w) 0 0 nw nh else s)"

definition fit_desktops :: "int \<Rightarrow> int \<Rightarrow> window_stack \<Rightarrow> window_stack" where
  "fit_desktops nw nh s = fold (cover_screen nw nh) [0..<length (windows s)] s"

definition apply_mode_cb :: "drm_dev \<Rightarrow> (drm \<Rightarrow> mode_answers) \<Rightarrow> int \<Rightarrow> int \<Rightarrow> int \<Rightarrow> server \<Rightarrow> bool \<times> server" where
  "apply_mode_cb dv ans w h refresh s =
     (let a = ans (sv_drm s); (r, k, d) = kms_set_mode_wh dv (ma_blob a) (sv_kms s) w h refresh (sv_drm s);
          s1 = s\<lparr>sv_kms := k, sv_drm := d\<rparr>
      in if r \<noteq> 0 then (False, s1)
         else let nw = int (unat (hdisplay (mode k))); nh = int (unat (vdisplay (mode k)));
                  (ok, fbs, d2) = realloc_fbs [0, 1] (ma_fbs a) nw nh (sv_fbs s1) (sv_drm s1);
                  s2 = s1\<lparr>sv_fbs := fbs, sv_drm := d2\<rparr>
      in if \<not> ok then (False, s2)
         else let s3 = s2\<lparr>sv_wm := clamp_cursor nw nh (sv_wm s2)\<rparr>;
                  s4 = put_stack (fit_desktops nw nh (sv_stack s3)) s3;
                  s5 = xp_call (transport_broadcast_screen nw nh) s4
              in (True, s5\<lparr>need_modeset := True, sv_dirty := True\<rparr>))"

section \<open>One round of the main loop\<close>

text \<open>
  What the outside world brings to one round: the clock, the kernel's answers to the atomic
  commits, the pixels clients have in their shared memory, whether \<open>poll\<close> succeeds, and what
  each descriptor has ready (\<open>None\<close>: not readable).
\<close>

record round_env =
  rn_now :: int
  rn_idle_ms :: int
  rn_blank_ok :: bool
  rn_commit_ok :: bool
  rn_add_ok :: bool
  rn_mem :: "nat \<Rightarrow> u8 list"
  rn_poll_ok :: bool
  rn_seat :: "bool list"
  rn_input :: "input_event list"
  rn_xp :: "(os \<times> epoll_event list) option"
  rn_wl :: "wl_request list option"
  rn_ctl :: "ctl_conn list"
  rn_dev :: drm_dev
  rn_mode :: "drm \<Rightarrow> mode_answers"
  rn_hotplug :: bool

definition master_step :: "server \<Rightarrow> server" where
  "master_step s =
     (if seat_active s \<and> \<not> master s then s\<lparr>master := True, need_modeset := True, sv_dirty := True\<rparr>
      else if \<not> seat_active s \<and> master s then s\<lparr>master := False\<rparr>
      else s)"

definition wake_step :: "round_env \<Rightarrow> server \<Rightarrow> server" where
  "wake_step e s =
     (if sv_activity s
      then (let s1 = s\<lparr>sv_activity := False, last_activity := rn_now e\<rparr>
            in if blanked s1 then s1\<lparr>blanked := False, need_modeset := True, sv_dirty := True\<rparr> else s1)
      else s)"

definition blank_step :: "round_env \<Rightarrow> server \<Rightarrow> server" where
  "blank_step e s =
     (if master s \<and> \<not> blanked s \<and> rn_idle_ms e > 0 \<and> rn_now e - last_activity s > rn_idle_ms e
      then (let k = sv_kms s; req = snd (atomic_add (rn_add_ok e) (crtc_id k) (crtc_props k) ''ACTIVE'' 0 []);
                s1 = s\<lparr>sv_commits := sv_commits s @ [\<lparr>cm_modeset = True, cm_fb = None, cm_req = req, cm_ok = rn_blank_ok e\<rparr>]\<rparr>
            in if rn_blank_ok e then s1\<lparr>blanked := True\<rparr> else s1)
      else s)"

text \<open>The memory the compositor reads: the clients' mappings and the Wayland pixel copies.\<close>

definition scene_memory :: "round_env \<Rightarrow> server \<Rightarrow> memory" where
  "scene_memory e s p =
     (case p of
        Mapping b \<Rightarrow> (if maps (ker (sv_w s)) b = None then None else Some (rn_mem e b))
      | Content c \<Rightarrow> (case sv_wl s of None \<Rightarrow> None | Some f \<Rightarrow> contents f c))"

definition the_cursor :: "server \<Rightarrow> cl_cursor option" where
  "the_cursor s = (if sv_xport s then Some (x_cursor (xp (sv_w s))) else None)"

definition frame_request :: "round_env \<Rightarrow> server \<Rightarrow> u32 \<Rightarrow> atomic_req" where
  "frame_request e s i =
     (let k = sv_kms s
      in if need_modeset s
         then snd (kms_atomic_plane (rn_add_ok e) k i (snd (kms_atomic_modeset (rn_add_ok e) k [])))
         else snd (atomic_add (rn_add_ok e) (plane_id k) (plane_props k) ''FB_ID'' (ucast i) []))"

definition draw_frame :: "round_env \<Rightarrow> server \<Rightarrow> server option" where
  "draw_frame e s =
     (if master s \<and> sv_dirty s \<and> \<not> blanked s
      then (let back = 1 - front s
            in case composite (scene_memory e s) (sv_wm s) (sv_stack s) (the_cursor s) (sv_fbs s ! back) of
                 None \<Rightarrow> None
               | Some fb \<Rightarrow>
                   (let c = \<lparr>cm_modeset = need_modeset s, cm_fb = Some (fb_id fb),
                             cm_req = frame_request e s (fb_id fb), cm_ok = rn_commit_ok e\<rparr>
                    in Some (s\<lparr>sv_fbs := (sv_fbs s)[back := fb], sv_commits := sv_commits s @ [c],
                               front := back, need_modeset := False, sv_dirty := False\<rparr>)))
      else Some s)"

definition seat_step :: "round_env \<Rightarrow> server \<Rightarrow> server" where
  "seat_step e s = fold (\<lambda>on s. s\<lparr>seat_active := on\<rparr>) (rn_seat e) s"

definition input_step :: "round_env \<Rightarrow> server \<Rightarrow> server" where
  "input_step e s = fold on_input (rn_input e) s"

definition xp_step :: "round_env \<Rightarrow> server \<Rightarrow> server" where
  "xp_step e s =
     (case rn_xp e of
        None \<Rightarrow> s
      | Some (o1, evs) \<Rightarrow>
          if \<not> sv_xport s then s
          else (let (d, w) = transport_process o1 evs (sv_w s); s1 = s\<lparr>sv_w := w\<rparr>
                in if d then s1\<lparr>sv_dirty := True\<rparr> else s1))"

definition wl_step_all :: "round_env \<Rightarrow> server \<Rightarrow> server option" where
  "wl_step_all e s =
     (case (rn_wl e, sv_wl s) of
        (Some rs, Some f) \<Rightarrow>
          (case fold wl_exec rs (Some (f\<lparr>wl_stack := sv_stack s\<rparr>)) of
             None \<Rightarrow> None
           | Some f1 \<Rightarrow>
               (let (d, f2) = wl_frontend_dispatch f1; s1 = put_stack (wl_stack f2) (s\<lparr>sv_wl := Some f2\<rparr>)
                in Some (if d then s1\<lparr>sv_dirty := True\<rparr> else s1)))
      | _ \<Rightarrow> Some s)"

definition ctl_step :: "round_env \<Rightarrow> server \<Rightarrow> server" where
  "ctl_step e s =
     (case sv_ctl s of
        None \<Rightarrow> s
      | Some k \<Rightarrow>
          (let (s1, k1) = control_process sv_kms (rn_dev e) (Some (apply_mode_cb (rn_dev e) (rn_mode e))) (rn_ctl e) (s, k)
           in s1\<lparr>sv_ctl := Some k1\<rparr>))"

definition hotplug_step :: "round_env \<Rightarrow> server \<Rightarrow> server" where
  "hotplug_step e s = (if rn_hotplug e then s\<lparr>need_modeset := True, sv_dirty := True\<rparr> else s)"

text \<open>The end of the round: focus and geometry are told to the clients.\<close>

definition sync_step :: "server \<Rightarrow> server" where
  "sync_step s =
     (let s1 = wl_call (wl_frontend_keyboard_focus (focus_id (sv_stack s))) s;
          s2 = xp_call (transport_update_focus (focus_id (sv_stack s1))) s1;
          i = reconfigured_id (sv_wm s2)
      in if i \<noteq> 0
         then (let s3 = xp_call (transport_notify_geometry i) s2
               in s3\<lparr>sv_wm := (sv_wm s3)\<lparr>reconfigured_id := 0\<rparr>, sv_dirty := True\<rparr>)
         else s2)"

text \<open>\<open>None\<close>: undefined behaviour in the compositor or a handler. A failing \<open>poll\<close> leaves the loop.\<close>

definition server_round :: "round_env \<Rightarrow> server \<Rightarrow> server option" where
  "server_round e s =
     (case draw_frame e (blank_step e (wake_step e (master_step s))) of
        None \<Rightarrow> None
      | Some s1 \<Rightarrow>
          if \<not> rn_poll_ok e then Some (s1\<lparr>running := False\<rparr>)
          else (case wl_step_all e (xp_step e (input_step e (seat_step e s1))) of
                  None \<Rightarrow> None
                | Some s2 \<Rightarrow> Some (sync_step (hotplug_step e (ctl_step e s2)))))"

fun server_loop :: "round_env list \<Rightarrow> server \<Rightarrow> server option" where
  "server_loop [] s = Some s"
| "server_loop (e # es) s =
     (if \<not> running s then Some s
      else case server_round e s of None \<Rightarrow> None | Some s1 \<Rightarrow> server_loop es s1)"

end
