(* ===== verification/Server_Demo.thy ===== *)
theory Server_Demo
  imports Server Compositor_Scene Platform_Spec
begin

text \<open>Concrete servers, for the examples that show the properties of the loop can hold.\<close>

section \<open>A concrete server\<close>

text \<open>A server with an empty desktop, no clients, the seat and a pointer; and one that shows two clients' windows.\<close>

definition quiet_env :: round_env where
  "quiet_env = \<lparr>rn_now = 1000, rn_idle_ms = 300000, rn_blank_ok = True, rn_commit_ok = True, rn_add_ok = True,
     rn_mem = (\<lambda>_. []), rn_poll_ok = True, rn_seat = [], rn_input = [], rn_xp = None, rn_wl = None, rn_ctl = [],
     rn_dev = demo_dev, rn_mode = (\<lambda>_. \<lparr>ma_blob = None, ma_fbs = (\<lambda>_. demo_answers)\<rparr>), rn_hotplug = False\<rparr>"

definition demo_world :: "window_stack \<Rightarrow> cl_client list \<Rightarrow> world" where
  "demo_world st cs = \<lparr>xp = \<lparr>x_sw = 2, x_sh = 1, x_epoll = 3, x_listen = 4, x_path = ''s'', clients = cs, orphans = [],
     focused_server_id = 0, next_token = 0, x_cursor = no_cursor\<rparr>, stk = st, ker = \<lparr>maps = Map.empty, next_map = 0, trace = []\<rparr>\<rparr>"

definition quiet_server :: server where
  "quiet_server = \<lparr>sv_w = demo_world window_stack_init [], sv_xport = False, sv_wm = tiny_wm, sv_wl = None, sv_ctl = None,
     sv_kms = zero_kms, sv_fbs = [tiny_fb, tiny_fb], sv_drm = no_drm, sv_commits = [], seat_active = True,
     sv_dirty = False, sv_activity = False, ctrl_held = False, alt_held = False, running = True, terminals = 0,
     master = True, need_modeset = False, front = 0, last_activity = 0, blanked = False\<rparr>"

definition key_event :: "u32 \<Rightarrow> u32 \<Rightarrow> bool \<Rightarrow> input_event" where
  "key_event code ks alt = \<lparr>ie_kind = INPUT_KEY, ie_dx = 0, ie_dy = 0, ie_ax = 0, ie_ay = 0, ie_button = 0,
     ie_keysym = ks, ie_keycode = code, ie_pressed = True, ie_alt_down = alt, ie_ctrl_down = False\<rparr>"

definition demo_wl :: wl_frontend where
  "demo_wl = (wl_zero window_stack_init)\<lparr>surfaces :=
       [\<lparr>fs_addr = 0, fs_client = 3, xdg_surface = Some 10, xdg_toplevel = Some 11, decoration = None, attached = False,
         pending_buffer = None, initial_configured = True, content = None, cw = 0, ch = 0, fs_server_id = 1, fs_title = []\<rparr>],
     keyboards := [\<lparr>rs_id = 7, rs_client = 3, rs_version = 5\<rparr>], kbd_focus := 1\<rparr>"

text \<open>Window 1 is the Wayland client's and has the focus; window 2 belongs to the transport client on descriptor 5.\<close>

definition mixed_server :: server where
  "mixed_server = quiet_server\<lparr>sv_w := demo_world
       \<lparr>windows = [tiny_window\<lparr>win_id := 2\<rparr>, tiny_window], focus_id = 1, next_id = 3\<rparr>
       [\<lparr>c_fd = 5, c_hello = True, c_token = 1, c_wins = [\<lparr>client_wid = 4, server_id = 2, cw_buf = None, cw_len = 0\<rparr>]\<rparr>],
     sv_xport := True, sv_wl := Some demo_wl\<rparr>"

lemmas round_eval = server_round_def master_step_def wake_step_def blank_step_def draw_frame_def seat_step_def input_step_def
  xp_step_def wl_step_all_def Let_def quiet_env_def quiet_server_def

text \<open>An empty desktop can always be drawn.\<close>

lemma empty_composite: "composite mem tiny_wm window_stack_init None tiny_fb \<noteq> None"
proof -
  have none: "\<And>v. v \<in> set (windows window_stack_init) \<Longrightarrow> mapped v \<Longrightarrow> drawable mem v" by (simp add: window_stack_init_def)
  from composite_renders [OF tiny_good none tiny_cursor] fb_like_refl [OF tiny_good] show ?thesis by (auto simp: draws_def)
qed

definition still_event :: input_event where
  "still_event = (key_event 0 0 False)\<lparr>ie_kind := INPUT_MOTION\<rparr>"

lemma still_input: "on_input still_event quiet_server = quiet_server\<lparr>sv_activity := True, sv_dirty := True\<rparr>"
  by (simp add: on_input_def still_event_def key_event_def wm_call_def wm_pointer_motion_def c_trunc_def clampi_def tiny_wm_def
      quiet_server_def route_motion_def wl_call_def xp_call_def put_stack_def sv_stack_def demo_world_def drag_grabbed_def Let_def)

end
