(* ===== verification/Server_Keys.thy ===== *)
theory Server_Keys
  imports Server_Demo
begin

text \<open>
  Who receives a key, and what every round leaves in step: the focus of the two frontends
  and the geometry their clients have been told.
\<close>

section \<open>Calls into components\<close>

lemma put_stack_sel [simp]:
  "sv_stack (put_stack st s) = st" "sv_wm (put_stack st s) = sv_wm s" "sv_wl (put_stack st s) = sv_wl s"
  "sv_xport (put_stack st s) = sv_xport s" "sv_ctl (put_stack st s) = sv_ctl s" "sv_commits (put_stack st s) = sv_commits s"
  "sv_dirty (put_stack st s) = sv_dirty s" "sv_activity (put_stack st s) = sv_activity s" "ctrl_held (put_stack st s) = ctrl_held s"
  "alt_held (put_stack st s) = alt_held s" "running (put_stack st s) = running s" "master (put_stack st s) = master s"
  "need_modeset (put_stack st s) = need_modeset s" "front (put_stack st s) = front s" "blanked (put_stack st s) = blanked s"
  "last_activity (put_stack st s) = last_activity s" "seat_active (put_stack st s) = seat_active s"
  "sv_fbs (put_stack st s) = sv_fbs s" "sv_kms (put_stack st s) = sv_kms s" "sv_drm (put_stack st s) = sv_drm s"
  "xp (sv_w (put_stack st s)) = xp (sv_w s)" "ker (sv_w (put_stack st s)) = ker (sv_w s)"
  "terminals (put_stack st s) = terminals s"
  by (simp_all add: put_stack_def sv_stack_def)

text \<open>What the loop does not share with the components it calls.\<close>

definition loop_state :: "server \<Rightarrow> server" where
  "loop_state s = s\<lparr>sv_w := undefined, sv_wm := undefined, sv_wl := None, ctrl_held := False, alt_held := False,
     running := False, terminals := 0, sv_dirty := False\<rparr>"

lemma loop_state_iff:
  "loop_state s = loop_state t \<longleftrightarrow>
     sv_xport s = sv_xport t \<and> sv_ctl s = sv_ctl t \<and> sv_kms s = sv_kms t \<and> sv_fbs s = sv_fbs t \<and> sv_drm s = sv_drm t \<and>
     sv_commits s = sv_commits t \<and> seat_active s = seat_active t \<and> sv_activity s = sv_activity t \<and> master s = master t \<and>
     need_modeset s = need_modeset t \<and> front s = front t \<and> last_activity s = last_activity t \<and> blanked s = blanked t"
  by (cases s; cases t) (auto simp: loop_state_def)

lemma wl_call_loop: "loop_state (wl_call g s) = loop_state s"
  by (simp add: wl_call_def put_stack_def loop_state_def Let_def split: option.split)

lemma xp_call_loop: "loop_state (xp_call g s) = loop_state s"
  by (simp add: xp_call_def loop_state_def)

lemma wm_call_loop: "loop_state (wm_call g s) = loop_state s"
  by (simp add: wm_call_def put_stack_def loop_state_def split: prod.split)

lemmas call_loop = wl_call_loop xp_call_loop wm_call_loop

lemma loop_upd [simp]:
  "loop_state (s\<lparr>sv_dirty := b\<rparr>) = loop_state s" "loop_state (s\<lparr>running := b\<rparr>) = loop_state s"
  "loop_state (s\<lparr>ctrl_held := b\<rparr>) = loop_state s" "loop_state (s\<lparr>alt_held := b\<rparr>) = loop_state s"
  "loop_state (s\<lparr>terminals := n\<rparr>) = loop_state s" "loop_state (put_stack st s) = loop_state s"
  by (simp_all add: loop_state_def put_stack_def)

lemma on_input_loop: "loop_state (on_input ev s) = loop_state (s\<lparr>sv_activity := True\<rparr>)"
  by (simp add: on_input_def Let_def route_motion_def route_button_def route_key_def on_key_def track_modifiers_def
      spawn_terminal_def call_loop split: input_kind.split prod.split)

lemma on_input_dirty: "sv_dirty s \<or> ie_kind ev \<noteq> INPUT_KEY \<Longrightarrow> sv_dirty (on_input ev s)"
  by (auto simp: on_input_def Let_def route_motion_def route_button_def route_key_def on_key_def track_modifiers_def
      spawn_terminal_def wl_call_def xp_call_def split: input_kind.split prod.split option.split)

section \<open>Keys\<close>

text \<open>What the clients have been sent: the Wayland events and the transport's system calls.\<close>

definition sees :: "server \<Rightarrow> wl_sent list option \<times> cl_event kcall list" where
  "sees s = (map_option wl_out (sv_wl s), trace (ker (sv_w s)))"

lemma sees_sel: "fst (sees s) = map_option wl_out (sv_wl s)" "snd (sees s) = trace (ker (sv_w s))"
  by (simp_all add: sees_def)

text \<open>Ctrl+Alt+T, Escape and Alt-Tab, as the server recognises them.\<close>

definition shortcut :: "input_event \<Rightarrow> server \<Rightarrow> bool" where
  "shortcut ev s \<longleftrightarrow> ie_pressed ev \<and>
     (ie_keycode ev = 20 \<and> ctrl_held s \<and> alt_held s \<or> ie_keysym ev = 0xff1b \<or>
      ie_keysym ev = WM_KEY_TAB \<and> ie_alt_down ev)"

text \<open>The keyboard focus of the Wayland frontend is the stack's, as the end of a round leaves it.\<close>

definition focus_synced :: "server \<Rightarrow> bool" where
  "focus_synced s \<longleftrightarrow>
     (\<forall>f. sv_wl s = Some f \<longrightarrow>
        kbd_focus f = (if surface_by_window f (focus_id (sv_stack s)) = None then 0 else focus_id (sv_stack s)))"

text \<open>No window belongs to a client of each frontend.\<close>

definition owners_apart :: "server \<Rightarrow> bool" where
  "owners_apart s \<longleftrightarrow>
     (\<forall>f i. sv_wl s = Some f \<and> sv_xport s \<longrightarrow> surface_by_window f i = None \<or> find_by_server_id (sv_w s) i = None)"

lemma surface_by_window_stack [simp]: "surface_by_window (f\<lparr>wl_stack := st\<rparr>) i = surface_by_window f i"
  by (simp add: surface_by_window_def)

lemma wl_key_out:
  "wl_out (wl_frontend_keyboard_key kc p f) = wl_out f @
     (case surface_by_window f (kbd_focus f) of None \<Rightarrow> []
      | Some sf \<Rightarrow> map (\<lambda>k. Kbd_Key k kc p) (of_client (fs_client sf) (keyboards f)) @ send_modifiers f (fs_client sf))"
  by (simp add: wl_frontend_keyboard_key_def emit_def split: option.split)

lemma wl_key_stack [simp]: "wl_stack (wl_frontend_keyboard_key kc p f) = wl_stack f"
  by (simp add: wl_frontend_keyboard_key_def emit_def split: option.split)

lemma wl_key_same [simp]:
  "surfaces (wl_frontend_keyboard_key kc p f) = surfaces f" "kbd_focus (wl_frontend_keyboard_key kc p f) = kbd_focus f"
  by (simp_all add: wl_frontend_keyboard_key_def emit_def split: option.split)

lemma send_owner_trace:
  "trace (ker (send_owner i ev w)) = trace (ker w) @
     (case find_by_server_id w i of None \<Rightarrow> []
      | Some (ci, k) \<Rightarrow> [K_Send (c_fd (clients (xp w) ! ci)) (ev (client_wid (the_win ci k w)))])"
  by (simp add: send_owner_def send_to_def split: option.split prod.split)

definition key_input :: "input_event \<Rightarrow> u32 \<Rightarrow> cl_event" where
  "key_input ev wid = Input_Ev \<lparr>in_wid = wid, in_kind = CL_IN_KEY, in_x = 0, in_y = 0, in_code = ie_keysym ev,
     in_pressed = of_bool (ie_pressed ev)\<rparr>"

text \<open>What a key adds on each side.\<close>

lemma route_key_sees:
  "sees (route_key ev s) =
     (map_option (\<lambda>f. wl_out f @
        (case surface_by_window f (kbd_focus f) of None \<Rightarrow> []
         | Some sf \<Rightarrow> map (\<lambda>k. Kbd_Key k (ie_keycode ev) (ie_pressed ev)) (of_client (fs_client sf) (keyboards f)) @
                      send_modifiers f (fs_client sf))) (sv_wl s),
      trace (ker (sv_w s)) @
        (if \<not> sv_xport s then []
         else case find_by_server_id (sv_w s) (focus_id (sv_stack s)) of None \<Rightarrow> []
              | Some (ci, k) \<Rightarrow> [K_Send (c_fd (clients (xp (sv_w s)) ! ci)) (key_input ev (client_wid (the_win ci k (sv_w s))))]))"
proof -
  have find: "find_by_server_id (sv_w (put_stack st s)) i = find_by_server_id (sv_w s) i"
    "the_win ci k (sv_w (put_stack st s)) = the_win ci k (sv_w s)" for st i ci k and s :: server
    by (simp_all add: put_stack_def find_by_server_id_def the_win_def)
  have mods: "send_modifiers (f\<lparr>wl_stack := st\<rparr>) c = send_modifiers f c" for f c and st :: window_stack
    by (simp add: send_modifiers_def)
  show ?thesis
    by (cases "sv_wl s")
      (auto simp: route_key_def Let_def sees_def wl_call_def xp_call_def transport_keyboard_key_def key_input_def
        send_owner_trace find mods wl_key_out fun_eq_iff split: option.splits prod.splits)
qed

lemma on_key_sees: "sees (on_key ev s) = (if shortcut ev s then sees s else sees (route_key ev s))"
proof -
  let ?s1 = "track_modifiers ev s"
  have fields: "sv_wl ?s1 = sv_wl s" "sv_w ?s1 = sv_w s" "sv_xport ?s1 = sv_xport s"
    by (simp_all add: track_modifiers_def)
  have same: "sv_stack ?s1 = sv_stack s" "sees ?s1 = sees s" by (simp_all add: sv_stack_def sees_def fields)
  have put: "put_stack (sv_stack s) ?s1 = ?s1" by (simp add: put_stack_def sv_stack_def fields [symmetric])
  have route: "sees (route_key ev ?s1) = sees (route_key ev s)" by (simp only: route_key_sees fields same)
  have "ie_keycode ev = 20 \<Longrightarrow> ctrl_held ?s1 = ctrl_held s \<and> alt_held ?s1 = alt_held s" by (simp add: track_modifiers_def)
  then show ?thesis
    using route same put
    by (auto simp: on_key_def Let_def shortcut_def wm_key_def spawn_terminal_def sees_def sv_stack_def)
qed

text \<open>
  C6: A key goes to one client at most, and to the right one, while the Wayland frontend's
  focus is in step with the stack's (\<open>focus_synced\<close>: \<open>round_ends_in_step\<close> shows that every
  round ends so, and that it is so for the first event of a batch) and no window has owners
  in both frontends (\<open>owners_apart\<close>). Then a shortcut of the server reaches nobody; any other key goes to
  the keyboards of the Wayland client whose surface has the focus, or to the transport
  client that owns the focused window (naming its own id of it), or, when neither is the
  case, to nobody. For a key that follows an Alt-Tab in the same batch the first hypothesis
  fails, and \<open>alt_tab_key_delivered_twice\<close> shows the key reaching two clients.
\<close>

theorem key_routing:
  assumes "ie_kind ev = INPUT_KEY" "focus_synced s" "owners_apart s"
  shows "if shortcut ev s then sees (on_input ev s) = sees s
    else (let i = focus_id (sv_stack s) in
      (\<exists>f sf. sv_wl s = Some f \<and> surface_by_window f i = Some sf \<and>
         sees (on_input ev s) =
           (Some (wl_out f @ map (\<lambda>k. Kbd_Key k (ie_keycode ev) (ie_pressed ev)) (of_client (fs_client sf) (keyboards f)) @
                  send_modifiers f (fs_client sf)), snd (sees s))) \<or>
      (\<exists>ci k. sv_xport s \<and> find_by_server_id (sv_w s) i = Some (ci, k) \<and>
         sees (on_input ev s) = (fst (sees s), snd (sees s) @
           [K_Send (c_fd (clients (xp (sv_w s)) ! ci)) (key_input ev (client_wid (the_win ci k (sv_w s))))])) \<or>
      sees (on_input ev s) = sees s \<and> (sv_wl s = None \<or> surface_by_window (the (sv_wl s)) i = None) \<and>
        (sv_xport s = False \<or> find_by_server_id (sv_w s) i = None))"
proof -
  let ?i = "focus_id (sv_stack s)"
  let ?s0 = "s\<lparr>sv_activity := True\<rparr>"
  have s0: "sv_wl ?s0 = sv_wl s" "sv_w ?s0 = sv_w s" "sv_xport ?s0 = sv_xport s" "sv_stack ?s0 = sv_stack s" "sees ?s0 = sees s"
      "shortcut ev ?s0 = shortcut ev s"
    by (simp_all add: sees_def sv_stack_def shortcut_def)
  have "on_input ev s = on_key ev ?s0" using assms(1) by (simp add: on_input_def Let_def)
  then have on: "sees (on_input ev s) = (if shortcut ev s then sees s else sees (route_key ev s))"
    by (simp only: on_key_sees s0 route_key_sees)
  have zero: "surface_by_window f 0 = None" for f by (simp add: surface_by_window_def)
  show ?thesis
  proof (cases "shortcut ev s")
    case False
    note r = on [unfolded if_not_P [OF False] route_key_sees]
    have keep: "sees s = (map_option wl_out (sv_wl s), trace (ker (sv_w s)))" by (simp add: sees_def)
    show ?thesis
    proof (cases "\<exists>f sf. sv_wl s = Some f \<and> surface_by_window f ?i = Some sf")
      case True
      then obtain f sf where f: "sv_wl s = Some f" "surface_by_window f ?i = Some sf" by blast
      then have k: "kbd_focus f = ?i" using assms(2) by (simp add: focus_synced_def)
      have "sv_xport s \<Longrightarrow> find_by_server_id (sv_w s) ?i = None" using assms(3) f unfolding owners_apart_def by force
      then have "sees (on_input ev s) =
          (Some (wl_out f @ map (\<lambda>k. Kbd_Key k (ie_keycode ev) (ie_pressed ev)) (of_client (fs_client sf) (keyboards f)) @
             send_modifiers f (fs_client sf)), trace (ker (sv_w s)))"
        using r f k by simp
      then show ?thesis unfolding if_not_P [OF False] Let_def sees_sel using f by blast
    next
      case no: False
      then have k0: "kbd_focus f = 0" if "sv_wl s = Some f" for f using assms(2) that by (auto simp: focus_synced_def)
      have r2: "sees (on_input ev s) = (map_option wl_out (sv_wl s), trace (ker (sv_w s)) @
        (if \<not> sv_xport s then []
         else case find_by_server_id (sv_w s) ?i of None \<Rightarrow> []
              | Some (ci, k) \<Rightarrow> [K_Send (c_fd (clients (xp (sv_w s)) ! ci)) (key_input ev (client_wid (the_win ci k (sv_w s))))]))"
        using r k0 zero by (cases "sv_wl s") simp_all
      have none: "sv_wl s = None \<or> surface_by_window (the (sv_wl s)) ?i = None" using no by (cases "sv_wl s") auto
      show ?thesis
      proof (cases "sv_xport s \<and> find_by_server_id (sv_w s) ?i \<noteq> None")
        case True
        then obtain ci k where o: "find_by_server_id (sv_w s) ?i = Some (ci, k)" by auto
        with r2 True have "sees (on_input ev s) = (fst (sees s), snd (sees s) @
            [K_Send (c_fd (clients (xp (sv_w s)) ! ci)) (key_input ev (client_wid (the_win ci k (sv_w s))))])"
          by (simp add: sees_sel)
        then show ?thesis unfolding if_not_P [OF False] Let_def using True o by blast
      next
        case no_xp: False
        then have "sees (on_input ev s) = sees s"
          using r2 keep by (cases "find_by_server_id (sv_w s) ?i") auto
        then show ?thesis unfolding if_not_P [OF False] Let_def using none no_xp by blast
      qed
    qed
  qed (use on in simp)
qed

lemma mixed_simps:
  "sv_wl mixed_server = Some demo_wl" "sv_xport mixed_server" "focus_id (sv_stack mixed_server) = 1"
  "surface_by_window demo_wl 1 = Some (hd (surfaces demo_wl))" "kbd_focus demo_wl = 1"
  "i \<noteq> 1 \<Longrightarrow> surface_by_window demo_wl i = None"
  "find_by_server_id (sv_w mixed_server) 1 = None" "find_by_server_id (sv_w mixed_server) 2 = Some (0, 0)"
  by (auto simp: mixed_server_def quiet_server_def demo_wl_def wl_zero_def surface_by_window_def sv_stack_def demo_world_def
      find_by_server_id_def find_in_client_def)

lemma mixed_focus: "focus_synced mixed_server" "owners_apart mixed_server"
proof -
  show "focus_synced mixed_server" by (simp add: focus_synced_def mixed_simps)
  show "owners_apart mixed_server"
    unfolding owners_apart_def using mixed_simps by (metis option.inject)
qed

theorem key_routing_witness:
  "sees (on_input (key_event 30 97 False) mixed_server) = (Some [Kbd_Key 7 30 True], [])"
proof -
  let ?a = "key_event 30 97 False" and ?sf = "hd (surfaces demo_wl)"
  have k: "ie_kind ?a = INPUT_KEY" and ns: "\<not> shortcut ?a mixed_server" by (simp_all add: key_event_def shortcut_def)
  have "sees (on_input ?a mixed_server) =
      (Some (wl_out demo_wl @ map (\<lambda>k. Kbd_Key k (ie_keycode ?a) (ie_pressed ?a)) (of_client (fs_client ?sf) (keyboards demo_wl)) @
         send_modifiers demo_wl (fs_client ?sf)), snd (sees mixed_server))"
    using key_routing [OF k mixed_focus] unfolding if_not_P [OF ns] Let_def by (simp add: mixed_simps)
  then show ?thesis
    by (simp add: sees_def key_event_def demo_wl_def wl_zero_def of_client_def send_modifiers_def mixed_server_def demo_world_def)
qed

text \<open>
  Between an Alt-Tab and the end of the round the two frontends disagree about the
  focus: a key in the same batch of input goes to the Wayland window that had the focus
  and to the transport window that has it now.
\<close>

theorem alt_tab_key_delivered_twice:
  assumes "ie_kind tab = INPUT_KEY" "ie_keycode tab = 15" "ie_keysym tab = WM_KEY_TAB" "ie_pressed tab" "ie_alt_down tab"
    and "ie_kind ev = INPUT_KEY" "\<not> shortcut ev s"
    and "sv_wl s = Some f" "surface_by_window f (kbd_focus f) = Some sf"
    and "sv_xport s" "find_by_server_id (sv_w s) (focus_id (window_focus_cycle (sv_stack s) 1)) = Some (ci, k)"
  shows "sees (fold on_input [tab, ev] s) =
    (Some (wl_out f @ map (\<lambda>k. Kbd_Key k (ie_keycode ev) (ie_pressed ev)) (of_client (fs_client sf) (keyboards f)) @
           send_modifiers f (fs_client sf)),
     snd (sees s) @ [K_Send (c_fd (clients (xp (sv_w s)) ! ci)) (key_input ev (client_wid (the_win ci k (sv_w s))))])"
proof -
  let ?s1 = "put_stack (window_focus_cycle (sv_stack s) 1) (s\<lparr>sv_activity := True\<rparr>)\<lparr>sv_dirty := True\<rparr>"
  let ?s2 = "?s1\<lparr>sv_activity := True\<rparr>"
  have "on_input tab s = ?s1"
    using assms(1-5) by (simp add: on_input_def on_key_def track_modifiers_def Let_def wm_key_def sv_stack_def)
  moreover have "on_input ev ?s1 = on_key ev ?s2" using assms(6) by (simp add: on_input_def Let_def)
  moreover have "\<not> shortcut ev ?s2" using assms(7) by (simp add: shortcut_def)
  moreover have "sv_wl ?s2 = sv_wl s" "sv_xport ?s2 = sv_xport s" "xp (sv_w ?s2) = xp (sv_w s)"
      "ker (sv_w ?s2) = ker (sv_w s)" "sv_stack ?s2 = window_focus_cycle (sv_stack s) 1"
      "find_by_server_id (sv_w ?s2) = find_by_server_id (sv_w s)" "the_win ci k (sv_w ?s2) = the_win ci k (sv_w s)"
    by (simp_all add: put_stack_def sv_stack_def find_by_server_id_def the_win_def fun_eq_iff)
  ultimately show ?thesis
    using assms(8-11) by (simp add: on_key_sees route_key_sees sees_sel)
qed

theorem alt_tab_key_delivered_twice_witness:
  "sees (fold on_input [key_event 15 WM_KEY_TAB True, key_event 30 97 False] mixed_server) =
     (Some [Kbd_Key 7 30 True], [K_Send 5 (key_input (key_event 30 97 False) 4)])"
proof -
  let ?tab = "key_event 15 WM_KEY_TAB True" and ?a = "key_event 30 97 False"
  have tab: "ie_kind ?tab = INPUT_KEY" "ie_keycode ?tab = 15" "ie_keysym ?tab = WM_KEY_TAB" "ie_pressed ?tab" "ie_alt_down ?tab"
    and a: "ie_kind ?a = INPUT_KEY" "\<not> shortcut ?a mixed_server"
    by (simp_all add: key_event_def shortcut_def)
  have "sv_stack mixed_server = \<lparr>windows = [tiny_window\<lparr>win_id := 2\<rparr>, tiny_window], focus_id = 1, next_id = 3\<rparr>"
    by (simp add: mixed_server_def demo_world_def sv_stack_def)
  moreover have "focus_id (window_focus_cycle \<lparr>windows = [tiny_window\<lparr>win_id := 2\<rparr>, tiny_window], focus_id = 1, next_id = 3\<rparr> 1) = 2"
    by code_simp
  ultimately have cyc: "focus_id (window_focus_cycle (sv_stack mixed_server) 1) = 2" by simp
  have sf: "surface_by_window demo_wl (kbd_focus demo_wl) = Some (hd (surfaces demo_wl))" by (simp add: mixed_simps)
  have own: "find_by_server_id (sv_w mixed_server) (focus_id (window_focus_cycle (sv_stack mixed_server) 1)) = Some (0, 0)"
    by (simp add: cyc mixed_simps)
  from alt_tab_key_delivered_twice [OF tab a mixed_simps(1) sf mixed_simps(2) own] show ?thesis
    by (simp add: sees_def demo_wl_def wl_zero_def of_client_def send_modifiers_def mixed_server_def demo_world_def
        the_win_def key_event_def)
qed

section \<open>The end of a round\<close>

lemma keyboard_focus_result:
  "kbd_focus (wl_frontend_keyboard_focus i f) = (if surface_by_window f i = None then 0 else i)"
  "surfaces (wl_frontend_keyboard_focus i f) = surfaces f" "wl_stack (wl_frontend_keyboard_focus i f) = wl_stack f"
  by (auto simp: wl_frontend_keyboard_focus_def Let_def emit_def split: option.split)

lemma send_owner_keeps: "xp (send_owner i ev w) = xp w" "stk (send_owner i ev w) = stk w"
  by (simp_all add: send_owner_def send_to_def split: option.split prod.split)

lemma update_focus_result:
  "focused_server_id (xp (transport_update_focus i w)) = i" "stk (transport_update_focus i w) = stk w"
  by (simp_all add: transport_update_focus_def notify_focus_def send_owner_keeps Let_def)

lemma notify_geometry_keeps: "xp (transport_notify_geometry i w) = xp w" "stk (transport_notify_geometry i w) = stk w"
  by (simp_all add: transport_notify_geometry_def send_owner_keeps split: option.split prod.split)

lemma sync_step_result:
  "focus_synced (sync_step s) \<and> reconfigured_id (sv_wm (sync_step s)) = 0 \<and>
   (sv_xport (sync_step s) \<longrightarrow> focused_server_id (xp (sv_w (sync_step s))) = focus_id (sv_stack (sync_step s)))"
proof -
  define s1 where "s1 = wl_call (wl_frontend_keyboard_focus (focus_id (sv_stack s))) s"
  define s2 where "s2 = xp_call (transport_update_focus (focus_id (sv_stack s1))) s1"
  have s1: "sv_stack s1 = sv_stack s" "focus_synced s1"
    by (auto simp: s1_def wl_call_def focus_synced_def keyboard_focus_result surface_by_window_def Let_def split: option.split)
  have s2: "sv_stack s2 = sv_stack s1" "sv_wl s2 = sv_wl s1" "sv_xport s2 \<longrightarrow> focused_server_id (xp (sv_w s2)) = focus_id (sv_stack s2)"
    by (auto simp: s2_def xp_call_def sv_stack_def update_focus_result)
  then have syn: "focus_synced s2" using s1 by (simp add: focus_synced_def)
  have "sync_step s = (if reconfigured_id (sv_wm s2) \<noteq> 0
      then (let s3 = xp_call (transport_notify_geometry (reconfigured_id (sv_wm s2))) s2
            in s3\<lparr>sv_wm := (sv_wm s3)\<lparr>reconfigured_id := 0\<rparr>, sv_dirty := True\<rparr>) else s2)"
    by (simp add: sync_step_def Let_def s1_def s2_def)
  then show ?thesis
    using syn s2(3) by (auto simp: xp_call_def sv_stack_def focus_synced_def notify_geometry_keeps Let_def)
qed

text \<open>
  Whatever happens in a round, at its end the keyboard focus of the Wayland frontend
  and the focus the transport has announced are the window stack's, and no geometry change
  is left untold.
\<close>

theorem round_ends_in_step:
  assumes "server_round e s = Some s'" "rn_poll_ok e"
  shows "focus_synced s' \<and> reconfigured_id (sv_wm s') = 0 \<and>
    (sv_xport s' \<longrightarrow> focused_server_id (xp (sv_w s')) = focus_id (sv_stack s'))"
proof -
  obtain t where "s' = sync_step t" using assms by (auto simp: server_round_def split: option.splits)
  then show ?thesis using sync_step_result by simp
qed

theorem round_ends_in_step_witness:
  "\<exists>s'. server_round quiet_env quiet_server = Some s' \<and> focus_synced s'"
proof -
  have "server_round quiet_env quiet_server \<noteq> None" by (simp add: round_eval)
  then obtain s' where s': "server_round quiet_env quiet_server = Some s'" by blast
  have "rn_poll_ok quiet_env" by (simp add: quiet_env_def)
  from round_ends_in_step [OF s' this] s' show ?thesis by blast
qed

end
