(* ===== verification/Server_Frames.thy ===== *)
theory Server_Frames
  imports Server_Keys
begin

text \<open>
  What a round draws: input reaches the screen in the next round, the panel sleeps only
  when idle, and a commit that fails is forgotten.
\<close>

section \<open>Frames\<close>

text \<open>The dispatching part of a round makes no commit and does not blank.\<close>

definition frame_state :: "server \<Rightarrow> commit list \<times> bool \<times> nat" where
  "frame_state s = (sv_commits s, blanked s, front s)"

lemma frame_state_loop: "loop_state s = loop_state t \<Longrightarrow> frame_state s = frame_state t"
  by (simp add: loop_state_iff frame_state_def)

lemma frame_state_input: "frame_state (on_input ev s) = frame_state s"
  using frame_state_loop [OF on_input_loop] by (simp add: frame_state_def)

lemma frame_state_upd [simp]:
  "frame_state (s\<lparr>sv_dirty := b\<rparr>) = frame_state s" "frame_state (s\<lparr>sv_wm := m\<rparr>) = frame_state s"
  by (simp_all add: frame_state_def)

lemma frame_state_fold: "(\<And>x s. frame_state (f x s) = frame_state s) \<Longrightarrow> frame_state (fold f xs s) = frame_state s"
  by (induction xs arbitrary: s) simp_all

lemma frame_state_calls [simp]:
  "frame_state (wl_call g s) = frame_state s" "frame_state (xp_call h s) = frame_state s" "frame_state (put_stack st s) = frame_state s"
  using frame_state_loop [OF wl_call_loop] frame_state_loop [OF xp_call_loop] by (simp_all add: frame_state_def)

lemma frame_state_apply: "frame_state (snd (apply_mode_cb dv ans w h r s)) = frame_state s"
  by (simp add: apply_mode_cb_def Let_def frame_state_def split: prod.split)
    (simp add: xp_call_def split: prod.split)

lemma frame_state_control:
  "frame_state (fst (control_process sv_kms dv (Some (apply_mode_cb dv ans)) cs (s, k))) = frame_state s"
proof (induction cs arbitrary: s k)
  case (Cons c cs)
  let ?go = "conn_n c \<ge> int offsetof_output \<and> rq_magic (conn_request c) = GLCTL_MAGIC"
  obtain s1 k1 where a: "(if ?go then control_answer sv_kms dv (Some (apply_mode_cb dv ans)) (cc_fd c) (conn_request c) (s, k)
      else (s, k)) = (s1, k1)"
    by (meson surj_pair)
  have "frame_state s1 = frame_state s"
    using a frame_state_apply [of dv ans _ _ _ s] by (auto simp: control_answer_def Let_def split: if_splits prod.splits) (metis snd_conv)
  with a Cons.IH [of s1 "k_close (cc_fd c) k1"] show ?case by (simp add: Let_def)
qed simp

lemma frame_state_dispatch:
  assumes "wl_step_all e (xp_step e (input_step e (seat_step e s))) = Some s2"
  shows "frame_state (sync_step (hotplug_step e (ctl_step e s2))) = frame_state s"
proof -
  have seat: "frame_state (seat_step e s) = frame_state s" for s
    unfolding seat_step_def by (rule frame_state_fold) (simp add: frame_state_def)
  have inp: "frame_state (input_step e s) = frame_state s" for s
    unfolding input_step_def by (rule frame_state_fold) (rule frame_state_input)
  have xp: "frame_state (xp_step e s) = frame_state s" for s
    by (simp add: xp_step_def frame_state_def Let_def split: option.split prod.split)
  have wl: "wl_step_all e s = Some s' \<Longrightarrow> frame_state s' = frame_state s" for s s'
    by (auto simp: wl_step_all_def frame_state_def Let_def split: option.splits prod.splits if_splits)
  have ctl: "frame_state (ctl_step e s) = frame_state s" for s
  proof (cases "sv_ctl s")
    case (Some k)
    obtain s1 k1 where c: "control_process sv_kms (rn_dev e) (Some (apply_mode_cb (rn_dev e) (rn_mode e))) (rn_ctl e) (s, k) = (s1, k1)"
      by (meson surj_pair)
    with frame_state_control [of "rn_dev e" "rn_mode e" "rn_ctl e" s k] Some show ?thesis
      by (simp add: ctl_step_def frame_state_def)
  qed (simp add: ctl_step_def)
  have hot: "frame_state (hotplug_step e s) = frame_state s" for s by (simp add: hotplug_step_def frame_state_def)
  have syn: "frame_state (sync_step s) = frame_state s" for s
    by (simp add: sync_step_def Let_def)
  show ?thesis using wl [OF assms] by (simp only: syn hot ctl xp inp seat)
qed

lemma draw_frame_same: "sv_w t = sv_w s \<Longrightarrow> sv_wl t = sv_wl s \<Longrightarrow> scene_memory e t = scene_memory e s"
  by (simp add: scene_memory_def fun_eq_iff split: pixels.split)

section \<open>What the dispatching keeps\<close>

text \<open>No step of the dispatch takes back a wish for a redraw or a wake-up.\<close>

definition asks :: "server \<Rightarrow> server \<Rightarrow> bool" where
  "asks s t \<longleftrightarrow> (sv_dirty s \<longrightarrow> sv_dirty t) \<and> (sv_activity s \<longrightarrow> sv_activity t)"

lemma asks_refl [simp]: "asks s s"
  by (simp add: asks_def)

lemma asks_trans [trans]: "asks s t \<Longrightarrow> asks t u \<Longrightarrow> asks s u"
  by (simp add: asks_def)

lemma asks_fold: "(\<And>x s. asks s (f x s)) \<Longrightarrow> asks s (fold f xs s)"
  by (induction xs arbitrary: s) (auto intro: asks_trans)

lemma asks_calls [simp]:
  "asks s (wl_call g s)" "asks s (xp_call h s)" "asks s (put_stack st s)"
  by (simp_all add: asks_def wl_call_def xp_call_def put_stack_def Let_def split: option.split)

lemma asks_input: "asks s (on_input ev s)"
  using on_input_dirty [of s ev] on_input_loop [of ev s] by (simp add: asks_def loop_state_iff)

lemma asks_apply: "asks s (snd (apply_mode_cb dv ans w h r s))"
  by (simp add: apply_mode_cb_def Let_def asks_def put_stack_def xp_call_def split: prod.split)

lemma asks_control: "asks s (fst (control_process sv_kms dv (Some (apply_mode_cb dv ans)) cs (s, k)))"
proof (induction cs arbitrary: s k)
  case (Cons c cs)
  let ?go = "conn_n c \<ge> int offsetof_output \<and> rq_magic (conn_request c) = GLCTL_MAGIC"
  obtain s1 k1 where a: "(if ?go then control_answer sv_kms dv (Some (apply_mode_cb dv ans)) (cc_fd c) (conn_request c) (s, k)
      else (s, k)) = (s1, k1)"
    by (meson surj_pair)
  have "asks s s1"
    using a asks_apply [of s dv ans] by (auto simp: control_answer_def Let_def split: if_splits prod.splits) (metis snd_conv)
  also have "asks s1 (fst (control_process sv_kms dv (Some (apply_mode_cb dv ans)) cs (s1, k_close (cc_fd c) k1)))"
    by (rule Cons.IH)
  finally show ?case using a by (simp add: Let_def)
qed simp

lemma asks_xp: "asks s (xp_step e s)"
  by (simp add: xp_step_def asks_def Let_def split: option.split prod.split)

lemma asks_wl: "wl_step_all e s = Some s' \<Longrightarrow> asks s s'"
  by (auto simp: wl_step_all_def asks_def Let_def put_stack_def split: option.splits prod.splits if_splits)

lemma asks_ctl: "asks s (ctl_step e s)"
proof (cases "sv_ctl s")
  case (Some k)
  obtain s1 k1 where c: "control_process sv_kms (rn_dev e) (Some (apply_mode_cb (rn_dev e) (rn_mode e))) (rn_ctl e) (s, k) = (s1, k1)"
    by (meson surj_pair)
  with asks_control [of s "rn_dev e" "rn_mode e" "rn_ctl e" k] Some show ?thesis
    by (simp add: ctl_step_def asks_def)
qed (simp add: ctl_step_def)

lemma asks_sync: "asks s (sync_step s)"
proof -
  let ?s2 = "xp_call (transport_update_focus (focus_id (sv_stack (wl_call (wl_frontend_keyboard_focus (focus_id (sv_stack s))) s))))
    (wl_call (wl_frontend_keyboard_focus (focus_id (sv_stack s))) s)"
  have "asks s ?s2" by (rule asks_trans [OF asks_calls(1) asks_calls(2)])
  also have "asks ?s2 (sync_step s)" by (simp add: sync_step_def Let_def asks_def xp_call_def)
  finally show ?thesis .
qed

lemma asks_after_input:
  assumes "wl_step_all e (xp_step e u) = Some s2"
  shows "asks u (sync_step (hotplug_step e (ctl_step e s2)))"
proof -
  have "asks u s2" using asks_trans [OF asks_xp asks_wl [OF assms]] .
  also have "asks s2 (ctl_step e s2)" by (rule asks_ctl)
  also have "asks (ctl_step e s2) (hotplug_step e (ctl_step e s2))" by (simp add: hotplug_step_def asks_def)
  also have "asks (hotplug_step e (ctl_step e s2)) (sync_step (hotplug_step e (ctl_step e s2)))" by (rule asks_sync)
  finally show ?thesis .
qed

text \<open>An event of the round asks for a redraw or a wake-up, whatever comes after it in the same batch.\<close>

lemma input_step_asks:
  assumes "ev \<in> set (rn_input e)"
  shows "sv_activity (input_step e s)" "ie_kind ev \<noteq> INPUT_KEY \<Longrightarrow> sv_dirty (input_step e s)"
proof -
  obtain xs ys where split: "rn_input e = xs @ ev # ys" using split_list [OF assms] by blast
  let ?t = "on_input ev (fold on_input xs s)"
  have "asks ?t (input_step e s)" unfolding input_step_def split by (simp add: asks_fold asks_input)
  moreover have "sv_activity ?t" using on_input_loop [of ev "fold on_input xs s"] by (simp add: loop_state_iff)
  moreover have "ie_kind ev \<noteq> INPUT_KEY \<Longrightarrow> sv_dirty ?t" by (rule on_input_dirty) simp
  ultimately show "sv_activity (input_step e s)" "ie_kind ev \<noteq> INPUT_KEY \<Longrightarrow> sv_dirty (input_step e s)"
    by (auto simp: asks_def)
qed

lemma round_remembers_input:
  assumes "server_round e s = Some s'" "rn_poll_ok e" "ev \<in> set (rn_input e)"
  shows "sv_activity s'" "ie_kind ev \<noteq> INPUT_KEY \<Longrightarrow> sv_dirty s'"
proof -
  obtain u s2 where "wl_step_all e (xp_step e (input_step e u)) = Some s2" "s' = sync_step (hotplug_step e (ctl_step e s2))"
    using assms(1,2) by (auto simp: server_round_def split: option.splits)
  then have "asks (input_step e u) s'" using asks_after_input by blast
  then show "sv_activity s'" "ie_kind ev \<noteq> INPUT_KEY \<Longrightarrow> sv_dirty s'"
    using input_step_asks [OF assms(3), of u] by (auto simp: asks_def)
qed

text \<open>
  C13: Input reaches the screen. Take a round whose \<open>poll\<close> succeeds and in whose batch of
  input there is a pointer event, or any event while the panel sleeps; between that event
  and the end of the round come the rest of the input, the transport, the Wayland
  frontend, the control socket and the hotplug check. If the seat is ours when the round
  ends, the next round draws exactly one frame, of the scene as the first round left it,
  into the buffer that is not shown, and makes exactly one commit, of that buffer; it is a
  modeset exactly when one was pending, the panel slept, or the seat is new.
\<close>

theorem input_reaches_screen:
  assumes "server_round e1 s = Some s1" "rn_poll_ok e1" "ev \<in> set (rn_input e1)" "ie_kind ev \<noteq> INPUT_KEY \<or> blanked s1"
    "seat_active s1" "server_round e2 s1 = Some s2"
  shows "\<exists>fb c. composite (scene_memory e2 s1) (sv_wm s1) (sv_stack s1) (the_cursor s1) (sv_fbs s1 ! (1 - front s1)) = Some fb \<and>
    sv_commits s2 = sv_commits s1 @ [c] \<and> cm_fb c = Some (fb_id fb) \<and>
    cm_modeset c = (need_modeset s1 \<or> blanked s1 \<or> \<not> master s1) \<and> front s2 = 1 - front s1"
proof -
  have act: "sv_activity s1" and dirty: "sv_dirty s1 \<or> blanked s1"
    using round_remembers_input [OF assms(1-3)] assms(4) by auto
  define u where "u = blank_step e2 (wake_step e2 (master_step s1))"
  have u: "sv_commits u = sv_commits s1" "master u" "sv_dirty u" "\<not> blanked u" "front u = front s1" "sv_fbs u = sv_fbs s1"
      "need_modeset u = (need_modeset s1 \<or> blanked s1 \<or> \<not> master s1)"
      "sv_w u = sv_w s1" "sv_wl u = sv_wl s1" "sv_wm u = sv_wm s1" "sv_xport u = sv_xport s1"
    using act dirty assms(5) by (auto simp: u_def master_step_def wake_step_def blank_step_def Let_def)
  have same: "scene_memory e2 u = scene_memory e2 s1" "sv_stack u = sv_stack s1" "the_cursor u = the_cursor s1"
    using draw_frame_same [OF u(8,9)] u(8,11) by (simp_all add: sv_stack_def the_cursor_def)
  obtain v where v: "draw_frame e2 u = Some v" "frame_state s2 = frame_state v"
    using assms(6) frame_state_dispatch [of e2]
    by (auto simp: server_round_def u_def frame_state_def split: option.splits if_splits)
  then show ?thesis
    using u same by (auto simp: draw_frame_def Let_def frame_state_def split: option.splits)
qed

text \<open>A pointer event in one round, the frame in the next.\<close>

theorem input_reaches_screen_witness:
  "\<exists>s1 s2. server_round (quiet_env\<lparr>rn_input := [still_event]\<rparr>) quiet_server = Some s1 \<and> sv_commits s1 = [] \<and>
    server_round quiet_env s1 = Some s2 \<and> length (sv_commits s2) = 1 \<and> front s2 = 1"
proof -
  let ?e = "quiet_env\<lparr>rn_input := [still_event]\<rparr>" and ?t = "quiet_server\<lparr>sv_activity := True, sv_dirty := True\<rparr>"
  have "server_round ?e quiet_server = Some (sync_step ?t)"
    using still_input by (simp add: round_eval ctl_step_def hotplug_step_def)
  moreover have "sync_step ?t = ?t"
    by (simp add: sync_step_def wl_call_def xp_call_def quiet_server_def tiny_wm_def Let_def)
  ultimately have s1: "server_round ?e quiet_server = Some ?t" by simp
  have "server_round quiet_env ?t \<noteq> None"
    using empty_composite
    by (auto simp: round_eval sv_stack_def demo_world_def the_cursor_def split: option.split)
  then obtain s2 where s2: "server_round quiet_env ?t = Some s2" by blast
  have ev: "rn_poll_ok ?e" "still_event \<in> set (rn_input ?e)" "ie_kind still_event \<noteq> INPUT_KEY \<or> blanked ?t" "seat_active ?t"
    by (simp_all add: quiet_env_def still_event_def quiet_server_def)
  from input_reaches_screen [OF s1 ev s2] s1 s2 show ?thesis by (auto simp: quiet_server_def)
qed

text \<open>
  The panel is put to sleep only when the seat is ours and more than the idle time
  has passed since the last input, with none waiting.
\<close>

theorem sleeps_only_when_idle:
  assumes "server_round e s = Some s'" "\<not> blanked s" "blanked s'"
  shows "\<not> sv_activity s \<and> seat_active s \<and> 0 < rn_idle_ms e \<and> rn_idle_ms e < rn_now e - last_activity s"
proof -
  define u where "u = blank_step e (wake_step e (master_step s))"
  obtain v where v: "draw_frame e u = Some v" "frame_state s' = frame_state v"
    using assms(1) frame_state_dispatch [of e]
    by (auto simp: server_round_def u_def frame_state_def split: option.splits if_splits)
  then have "blanked u" using assms(3) by (auto simp: draw_frame_def Let_def frame_state_def split: option.splits if_splits)
  then show ?thesis
    using assms(2) by (auto simp: u_def blank_step_def wake_step_def master_step_def Let_def split: if_splits)
qed

theorem sleeps_only_when_idle_witness:
  "\<exists>s'. server_round (quiet_env\<lparr>rn_now := 300001\<rparr>) quiet_server = Some s' \<and> blanked s' \<and> (300000 :: int) < 300001 - last_activity quiet_server"
proof -
  let ?e = "quiet_env\<lparr>rn_now := 300001\<rparr>"
  obtain s' where s': "server_round ?e quiet_server = Some s'" by (simp add: round_eval)
  then have "blanked s'"
    by (auto simp: round_eval ctl_step_def hotplug_step_def sync_step_def wl_call_def xp_call_def split: if_splits)
  moreover have "\<not> blanked quiet_server" by (simp add: quiet_server_def)
  ultimately show ?thesis using sleeps_only_when_idle [OF s'] s' by (auto simp: quiet_env_def)
qed

text \<open>
  A commit that fails is forgotten: the server swaps its buffers and drops the pending
  modeset all the same, and draws nothing more until something else makes it dirty.
\<close>

theorem failed_commit_forgotten:
  assumes "master s" "sv_dirty s" "\<not> blanked s" "\<not> rn_commit_ok e" "draw_frame e s = Some s1"
  shows "\<not> need_modeset s1 \<and> \<not> cm_ok (last (sv_commits s1)) \<and> front s1 = 1 - front s \<and>
    (\<forall>e'. draw_frame e' s1 = Some s1)"
  using assms by (auto simp: draw_frame_def Let_def split: option.splits)

theorem failed_commit_forgotten_witness:
  "\<exists>s1. draw_frame (quiet_env\<lparr>rn_commit_ok := False\<rparr>) (quiet_server\<lparr>sv_dirty := True, need_modeset := True\<rparr>) = Some s1 \<and>
     \<not> need_modeset s1"
proof -
  let ?e = "quiet_env\<lparr>rn_commit_ok := False\<rparr>" and ?s = "quiet_server\<lparr>sv_dirty := True, need_modeset := True\<rparr>"
  have s: "master ?s" "sv_dirty ?s" "\<not> blanked ?s" "\<not> rn_commit_ok ?e" by (simp_all add: quiet_server_def)
  have "draw_frame ?e ?s \<noteq> None"
    using empty_composite by (auto simp: draw_frame_def quiet_server_def sv_stack_def demo_world_def the_cursor_def Let_def split: option.split)
  then obtain s1 where s1: "draw_frame ?e ?s = Some s1" by blast
  from failed_commit_forgotten [OF s s1] s1 show ?thesis by blast
qed

end
