(* ===== verification/Transport_Cursor.thy ===== *)
theory Transport_Cursor
  imports Transport_Run
begin

text \<open>
  The cursor image clients upload: every round of the transport leaves it within its
  64x64 array, and only a \<open>SET_CURSOR\<close> request changes it.
\<close>

definition cursor_ok :: "cl_cursor \<Rightarrow> bool" where
  "cursor_ok c \<longleftrightarrow> 0 \<le> cur_w c \<and> cur_w c \<le> CL_CURSOR_MAX \<and> 0 \<le> cur_h c \<and> cur_h c \<le> CL_CURSOR_MAX \<and>
     length (cur_argb c) = 4096"

lemma cursor_ok_initial: "cursor_ok no_cursor"
  by (simp add: cursor_ok_def no_cursor_def)

text \<open>The pixels of an accepted image fit the array.\<close>

lemma cursor_ok_area: "cursor_ok c \<Longrightarrow> cur_w c * cur_h c \<le> int (length (cur_argb c))"
proof -
  assume "cursor_ok c"
  then have "0 \<le> cur_w c" "cur_w c \<le> 64" "0 \<le> cur_h c" "cur_h c \<le> 64" "length (cur_argb c) = 4096"
    by (simp_all add: cursor_ok_def)
  moreover from this have "cur_w c * cur_h c \<le> 64 * 64" by (intro mult_mono) simp_all
  ultimately show ?thesis by simp
qed

lemma area_fits: "0 < a \<Longrightarrow> a \<le> 64 \<Longrightarrow> 0 < b \<Longrightarrow> b \<le> 64 \<Longrightarrow> nat a * nat b \<le> 4096"
  using mult_le_mono [of "nat a" 64 "nat b" 64] by simp

lemma cursor_set_cursor:
  assumes "cursor_ok (x_cursor (xp w))" shows "cursor_ok (x_cursor (xp (on_set_cursor e m fds w)))"
proof (cases "cu_hide m \<noteq> 0 \<or> fds = []")
  case True
  with assms show ?thesis by (simp add: on_set_cursor_def Let_def set_cursor_state_def cursor_ok_def)
next
  case False
  let ?w = "int_of_u32 (cu_width m)" and ?h = "int_of_u32 (cu_height m)"
  show ?thesis
  proof (cases "?w \<le> 0 \<or> ?h \<le> 0 \<or> ?w > CL_CURSOR_MAX \<or> ?h > CL_CURSOR_MAX")
    case True
    with assms False show ?thesis by (simp add: on_set_cursor_def Let_def)
  next
    case ok: False
    then have "nat ?w * nat ?h \<le> 4096" by (intro area_fits) auto
    with assms False ok show ?thesis
      by (auto simp: on_set_cursor_def Let_def set_cursor_state_def cursor_ok_def split: prod.split option.split)
  qed
qed

text \<open>The state besides the cursor.\<close>

definition cur_of :: "world \<Rightarrow> cl_cursor" where
  "cur_of w = x_cursor (xp w)"

lemma cur_of_sel [simp]:
  "cur_of (set_client ci c w) = cur_of w" "cur_of (set_orphan oi p w) = cur_of w" "cur_of (set_win ci k sl w) = cur_of w"
  "cur_of (send_to f ev w) = cur_of w" "cur_of (send_owner i evf w) = cur_of w" "cur_of (notify_focus i w) = cur_of w"
  "cur_of (reap_wins sls w) = cur_of w" "cur_of (close_all fds w) = cur_of w"
  "cur_of (w\<lparr>stk := s\<rparr>) = cur_of w" "cur_of (w\<lparr>ker := kr\<rparr>) = cur_of w"
  by (simp_all add: cur_of_def set_client_def set_orphan_def set_win_def send_to_def reap_wins_def close_all_def Let_def
      notify_focus_def split: prod.split)

lemma cur_of_requests [simp]:
  "cur_of (on_set_title ci mt w) = cur_of w" "cur_of (on_destroy_window ci md w) = cur_of w"
  "cur_of (on_set_geometry ci mg w) = cur_of w" "cur_of (on_create_window ci mc w) = cur_of w"
  "cur_of (on_commit e ci mo fds w) = cur_of w"
  by (simp_all add: on_set_title_def on_destroy_window_def on_set_geometry_def on_create_window_def announce_def created_def
      on_commit_def install_buffer_def Let_def split: option.split prod.split list.split)

lemma cur_of_hello: "cur_of (snd (snd (dispatch_hello ci bs fds w))) = cur_of w"
proof -
  let ?tok = "if length bs \<ge> sizeof_hello then he_reconnect_token (get_hello bs) else 0"
  let ?w1 = "set_client ci ((clients (xp w) ! ci)\<lparr>c_hello := True\<rparr>) w"
  obtain n w2 where r: "client_reclaim ci ?tok ?w1 = (n, w2)" by fastforce
  obtain tok w3 where a: "assign_token w2 = (tok, w3)" by fastforce
  have w2: "cur_of w2 = cur_of w" using r by (auto simp: client_reclaim_def Let_def split: if_splits option.splits)
  have w3: "cur_of w3 = cur_of w2" using a by (auto simp: assign_token_def cur_of_def Let_def)
  show ?thesis
    unfolding dispatch_hello_def drop_msg_def Let_def r a prod.case by (simp add: send_welcome_def w2 w3)
qed

lemma cursor_dispatch: "cursor_ok (cur_of w) \<Longrightarrow> cursor_ok (cur_of (snd (snd (dispatch e ci bs fds w))))"
  using cursor_set_cursor [of w e "get_set_cursor bs" fds] cur_of_hello [of ci bs fds w]
  by (simp add: dispatch_def dispatch_request_def drop_msg_def Let_def) (simp add: cur_of_def)

lemma cur_of_client_drop [simp]: "cur_of (client_drop e ci w) = cur_of w"
  by (simp add: client_drop_def Let_def split: option.split)

lemma cursor_readable: "cursor_ok (cur_of w) \<Longrightarrow> cursor_ok (cur_of (snd (client_readable e ci rs dirty w)))"
proof (induction e ci rs dirty w rule: client_readable.induct)
  case (1 e ci rs dirty w)
  obtain r rest k where recv: "cl_recv RECV_CAP rs (ker w) = (r, rest, k)" using prod_cases3 by blast
  show ?case
  proof (cases r)
    case (Ret_Err err)
    with 1 recv show ?thesis by (simp add: client_readable.simps [of e ci rs] Let_def)
  next
    case (Ret_Data bs fds)
    obtain keep d w' where disp: "dispatch e ci bs fds (w\<lparr>ker := k\<rparr>) = (keep, d, w')" using prod_cases3 by blast
    have "cursor_ok (cur_of w')" using cursor_dispatch [of "w\<lparr>ker := k\<rparr>" e ci bs fds] 1(2) disp by simp
    moreover have "bs \<noteq> [] \<Longrightarrow> keep \<Longrightarrow> cursor_ok (cur_of (snd (client_readable e ci rest (dirty \<or> d) w')))"
      using 1(1) [OF recv [symmetric] Ret_Data refl refl _ disp [symmetric] refl] calculation by blast
    ultimately show ?thesis
      using 1(2) recv Ret_Data disp by (simp add: client_readable.simps [of e ci rs] Let_def)
  qed
qed

lemma cur_of_accept [simp]: "cur_of (accept_pending e fs w) = cur_of w"
proof -
  have "cur_of (snd (transport_add_client e f w)) = cur_of w" for f w
    by (simp add: transport_add_client_def Let_def split: option.split)
  then show ?thesis by (induction fs arbitrary: w) (simp_all add: accept_pending_def)
qed

lemma cursor_handle_events: "cursor_ok (cur_of w) \<Longrightarrow> cursor_ok (cur_of (snd (fold (handle_event e) evs (dirty, w))))"
proof (induction evs arbitrary: dirty w)
  case (Cons ev evs)
  obtain d' w' where h: "handle_event e ev (dirty, w) = (d', w')" by fastforce
  have "cursor_ok (cur_of w')"
    using h Cons.prems cursor_readable [of w e _ "ev_recv ev" dirty]
    by (auto simp: handle_event_def split: if_splits option.splits) (metis snd_conv)
  from Cons.IH [OF this] h show ?case by simp
qed simp

lemma cur_of_expire [simp]: "cur_of (snd (expire_loop now is w)) = cur_of w"
  by (induction now "is" w rule: expire_loop.induct) (simp_all add: Let_def orphan_destroy_def)

lemma cursor_process:
  assumes "cursor_ok (x_cursor (xp w))" shows "cursor_ok (x_cursor (xp (snd (transport_process e evs w))))"
proof -
  obtain d w1 where ex: "orphans_expire (os_now e (call_no w)) w = (d, w1)" by fastforce
  then have "cur_of w1 = cur_of w" using cur_of_expire unfolding orphans_expire_def by (metis snd_conv)
  then have "cursor_ok (cur_of w1)" using assms by (simp add: cur_of_def)
  from cursor_handle_events [OF this, of e evs d] show ?thesis by (simp add: transport_process_def ex cur_of_def)
qed

lemma cursor_tell [simp]:
  "x_cursor (xp (send_owner i evf w)) = x_cursor (xp w)" "x_cursor (xp (notify_focus i w)) = x_cursor (xp w)"
  using cur_of_sel(5,6) by (simp_all add: cur_of_def)

end
