(* ===== verification/Transport_View.thy ===== *)
theory Transport_View
  imports Transport_Run Wayland_Inv
begin

text \<open>
  What the transport does to the window stack it shares: it leaves every window that shows
  another component's pixels exactly as it is, and a window that shows a client's mapping
  has the dimensions of a buffer that was committed and fills the mapping.
\<close>

section \<open>The pixels of a window\<close>

text \<open>A window's pixels with their width, height and stride, if it has any.\<close>

definition px :: "window_stack \<Rightarrow> u32 \<Rightarrow> (pixels \<times> int \<times> int \<times> int) option" where
  "px s i = Option.bind (window_by_id s i) (\<lambda>v. map_option (\<lambda>p. (p, buf_w v, buf_h v, buf_stride v)) (buf v))"

lemma px_modify:
  "(\<And>v. win_id (g v) = win_id v) \<Longrightarrow>
   px (window_modify s i g) = (px s)(i := Option.bind (window_by_id s i)
     (\<lambda>v. map_option (\<lambda>p. (p, buf_w (g v), buf_h (g v), buf_stride (g v))) (buf (g v))))"
  by (cases "window_by_id s i") (auto simp: px_def by_id_modify fun_eq_iff)

lemma px_modify_same:
  assumes "\<And>v. win_id (g v) = win_id v"
    and "\<And>v. buf (g v) = buf v \<and> buf_w (g v) = buf_w v \<and> buf_h (g v) = buf_h v \<and> buf_stride (g v) = buf_stride v"
  shows "px (window_modify s i g) = px s"
  using assms by (subst px_modify) (simp_all add: px_def fun_eq_iff)

lemma px_same [simp]:
  "px (window_set_geometry s i x y w h) = px s"
  "stack_wf s \<Longrightarrow> px (window_lower s i) = px s"
  "stack_wf s \<Longrightarrow> px (window_raise s i) = px s"
  "stack_wf s \<Longrightarrow> px (window_focus s i) = px s"
  by (simp add: window_set_geometry_def px_modify_same)
     (simp_all add: px_def by_id_lower by_id_raise by_id_focus_any fun_eq_iff)

lemma px_destroy: "stack_wf s \<Longrightarrow> px (window_destroy s i) = (px s)(i := None)"
  by (simp add: px_def by_id_destroy fun_eq_iff)

lemma px_create:
  assumes "stack_wf s" "window_create s r x y w h col t = (i, s')"
  shows "px s' = px s"
proof (cases "length (windows s) < 64")
  case False
  with assms(2) show ?thesis by (auto simp: window_create_def)
next
  case room: True
  obtain win where win: "windows s' = windows s @ [win]" "window_by_id s' = (window_by_id s)(i \<mapsto> win)"
    using by_id_create(2) [OF assms(1) room assms(2)] by blast
  then have "buf win = None" using assms(2) room by (auto simp: window_create_def Let_def)
  moreover have "window_by_id s i = None" using by_id_create(3) [OF assms(1) room assms(2)] .
  ultimately show ?thesis using win(2) by (simp add: px_def fun_eq_iff)
qed

lemma px_place: "stack_wf s \<Longrightarrow> px (place_by_role r i sw sh s) = px s"
  by (simp add: place_by_role_def stack_wf_set_geometry)

lemma cview_px: "cview s i = (case px s i of Some (Content c, d) \<Rightarrow> Some (c, d) | _ \<Rightarrow> None)"
  by (simp add: cview_def shown_def px_def split: option.split pixels.split)

lemma pix_px: "px s i = Some (p, d) \<Longrightarrow> pix s i = Some (Some p)"
  by (auto simp: px_def pix_def split: bind_splits)

lemma pix_SomeD: "pix s i = Some (Some p) \<Longrightarrow> \<exists>d. px s i = Some (p, d)"
  by (auto simp: px_def pix_def)

lemma pix_None_px: "pix s i = Some None \<Longrightarrow> px s i = None"
  by (auto simp: px_def pix_def)

section \<open>What is kept\<close>

text \<open>The dimensions are those of a buffer that was committed, and it is as long as the mapping.\<close>

definition committed :: "(nat \<rightharpoonup> nat) \<Rightarrow> nat \<Rightarrow> int \<times> int \<times> int \<Rightarrow> bool" where
  "committed m a d \<longleftrightarrow> (\<exists>b. buffer_ok b \<and> m a = Some (buffer_len b) \<and>
     d = (int_of_u32 (b_width b), int_of_u32 (b_height b), int_of_u32 (b_stride b)))"

text \<open>The windows that show pixel copies are those of \<open>C\<close>; the others show committed mappings or nothing.\<close>

fun kept_at :: "(nat \<times> int \<times> int \<times> int) option \<Rightarrow> (pixels \<times> int \<times> int \<times> int) option \<Rightarrow> (nat \<rightharpoonup> nat) \<Rightarrow> bool" where
  "kept_at c None m = (c = None)"
| "kept_at c (Some (Content n, d)) m = (c = Some (n, d))"
| "kept_at c (Some (Mapping a, d)) m = (c = None \<and> committed m a d)"

definition kept :: "(u32 \<Rightarrow> (nat \<times> int \<times> int \<times> int) option) \<Rightarrow> (u32 \<Rightarrow> (pixels \<times> int \<times> int \<times> int) option) \<Rightarrow> (nat \<rightharpoonup> nat) \<Rightarrow> bool" where
  "kept C f m \<longleftrightarrow> (\<forall>i. kept_at (C i) (f i) m)"

lemma kept_none: "kept C f m \<Longrightarrow> C i = None \<Longrightarrow> kept C (f(i := None)) m"
  by (simp add: kept_def)

lemma kept_mapping: "kept C f m \<Longrightarrow> C i = None \<Longrightarrow> committed m a d \<Longrightarrow> kept C (f(i := Some (Mapping a, d))) m"
  by (simp add: kept_def)

lemma kept_at_maps: "kept_at c x m \<Longrightarrow> (\<And>d. x \<noteq> Some (Mapping a, d)) \<Longrightarrow> kept_at c x (m(a := y))"
  by (induction c x m rule: kept_at.induct) (auto simp: committed_def)

lemma kept_maps: "kept C f m \<Longrightarrow> (\<And>i d. f i \<noteq> Some (Mapping a, d)) \<Longrightarrow> kept C f (m(a := x))"
  by (simp add: kept_def kept_at_maps)

lemma kept_at_cview: "kept_at c x m \<Longrightarrow> c = (case x of Some (Content n, d) \<Rightarrow> Some (n, d) | _ \<Rightarrow> None)"
  by (induction c x m rule: kept_at.induct) auto

lemma kept_cview: "kept C (px s) m \<Longrightarrow> cview s = C"
  unfolding kept_def by (rule ext) (metis cview_px kept_at_cview)

lemma kept_committed: "kept C (px s) m \<Longrightarrow> px s i = Some (Mapping a, d) \<Longrightarrow> committed m a d"
  unfolding kept_def by (metis kept_at.simps(3))

section \<open>The steps the handlers are made of\<close>

text \<open>An owned window does not show another component's pixels.\<close>

lemma owned_not_copy:
  assumes "own_ok L s k" "sl \<in># L" "kept C (px s) m"
  shows "C (server_id sl) = None"
proof -
  obtain v where v: "window_by_id s (server_id sl) = Some v" "buf v = map_option Mapping (cw_buf sl)"
    using own_ok_live [OF assms(1,2)] by blast
  then have "case px s (server_id sl) of Some (Content c, d) \<Rightarrow> False | _ \<Rightarrow> True"
    by (auto simp: px_def split: option.split)
  moreover have "kept_at (C (server_id sl)) (px s (server_id sl)) m" using assms(3) by (simp add: kept_def)
  ultimately show ?thesis by (auto dest: kept_at_cview split: option.splits prod.splits pixels.splits)
qed

lemma owned_mapping:
  assumes "own_ok (add_mset sl L) s k" "cw_buf sl = Some b" "px s i = Some (Mapping b, d)"
  shows "i = server_id sl"
proof -
  from assms(1) have o: "owns (add_mset sl L) (pix s) (maps k) (next_map k)" by (simp add: own_ok_def)
  have "i = server_id sl \<or> i \<in> server_id ` set_mset L" using o pix_px [OF assms(3)] by (auto simp: owns_add)
  then show ?thesis
  proof
    assume "i \<in> server_id ` set_mset L"
    then obtain c where c: "c \<in># L" "server_id c = i" by auto
    then have "pix s i = Some (map_option Mapping (cw_buf c))" using o by (auto simp: owns_add)
    then have "cw_buf c = Some b" using pix_px [OF assms(3)] by (cases "cw_buf c") simp_all
    then show ?thesis using o c assms(2) by (auto simp: owns_add)
  qed
qed

lemma kept_drop_buffer:
  assumes "own_ok (add_mset sl L) s k" "win_drop_buffer sl (s, k) = (sl', s', k')" "kept C (px s) (maps k)"
  shows "kept C (px s') (maps k')"
proof (cases "cw_buf sl")
  case None
  with assms(2,3) show ?thesis by (simp add: win_drop_buffer_def)
next
  case (Some b)
  then have c: "s' = window_modify s (server_id sl) (\<lambda>v. v\<lparr>buf := None\<rparr>)" "k' = k_munmap b (cw_len sl) k"
    using assms(2) by (auto simp: win_drop_buffer_def)
  have C: "C (server_id sl) = None" using owned_not_copy [OF assms(1) _ assms(3)] by simp
  have "Option.bind x (\<lambda>v. None) = None" for x :: "window option" by (cases x) simp_all
  then have s': "px s' = (px s)(server_id sl := None)" unfolding c(1) by (subst px_modify) simp_all
  have "(px s') i \<noteq> Some (Mapping b, d)" for i d
    using owned_mapping [OF assms(1) Some, of i d] by (auto simp: s')
  then have "kept C (px s') ((maps k)(b := None))"
    using kept_none [OF assms(3) C] by (intro kept_maps) (simp_all add: s')
  then show ?thesis by (simp add: c(2))
qed

lemma kept_destroy:
  assumes "own_ok (add_mset sl L) s k" "kept C (px s) m"
  shows "kept C (px (window_destroy s (server_id sl))) m"
proof -
  have "C (server_id sl) = None" using owned_not_copy [OF assms(1) _ assms(2)] by simp
  with kept_none [OF assms(2)] assms(1) show ?thesis by (simp add: px_destroy own_ok_def)
qed

lemma kept_drop_destroy:
  assumes "own_ok (add_mset sl L) s k" "win_drop_buffer sl (s, k) = (sl', s', k')" "kept C (px s) (maps k)"
  shows "kept C (px (window_destroy s' (server_id sl))) (maps k')"
proof -
  note ok = own_ok_drop_buffer [OF assms(1,2)]
  have "own_ok (add_mset sl' L) s' k'" "server_id sl' = server_id sl" using ok by auto
  with kept_destroy [OF this(1) kept_drop_buffer [OF assms]] show ?thesis by simp
qed

lemma kept_reap:
  "own_ok (used cws + L) s k \<Longrightarrow> fold reap_win cws (s, k) = (s', k') \<Longrightarrow> kept C (px s) (maps k) \<Longrightarrow> kept C (px s') (maps k')"
proof (induction cws arbitrary: s k)
  case (Cons sl cws)
  obtain s1 k1 where r: "reap_win sl (s, k) = (s1, k1)" by fastforce
  have "own_ok (used cws + L) s1 k1 \<and> kept C (px s1) (maps k1)"
  proof (cases "free_win sl")
    case True
    with Cons.prems(1,3) r show ?thesis by (simp add: used_Cons reap_win_def free_win_def)
  next
    case False
    with Cons.prems(1) have own: "own_ok (add_mset sl (used cws + L)) s k" by (simp add: used_Cons)
    obtain sl' s2 k2 where d: "win_drop_buffer sl (s, k) = (sl', s2, k2)" using prod_cases3 by blast
    have "s1 = window_destroy s2 (server_id sl)" "k1 = k2"
      using r d False by (auto simp: reap_win_def free_win_def)
    with own_ok_reap_win [OF own False r] kept_drop_destroy [OF own d Cons.prems(3)] show ?thesis by simp
  qed
  with Cons.IH [of s1 k1] Cons.prems(2) r show ?case by simp
qed simp

lemma kept_install:
  assumes "own_ok (add_mset sl L) s k" "buffer_ok b"
    and k2: "maps k2 = (maps k)(next_map k \<mapsto> buffer_len b)" "next_map k2 = Suc (next_map k)"
    and drop: "win_drop_buffer sl (s, k2) = (sl', s', k')" and kept: "kept C (px s) (maps k)"
  shows "kept C (px (window_modify s' (server_id sl') (attach_buffer b (next_map k)))) (maps k')"
proof -
  let ?n = "next_map k"
  have ok: "owns (add_mset sl L) (pix s) (maps k) ?n" using assms(1) by (simp add: own_ok_def)
  obtain c1 s1 k1 where d1: "win_drop_buffer sl (s, k) = (c1, s1, k1)" using prod_cases3 by blast
  note k1 = kept_drop_buffer [OF assms(1) d1 kept] and ok1 = own_ok_drop_buffer [OF assms(1) d1]
  have fresh: "maps k ?n = None" using ok by (rule owns_fresh)
  have old: "cw_buf sl \<noteq> Some ?n" using ok fresh by (auto simp: owns_add)
  have same: "s1 = s'" "maps k' = (maps k1)(?n \<mapsto> buffer_len b)" "server_id sl' = server_id sl"
    using d1 drop k2 old by (auto simp: win_drop_buffer_def fun_upd_twist split: option.splits)
  have "maps k1 ?n = None" using ok1(1) fresh d1 by (auto simp: win_drop_buffer_def split: option.splits)
  then have "px s' i \<noteq> Some (Mapping ?n, d)" for i d
    using kept_committed [OF k1 [unfolded same(1)], of i ?n d] by (auto simp: committed_def)
  then have kept': "kept C (px s') (maps k')" unfolding same(2) using kept_maps [OF k1 [unfolded same(1)]] by blast
  obtain v where v: "window_by_id s' (server_id sl') = Some v"
    using own_ok_live [OF ok1(1), of c1] ok1(3) same by auto
  have "C (server_id sl') = None" using owned_not_copy [OF assms(1) _ kept] same(3) by simp
  moreover have "committed (maps k') ?n (int_of_u32 (b_width b), int_of_u32 (b_height b), int_of_u32 (b_stride b))"
    using assms(2) by (auto simp: committed_def same(2))
  moreover have "px (window_modify s' (server_id sl') (attach_buffer b ?n)) =
      (px s')(server_id sl' := Some (Mapping ?n, int_of_u32 (b_width b), int_of_u32 (b_height b), int_of_u32 (b_stride b)))"
    using v by (subst px_modify) (simp_all add: attach_buffer_def)
  ultimately show ?thesis using kept_mapping [OF kept'] by simp
qed


section \<open>Requests\<close>

definition view_ok :: "(u32 \<Rightarrow> (nat \<times> int \<times> int \<times> int) option) \<Rightarrow> world \<Rightarrow> bool" where
  "view_ok C w \<longleftrightarrow> kept C (px (stk w)) (maps (ker w))"

lemma view_frame:
  "view_ok C w \<Longrightarrow> px (stk w') = px (stk w) \<Longrightarrow> maps (ker w') = maps (ker w) \<Longrightarrow> view_ok C w'"
  by (simp add: view_ok_def)

lemma view_create:
  assumes "x_inv w" "view_ok C w" "\<not> ids_exhausted (stk w)"
  shows "view_ok C (on_create_window ci m w)"
proof (cases rule: create_cases [of w ci m])
  case refused
  with assms show ?thesis by simp
next
  case (full k s1)
  with px_create [OF x_invD(6) [OF assms(1)] full(3) [unfolded create_args_def]] assms(2) show ?thesis
    by (simp add: view_ok_def)
next
  case (made k i s1)
  note c = made(3) [unfolded create_args_def]
  have wf: "stack_wf s1" using stack_wf_create [OF x_invD(6) [OF assms(1)] assms(3)] c by (metis snd_conv)
  have "px (stk (created ci k m i s1 w)) = px (stk w)"
    using px_create [OF x_invD(6) [OF assms(1)] c] wf
    by (simp add: created_def Let_def px_place stack_wf_modify px_modify_same)
  with made(5) assms(2) show ?thesis by (simp add: view_ok_def created_def Let_def)
qed

lemma view_set_title: "view_ok C w \<Longrightarrow> view_ok C (on_set_title ci m w)"
  by (auto simp: on_set_title_def view_ok_def px_modify_same split: option.split)

lemma view_set_geometry: "view_ok C w \<Longrightarrow> view_ok C (on_set_geometry ci m w)"
  by (simp add: on_set_geometry_def view_ok_def Let_def split: option.split)

lemma view_destroy_window:
  assumes "x_inv w" "ci < 16" "view_ok C w" shows "view_ok C (on_destroy_window ci m w)"
proof (cases "win_find (clients (xp w) ! ci) (de_wid m)")
  case (Some k)
  note f = found_slot [OF assms(1,2) Some]
  obtain sl s kr where d: "win_drop_buffer (the_win ci k w) (stk w, ker w) = (sl, s, kr)" using prod_cases3 by blast
  from kept_drop_destroy [OF f(6) d] assms(3) show ?thesis
    by (simp add: on_destroy_window_def Some Let_def d view_ok_def)
qed (use assms in \<open>simp add: on_destroy_window_def\<close>)

lemma view_install:
  assumes "x_inv w" "ci < 16" "win_find (clients (xp w) ! ci) wid = Some k" "buffer_ok b" "view_ok C w"
    and maps: "maps k2 = (maps (ker w))(a \<mapsto> buffer_len b)" "next_map k2 = Suc a" "a = next_map (ker w)"
  shows "view_ok C (install_buffer ci k b a (w\<lparr>ker := k2\<rparr>))"
proof -
  note f = found_slot [OF assms(1-3)]
  have tw: "the_win ci k (w\<lparr>ker := k2\<rparr>) = the_win ci k w" by (simp add: the_win_def)
  obtain sl s kr where d: "win_drop_buffer (the_win ci k w) (stk w, k2) = (sl, s, kr)" using prod_cases3 by blast
  from kept_install [OF f(6) assms(4) _ _ d, of C] maps assms(5) show ?thesis
    by (simp add: install_buffer_def tw d Let_def view_ok_def)
qed

lemma view_commit:
  assumes "x_inv w" "ci < 16" "view_ok C w" shows "view_ok C (on_commit e ci m fds w)"
proof -
  let ?b = "co_buffer m"
  obtain fds' k1 where wf: "wait_fence ?b fds (ker w) = (fds', k1)" by fastforce
  let ?w = "w\<lparr>ker := k1\<rparr>"
  have inv1: "x_inv ?w" using x_inv_fence [OF assms(1) wf] .
  have k1: "maps k1 = maps (ker w)" using wf by (auto simp: wait_fence_def split: if_splits)
  have rej: "view_ok C (w\<lparr>ker := k_close f k1\<rparr>)" "view_ok C ?w" for f using assms(3) k1 by (simp_all add: view_ok_def)
  show ?thesis
  proof (cases fds')
    case Nil
    with wf rej show ?thesis by (simp add: on_commit_def Let_def)
  next
    case (Cons f rest)
    show ?thesis
    proof (cases "win_find (clients (xp w) ! ci) (co_wid m) \<noteq> None \<and> buffer_ok ?b")
      case False
      with wf Cons rej show ?thesis
        by (auto simp: on_commit_def Let_def split: option.split)
    next
      case True
      then obtain k where k: "win_find (clients (xp ?w) ! ci) (co_wid m) = Some k" "buffer_ok ?b" by auto
      obtain base k2 where mm: "k_mmap f (buffer_len ?b) (os_map_ok e (call_no ?w)) k1 = (base, k2)" by fastforce
      have "view_ok C (case base of None \<Rightarrow> w\<lparr>ker := k_close f k2\<rparr>
                    | Some a \<Rightarrow> install_buffer ci k ?b a (w\<lparr>ker := k_close f k2\<rparr>))"
      proof (cases base)
        case None
        with mm have "maps k2 = maps k1" by (auto dest: k_mmap_None)
        with None assms(3) k1 show ?thesis by (simp add: view_ok_def)
      next
        case (Some a)
        with mm have "a = next_map k1 \<and> maps k2 = (maps k1)(a \<mapsto> buffer_len ?b) \<and> next_map k2 = Suc a"
          by (simp add: k_mmap_Some)
        then show ?thesis using view_install [OF inv1 assms(2) k rej(2), of "k_close f k2" a] Some by simp
      qed
      then show ?thesis using wf Cons k mm rej by (simp add: on_commit_def Let_def)
    qed
  qed
qed

lemma view_set_cursor:
  assumes "x_inv w" "view_ok C w" shows "view_ok C (on_set_cursor e m fds w)"
proof -
  let ?len = "nat (int_of_u32 (cu_width m)) * nat (int_of_u32 (cu_height m)) * 4"
  obtain base k1 where mm: "k_mmap (fds ! 0) ?len (os_map_ok e (call_no w)) (ker w) = (base, k1)" by fastforce
  have fresh: "maps (ker w) (next_map (ker w)) = None"
    using x_invD(5) [OF assms(1)] owns_fresh by (auto simp: own_ok_def)
  have "base = None \<longrightarrow> maps k1 = maps (ker w)" "base = Some a \<longrightarrow> (maps k1)(a := None) = maps (ker w)" for a
    using mm fresh by (auto dest: k_mmap_None k_mmap_Some simp: fun_upd_idem)
  then show ?thesis
    using assms(2) mm unfolding on_set_cursor_def Let_def
    by (cases base) (simp_all add: view_ok_def set_cursor_state_def)
qed


section \<open>Connections and rounds\<close>

lemma view_reap:
  assumes "own_ok (used cws + L) (stk w) (ker w)" "view_ok C w"
  shows "view_ok C (reap_wins cws w)"
proof -
  obtain s k where r: "fold reap_win cws (stk w, ker w) = (s, k)" by fastforce
  from kept_reap [OF assms(1) r] assms(2) r show ?thesis by (simp add: reap_wins_def view_ok_def)
qed

lemma view_orphan_destroy:
  assumes "x_inv w" "oi < 16" "view_ok C w" shows "view_ok C (orphan_destroy oi w)"
proof -
  have "own_ok (used (o_wins (orphans (xp w) ! oi)) + other_orphans oi w) (stk w) (ker w)"
    using own_orphan(1) [of oi w] x_invD(2,5) [OF assms(1)] assms(2) by simp
  from view_reap [OF this assms(3)] show ?thesis by (simp add: orphan_destroy_def view_ok_def)
qed

lemma view_expire_loop: "x_inv w \<Longrightarrow> \<forall>i \<in> set is. i < 16 \<Longrightarrow> view_ok C w \<Longrightarrow> view_ok C (snd (expire_loop now is w))"
  by (induction now "is" w rule: expire_loop.induct) (simp_all add: Let_def x_inv_orphan_destroy view_orphan_destroy)

lemma view_client_drop:
  assumes "x_inv w" "ci < 16" "view_ok C w" shows "view_ok C (client_drop e ci w)"
proof -
  let ?c = "clients (xp w) ! ci"
  have "own_ok (used (c_wins ?c) + other_clients ci w) (stk w) (ker w)"
    using own_client(1) [of ci w] x_invD(1,5) [OF assms(1)] assms(2) by simp
  from view_reap [OF this assms(3)] assms(3) show ?thesis
    by (cases "park_slot ?c w") (simp_all add: client_drop_def Let_def view_ok_def)
qed

lemma hello_maps: "maps (ker (snd (snd (dispatch_hello ci bs fds w)))) = maps (ker w)"
proof -
  let ?tok = "if length bs \<ge> sizeof_hello then he_reconnect_token (get_hello bs) else 0"
  let ?w1 = "set_client ci ((clients (xp w) ! ci)\<lparr>c_hello := True\<rparr>) w"
  obtain n w2 where r: "client_reclaim ci ?tok ?w1 = (n, w2)" by fastforce
  obtain tok w3 where a: "assign_token w2 = (tok, w3)" by fastforce
  have "ker w2 = ker w" using r by (auto simp: client_reclaim_def Let_def split: if_splits option.splits)
  moreover have "ker w3 = ker w2" using a by (auto simp: assign_token_def Let_def)
  ultimately show ?thesis
    unfolding dispatch_hello_def drop_msg_def Let_def r a prod.case by (simp add: send_welcome_def)
qed

lemma view_dispatch:
  assumes "x_inv w" "ci < 16" "\<not> ids_exhausted (stk w)" "view_ok C w"
  shows "view_ok C (snd (snd (dispatch e ci bs fds w)))"
proof -
  have cl: "view_ok C (close_all fds w')" if "view_ok C w'" for w' using that by (simp add: view_ok_def)
  have "view_ok C (snd (snd (dispatch_hello ci bs fds w)))"
    using assms(4) hello_effect [of ci bs fds w] hello_maps [of ci bs fds w] by (simp add: view_ok_def)
  moreover have "view_ok C (snd (snd (dispatch_request e ci bs fds w)))"
    using assms by (simp add: dispatch_request_def drop_msg_def Let_def cl view_create view_set_title view_commit
        view_destroy_window view_set_geometry view_set_cursor)
  ultimately show ?thesis using assms(4) cl by (simp add: dispatch_def drop_msg_def)
qed

lemma view_readable:
  "x_inv w \<Longrightarrow> ci < 16 \<Longrightarrow> 0 \<le> fds_of w ! ci \<Longrightarrow> handles_left (length rs) w \<Longrightarrow> view_ok C w \<Longrightarrow>
   view_ok C (snd (client_readable e ci rs dirty w))"
proof (induction "length rs" arbitrary: rs dirty w rule: less_induct)
  case less
  obtain r rest k where recv: "cl_recv 256 rs (ker w) = (r, rest, k)" using prod_cases3 by blast
  let ?w = "w\<lparr>ker := k\<rparr>"
  have inv1: "x_inv ?w" using cl_recv_kern [OF recv] by (intro x_inv_ker [OF less.prems(1)]) simp_all
  have view1: "view_ok C ?w" using less.prems(5) cl_recv_kern [OF recv] by (simp add: view_ok_def)
  note dropped = view_client_drop [OF inv1 less.prems(2) view1, of e]
  show ?case
  proof (cases r)
    case (Ret_Err err)
    with dropped view1 show ?thesis by (simp add: client_readable.simps [of e ci rs] recv Let_def)
  next
    case (Ret_Data bs fds)
    show ?thesis
    proof (cases "bs = []")
      case True
      with dropped Ret_Data show ?thesis by (simp add: client_readable.simps [of e ci rs] recv Let_def)
    next
      case False
      obtain keep d w' where disp: "dispatch e ci bs fds ?w = (keep, d, w')" using prod_cases3 by blast
      have recv': "cl_recv 256 rs (ker w) = (Ret_Data bs fds, rest, k)" using recv Ret_Data by simp
      have shorter: "length rest < length rs" using cl_recv_rest [OF recv'] .
      note st = readable_step [OF less.prems(1-4) recv' disp]
      have "handles_left (Suc (length rest)) ?w" using less.prems(4) shorter by (simp add: handles_left_def)
      note left = handles_left_exhausted [OF this]
      have view': "view_ok C w'" using view_dispatch [OF inv1 less.prems(2) left view1, of e bs fds] disp by simp
      show ?thesis
      proof (cases keep)
        case True
        have "client_readable e ci rs dirty w = client_readable e ci rest (dirty \<or> d) w'"
          using False Ret_Data True by (simp add: client_readable.simps [of e ci rs] recv' disp Let_def)
        with less.hyps [OF shorter st(1) less.prems(2) st(2,3) view'] show ?thesis by simp
      next
        case False
        then have "client_readable e ci rs dirty w = (True, client_drop e ci w')"
          using \<open>bs \<noteq> []\<close> by (simp add: client_readable.simps [of e ci rs] recv' disp Let_def)
        with view_client_drop [OF st(1) less.prems(2) view', of e] show ?thesis by simp
      qed
    qed
  qed
qed

lemma view_add_client: "view_ok C w \<Longrightarrow> view_ok C (snd (transport_add_client e f w))"
  by (simp add: transport_add_client_def view_ok_def Let_def split: option.split)

lemma view_accept: "view_ok C w \<Longrightarrow> view_ok C (accept_pending e fs w)"
  by (induction fs arbitrary: w) (simp_all add: accept_pending_def view_add_client)

lemma view_handle_event:
  assumes "x_inv w" "sane_event ev" "handles_left (length (ev_recv ev)) w" "view_ok C w"
  shows "view_ok C (snd (handle_event e ev (dirty, w)))"
proof (cases "ev_fd ev = x_listen (xp w) \<or> client_by_fd w (ev_fd ev) = None")
  case True
  then show ?thesis using assms(4) view_accept by (auto simp: handle_event_def)
next
  case False
  then obtain ci where ci: "client_by_fd w (ev_fd ev) = Some ci" by auto
  then have "ci < length (clients (xp w)) \<and> c_fd (clients (xp w) ! ci) = ev_fd ev"
    by (auto simp: client_by_fd_def dest: find_index_SomeD)
  then have "ci < 16" "0 \<le> fds_of w ! ci"
    using assms(2) x_invD(1) [OF assms(1)] by (auto simp: fds_of_def sane_event_def)
  with assms False ci show ?thesis
    using view_client_drop [OF assms(1) \<open>ci < 16\<close> assms(4), of e]
      view_readable [OF assms(1) \<open>ci < 16\<close> \<open>0 \<le> fds_of w ! ci\<close> assms(3,4), of e dirty]
    by (simp add: handle_event_def)
qed

lemma view_handle_events:
  "x_inv w \<Longrightarrow> \<forall>ev \<in> set evs. sane_event ev \<Longrightarrow> handles_left (queued evs) w \<Longrightarrow> view_ok C w \<Longrightarrow>
   view_ok C (snd (fold (handle_event e) evs (dirty, w)))"
proof (induction evs arbitrary: dirty w)
  case (Cons ev evs)
  obtain d' w' where h: "handle_event e ev (dirty, w) = (d', w')" by fastforce
  have left: "handles_left (queued evs + length (ev_recv ev)) w" "handles_left (length (ev_recv ev)) w"
    using Cons.prems(3) by (simp_all add: queued_def handles_left_def)
  have ev: "sane_event ev" using Cons.prems(2) by simp
  have "x_inv w' \<and> handles_left (queued evs) w'" using x_inv_handle_event [OF Cons.prems(1) ev left(1), of e dirty] h by simp
  moreover have "view_ok C w'" using view_handle_event [OF Cons.prems(1) ev left(2) Cons.prems(4), of e dirty] h by simp
  ultimately show ?case using Cons.IH [of w' d'] Cons.prems(2) h by simp
qed simp

text \<open>A whole round of the transport, and what it tells the clients in between.\<close>

lemma view_process:
  assumes "x_inv w" "\<forall>ev \<in> set evs. sane_event ev" "handles_left (queued evs) w" "view_ok C w"
  shows "view_ok C (snd (transport_process e evs w))"
proof -
  obtain d w1 where ex: "orphans_expire (os_now e (call_no w)) w = (d, w1)" by fastforce
  have "x_inv w1" using x_inv_expire [OF assms(1), of "os_now e (call_no w)"] by (simp add: ex)
  moreover have "view_ok C w1"
    using view_expire_loop [OF assms(1) _ assms(4), of "[0..<16]" "os_now e (call_no w)"] ex by (simp add: orphans_expire_def)
  moreover have "next_id (stk w1) = next_id (stk w)"
    using expire_loop_next ex unfolding orphans_expire_def by (metis snd_conv)
  then have "handles_left (queued evs) w1" using assms(3) by (simp add: handles_left_def)
  ultimately show ?thesis
    using view_handle_events [of w1 evs C e d] assms(2) by (simp add: transport_process_def ex)
qed

lemma view_tell:
  assumes "view_ok C w"
  shows "view_ok C (notify_focus i w)" "view_ok C (transport_notify_geometry i w)"
    "view_ok C (transport_pointer_motion cx cy w)" "view_ok C (transport_pointer_button b p cx cy w)"
    "view_ok C (transport_keyboard_key i k p w)"
  using assms by (auto simp: view_ok_def transport_notify_geometry_def transport_pointer_motion_def transport_pointer_button_def
      transport_keyboard_key_def pointer_event_def split: option.split)

end
