(* ===== verification/Wayland_View.thy ===== *)
theory Wayland_View
  imports Transport_View Wayland_Spec
begin

text \<open>
  What the Wayland frontend does to the window stack it shares: every window that does not
  show one of its pixel copies stays exactly as it is, and no window comes to show a mapping
  of the transport.
\<close>

section \<open>Sparing the windows of others\<close>

definition spares :: "window_stack \<Rightarrow> window_stack \<Rightarrow> bool" where
  "spares st st' \<longleftrightarrow> stack_wf st' \<and>
     (\<forall>i v. window_by_id st i = Some v \<and> shown v = None \<longrightarrow> window_by_id st' i = Some v) \<and>
     (\<forall>i v a. window_by_id st' i = Some v \<and> buf v = Some (Mapping a) \<longrightarrow> window_by_id st i = Some v)"

lemma spares_refl [simp]: "stack_wf st \<Longrightarrow> spares st st"
  by (simp add: spares_def)

lemma shown_mapping: "buf v = Some (Mapping a) \<Longrightarrow> shown v = None"
  by (simp add: shown_def)

lemma spares_trans: "spares st st1 \<Longrightarrow> spares st1 st2 \<Longrightarrow> spares st st2"
  unfolding spares_def by blast

text \<open>Changing one window that showed a pixel copy, or making one that does.\<close>

lemma spares_one:
  assumes "stack_wf st'" "\<And>j. j \<noteq> i \<Longrightarrow> window_by_id st' j = window_by_id st j"
    and "window_by_id st i = None \<or> cview st i \<noteq> None"
    and "\<And>v a. window_by_id st' i = Some v \<Longrightarrow> buf v \<noteq> Some (Mapping a)"
  shows "spares st st'"
proof -
  have "window_by_id st' j = Some v" if "window_by_id st j = Some v" "shown v = None" for j v
    using that assms(2,3) by (cases "j = i") (auto simp: cview_def)
  moreover have "window_by_id st j = Some v" if "window_by_id st' j = Some v" "buf v = Some (Mapping a)" for j v a
    using that assms(2,4) by (cases "j = i") auto
  ultimately show ?thesis using assms(1) unfolding spares_def by blast
qed

section \<open>Handlers\<close>

lemma own_window_shown:
  assumes "wl_inv f" "s \<in> set (surfaces f)" "fs_server_id s \<noteq> 0"
  shows "cview (wl_stack f) (fs_server_id s) \<noteq> None" "content s \<noteq> None"
  using coreD(2,3) [OF wl_invD(1) [OF assms(1)] assms(2)] assms(3)
  by (auto simp: window_ok_def copy_ok_def split: option.splits)

lemma unmap_stack:
  "wl_stack (surface_unmap s g) = (if fs_server_id s \<noteq> 0 then window_destroy (wl_stack g) (fs_server_id s) else wl_stack g)"
  by (simp add: surface_unmap_def Let_def)

lemma unmap_spares:
  assumes "wl_inv f" "s0 \<in> set (surfaces f)" "fs_server_id s = fs_server_id s0" "wl_stack g = wl_stack f"
  shows "spares (wl_stack f) (wl_stack (surface_unmap s g))"
proof -
  note wf = coreD(1) [OF wl_invD(1) [OF assms(1)]]
  show ?thesis
  proof (cases "fs_server_id s0 = 0")
    case False
    note own_window_shown(1) [OF assms(1,2) False]
    then show ?thesis
      using False assms(3,4) wf
      by (intro spares_one [where i = "fs_server_id s0"]) (auto simp: unmap_stack stack_wf_destroy by_id_destroy)
  qed (use assms wf in \<open>simp add: unmap_stack\<close>)
qed

lemma map_update_spares:
  assumes "stack_wf st" "\<not> ids_exhausted st" "content s = Some c" "wl_stack f = st"
    and "fs_server_id s \<noteq> 0 \<Longrightarrow> cview st (fs_server_id s) \<noteq> None"
  shows "spares st (wl_stack (surface_map_or_update s f))"
proof (cases "fs_server_id s = 0")
  case False
  let ?g = "\<lambda>v. (show_content s v)\<lparr>win_w := cw s, win_h := ch s + DECOR_TITLEBAR_H\<rparr>"
  have st': "wl_stack (surface_map_or_update s f) = window_modify st (fs_server_id s) ?g"
    using False by (simp add: assms(4) surface_map_or_update_def)
  have id: "win_id (?g v) = win_id v" "buf (?g v) = Some (Content c)" for v using assms(3) by (simp_all add: show_content_def)
  show ?thesis unfolding st'
    using assms(5) [OF False] id by (intro spares_one [where i = "fs_server_id s"] stack_wf_modify [OF assms(1)]) (auto simp: by_id_modify)
next
  case True
  let ?n = "cascade f smod 8"
  obtain i st1 where c: "window_create st WIN_NORMAL (120 + 40 * ?n) (90 + 40 * ?n) (cw s) (ch s + DECOR_TITLEBAR_H) 0x00202020
      (Some (if fs_title s \<noteq> [] then fs_title s else ''Wayland'')) = (i, st1)" by fastforce
  have wf1: "stack_wf st1" using stack_wf_create [OF assms(1,2)] c by (metis snd_conv)
  show ?thesis
  proof (cases "i = 0")
    case i0: True
    have "st1 = st" using c i0 assms(1) by (auto simp: window_create_def Let_def stack_wf_def split: if_splits)
    then show ?thesis
      using c True i0 assms(1,4) by (simp add: surface_map_or_update_def Let_def)
  next
    case i: False
    note cr = cview_create [OF assms(1) c i]
    have room: "length (windows st) < 64" using c i by (auto simp: window_create_def split: if_splits)
    obtain win where win: "window_by_id st1 = (window_by_id st)(i \<mapsto> win)"
      using by_id_create(2) [OF assms(1) room c] by blast
    have id: "win_id (show_content s v) = win_id v" "buf (show_content s v) = Some (Content c)" for v
      using assms(3) by (simp_all add: show_content_def)
    have wf2: "stack_wf (window_modify st1 i (show_content s))" using wf1 by (rule stack_wf_modify) (rule id(1))
    have st': "wl_stack (surface_map_or_update s f) = window_focus (window_modify st1 i (show_content s)) i"
      using c True i by (simp add: assms(4) surface_map_or_update_def Let_def put_surf_def)
    show ?thesis unfolding st'
      using cr(2) id win
      by (intro spares_one [where i = i] stack_wf_focus [OF wf2]) (auto simp: by_id_focus_any [OF wf2] by_id_modify)
  qed
qed

lemma commit_spares:
  assumes "wl_inv f" "surf_commit ok a f = Some f'" "\<not> ids_exhausted (wl_stack f)"
  shows "spares (wl_stack f) (wl_stack f')"
proof -
  obtain s where at: "surf_at f a = Some s" using assms(2) by (auto simp: surf_commit_def split: option.splits)
  then have s: "s \<in> set (surfaces f)" using surf_at_Some by blast
  note core = wl_invD(1) [OF assms(1)]
  note wf = coreD(1) [OF core] and def = assms(2) [unfolded surf_commit_def at option.case Let_def]
  have out: "wl_stack (fire_frame_callbacks g) = wl_stack g" "wl_stack (emit es g) = wl_stack g" for g es
    by (simp_all add: fire_frame_callbacks_def emit_def)
  let ?s1 = "s\<lparr>attached := False, pending_buffer := None\<rparr>"
  let ?f1 = "put_surf ?s1 f"
  show ?thesis
  proof (cases "(xdg_surface s \<noteq> None \<and> \<not> initial_configured s) \<or> \<not> attached s")
    case True
    then have "wl_stack f' = wl_stack f" using def out by (auto split: option.splits bool.splits)
    with wf show ?thesis by simp
  next
    case att: False
    show ?thesis
    proof (cases "pending_buffer s")
      case None
      then have "f' = fire_frame_callbacks (surface_unmap ?s1 ?f1)" using att def by (auto split: option.splits bool.splits)
      with unmap_spares [OF assms(1) s, of ?s1 ?f1] out show ?thesis by simp
    next
      case (Some b)
      show ?thesis
      proof (cases "\<exists>shm. buffers f b = Some (Some shm)")
        case False
        then have "wl_stack f' = wl_stack f" using att Some def out by (auto split: option.splits bool.splits)
        with wf show ?thesis by simp
      next
        case True
        then obtain shm where shm: "buffers f b = Some (Some shm)" by blast
        have "copy_shm_buffer ok shm ?s1 ?f1 \<noteq> None" using att Some shm def by (auto split: option.splits bool.splits)
        then obtain s2 f2 where c: "copy_shm_buffer ok shm ?s1 ?f1 = Some (s2, f2)" by auto
        have f': "f' = fire_frame_callbacks (if content s2 \<noteq> None \<and> xdg_toplevel s2 \<noteq> None
              then surface_map_or_update s2 (emit [Buffer_Release b] f2) else emit [Buffer_Release b] f2)"
          using att Some shm def c by (auto split: option.splits bool.splits)
        have "copy_ok (contents ?f1) (next_content ?f1) ?s1"
          using coreD(2) [OF core s] by (cases "content s") (simp_all add: copy_ok_def)
        moreover have "?s1 \<in> set (surfaces ?f1)" using s by (auto simp: put_surf_def image_iff)
        ultimately have e: "fs_server_id s2 = fs_server_id s" "wl_stack f2 = wl_stack f"
          using copy_effect(6,10) [OF c] by simp_all
        show ?thesis
        proof (cases "content s2 \<noteq> None \<and> xdg_toplevel s2 \<noteq> None")
          case True
          then obtain n where n: "content s2 = Some n" by blast
          have "fs_server_id s2 \<noteq> 0 \<Longrightarrow> cview (wl_stack f) (fs_server_id s2) \<noteq> None"
            using own_window_shown(1) [OF assms(1) s] e by simp
          from map_update_spares [OF wf assms(3) n _ this, of "emit [Buffer_Release b] f2"] show ?thesis
            using True e out by (simp add: f')
        next
          case False
          then have "wl_stack f' = wl_stack f2" unfolding f' by (auto simp: out)
          with e wf show ?thesis by simp
        qed
      qed
    qed
  qed
qed

text \<open>What a client can ask for: everything but a change of the stack by another component.\<close>

definition from_client :: "wl_request \<Rightarrow> bool" where
  "from_client r \<longleftrightarrow> (case r of R_Stack st \<Rightarrow> False | _ \<Rightarrow> True)"

lemma wl_step_spares:
  assumes "wl_inv f" "wl_ok f r" "from_client r" "wl_step r f = Some f'"
  shows "spares (wl_stack f) (wl_stack f')"
proof -
  note wf = coreD(1) [OF wl_invD(1) [OF assms(1)]]
  have out: "wl_stack (emit es g) = wl_stack g" for g es by (simp add: emit_def)
  show ?thesis
  proof (cases r)
    case (R_Commit ok a)
    with commit_spares [OF assms(1)] assms(2,4) show ?thesis by simp
  next
    case (R_Destroy_Surface a)
    then obtain s where s: "surf_at f a = Some s" using surf_live [OF assms(1)] assms(2) by auto
    have "wl_stack f' = wl_stack (surface_unmap s f)"
      using assms(4) R_Destroy_Surface s by (auto simp: surface_resource_destroy_def Let_def)
    with unmap_spares [OF assms(1), of s s f] surf_at_Some [OF s] show ?thesis by simp
  next
    case (R_Destroy_Toplevel t)
    then obtain a where t: "toplevels f t = Some a" using assms(2) by auto
    then obtain s where s: "surf_at f a = Some s" using surf_live [OF assms(1) role_live [OF assms(1)]] by blast
    have "f' = surface_unmap (s\<lparr>xdg_toplevel := None\<rparr>) (f\<lparr>toplevels := (toplevels f)(t := None)\<rparr>)"
      using assms(4) R_Destroy_Toplevel s t by (simp add: toplevel_resource_destroy_def)
    with unmap_spares [OF assms(1), of s "s\<lparr>xdg_toplevel := None\<rparr>"] surf_at_Some [OF s] show ?thesis by simp
  next
    case (R_Set_Title t str)
    then obtain a where t: "toplevels f t = Some a" using assms(2) by auto
    then obtain s where s: "surf_at f a = Some s" using surf_live [OF assms(1) role_live [OF assms(1)]] by blast
    let ?g = "\<lambda>v. v\<lparr>title := snprintf_s TITLE_CAP (snprintf_s 64 str)\<rparr>"
    have st': "wl_stack f' = (if fs_server_id s \<noteq> 0 then window_modify (wl_stack f) (fs_server_id s) ?g else wl_stack f)"
      using assms(4) R_Set_Title s t by (auto simp: tl_set_title_def Let_def)
    show ?thesis
    proof (cases "fs_server_id s = 0")
      case False
      then have "cview (wl_stack f) (fs_server_id s) \<noteq> None" using own_window_shown(1) [OF assms(1)] surf_at_Some [OF s] by blast
      with False show ?thesis unfolding st'
        by (intro spares_one [where i = "fs_server_id s"])
          (auto simp: by_id_modify cview_def shown_def stack_wf_modify [OF wf] split: option.splits)
    qed (simp add: st' wf)
  next
    case (R_Stack st)
    with assms(3) show ?thesis by (simp add: from_client_def)
  qed (use assms(4) wf in \<open>auto simp: comp_create_surface_def surf_attach_def surf_frame_def frame_callback_destroy_def
      wm_get_xdg_surface_def xdg_surface_resource_destroy_def xs_get_toplevel_def decomgr_get_def deco_force_ssd_def
      seat_get_pointer_def seat_get_keyboard_def seat_resource_unlink_def wl_frontend_pointer_motion_def
      wl_frontend_pointer_button_def wl_frontend_keyboard_key_def wl_frontend_keyboard_focus_def wl_frontend_dispatch_def
      emit_def put_surf_def Let_def split: option.splits if_splits\<close>)
qed

end
