(* ===== verification/Shared_Stack.thy ===== *)
theory Shared_Stack
  imports Wayland_View WM_Spec
begin

text \<open>
  The window stack as the state its users share. Each frontend relies on the others to
  leave its windows alone (\<open>tenant\<close>), and every step of every user guarantees it: the
  steps of a frontend to the other, those of the window manager to both.
\<close>

section \<open>Tenants of the stack\<close>

locale tenant =
  fixes inv :: "'a \<Rightarrow> window_stack \<Rightarrow> bool"
    and rely :: "window_stack \<Rightarrow> window_stack \<Rightarrow> bool"
  assumes inv_wf: "inv x s \<Longrightarrow> stack_wf s"
    and stable: "inv x s \<Longrightarrow> rely s s' \<Longrightarrow> inv x s'"
begin

text \<open>Any number of steps of the others.\<close>

lemma stable_star: "rely\<^sup>*\<^sup>* s s' \<Longrightarrow> inv x s \<Longrightarrow> inv x s'"
  by (induction rule: rtranclp_induct) (auto intro: stable)

lemma stable_fold:
  assumes "inv x s" "\<And>e s. stack_wf s \<Longrightarrow> rely s (step e s)"
  shows "inv x (fold step es s)"
  using assms(1)
proof (induction es arbitrary: s)
  case (Cons e es)
  have "inv x (step e s)" using stable [OF Cons.prems assms(2) [OF inv_wf [OF Cons.prems]]] .
  from Cons.IH [OF this] show ?case by simp
qed simp

end

section \<open>The transport\<close>

text \<open>Windows that show no pixel copy keep their pixels and live on, and no others show a mapping.\<close>

definition rely_x :: "window_stack \<Rightarrow> window_stack \<Rightarrow> bool" where
  "rely_x s s' \<longleftrightarrow> stack_wf s' \<and>
     (\<forall>i. window_by_id s i \<noteq> None \<and> cview s i = None \<longrightarrow> pix s' i = pix s i) \<and>
     (\<forall>i a d. px s' i = Some (Mapping a, d) \<longrightarrow> px s i = Some (Mapping a, d))"

definition all_committed :: "window_stack \<Rightarrow> (nat \<rightharpoonup> nat) \<Rightarrow> bool" where
  "all_committed s m \<longleftrightarrow> (\<forall>i a d. px s i = Some (Mapping a, d) \<longrightarrow> committed m a d)"

definition xport_inv :: "world \<Rightarrow> window_stack \<Rightarrow> bool" where
  "xport_inv w s \<longleftrightarrow> x_inv (w\<lparr>stk := s\<rparr>) \<and> all_committed s (maps (ker w))"

lemma all_committed_kept: "all_committed s m \<longleftrightarrow> kept (cview s) (px s) m"
proof
  assume "all_committed s m"
  have "kept_at (cview s i) (px s i) m" for i
    using \<open>all_committed s m\<close> by (cases "(cview s i, px s i, m)" rule: kept_at.cases) (auto simp: all_committed_def cview_px)
  then show "kept (cview s) (px s) m" by (simp add: kept_def)
qed (auto simp: all_committed_def intro: kept_committed)

lemma rely_x_own:
  assumes "own_ok L s k" "rely_x s s'" shows "own_ok L s' k"
proof -
  have o: "owns L (pix s) (maps k) (next_map k)" using assms(1) by (simp add: own_ok_def)
  have same: "pix s' (server_id sl) = pix s (server_id sl)" if sl: "sl \<in># L" for sl
  proof -
    obtain v where "window_by_id s (server_id sl) = Some v" "buf v = map_option Mapping (cw_buf sl)"
      using own_ok_live [OF assms(1) sl] by blast
    then have "window_by_id s (server_id sl) \<noteq> None" "cview s (server_id sl) = None"
      by (auto simp: cview_def shown_def split: option.split)
    with assms(2) show ?thesis by (simp add: rely_x_def)
  qed
  have mapped: "pix s i = Some (Some (Mapping b))" if m: "pix s' i = Some (Some (Mapping b))" for i b
  proof -
    obtain d where "px s' i = Some (Mapping b, d)" using pix_SomeD [OF m] by blast
    then have "px s i = Some (Mapping b, d)" using assms(2) by (cases d) (simp add: rely_x_def)
    then show ?thesis by (rule pix_px)
  qed
  have "\<forall>sl \<in># L. pix s' (server_id sl) = Some (map_option Mapping (cw_buf sl))" using o same by (simp add: owns_def)
  moreover have "\<forall>i b. pix s' i = Some (Some (Mapping b)) \<longrightarrow> i \<in> server_id ` set_mset L"
    using o mapped unfolding owns_def by blast
  ultimately have "owns L (pix s') (maps k) (next_map k)" using o unfolding owns_def by (elim conjE, intro conjI)
  with assms(2) show ?thesis by (simp add: own_ok_def rely_x_def)
qed

interpretation xport_tenant: tenant xport_inv rely_x
proof
  fix w s s'
  assume inv: "xport_inv w s"
  then show "stack_wf s" using x_invD(6) [of "w\<lparr>stk := s\<rparr>"] by (simp add: xport_inv_def)
  assume rely: "rely_x s s'"
  from inv have x: "x_inv (w\<lparr>stk := s\<rparr>)" "all_committed s (maps (ker w))" by (simp_all add: xport_inv_def)
  from x_invD(5) [OF x(1)] rely have "own_ok (own w) s' (ker w)" by (auto intro: rely_x_own)
  then have "x_inv (w\<lparr>stk := s'\<rparr>)" using x(1) by (simp add: x_inv_def)
  moreover have "all_committed s' (maps (ker w))" using x(2) rely unfolding all_committed_def rely_x_def by blast
  ultimately show "xport_inv w s'" by (simp add: xport_inv_def)
qed

section \<open>The Wayland frontend\<close>

definition rely_wl :: "window_stack \<Rightarrow> window_stack \<Rightarrow> bool" where
  "rely_wl s s' \<longleftrightarrow> stack_wf s' \<and> cview s' = cview s"

definition wayland_inv :: "wl_frontend \<Rightarrow> window_stack \<Rightarrow> bool" where
  "wayland_inv f s \<longleftrightarrow> wl_inv (f\<lparr>wl_stack := s\<rparr>)"

interpretation wayland_tenant: tenant wayland_inv rely_wl
proof
  fix f s s'
  assume inv: "wayland_inv f s"
  from coreD(1) [OF wl_invD(1) [OF inv [unfolded wayland_inv_def]]] show "stack_wf s" by simp
  assume "rely_wl s s'"
  with inv show "wayland_inv f s'"
    by (auto simp: wayland_inv_def rely_wl_def wl_inv_def core_def window_ok_def)
qed

section \<open>What the users guarantee\<close>

text \<open>Steps that move, raise and focus windows only.\<close>

definition same_px :: "window_stack \<Rightarrow> window_stack \<Rightarrow> bool" where
  "same_px s s' \<longleftrightarrow> (stack_wf s \<longrightarrow> stack_wf s') \<and> (stack_wf s \<longrightarrow> px s' = px s \<and> pix s' = pix s)"

lemma same_px_refl [simp]: "same_px s s"
  by (simp add: same_px_def)

lemma same_px_trans: "same_px s s1 \<Longrightarrow> same_px s1 s2 \<Longrightarrow> same_px s s2"
  by (simp add: same_px_def)

lemma px_cview: "px s' = px s \<Longrightarrow> cview s' = cview s"
  by (simp add: cview_px fun_eq_iff)

lemma same_px_relies: "stack_wf s \<Longrightarrow> same_px s s' \<Longrightarrow> rely_x s s' \<and> rely_wl s s'"
  using px_cview [of s' s] by (simp add: same_px_def rely_x_def rely_wl_def)

lemma spares_rely_x: "spares s s' \<Longrightarrow> rely_x s s'"
proof -
  assume sp: "spares s s'"
  have "pix s' i = pix s i" if "window_by_id s i \<noteq> None" "cview s i = None" for i
  proof -
    note h = that
    obtain v where w: "window_by_id s i = Some v" using h(1) by blast
    with h(2) have v: "window_by_id s i = Some v" "shown v = None" by (simp_all add: cview_def)
    then have "window_by_id s' i = Some v" using sp unfolding spares_def by blast
    with v show ?thesis by (simp add: pix_def)
  qed
  moreover have "px s i = Some (Mapping a, d)" if "px s' i = Some (Mapping a, d)" for i a d
  proof -
    note h = that
    obtain v where v: "window_by_id s' i = Some v" "buf v = Some (Mapping a)"
      using h by (auto simp: px_def bind_eq_Some_conv)
    have "window_by_id s i = Some v" using sp v unfolding spares_def by blast
    with h v(1) show ?thesis by (simp add: px_def)
  qed
  moreover have "stack_wf s'" using sp unfolding spares_def by blast
  ultimately show ?thesis unfolding rely_x_def by blast
qed

text \<open>The window manager.\<close>

lemma same_px_modify:
  assumes "\<And>v. win_id (g v) = win_id v"
    and "\<And>v. buf (g v) = buf v \<and> buf_w (g v) = buf_w v \<and> buf_h (g v) = buf_h v \<and> buf_stride (g v) = buf_stride v"
  shows "same_px s (window_modify s i g)"
  using assms by (simp add: same_px_def stack_wf_modify px_modify_same pix_modify_same)

lemma same_px_ops [simp]:
  "same_px s (window_set_geometry s i x y w h)" "same_px s (window_focus s i)" "same_px s (window_move s i x y)"
  by (simp_all add: same_px_def stack_wf_set_geometry stack_wf_focus stack_wf_move)
     (simp add: window_move_def px_modify_same pix_modify_same)

lemma same_px_focus_loop: "same_px s (focus_cycle_loop s start step n left)"
  by (induction s start step n left rule: focus_cycle_loop.induct) (simp add: Let_def)+

lemma same_px_cycle: "same_px s (window_focus_cycle s d)"
  by (simp add: window_focus_cycle_def Let_def same_px_focus_loop)

lemma same_px_drag: "same_px s (drag_grabbed m s)"
  by (simp add: drag_grabbed_def)

lemma same_px_snap: "same_px s (snd (wm_snap_on_release m s i))"
  by (auto simp: wm_snap_on_release_def Let_def split: option.split prod.split
      intro!: same_px_trans [OF _ same_px_ops(1)] same_px_trans [OF _ same_px_modify] same_px_modify)

lemma same_px_press: "same_px s (snd (wm_press m s))"
  by (auto simp: wm_press_def Let_def split: option.split
      intro!: same_px_trans [OF _ same_px_modify] same_px_trans [OF same_px_ops(2) same_px_ops(1)])

lemma wm_step_same_px: "same_px s (snd (wm_step ev (m, s)))"
  by (cases ev) (simp_all add: wm_pointer_motion_def wm_pointer_motion_abs_def wm_pointer_button_def wm_key_def Let_def
      same_px_drag same_px_snap same_px_press same_px_cycle)

text \<open>The transport to the Wayland frontend.\<close>

lemma transport_round:
  assumes "xport_inv w (stk w)" "\<forall>ev \<in> set evs. sane_event ev" "handles_left (n + queued evs) w"
    and "w' = snd (transport_process e evs w)"
  shows "xport_inv w' (stk w')" "rely_wl (stk w) (stk w')" "handles_left n w'"
proof -
  have x: "x_inv w" "view_ok (cview (stk w)) w"
    using assms(1) by (simp_all add: xport_inv_def all_committed_kept view_ok_def)
  note x' = x_inv_process [OF x(1) assms(2,3), of e]
  have "view_ok (cview (stk w)) w'"
    using view_process [OF x(1) assms(2) _ x(2), of e] handles_left_mono [OF assms(3)] assms(4) by simp
  then have "cview (stk w') = cview (stk w)" "all_committed (stk w') (maps (ker w'))"
    by (simp_all add: view_ok_def kept_cview all_committed_kept)
  with x' assms(4) x_invD(6) [of w'] show "xport_inv w' (stk w')" "rely_wl (stk w) (stk w')" "handles_left n w'"
    by (simp_all add: xport_inv_def rely_wl_def)
qed

text \<open>The Wayland frontend to the transport, over all the requests of a dispatch.\<close>

lemma wayland_round:
  assumes "wl_inv f" "guarded_run wl_exec wl_good rs (Some f)" "\<forall>r \<in> set rs. from_client r"
  shows "\<exists>f'. fold wl_exec rs (Some f) = Some f' \<and> wl_inv f' \<and> rely_x\<^sup>*\<^sup>* (wl_stack f) (wl_stack f')"
  using assms
proof (induction rs arbitrary: f)
  case (Cons r rs)
  have "wl_ok f r" using Cons.prems(2) by (simp add: wl_good_def)
  then obtain f1 where f1: "wl_step r f = Some f1" "wl_inv f1" using wl_step_inv [OF Cons.prems(1)] by blast
  have ex: "wl_exec r (Some f) = Some f1" using f1(1) by (simp add: wl_exec_def)
  have "rely_x (wl_stack f) (wl_stack f1)"
    using wl_step_spares [OF Cons.prems(1) \<open>wl_ok f r\<close> _ f1(1)] Cons.prems(3) by (simp add: spares_rely_x)
  moreover obtain f' where "fold wl_exec rs (Some f1) = Some f'" "wl_inv f'" "rely_x\<^sup>*\<^sup>* (wl_stack f1) (wl_stack f')"
    using Cons.IH [OF f1(2)] Cons.prems(2,3) ex by auto
  ultimately show ?case using ex by (intro exI [of _ f']) (auto intro: converse_rtranclp_into_rtranclp)
qed simp

end
