(* ===== verification/Server_Start.thy ===== *)
theory Server_Start
  imports "HOL-Library.Multiset" Platform_Spec
begin

text \<open>
  Starting and stopping: the probe of \<open>server_run\<close> for a display device, opened through the
  seat (\<open>src/src/seat.c\<close>), the set-up of the display, and the cleanup. The probe chooses
  the device \<open>drm_open\<close> would choose, without leaking any; the set-up is all or nothing.
\<close>

section \<open>The probe\<close>

text \<open>What \<open>libseat_open_device\<close> returns: a device id and a descriptor.\<close>

definition seat_open_device :: "int \<times> fd \<Rightarrow> (int \<times> fd) option" where
  "seat_open_device ans = (if fst ans < 0 \<or> snd ans < 0 then None else Some ans)"

text \<open>A node: whether its path exists, what opening it through the seat gives, and the device.\<close>

record seat_card =
  sc_exists :: bool
  sc_open :: "int \<times> fd"
  sc_card :: card

text \<open>
  The loop over card0..15 with what follows it: \<open>fb\<close> is the fallback (device -1: none yet),
  \<open>cl\<close> the device ids closed so far. The result is the device and descriptor chosen.
\<close>

fun probe :: "seat_card list \<Rightarrow> int \<times> fd \<Rightarrow> int list \<Rightarrow> (int \<times> fd) option \<times> int list" where
  "probe [] fb cl = (if fst fb < 0 then None else Some fb, cl)"
| "probe (c # cs) fb cl =
     (if \<not> sc_exists c then probe cs fb cl
      else case seat_open_device (sc_open c) of
             None \<Rightarrow> probe cs fb cl
           | Some (dev, f) \<Rightarrow>
               if card_caps (sc_card c) \<noteq> 0 then probe cs fb (cl @ [dev])
               else if drm_has_connected (card_dev (sc_card c))
                 then (Some (dev, f), if fst fb \<ge> 0 then cl @ [fst fb] else cl)
               else if fst fb < 0 then probe cs (dev, f) cl
               else probe cs fb (cl @ [dev]))"

definition server_probe :: "seat_card list \<Rightarrow> (int \<times> fd) option \<times> int list" where
  "server_probe cs = probe (take 16 cs) (-1, -1) []"

text \<open>The device ids the probe opens before it stops.\<close>

fun opened :: "seat_card list \<Rightarrow> int list" where
  "opened [] = []"
| "opened (c # cs) =
     (if sc_exists c \<and> seat_open_device (sc_open c) \<noteq> None
      then fst (sc_open c) #
        (if card_caps (sc_card c) = 0 \<and> drm_has_connected (card_dev (sc_card c)) then [] else opened cs)
      else opened cs)"

lemma seat_open_SomeD: "seat_open_device a = Some (dev, f) \<Longrightarrow> a = (dev, f) \<and> 0 \<le> dev \<and> 0 \<le> f"
  by (auto simp: seat_open_device_def split: if_splits)

lemma probe_balanced:
  assumes "probe cs fb cl = (r, cl')"
  shows "mset cl' + (case r of None \<Rightarrow> {#} | Some (dev, _) \<Rightarrow> {#dev#}) =
    mset cl + mset (opened cs) + (if fst fb < 0 then {#} else {#fst fb#})"
  using assms
proof (induction cs arbitrary: fb cl)
  case (Cons c cs)
  show ?case
  proof (cases "sc_exists c \<and> seat_open_device (sc_open c) \<noteq> None")
    case True
    then obtain dev f where o: "sc_open c = (dev, f)" "0 \<le> dev" "seat_open_device (sc_open c) = Some (dev, f)"
      using seat_open_SomeD [of "sc_open c"] by fastforce
    let ?caps = "card_caps (sc_card c)" and ?conn = "drm_has_connected (card_dev (sc_card c))"
    have step: "probe (c # cs) fb cl =
        (if ?caps \<noteq> 0 then probe cs fb (cl @ [dev])
         else if ?conn then (Some (dev, f), if fst fb \<ge> 0 then cl @ [fst fb] else cl)
         else if fst fb < 0 then probe cs (dev, f) cl else probe cs fb (cl @ [dev]))"
      "opened (c # cs) = dev # (if ?caps = 0 \<and> ?conn then [] else opened cs)"
      using True o by simp_all
    show ?thesis
      using Cons.prems Cons.IH [of fb "cl @ [dev]"] Cons.IH [of "(dev, f)" cl] o(2) unfolding step
      by (auto split: if_splits)
  next
    case False
    then have "probe (c # cs) fb cl = probe cs fb cl" "opened (c # cs) = opened cs"
      by (cases "seat_open_device (sc_open c)"; auto)+
    with Cons.prems Cons.IH [of fb cl] show ?thesis by simp
  qed
qed (auto split: if_splits)

text \<open>Opening a node through the seat and opening it directly succeed for the same nodes, with the same descriptor.\<close>

definition same_access :: "seat_card \<Rightarrow> bool" where
  "same_access c \<longleftrightarrow> card_fd (sc_card c) =
     (if sc_exists c then map_option snd (seat_open_device (sc_open c)) else None)"

lemma probe_like_scan:
  assumes "\<And>c. c \<in> set cs \<Longrightarrow> same_access c" "fst fb < 0 \<longleftrightarrow> snd fb < 0" "snd fb < 0 \<longrightarrow> snd fb = -1"
  shows "(case fst (probe cs fb cl) of None \<Rightarrow> -1 | Some (_, f) \<Rightarrow> f) = fst (drm_scan (map sc_card cs) (snd fb) k)"
  using assms
proof (induction cs arbitrary: fb cl k)
  case (Cons c cs)
  note IH = Cons.IH [OF Cons.prems(1)]
  have acc: "same_access c" using Cons.prems(1) by simp
  show ?case
  proof (cases "sc_exists c \<and> seat_open_device (sc_open c) \<noteq> None")
    case True
    then obtain dev f where o: "seat_open_device (sc_open c) = Some (dev, f)" "0 \<le> dev" "0 \<le> f"
      using seat_open_SomeD by fastforce
    then have "card_fd (sc_card c) = Some f" using acc True by (simp add: same_access_def)
    with True o Cons.prems(2,3) IH [of fb "cl @ [dev]"] IH [of "(dev, f)" cl] show ?thesis by auto
  next
    case False
    then have "card_fd (sc_card c) = None"
      using acc by (cases "seat_open_device (sc_open c)") (auto simp: same_access_def)
    moreover have "probe (c # cs) fb cl = probe cs fb cl"
      using False by (cases "seat_open_device (sc_open c)") auto
    ultimately show ?thesis using IH [OF _ Cons.prems(2,3), of cl k] by simp
  qed
qed auto

text \<open>
  C29: The probe of the server is equivalent to \<open>drm_open\<close>, whose policy it repeats, on the
  same nodes: it takes the same descriptor, or finds none where \<open>drm_open\<close> finds none. And
  unlike \<open>drm_open\<close> it leaks nothing: every device it opened is closed exactly once, but
  for the one it returns.
\<close>

theorem server_probe_like_drm_open:
  assumes "\<And>c. c \<in> set cs \<Longrightarrow> same_access c" "server_probe cs = (r, closed_devs)"
  shows "(case r of None \<Rightarrow> -1 | Some (_, f) \<Rightarrow> f) = fst (drm_open None (map sc_card cs) k) \<and>
    mset closed_devs + (case r of None \<Rightarrow> {#} | Some (dev, _) \<Rightarrow> {#dev#}) = mset (opened (take 16 cs))"
proof -
  have "\<And>c. c \<in> set (take 16 cs) \<Longrightarrow> same_access c" using assms(1) by (meson in_set_takeD)
  from probe_like_scan [where cs = "take 16 cs" and fb = "(-1, -1)" and cl = "[]" and k = k, OF this] assms(2)
    probe_balanced [of "take 16 cs" "(-1, -1)" "[]" r closed_devs]
  show ?thesis by (simp add: server_probe_def drm_open_def take_map)
qed

definition demo_seat_card :: "int \<Rightarrow> u32 \<Rightarrow> seat_card" where
  "demo_seat_card d conn = \<lparr>sc_exists = True, sc_open = (d, d + 10), sc_card = demo_card (d + 10) conn\<rparr>"

theorem server_probe_like_drm_open_witness:
  "\<exists>r cl. server_probe [demo_seat_card 1 2, demo_seat_card 2 1] = (r, cl) \<and>
     (case r of None \<Rightarrow> -1 | Some (_, f) \<Rightarrow> f) =
       fst (drm_open None [demo_card 11 2, demo_card 12 1] (\<lparr>maps = Map.empty, next_map = 0, trace = []\<rparr> :: unit kern))"
proof -
  let ?cs = "[demo_seat_card 1 2, demo_seat_card 2 1]"
  obtain r cl where p: "server_probe ?cs = (r, cl)" by (cases "server_probe ?cs")
  have "same_access c" if "c \<in> set ?cs" for c
    using that by (auto simp: same_access_def demo_seat_card_def demo_card_def seat_open_device_def)
  from server_probe_like_drm_open [OF this p] p show ?thesis by (auto simp: demo_seat_card_def)
qed

section \<open>The display\<close>

text \<open>Both framebuffers, stopping at the first that fails; the list holds the \<open>have_fb\<close> made.\<close>

fun create_fbs :: "fb_answers list \<Rightarrow> int \<Rightarrow> int \<Rightarrow> dumb_fb list \<Rightarrow> drm \<Rightarrow> int \<times> dumb_fb list \<times> drm" where
  "create_fbs [] w h fbs d = (0, fbs, d)"
| "create_fbs (a # as) w h fbs d =
     (let (r, fb, d1) = dumb_fb_create a w h d
      in if r \<noteq> 0 then (1, fbs, d1) else create_fbs as w h (fbs @ [fb]) d1)"

text \<open>The end of \<open>server_run\<close>, from \<open>cleanup\<close> on.\<close>

definition display_cleanup :: "kms \<Rightarrow> dumb_fb list \<Rightarrow> drm \<Rightarrow> drm" where
  "display_cleanup k fbs d = snd (kms_finish k (fold (\<lambda>fb d. snd (dumb_fb_destroy fb d)) fbs d))"

definition display_start :: "drm_dev \<Rightarrow> bool \<Rightarrow> u32 option \<Rightarrow> fb_answers \<Rightarrow> fb_answers \<Rightarrow> drm \<Rightarrow>
    ((kms \<times> dumb_fb list) option \<times> drm) option" where
  "display_start dv calloc_ok blob a0 a1 d =
     (case kms_setup dv calloc_ok blob d of
        None \<Rightarrow> None
      | Some (r, k, d1) \<Rightarrow>
          if r \<noteq> 0 then Some (None, d1)
          else (let (rc, fbs, d2) = create_fbs [a0, a1] (int (unat (hdisplay (mode k)))) (int (unat (vdisplay (mode k)))) [] d1
                in if rc \<noteq> 0 then Some (None, display_cleanup k fbs d2) else Some (Some (k, fbs), d2)))"

lemma dumb_fb_create_ok:
  assumes "fresh_answers a d" "dumb_fb_create a w h d = (r, fb, d')" "r = 0"
  shows "fb_handle fb \<noteq> 0 \<and> fb_id fb \<noteq> 0 \<and> fb_map fb \<noteq> None \<and>
    fb_handle fb \<notin> d_handles d \<and> fb_id fb \<notin> d_fbs d \<and> fb_handle fb \<notin> d_maps d \<and> fb_w fb = w \<and> fb_h fb = h \<and>
    d' = d\<lparr>d_handles := insert (fb_handle fb) (d_handles d), d_fbs := insert (fb_id fb) (d_fbs d),
      d_maps := insert (fb_handle fb) (d_maps d)\<rparr>"
  using assms
  by (auto simp: dumb_fb_create_def fresh_answers_def zero_fb_def Let_def split: option.splits if_splits prod.splits)

lemma destroy_both:
  assumes "fresh_answers a0 d" "dumb_fb_create a0 w h d = (0, fb0, d1)" "fresh_answers a1 d1" "dumb_fb_create a1 w h d1 = (0, fb1, d2)"
  shows "snd (dumb_fb_destroy fb1 (snd (dumb_fb_destroy fb0 d2))) = d"
  using dumb_fb_create_ok [OF assms(1,2) refl] dumb_fb_create_ok [OF assms(3,4) refl]
  by (cases d) (auto simp: dumb_fb_destroy_def Let_def)

text \<open>
  Starting the display is all or nothing, and stopping it undoes it: when any step
  fails, the mode blob, the framebuffers and the mappings made so far are gone; when all
  succeed, there are two mapped framebuffers of the mode's size, and the cleanup at the
  end gives back exactly the kernel state before the start.
\<close>

theorem display_start_stop:
  assumes "display_start dv ok blob a0 a1 d = Some (res, d')"
    and "\<And>b. blob = Some b \<Longrightarrow> b \<noteq> 0 \<and> b \<notin> d_blobs d"
    and "fresh_answers a0 d" "\<And>b w h fb d1. dumb_fb_create a0 w h (d\<lparr>d_blobs := b\<rparr>) = (0, fb, d1) \<Longrightarrow> fresh_answers a1 d1"
  shows "case res of
      None \<Rightarrow> d' = d
    | Some (k, fbs) \<Rightarrow> length fbs = 2 \<and> display_cleanup k fbs d' = d \<and>
        (\<forall>fb \<in> set fbs. fb_map fb \<noteq> None \<and> fb_w fb = int (unat (hdisplay (mode k))) \<and> fb_h fb = int (unat (vdisplay (mode k))))"
proof -
  obtain r k d1 where ks0: "kms_setup dv ok blob d = Some (r, k, d1)"
    using assms(1) by (auto simp: display_start_def split: option.splits)
  note ks = setup_sound [OF ks0]
  show ?thesis
  proof (cases "r = 0")
    case False
    with ks ks0 assms(1) show ?thesis by (auto simp: display_start_def)
  next
    case True
    let ?w = "int (unat (hdisplay (mode k)))" and ?h = "int (unat (vdisplay (mode k)))"
    have k: "blob = Some (mode_blob k)" "d1 = d\<lparr>d_blobs := insert (mode_blob k) (d_blobs d)\<rparr>" using ks True by auto
    then have blob: "mode_blob k \<noteq> 0" "mode_blob k \<notin> d_blobs d" using assms(2) by blast+
    have undo: "snd (kms_finish k d1) = d" using blob k(2) by (simp add: kms_finish_def destroy_blob_def)
    have fr0: "fresh_answers a0 d1" using assms(3) unfolding k(2) by (cases d) (simp add: fresh_answers_def cong: option.case_cong)
    obtain r0 fb0 d2 where c0: "dumb_fb_create a0 ?w ?h d1 = (r0, fb0, d2)" using prod_cases3 by blast
    obtain r1 fb1 d3 where c1: "dumb_fb_create a1 ?w ?h d2 = (r1, fb1, d3)" using prod_cases3 by blast
    note p0 = fb_all_or_nothing [OF fr0 c0]
    have start: "display_start dv ok blob a0 a1 d =
        (if r0 \<noteq> 0 then Some (None, display_cleanup k [] d2)
         else if r1 \<noteq> 0 then Some (None, display_cleanup k [fb0] d3) else Some (Some (k, [fb0, fb1]), d3))"
      using ks0 True c0 c1 by (simp add: display_start_def Let_def)
    show ?thesis
    proof (cases "r0 = 0")
      case False
      with start assms(1) p0 undo show ?thesis by (auto simp: display_cleanup_def)
    next
      case r0: True
      have fr1: "fresh_answers a1 d2" using assms(4) c0 r0 k(2) by blast
      note p1 = fb_all_or_nothing [OF fr1 c1]
      show ?thesis
      proof (cases "r1 = 0")
        case False
        with start assms(1) p0 p1 r0 undo show ?thesis by (auto simp: display_cleanup_def)
      next
        case r1: True
        have "display_cleanup k [fb0, fb1] d3 = d"
          using destroy_both [OF fr0 c0 [unfolded r0] fr1 c1 [unfolded r1]] undo by (simp add: display_cleanup_def)
        with start assms(1) p0 p1 r0 r1 show ?thesis by auto
      qed
    qed
  qed
qed

definition demo_answers1 :: fb_answers where
  "demo_answers1 = demo_answers\<lparr>an_dumb := Some (6, 8, 8), an_fb := Some 10\<rparr>"

theorem display_start_stop_witness:
  "\<exists>k fbs d'. display_start demo_dev True (Some 3) demo_answers demo_answers1 no_drm = Some (Some (k, fbs), d') \<and>
     length fbs = 2 \<and> display_cleanup k fbs d' = no_drm"
proof -
  obtain k d1 where k: "kms_setup demo_dev True (Some 3) no_drm = Some (0, k, d1)" using demo_setup by blast
  obtain res d' where s: "display_start demo_dev True (Some 3) demo_answers demo_answers1 no_drm = Some (res, d')" "res \<noteq> None"
    using k by (auto simp: display_start_def dumb_fb_create_def demo_answers_def demo_answers1_def Let_def)
  have "fresh_answers demo_answers1 d1" if "dumb_fb_create demo_answers w h (no_drm\<lparr>d_blobs := b\<rparr>) = (0, fb, d1)" for w h b fb d1
    using that by (auto simp: dumb_fb_create_def demo_answers_def demo_answers1_def no_drm_def fresh_answers_def Let_def)
  moreover have "fresh_answers demo_answers no_drm" by (simp add: fresh_answers_def demo_answers_def no_drm_def)
  moreover have "b \<noteq> 0 \<and> b \<notin> d_blobs no_drm" if "Some 3 = Some b" for b using that by (auto simp: no_drm_def)
  ultimately show ?thesis using display_start_stop [OF s(1)] s by (auto split: option.splits)
qed

end
