(* ===== verification/Server_Mode.thy ===== *)
theory Server_Mode
  imports Server_Demo Server_Start
begin

text \<open>
  Resolution changes: what a successful one leaves, and what a failed one does to the
  framebuffers the loop goes on using.
\<close>

section \<open>Refitting the desktop\<close>

definition fit_window :: "int \<Rightarrow> int \<Rightarrow> window \<Rightarrow> window" where
  "fit_window nw nh v =
     (if role v = WIN_DESKTOP
      then v\<lparr>win_x := 0, win_y := 0, win_w := (if nw > 0 then nw else win_w v), win_h := (if nh > 0 then nh else win_h v)\<rparr>
      else v)"

lemma fit_window_keeps [simp]: "win_id (fit_window nw nh v) = win_id v" "role (fit_window nw nh v) = role v"
  by (simp_all add: fit_window_def)

text \<open>The loop over the array visits every window once.\<close>

lemma cover_screen_step:
  assumes "stack_wf s" "i < length (windows s)"
  shows "windows (cover_screen nw nh i s) = (windows s)[i := fit_window nw nh (windows s ! i)]" "stack_wf (cover_screen nw nh i s)"
proof -
  let ?v = "windows s ! i"
  have d: "distinct (map win_id (windows s))" using assms(1) by (simp add: stack_wf_def z_order_def)
  have "map (\<lambda>w. if win_id w = win_id ?v then g w else w) (windows s) = (windows s)[i := g ?v]" for g
    using d assms(2) by (auto simp: list_eq_iff_nth_eq nth_list_update distinct_conv_nth)
  then show "windows (cover_screen nw nh i s) = (windows s)[i := fit_window nw nh ?v]"
    using assms by (simp add: cover_screen_def window_set_geometry_def windows_modify fit_window_def Let_def)
  show "stack_wf (cover_screen nw nh i s)"
    using assms(1) by (simp add: cover_screen_def Let_def stack_wf_set_geometry)
qed

lemma fit_desktops_windows:
  assumes "stack_wf s"
  shows "windows (fit_desktops nw nh s) = map (fit_window nw nh) (windows s)"
proof -
  have "stack_wf (fold (cover_screen nw nh) [0..<k] s) \<and>
      windows (fold (cover_screen nw nh) [0..<k] s) = map (fit_window nw nh) (take k (windows s)) @ drop k (windows s)"
    if "k \<le> length (windows s)" for k
    using that
  proof (induction k)
    case (Suc k)
    let ?s = "fold (cover_screen nw nh) [0..<k] s"
    have IH: "stack_wf ?s" "windows ?s = map (fit_window nw nh) (take k (windows s)) @ drop k (windows s)" using Suc by simp_all
    have k: "k < length (windows ?s)" using IH(2) Suc.prems by simp
    have "windows ?s ! k = windows s ! k" using IH(2) Suc.prems by (simp add: nth_append)
    then show ?case
      using cover_screen_step [OF IH(1) k, of nw nh] IH(2) Suc.prems
      by (simp add: list_update_append take_Suc_conv_app_nth Cons_nth_drop_Suc [symmetric])
  qed (use assms in simp)
  from this [of "length (windows s)"] show ?thesis by (simp add: fit_desktops_def)
qed

section \<open>Framebuffers\<close>

lemma realloc_both:
  "realloc_fbs [0, 1] a nw nh fbs d =
     (let d1 = snd (dumb_fb_destroy (fbs ! 0) d); (r0, fb0, d2) = dumb_fb_create (a 0) nw nh d1; fbs1 = fbs[0 := fb0]
      in if r0 \<noteq> 0 then (False, fbs1, d2)
         else let d3 = snd (dumb_fb_destroy (fbs1 ! 1) d2); (r1, fb1, d4) = dumb_fb_create (a 1) nw nh d3
              in (r1 = 0, fbs1[1 := fb1], d4))"
  by (simp add: Let_def split: prod.split)

lemma created_size: "dumb_fb_create a w h d = (0, fb, d') \<Longrightarrow> fb_w fb = w \<and> fb_h fb = h \<and> fb_map fb \<noteq> None"
  by (auto simp: dumb_fb_create_def Let_def split: option.splits if_splits prod.splits)

lemma realloc_ok:
  assumes "realloc_fbs [0, 1] a nw nh fbs d = (True, fbs', d')" "length fbs = 2"
  shows "length fbs' = 2 \<and> (\<forall>fb \<in> set fbs'. fb_w fb = nw \<and> fb_h fb = nh \<and> fb_map fb \<noteq> None)"
proof -
  obtain x y where fbs: "fbs = [x, y]" using assms(2) by (auto simp: numeral_2_eq_2 length_Suc_conv)
  obtain r0 fb0 d2 where c0: "dumb_fb_create (a 0) nw nh (snd (dumb_fb_destroy x d)) = (r0, fb0, d2)" using prod_cases3 by blast
  obtain r1 fb1 d4 where c1: "dumb_fb_create (a 1) nw nh (snd (dumb_fb_destroy y d2)) = (r1, fb1, d4)" using prod_cases3 by blast
  have "r0 = 0" "r1 = 0" "fbs' = [fb0, fb1]"
    using assms(1) c0 c1 unfolding realloc_both fbs by (auto simp: Let_def split: if_splits)
  with created_size c0 c1 show ?thesis by simp
qed

lemma set_mode_fits:
  assumes "kms_set_mode_wh dv b k w h r d = (0, k', d')"
  shows "mode_fits w h (mode k')"
proof -
  obtain cn where cn: "dv_connector dv (connector_id k) = Some cn"
    using assms by (auto simp: kms_set_mode_wh_def split: option.splits)
  obtain m diff where best: "best_mode w h r (dc_modes cn) None = Some (m, diff)"
    using assms cn by (auto simp: kms_set_mode_wh_def split: option.splits)
  have "mode k' = m"
    using assms cn best by (auto simp: kms_set_mode_wh_def create_blob_def split: option.splits)
  with best_mode_spec [where w = w and h = h and r = r and ms = "dc_modes cn"] best show ?thesis by simp
qed

lemma broadcast_result:
  "sent (trace (ker (transport_broadcast_screen nw nh w))) = sent (trace (ker w)) @
     map (\<lambda>c. (c_fd c, Screen \<lparr>sc_w = u32_of_int nw, sc_h = u32_of_int nh\<rparr>)) (filter (\<lambda>c. 0 \<le> c_fd c \<and> c_hello c) (clients (xp w)))"
  "xp (transport_broadcast_screen nw nh w) = (xp w)\<lparr>x_sw := nw, x_sh := nh\<rparr>" "stk (transport_broadcast_screen nw nh w) = stk w"
proof -
  let ?f = "\<lambda>c w. if 0 \<le> c_fd c \<and> c_hello c then send_to (c_fd c) (Screen \<lparr>sc_w = u32_of_int nw, sc_h = u32_of_int nh\<rparr>) w else w"
  have "sent (trace (ker (fold ?f cs w))) = sent (trace (ker w)) @
      map (\<lambda>c. (c_fd c, Screen \<lparr>sc_w = u32_of_int nw, sc_h = u32_of_int nh\<rparr>)) (filter (\<lambda>c. 0 \<le> c_fd c \<and> c_hello c) cs) \<and>
      xp (fold ?f cs w) = xp w \<and> stk (fold ?f cs w) = stk w" for cs w
    by (induction cs arbitrary: w) (simp_all add: send_to_def)
  from this [of "clients (xp w)" "transport_set_screen nw nh w"]
  show "sent (trace (ker (transport_broadcast_screen nw nh w))) = sent (trace (ker w)) @
     map (\<lambda>c. (c_fd c, Screen \<lparr>sc_w = u32_of_int nw, sc_h = u32_of_int nh\<rparr>)) (filter (\<lambda>c. 0 \<le> c_fd c \<and> c_hello c) (clients (xp w)))"
    "xp (transport_broadcast_screen nw nh w) = (xp w)\<lparr>x_sw := nw, x_sh := nh\<rparr>" "stk (transport_broadcast_screen nw nh w) = stk w"
    by (simp_all add: transport_broadcast_screen_def transport_set_screen_def)
qed

lemma clamp_cursor_on_screen:
  assumes "0 \<le> cursor_x m" "0 \<le> cursor_y m" "0 < w" "0 < h"
  shows "screen_w (clamp_cursor w h m) = w" "screen_h (clamp_cursor w h m) = h"
    "0 \<le> cursor_x (clamp_cursor w h m)" "cursor_x (clamp_cursor w h m) < w"
    "0 \<le> cursor_y (clamp_cursor w h m)" "cursor_y (clamp_cursor w h m) < h"
  using assms by (simp_all add: clamp_cursor_def Let_def)

text \<open>
  C16: A successful resolution change to a positive size, with the cursor not left of or above the screen, takes
  effect in everything but the Wayland frontend: the mode is progressive and has the size asked
  for, both framebuffers are mapped and of that size, the cursor is on the new screen,
  every wallpaper covers it and no other window moves, new clients of the transport will be
  told the new size and each client of it that has shaken hands is told it now, in the order of the
  table and nobody else, and the next frame is a modeset. Wayland clients are not told: the
  frontend keeps the size it was created with.
\<close>

theorem mode_change_consistent:
  assumes "apply_mode_cb dv ans w h refresh s = (True, s')" "length (sv_fbs s) = 2" "stack_wf (sv_stack s)"
    and "0 \<le> cursor_x (sv_wm s)" "0 \<le> cursor_y (sv_wm s)" "0 < w" "0 < h"
  shows "int (unat (hdisplay (mode (sv_kms s')))) = w \<and> int (unat (vdisplay (mode (sv_kms s')))) = h \<and>
    mo_flags (mode (sv_kms s')) AND DRM_MODE_FLAG_INTERLACE = 0 \<and>
    length (sv_fbs s') = 2 \<and> (\<forall>fb \<in> set (sv_fbs s'). fb_w fb = w \<and> fb_h fb = h \<and> fb_map fb \<noteq> None) \<and>
    screen_w (sv_wm s') = w \<and> screen_h (sv_wm s') = h \<and>
    0 \<le> cursor_x (sv_wm s') \<and> cursor_x (sv_wm s') < w \<and> 0 \<le> cursor_y (sv_wm s') \<and> cursor_y (sv_wm s') < h \<and>
    windows (sv_stack s') = map (fit_window w h) (windows (sv_stack s)) \<and>
    (sv_xport s \<longrightarrow> x_sw (xp (sv_w s')) = w \<and> x_sh (xp (sv_w s')) = h \<and>
       sent (trace (ker (sv_w s'))) = sent (trace (ker (sv_w s))) @
         map (\<lambda>c. (c_fd c, Screen \<lparr>sc_w = u32_of_int w, sc_h = u32_of_int h\<rparr>))
           (filter (\<lambda>c. 0 \<le> c_fd c \<and> c_hello c) (clients (xp (sv_w s))))) \<and>
    need_modeset s' \<and> sv_dirty s'"
proof -
  let ?a = "ans (sv_drm s)"
  obtain r k d1 where m: "kms_set_mode_wh dv (ma_blob ?a) (sv_kms s) w h refresh (sv_drm s) = (r, k, d1)" using prod_cases3 by blast
  have r: "r = 0" using assms(1) m by (auto simp: apply_mode_cb_def Let_def split: if_splits)
  have fits: "mode_fits w h (mode k)" using set_mode_fits m r by blast
  then have size: "int (unat (hdisplay (mode k))) = w" "int (unat (vdisplay (mode k))) = h" by (simp_all add: mode_fits_def)
  obtain ok fbs d2 where f: "realloc_fbs [0, 1] (ma_fbs ?a) w h (sv_fbs s) d1 = (ok, fbs, d2)" using prod_cases3 by blast
  have step: "apply_mode_cb dv ans w h refresh s =
      (let s2 = s\<lparr>sv_kms := k, sv_drm := d1\<rparr>\<lparr>sv_fbs := fbs, sv_drm := d2\<rparr>
       in if \<not> ok then (False, s2)
          else let s3 = s2\<lparr>sv_wm := clamp_cursor w h (sv_wm s2)\<rparr>;
                   s4 = put_stack (fit_desktops w h (sv_stack s3)) s3;
                   s5 = xp_call (transport_broadcast_screen w h) s4
               in (True, s5\<lparr>need_modeset := True, sv_dirty := True\<rparr>))"
    unfolding apply_mode_cb_def Let_def m prod.case using r size f by simp
  have ok: ok using assms(1) step by (auto simp: Let_def split: if_splits)
  note fbs = realloc_ok [OF f [unfolded eqTrueI [OF ok]] assms(2)]
  let ?s4 = "put_stack (fit_desktops w h (sv_stack s)) (s\<lparr>sv_kms := k, sv_fbs := fbs, sv_drm := d2, sv_wm := clamp_cursor w h (sv_wm s)\<rparr>)"
  have s': "s' = xp_call (transport_broadcast_screen w h) ?s4\<lparr>need_modeset := True, sv_dirty := True\<rparr>"
    using assms(1) step ok by (simp add: Let_def sv_stack_def)
  have w4: "sv_xport ?s4 = sv_xport s" "xp (sv_w ?s4) = xp (sv_w s)" "ker (sv_w ?s4) = ker (sv_w s)"
      "stk (sv_w ?s4) = fit_desktops w h (sv_stack s)"
    by (simp_all add: put_stack_def)
  have keep: "sv_wm s' = clamp_cursor w h (sv_wm s)" "sv_kms s' = k" "sv_fbs s' = fbs" "need_modeset s'" "sv_dirty s'"
      "sv_stack s' = fit_desktops w h (sv_stack s)"
    by (simp_all add: s' xp_call_def sv_stack_def broadcast_result w4) (simp_all add: put_stack_def)
  moreover have "sv_xport s \<Longrightarrow> sv_w s' = transport_broadcast_screen w h (sv_w ?s4)" by (simp add: s' xp_call_def w4)
  ultimately show ?thesis
    using fits fbs clamp_cursor_on_screen [OF assms(4-7)] fit_desktops_windows [OF assms(3), of w h]
    by (simp add: broadcast_result w4 mode_fits_def)
qed



text \<open>A display at the demo device's mode with both framebuffers, and a change to 1920x1080.\<close>

definition mode_server :: server where
  "mode_server = quiet_server\<lparr>sv_kms := zero_kms\<lparr>connector_id := 31, mode_blob := 3\<rparr>, sv_drm := no_drm\<lparr>d_blobs := {3}\<rparr>\<rparr>"

lemma mode_server_switch:
  "\<exists>k d. kms_set_mode_wh demo_dev (Some 4) (sv_kms mode_server) 1920 1080 0 (sv_drm mode_server) = (0, k, d) \<and>
     hdisplay (mode k) = 1920 \<and> vdisplay (mode k) = 1080"
  by (simp add: mode_server_def quiet_server_def kms_set_mode_wh_def demo_dev_def demo_connector_def mode_fits_def mode_50_def
      mode_60_def refresh_diff_def create_blob_def Let_def)


theorem mode_change_consistent_witness:
  "\<exists>s'. apply_mode_cb demo_dev (\<lambda>_. \<lparr>ma_blob = Some 4, ma_fbs = (\<lambda>i. if i = 0 then demo_answers else demo_answers1)\<rparr>) 1920 1080 0 mode_server = (True, s') \<and>
     screen_w (sv_wm s') = 1920 \<and> need_modeset s'"
proof -
  let ?ans = "\<lambda>_ :: drm. \<lparr>ma_blob = Some 4, ma_fbs = (\<lambda>i :: nat. if i = 0 then demo_answers else demo_answers1)\<rparr>"
  obtain k d where k: "kms_set_mode_wh demo_dev (Some 4) (sv_kms mode_server) 1920 1080 0 (sv_drm mode_server) = (0, k, d)"
    using mode_server_switch by auto
  obtain ok s' where s': "apply_mode_cb demo_dev ?ans 1920 1080 0 mode_server = (ok, s')" by (meson surj_pair)
  have ok
    using s' k by (auto simp: apply_mode_cb_def realloc_both dumb_fb_create_def demo_answers_def demo_answers1_def Let_def
        split: prod.splits if_splits)
  then have s't: "apply_mode_cb demo_dev ?ans 1920 1080 0 mode_server = (True, s')" using s' by simp
  have pre: "length (sv_fbs mode_server) = 2" "stack_wf (sv_stack mode_server)" "0 \<le> cursor_x (sv_wm mode_server)"
      "0 \<le> cursor_y (sv_wm mode_server)" "(0 :: int) < 1920" "(0 :: int) < 1080"
    by (simp_all add: mode_server_def quiet_server_def sv_stack_def demo_world_def tiny_wm_def stack_wf_init)
  from mode_change_consistent [OF s't pre] s't show ?thesis by blast
qed

end
