(* ===== verification/Server_Inv.thy ===== *)
theory Server_Inv
  imports Transport_Cursor Shared_Stack Server_Mode Server_Frames
begin

text \<open>
  The invariant of the whole server: every component's own invariant over the one stack
  they share. It is kept by each thing a round does, and it is what the compositor needs
  to draw.
\<close>

section \<open>The invariant\<close>

definition screen_ok :: "wm \<Rightarrow> bool" where
  "screen_ok m \<longleftrightarrow> screen_w m \<le> 65535 \<and> screen_h m \<le> 65535"

definition fbs_ok :: "server \<Rightarrow> bool" where
  "fbs_ok s \<longleftrightarrow> length (sv_fbs s) = 2 \<and> front s \<le> 1 \<and> (\<forall>fb \<in> set (sv_fbs s). fb_good fb)"

text \<open>What one frontend needs of the stack, if it is there at all.\<close>

definition tenants_ok :: "server \<Rightarrow> window_stack \<Rightarrow> bool" where
  "tenants_ok s st \<longleftrightarrow> stack_wf st \<and> all_committed st (maps (ker (sv_w s))) \<and> (sv_xport s \<longrightarrow> xport_inv (sv_w s) st) \<and>
     (case sv_wl s of None \<Rightarrow> cview st = (\<lambda>_. None) | Some f \<Rightarrow> wayland_inv f st)"

definition sv_inv :: "server \<Rightarrow> bool" where
  "sv_inv s \<longleftrightarrow> tenants_ok s (sv_stack s) \<and> wm_inv (sv_wm s, sv_stack s) \<and> screen_ok (sv_wm s) \<and>
     cursor_ok (x_cursor (xp (sv_w s))) \<and> fbs_ok s"

lemma sv_invD:
  assumes "sv_inv s"
  shows "tenants_ok s (sv_stack s)" "wm_inv (sv_wm s, sv_stack s)" "screen_ok (sv_wm s)"
    "cursor_ok (x_cursor (xp (sv_w s)))" "fbs_ok s" "stack_wf (sv_stack s)"
  using assms by (simp_all add: sv_inv_def tenants_ok_def)

lemma all_committed_rely: "all_committed st m \<Longrightarrow> rely_x st st' \<Longrightarrow> all_committed st' m"
  unfolding all_committed_def rely_x_def by blast

interpretation pixels_tenant: tenant "\<lambda>m st. stack_wf st \<and> all_committed st m" rely_x
  by unfold_locales (auto intro: all_committed_rely simp: rely_x_def)

lemma tenants_stable:
  assumes "tenants_ok s st" "rely_x st st'" "rely_wl st st'"
  shows "tenants_ok s st'"
proof -
  show ?thesis
    using assms all_committed_rely [of st _ st'] xport_tenant.stable [of "sv_w s" st st'] wayland_tenant.stable [of _ st st']
    by (auto simp: tenants_ok_def rely_wl_def split: option.splits)
qed

text \<open>Only these fields matter to the invariant.\<close>

lemma sv_inv_cong:
  assumes "sv_w t = sv_w s" "sv_xport t = sv_xport s" "sv_wm t = sv_wm s" "sv_wl t = sv_wl s" "sv_fbs t = sv_fbs s" "front t = front s"
  shows "sv_inv t = sv_inv s"
  unfolding sv_inv_def tenants_ok_def fbs_ok_def sv_stack_def assms ..

lemma wm_inv_stack: "wm_inv (m, st) \<Longrightarrow> stack_wf st' \<Longrightarrow> wm_inv (m, st')"
  by (simp add: wm_inv_def)

section \<open>Calls into one component\<close>

lemma xport_world: "xport_inv (w\<lparr>stk := st\<rparr>) st' = xport_inv w st'"
  by (simp add: xport_inv_def)

lemma put_stack_inv:
  assumes "sv_inv s" "rely_x (sv_stack s) st" "rely_wl (sv_stack s) st"
  shows "sv_inv (put_stack st s)"
proof -
  have "tenants_ok s st" using tenants_stable [OF sv_invD(1) [OF assms(1)] assms(2,3)] .
  then have "tenants_ok (put_stack st s) (sv_stack (put_stack st s))"
    by (simp add: tenants_ok_def) (simp add: put_stack_def xport_world)
  then show ?thesis
    using sv_invD(2-5) [OF assms(1)] assms(3) wm_inv_stack [of "sv_wm s" "sv_stack s" st]
    by (simp add: sv_inv_def fbs_ok_def rely_wl_def)
qed

lemma put_px_inv: "sv_inv s \<Longrightarrow> same_px (sv_stack s) st \<Longrightarrow> sv_inv (put_stack st s)"
  using same_px_relies [of "sv_stack s" st] sv_invD(6) [of s] put_stack_inv by blast

lemma put_stack_id [simp]: "put_stack (sv_stack s) s = s"
  by (simp add: put_stack_def sv_stack_def)

lemma wm_call_inv:
  assumes "sv_inv s"
  shows "sv_inv (wm_call (\<lambda>m st. wm_step ev (m, st)) s)"
proof -
  obtain m st where r: "wm_step ev (sv_wm s, sv_stack s) = (m, st)" by fastforce
  have px: "same_px (sv_stack s) st" using wm_step_same_px [of "sv_stack s" ev "sv_wm s"] r by simp
  have m: "wm_inv (m, st)" using wm_inv_step [OF sv_invD(2) [OF assms], of ev] r by simp
  have scr: "screen_w m = screen_w (sv_wm s) \<and> screen_h m = screen_h (sv_wm s)"
    using r by (cases ev) (auto simp: wm_pointer_motion_def wm_pointer_motion_abs_def wm_pointer_button_def wm_press_def
        wm_snap_on_release_def Let_def split: option.splits if_splits prod.splits)
  have "sv_inv (put_stack st s)" using put_px_inv [OF assms px] .
  then have "sv_inv (put_stack st (s\<lparr>sv_wm := m\<rparr>))"
    using m scr by (simp add: sv_inv_def tenants_ok_def screen_ok_def fbs_ok_def) (simp add: put_stack_def)
  then show ?thesis by (simp add: wm_call_def r)
qed

lemma wl_stack_id: "wl_stack f = st \<Longrightarrow> f\<lparr>wl_stack := st\<rparr> = f"
  by (cases f) simp

lemma wl_call_inv:
  assumes "sv_inv s" "\<And>f. wl_inv f \<Longrightarrow> wl_inv (g f) \<and> wl_stack (g f) = wl_stack f"
  shows "sv_inv (wl_call g s)"
proof (cases "sv_wl s")
  case (Some f)
  let ?f = "f\<lparr>wl_stack := sv_stack s\<rparr>"
  have "wl_inv ?f" using sv_invD(1) [OF assms(1)] Some by (simp add: tenants_ok_def wayland_inv_def)
  from assms(2) [OF this] have g: "wl_inv (g ?f)" "wl_stack (g ?f) = sv_stack s" by simp_all
  then have "wayland_inv (g ?f) (sv_stack s)" unfolding wayland_inv_def by (simp only: wl_stack_id)
  moreover have "wl_call g s = s\<lparr>sv_wl := Some (g ?f)\<rparr>"
    using g(2) by (simp add: wl_call_def Some Let_def) (simp add: put_stack_def sv_stack_def)
  ultimately show ?thesis
    using assms(1) by (simp add: sv_inv_def tenants_ok_def fbs_ok_def sv_stack_def)
qed (use assms(1) in \<open>simp add: wl_call_def\<close>)

text \<open>Calls that only send events.\<close>

definition tells :: "(world \<Rightarrow> world) \<Rightarrow> bool" where
  "tells g \<longleftrightarrow> (\<forall>w. (x_inv w \<longrightarrow> x_inv (g w)) \<and> stk (g w) = stk w \<and> maps (ker (g w)) = maps (ker w) \<and>
     x_cursor (xp (g w)) = x_cursor (xp w))"

lemma tells_owner [simp]: "tells (send_owner i evf)"
  by (simp add: tells_def x_inv_send_owner)

lemma tells_ops [simp]:
  "tells (transport_pointer_motion cx cy)" "tells (transport_pointer_button b p cx cy)" "tells (transport_keyboard_key i k p)"
  "tells (transport_update_focus i)" "tells (transport_notify_geometry i)"
  by (auto simp: tells_def transport_pointer_motion_def transport_pointer_button_def pointer_event_def transport_keyboard_key_def
      transport_update_focus_def transport_notify_geometry_def x_inv_send_owner x_inv_notify_focus split: option.split)

lemma xp_call_inv:
  assumes "sv_inv s" "tells g" shows "sv_inv (xp_call g s)"
proof (cases "sv_xport s")
  case True
  have g: "x_inv (sv_w s) \<Longrightarrow> x_inv (g (sv_w s))" "stk (g (sv_w s)) = stk (sv_w s)"
      "maps (ker (g (sv_w s))) = maps (ker (sv_w s))" "x_cursor (xp (g (sv_w s))) = x_cursor (xp (sv_w s))"
    using assms(2) by (simp_all add: tells_def)
  have "x_inv (sv_w s)" using sv_invD(1) [OF assms(1)] True by (simp add: tenants_ok_def xport_inv_def sv_stack_def)
  from g(1) [OF this] have "x_inv ((g (sv_w s))\<lparr>stk := stk (sv_w s)\<rparr>)" by (simp add: g(2) [symmetric])
  then show ?thesis
    using assms(1) True g(2-4) by (simp add: xp_call_def sv_inv_def tenants_ok_def fbs_ok_def sv_stack_def xport_inv_def)
qed (use assms(1) in \<open>simp add: xp_call_def\<close>)

section \<open>Input\<close>

lemma wl_events_inv:
  assumes "wl_inv f" "r = R_Motion gx gy \<or> r = R_Button b p \<or> r = R_Key kc p \<or> r = R_Focus i" "wl_step r f = Some f'"
  shows "wl_inv f' \<and> wl_stack f' = wl_stack f"
proof -
  have "wl_ok f r" using assms(2) by auto
  then have "wl_inv f'" using wl_step_inv [OF assms(1)] assms(3) by fastforce
  moreover have "wl_stack f' = wl_stack f"
    using assms(2,3) by (auto simp: wl_frontend_pointer_motion_def wl_frontend_pointer_button_def wl_frontend_keyboard_key_def
        wl_frontend_keyboard_focus_def emit_def Let_def split: option.splits if_splits)
  ultimately show ?thesis ..
qed

lemma wl_tells:
  "wl_inv f \<Longrightarrow> wl_inv (wl_frontend_pointer_motion gx gy f) \<and> wl_stack (wl_frontend_pointer_motion gx gy f) = wl_stack f"
  "wl_inv f \<Longrightarrow> wl_inv (wl_frontend_pointer_button b p f) \<and> wl_stack (wl_frontend_pointer_button b p f) = wl_stack f"
  "wl_inv f \<Longrightarrow> wl_inv (wl_frontend_keyboard_key kc p f) \<and> wl_stack (wl_frontend_keyboard_key kc p f) = wl_stack f"
  "wl_inv f \<Longrightarrow> wl_inv (wl_frontend_keyboard_focus i f) \<and> wl_stack (wl_frontend_keyboard_focus i f) = wl_stack f"
  by (rule wl_events_inv [where r = "R_Motion gx gy"], assumption, blast, simp)
    (rule wl_events_inv [where r = "R_Button b p"], assumption, blast, simp,
     rule wl_events_inv [where r = "R_Key kc p"], assumption, blast, simp,
     rule wl_events_inv [where r = "R_Focus i"], assumption, blast, simp)

lemmas wl_calls_inv = wl_call_inv [OF _ wl_tells(1)] wl_call_inv [OF _ wl_tells(2)] wl_call_inv [OF _ wl_tells(3)]
  wl_call_inv [OF _ wl_tells(4)]

text \<open>Fields of the loop that the invariant does not mention.\<close>

lemma sv_inv_flags [simp]:
  "sv_inv (s\<lparr>sv_dirty := b\<rparr>) = sv_inv s" "sv_inv (s\<lparr>sv_activity := b\<rparr>) = sv_inv s" "sv_inv (s\<lparr>running := b\<rparr>) = sv_inv s"
  "sv_inv (s\<lparr>ctrl_held := b\<rparr>) = sv_inv s" "sv_inv (s\<lparr>alt_held := b\<rparr>) = sv_inv s" "sv_inv (s\<lparr>terminals := n\<rparr>) = sv_inv s"
  "sv_inv (s\<lparr>master := b\<rparr>) = sv_inv s" "sv_inv (s\<lparr>need_modeset := b\<rparr>) = sv_inv s" "sv_inv (s\<lparr>blanked := b\<rparr>) = sv_inv s"
  "sv_inv (s\<lparr>last_activity := i\<rparr>) = sv_inv s" "sv_inv (s\<lparr>seat_active := b\<rparr>) = sv_inv s" "sv_inv (s\<lparr>sv_commits := cs\<rparr>) = sv_inv s"
  "sv_inv (s\<lparr>sv_kms := k\<rparr>) = sv_inv s" "sv_inv (s\<lparr>sv_drm := d\<rparr>) = sv_inv s" "sv_inv (s\<lparr>sv_ctl := c\<rparr>) = sv_inv s"
  by (rule sv_inv_cong; simp)+

lemma sv_inv_fold: "(\<And>x s. sv_inv s \<Longrightarrow> sv_inv (f x s)) \<Longrightarrow> sv_inv s \<Longrightarrow> sv_inv (fold f xs s)"
  by (induction xs arbitrary: s) simp_all

lemma route_inv:
  "sv_inv s \<Longrightarrow> sv_inv (route_motion s)" "sv_inv s \<Longrightarrow> sv_inv (route_button b p s)" "sv_inv s \<Longrightarrow> sv_inv (route_key ev s)"
  by (simp_all add: route_motion_def route_button_def route_key_def Let_def xp_call_inv wl_calls_inv)

lemma on_key_inv:
  assumes "sv_inv s" shows "sv_inv (on_key ev s)"
proof -
  let ?s = "track_modifiers ev s"
  have s1: "sv_inv ?s" using assms by (simp add: track_modifiers_def)
  obtain used st where k: "wm_key (sv_stack ?s) (ie_keysym ev) (ie_pressed ev) (ie_alt_down ev) = (used, st)" by fastforce
  then have "same_px (sv_stack ?s) st" using same_px_cycle by (auto simp: wm_key_def split: if_splits)
  then have "sv_inv (put_stack st ?s)" by (rule put_px_inv [OF s1])
  with s1 k show ?thesis by (simp add: on_key_def Let_def spawn_terminal_def route_inv)
qed

lemma on_input_inv:
  assumes "sv_inv s" shows "sv_inv (on_input ev s)"
proof -
  let ?s = "s\<lparr>sv_activity := True\<rparr>"
  have s1: "sv_inv ?s" using assms by simp
  note wm = wm_call_inv [OF s1, of "Motion (ie_dx ev) (ie_dy ev)"] wm_call_inv [OF s1, of "Motion_Abs (ie_ax ev) (ie_ay ev)"]
    wm_call_inv [OF s1, of "Button (ie_button ev) (ie_pressed ev)"]
  show ?thesis
    using wm s1 by (simp add: on_input_def Let_def route_inv on_key_inv split: input_kind.split)
qed

lemma input_step_inv: "sv_inv s \<Longrightarrow> sv_inv (input_step e s)"
  unfolding input_step_def by (rule sv_inv_fold) (rule on_input_inv)

lemma seat_step_inv: "sv_inv s \<Longrightarrow> sv_inv (seat_step e s)"
  unfolding seat_step_def by (rule sv_inv_fold) simp_all

end
