(* ===== verification/Server_Safe.thy ===== *)
theory Server_Safe
  imports Server_Inv
begin

text \<open>
  Safety of the server as a whole: rounds of the main loop, with clients of both frontends,
  the window manager, mode changes and the compositor all at work on one stack, never
  touch memory that is not theirs.
\<close>

section \<open>What a round is given\<close>

text \<open>A framebuffer of the size asked for is granted, with rows and memory that cover it.\<close>

definition grants :: "fb_answers \<Rightarrow> int \<Rightarrow> int \<Rightarrow> bool" where
  "grants a w h \<longleftrightarrow> an_fb a \<noteq> None \<and> an_offset a \<and> an_mmap a \<and>
     (\<exists>hnd pitch len. an_dumb a = Some (hnd, pitch, len) \<and> 4 dvd uint pitch \<and> 4 * w \<le> uint pitch \<and>
        uint pitch * h \<le> 4 * int (len div 4))"

text \<open>The modes of the panel have a size, and the kernel grants framebuffers for them.\<close>

definition modes_granted :: "round_env \<Rightarrow> bool" where
  "modes_granted e \<longleftrightarrow>
     (\<forall>c cn m d i. dv_connector (rn_dev e) c = Some cn \<and> m \<in> set (dc_modes cn) \<longrightarrow>
        hdisplay m \<noteq> 0 \<and> vdisplay m \<noteq> 0 \<and>
        grants (ma_fbs (rn_mode e d) i) (int (unat (hdisplay m))) (int (unat (vdisplay m))))"

text \<open>
  A window can be drawn as far as its client has a say in it: its rectangle does not
  overflow, and the rows of a committed buffer fit its stride.
\<close>

definition polite :: "window \<Rightarrow> bool" where
  "polite v \<longleftrightarrow> geom_ok v \<and> (\<forall>a. buf v = Some (Mapping a) \<longrightarrow> buf_w v \<le> 0 \<or> 4 * buf_w v \<le> buf_stride v)"

definition hotspot_ok :: "wm \<Rightarrow> cl_cursor \<Rightarrow> bool" where
  "hotspot_ok m c \<longleftrightarrow> origin_fits (cursor_x m - cur_hotspot_x c) \<and> origin_fits (cursor_y m - cur_hotspot_y c)"

definition frame_ok :: "round_env \<Rightarrow> server \<Rightarrow> bool" where
  "frame_ok e s \<longleftrightarrow> (\<forall>v \<in> set (windows (sv_stack s)). mapped v \<longrightarrow> polite v) \<and>
     hotspot_ok (sv_wm s) (x_cursor (xp (sv_w s))) \<and>
     (\<forall>a l. maps (ker (sv_w s)) a = Some l \<longrightarrow> length (rn_mem e a) = l)"

definition xp_ok :: "round_env \<Rightarrow> server \<Rightarrow> bool" where
  "xp_ok e s \<longleftrightarrow> (\<forall>o1 evs. rn_xp e = Some (o1, evs) \<longrightarrow> (\<forall>ev \<in> set evs. sane_event ev) \<and> handles_left (queued evs) (sv_w s))"

definition wl_round_ok :: "round_env \<Rightarrow> server \<Rightarrow> bool" where
  "wl_round_ok e s \<longleftrightarrow> (\<forall>rs f. rn_wl e = Some rs \<and> sv_wl s = Some f \<longrightarrow>
     guarded_run wl_exec wl_good rs (Some (f\<lparr>wl_stack := sv_stack s\<rparr>)) \<and> (\<forall>r \<in> set rs. from_client r))"

text \<open>Each part is asked at the moment it is used: the transport after the input, Wayland after the transport.\<close>

definition after_frame :: "round_env \<Rightarrow> server \<Rightarrow> server option" where
  "after_frame e s = draw_frame e (blank_step e (wake_step e (master_step s)))"

definition round_ok :: "round_env \<Rightarrow> server \<Rightarrow> bool" where
  "round_ok e s \<longleftrightarrow> modes_granted e \<and> frame_ok e s \<and>
     (\<forall>s1. after_frame e s = Some s1 \<longrightarrow> (let s2 = input_step e (seat_step e s1) in xp_ok e s2 \<and> wl_round_ok e (xp_step e s2)))"

section \<open>Drawing\<close>

lemma sint_pos: "0 \<le> int_of_u32 u \<Longrightarrow> int_of_u32 u = int (unat u)"
proof -
  assume a: "0 \<le> int_of_u32 u"
  have u: "0 \<le> uint u" "uint u < 2 ^ 32" using uint_bounded [of u] by simp_all
  have s: "int_of_u32 u = (uint u + 2 ^ 31) mod 2 ^ 32 - 2 ^ 31"
    by (simp add: int_of_u32_def sint_uint signed_take_bit_eq_take_bit_shift take_bit_eq_mod)
  have "uint u < 2 ^ 31"
  proof (rule ccontr)
    assume "\<not> uint u < 2 ^ 31"
    then have "(uint u + 2 ^ 31) mod 2 ^ 32 = uint u - 2 ^ 31"
      using u by (subst mod_pos_geq) simp_all
    with s a u show False by simp
  qed
  then show ?thesis using s u by simp
qed

text \<open>A window that shows a committed mapping is read inside it.\<close>

lemma mapping_readable:
  assumes "committed m a (buf_w v, buf_h v, buf_stride v)" "m a = Some (length bs)" "mem (Mapping a) = Some bs"
    and "buf v = Some (Mapping a)" "buf_w v \<le> 0 \<or> 4 * buf_w v \<le> buf_stride v"
  shows "buf_readable mem v (Mapping a) cy0"
proof (cases "buf_w v \<le> 0")
  case True
  then show ?thesis by (auto simp: buf_readable_def blit_area_def rect_def)
next
  case False
  obtain b where b: "length bs = buffer_len b" "buf_w v = int_of_u32 (b_width b)" "buf_h v = int_of_u32 (b_height b)"
      "buf_stride v = int_of_u32 (b_stride b)"
    using assms(1,2) by (auto simp: committed_def)
  have v: "attach_buffer b a v = v" using b(2-4) assms(4) by (cases v) (simp add: attach_buffer_def)
  have w: "int_of_u32 (b_width b) = int (unat (b_width b))" using False b(2) by (intro sint_pos) simp
  have st: "int_of_u32 (b_stride b) = int (unat (b_stride b))"
    using False assms(5) b(2,4) by (intro sint_pos) simp
  have "int (4 * unat (b_width b)) \<le> int (unat (b_stride b))"
    using False assms(5) unfolding b(2,4) w st by simp
  then have "4 * unat (b_width b) \<le> unat (b_stride b)" by (simp only: of_nat_le_iff)
  moreover have "int (unat (b_stride b)) < int (2 ^ 31)"
    using in_int_int_of_u32 [of "b_stride b"] unfolding st by (simp add: in_int_def)
  then have "unat (b_stride b) < 2 ^ 31" by (simp only: of_nat_less_iff)
  ultimately show ?thesis
    using stride_readable [where v = v and mem = mem, OF assms(3) b(1)] v by simp
qed

lemma content_drawable:
  assumes "wl_inv (f\<lparr>wl_stack := st\<rparr>)" "window_by_id st i = Some v" "buf v = Some (Content c)"
    and "mem (Content c) = contents f c"
  shows "buf_readable mem v (Content c) cy0"
proof -
  obtain bs where bs: "contents f c = Some bs" "0 < buf_w v" "0 < buf_h v" "buf_stride v = 4 * buf_w v"
      "int (length bs) = buf_stride v * buf_h v"
    using wl_content [OF assms(1), of i v c] assms(2,3) by auto
  from content_readable [OF _ bs(2-5)] bs(1) assms(4) show ?thesis by simp
qed

lemma scene_drawable:
  assumes "sv_inv s" "frame_ok e s" "v \<in> set (windows (sv_stack s))" "mapped v"
  shows "drawable (scene_memory e s) v"
proof -
  have pol: "polite v" using assms(2-4) by (simp add: frame_ok_def)
  have id: "window_by_id (sv_stack s) (win_id v) = Some v"
    using sv_invD(6) [OF assms(1)] assms(3) by (simp add: window_by_id_iff)
  have "buf_readable (scene_memory e s) v p cy0" if p: "buf v = Some p" for p cy0
  proof (cases p)
    case (Mapping a)
    have "px (sv_stack s) (win_id v) = Some (Mapping a, buf_w v, buf_h v, buf_stride v)"
      using id p Mapping by (simp add: px_def)
    then have com: "committed (maps (ker (sv_w s))) a (buf_w v, buf_h v, buf_stride v)"
      using sv_invD(1) [OF assms(1)] unfolding tenants_ok_def all_committed_def by blast
    then obtain l where l: "maps (ker (sv_w s)) a = Some l" by (auto simp: committed_def)
    then have len: "maps (ker (sv_w s)) a = Some (length (rn_mem e a))" using assms(2) by (simp add: frame_ok_def)
    have "scene_memory e s (Mapping a) = Some (rn_mem e a)" using l by (simp add: scene_memory_def)
    from mapping_readable [where v = v and a = a and m = "maps (ker (sv_w s))" and bs = "rn_mem e a" and mem = "scene_memory e s", OF com len this] p Mapping pol show ?thesis by (simp add: polite_def)
  next
    case (Content c)
    have cv: "cview (sv_stack s) (win_id v) \<noteq> None" using id p Content by (simp add: cview_def shown_def)
    then obtain f where f: "sv_wl s = Some f"
      using sv_invD(1) [OF assms(1)] by (cases "sv_wl s") (auto simp: tenants_ok_def)
    then have "wl_inv (f\<lparr>wl_stack := sv_stack s\<rparr>)"
      using sv_invD(1) [OF assms(1)] by (simp add: tenants_ok_def wayland_inv_def)
    from content_drawable [where mem = "scene_memory e s", OF this id] p Content f show ?thesis by (simp add: scene_memory_def)
  qed
  then show ?thesis using pol by (simp add: drawable_def polite_def split: option.split)
qed

lemma cursor_drawable:
  assumes "sv_inv s" "frame_ok e s"
  shows "cursor_fits (cursor_x (sv_wm s)) (cursor_y (sv_wm s)) (the_cursor s)"
proof -
  have "origin_fits (cursor_x (sv_wm s))" "origin_fits (cursor_y (sv_wm s))"
    using sv_invD(2,3) [OF assms(1)] by (auto simp: wm_inv_def screen_ok_def origin_fits_def in_int_def)
  moreover note c = sv_invD(4) [OF assms(1)] cursor_ok_area [OF sv_invD(4) [OF assms(1)]]
  ultimately show ?thesis
    using assms(2) c by (simp add: cursor_fits_def the_cursor_def frame_ok_def hotspot_ok_def cursor_ok_def)
qed

lemma draw_frame_inv:
  assumes "sv_inv s" "frame_ok e s"
  shows "\<exists>s'. draw_frame e s = Some s' \<and> sv_inv s' \<and> sv_w s' = sv_w s \<and> sv_wl s' = sv_wl s \<and> sv_xport s' = sv_xport s"
proof (cases "master s \<and> sv_dirty s \<and> \<not> blanked s")
  case True
  let ?b = "1 - front s"
  have b: "?b < length (sv_fbs s)" "fb_good (sv_fbs s ! ?b)" using sv_invD(5) [OF assms(1)] by (auto simp: fbs_ok_def)
  have dr: "\<And>v. v \<in> set (windows (sv_stack s)) \<Longrightarrow> mapped v \<Longrightarrow> drawable (scene_memory e s) v"
    using scene_drawable [OF assms] .
  obtain fb where fb: "composite (scene_memory e s) (sv_wm s) (sv_stack s) (the_cursor s) (sv_fbs s ! ?b) = Some fb"
      "fb_like (sv_fbs s ! ?b) fb"
    using composite_renders [OF b(2) dr cursor_drawable [OF assms]] fb_like_refl [OF b(2)] by (auto simp: draws_def)
  let ?c = "\<lparr>cm_modeset = need_modeset s, cm_fb = Some (fb_id fb), cm_req = frame_request e s (fb_id fb), cm_ok = rn_commit_ok e\<rparr>"
  let ?s = "s\<lparr>sv_fbs := (sv_fbs s)[?b := fb], sv_commits := sv_commits s @ [?c], front := ?b, need_modeset := False, sv_dirty := False\<rparr>"
  have "fb_good fb" using fb(2) by (simp add: fb_like_def)
  then have "\<forall>x \<in> set ((sv_fbs s)[?b := fb]). fb_good x"
    using sv_invD(5) [OF assms(1)] set_update_subset_insert [of "sv_fbs s" ?b fb] by (auto simp: fbs_ok_def)
  then have "sv_inv ?s" using assms(1) by (simp add: sv_inv_def tenants_ok_def fbs_ok_def sv_stack_def)
  moreover have "draw_frame e s = Some ?s" using True fb(1) by (simp add: draw_frame_def Let_def)
  ultimately show ?thesis by simp
next
  case False
  then have "draw_frame e s = Some s" by (auto simp: draw_frame_def)
  with assms(1) show ?thesis by simp
qed

section \<open>The two frontends\<close>

lemma xp_step_inv:
  assumes "sv_inv s" "xp_ok e s" shows "sv_inv (xp_step e s)"
proof (cases "rn_xp e = None \<or> \<not> sv_xport s")
  case True
  with assms(1) show ?thesis by (auto simp: xp_step_def split: option.split)
next
  case False
  then obtain o1 evs where ev: "rn_xp e = Some (o1, evs)" by auto
  obtain d w where t: "transport_process o1 evs (sv_w s) = (d, w)" by fastforce
  have x: "xport_inv (sv_w s) (stk (sv_w s))"
    using sv_invD(1) [OF assms(1)] False by (simp add: tenants_ok_def sv_stack_def)
  have ok: "\<forall>ev \<in> set evs. sane_event ev" "handles_left (0 + queued evs) (sv_w s)" using assms(2) ev by (simp_all add: xp_ok_def)
  have w: "w = snd (transport_process o1 evs (sv_w s))" using t by simp
  note tr = transport_round [OF x ok w]
  have "stack_wf (stk w)" using tr(2) by (simp add: rely_wl_def)
  moreover have "wayland_inv f (stk w)" if "wayland_inv f (sv_stack s)" for f
    using wayland_tenant.stable [OF that] tr(2) by (simp add: sv_stack_def)
  moreover have "cview (stk w) = cview (sv_stack s)" using tr(2) by (simp add: rely_wl_def sv_stack_def)
  moreover have "all_committed (stk w) (maps (ker w))" using tr(1) by (simp add: xport_inv_def)
  ultimately have ten: "tenants_ok (s\<lparr>sv_w := w\<rparr>) (stk w)"
    using sv_invD(1) [OF assms(1)] tr(1) by (simp add: tenants_ok_def split: option.splits)
  have "cursor_ok (x_cursor (xp w))" using cursor_process [OF sv_invD(4) [OF assms(1)], of o1 evs] t by simp
  then have "sv_inv (s\<lparr>sv_w := w\<rparr>)"
    using ten sv_invD(2,3,5) [OF assms(1)] wm_inv_stack [OF sv_invD(2) [OF assms(1)], of "stk w"]
    by (simp add: sv_inv_def fbs_ok_def sv_stack_def tenants_ok_def)
  with False ev t show ?thesis by (simp add: xp_step_def Let_def)
qed

lemma wl_part_inv:
  assumes "sv_inv s" "wl_round_ok e s"
  shows "\<exists>s'. wl_step_all e s = Some s' \<and> sv_inv s'"
proof (cases "rn_wl e = None \<or> sv_wl s = None")
  case True
  then have "wl_step_all e s = Some s" by (auto simp: wl_step_all_def split: option.split)
  with assms(1) show ?thesis by simp
next
  case False
  then obtain rs f where f: "rn_wl e = Some rs" "sv_wl s = Some f" by auto
  let ?f = "f\<lparr>wl_stack := sv_stack s\<rparr>"
  have inv: "wl_inv ?f" using sv_invD(1) [OF assms(1)] f(2) by (simp add: tenants_ok_def wayland_inv_def)
  obtain f1 where f1: "fold wl_exec rs (Some ?f) = Some f1" "wl_inv f1" "rely_x\<^sup>*\<^sup>* (sv_stack s) (wl_stack f1)"
    using wayland_round [OF inv] assms(2) f unfolding wl_round_ok_def by fastforce
  let ?f2 = "f1\<lparr>wl_dirty := False\<rparr>" and ?st = "wl_stack f1"
  have "wl_inv ?f2" using f1(2) by (rule wl_inv_same) (simp add: same_core_def)
  then have wl: "wayland_inv ?f2 ?st" by (simp add: wayland_inv_def wl_stack_id)
  have ten: "stack_wf ?st \<and> all_committed ?st (maps (ker (sv_w s)))"
    using pixels_tenant.stable_star [OF f1(3), of "maps (ker (sv_w s))"] sv_invD(1) [OF assms(1)] by (simp add: tenants_ok_def)
  have "sv_xport s \<Longrightarrow> xport_inv (sv_w s) ?st"
    using xport_tenant.stable_star [OF f1(3), of "sv_w s"] sv_invD(1) [OF assms(1)] by (simp add: tenants_ok_def)
  then have "tenants_ok (s\<lparr>sv_wl := Some ?f2\<rparr>) ?st"
    using ten sv_invD(1) [OF assms(1)] wl by (simp add: tenants_ok_def)
  then have "sv_inv (put_stack ?st (s\<lparr>sv_wl := Some ?f2\<rparr>))"
    using sv_invD(2-5) [OF assms(1)] wm_inv_stack [OF sv_invD(2) [OF assms(1)], of ?st] ten
    by (simp add: sv_inv_def fbs_ok_def tenants_ok_def sv_invD(1)) (simp add: put_stack_def xport_world)
  then show ?thesis using f f1(1) by (simp add: wl_step_all_def wl_frontend_dispatch_def Let_def)
qed

section \<open>Resolution changes\<close>

lemma granted_fb:
  assumes "grants a w h" "0 \<le> w" "w \<le> 65535" "0 \<le> h" "h \<le> 65535"
  shows "\<exists>fb d'. dumb_fb_create a w h d = (0, fb, d') \<and> fb_good fb"
proof -
  obtain hnd pitch len i where a: "an_dumb a = Some (hnd, pitch, len)" "4 dvd uint pitch" "4 * w \<le> uint pitch"
      "uint pitch * h \<le> 4 * int (len div 4)" "an_fb a = Some i" "an_offset a" "an_mmap a"
    using assms(1) by (auto simp: grants_def)
  have "in_int w" "in_int h" using assms(2-5) by (simp_all add: in_int_def)
  with a assms(2,4) show ?thesis by (simp add: dumb_fb_create_def fb_good_def Let_def)
qed

lemma set_mode_listed:
  assumes "kms_set_mode_wh dv b k w h r d = (0, k', d')"
  shows "\<exists>c cn. dv_connector dv c = Some cn \<and> mode k' \<in> set (dc_modes cn)"
proof -
  obtain cn where cn: "dv_connector dv (connector_id k) = Some cn"
    using assms by (auto simp: kms_set_mode_wh_def split: option.splits)
  obtain m diff where best: "best_mode w h r (dc_modes cn) None = Some (m, diff)"
    using assms cn by (auto simp: kms_set_mode_wh_def split: option.splits)
  have "mode k' = m" using assms cn best by (auto simp: kms_set_mode_wh_def create_blob_def split: option.splits)
  with best_mode_spec [where w = w and h = h and r = r and ms = "dc_modes cn"] best cn show ?thesis by auto
qed

lemma same_px_fold: "(\<And>x s. same_px s (f x s)) \<Longrightarrow> same_px s (fold f xs s)"
  by (induction xs arbitrary: s) (auto intro: same_px_trans)

lemma same_px_fit: "same_px s (fit_desktops nw nh s)"
  unfolding fit_desktops_def by (rule same_px_fold) (simp add: cover_screen_def Let_def)

lemma tells_broadcast: "tells (transport_broadcast_screen nw nh)"
proof -
  let ?f = "\<lambda>c w. if 0 \<le> c_fd c \<and> c_hello c then send_to (c_fd c) (Screen \<lparr>sc_w = u32_of_int nw, sc_h = u32_of_int nh\<rparr>) w else w"
  have "(x_inv w \<longrightarrow> x_inv (fold ?f cs w)) \<and> stk (fold ?f cs w) = stk w \<and> maps (ker (fold ?f cs w)) = maps (ker w) \<and>
      xp (fold ?f cs w) = xp w" for cs w
    by (induction cs arbitrary: w) (simp_all add: x_inv_send)
  note f = this
  have "(x_inv w \<longrightarrow> x_inv (transport_broadcast_screen nw nh w)) \<and> stk (transport_broadcast_screen nw nh w) = stk w \<and>
      maps (ker (transport_broadcast_screen nw nh w)) = maps (ker w) \<and>
      x_cursor (xp (transport_broadcast_screen nw nh w)) = x_cursor (xp w)" for w
  proof -
    let ?w = "transport_set_screen nw nh w"
    have "x_inv w \<Longrightarrow> x_inv ?w" by (rule x_inv_trace [of w]) (simp_all add: transport_set_screen_def)
    moreover have "stk ?w = stk w" "maps (ker ?w) = maps (ker w)" "x_cursor (xp ?w) = x_cursor (xp w)"
      by (simp_all add: transport_set_screen_def)
    ultimately show ?thesis using f [of ?w "clients (xp w)"] by (simp add: transport_broadcast_screen_def)
  qed
  then show ?thesis by (simp add: tells_def)
qed

lemma realloc_good:
  assumes "\<And>i. grants (a i) w h" "0 \<le> w" "w \<le> 65535" "0 \<le> h" "h \<le> 65535" "length fbs = 2"
  shows "\<exists>fbs' d'. realloc_fbs [0, 1] a w h fbs d = (True, fbs', d') \<and> length fbs' = 2 \<and> (\<forall>fb \<in> set fbs'. fb_good fb)"
proof -
  obtain x y where fbs: "fbs = [x, y]" using assms(6) by (auto simp: numeral_2_eq_2 length_Suc_conv)
  obtain fb0 d2 where c0: "dumb_fb_create (a 0) w h (snd (dumb_fb_destroy x d)) = (0, fb0, d2)" "fb_good fb0"
    using granted_fb [OF assms(1-5)] by blast
  obtain fb1 d4 where c1: "dumb_fb_create (a 1) w h (snd (dumb_fb_destroy y d2)) = (0, fb1, d4)" "fb_good fb1"
    using granted_fb [OF assms(1-5)] by blast
  show ?thesis unfolding realloc_both fbs using c0 c1 by (simp add: Let_def)
qed

lemma apply_mode_inv:
  assumes "sv_inv s" "modes_granted e"
  shows "sv_inv (snd (apply_mode_cb (rn_dev e) (rn_mode e) w h refresh s))"
proof -
  let ?a = "rn_mode e (sv_drm s)"
  obtain r k d where m: "kms_set_mode_wh (rn_dev e) (ma_blob ?a) (sv_kms s) w h refresh (sv_drm s) = (r, k, d)" using prod_cases3 by blast
  let ?s1 = "s\<lparr>sv_kms := k, sv_drm := d\<rparr>"
  show ?thesis
  proof (cases "r = 0")
    case False
    with assms(1) m show ?thesis by (simp add: apply_mode_cb_def Let_def)
  next
    case True
    let ?w = "int (unat (hdisplay (mode k)))" and ?h = "int (unat (vdisplay (mode k)))"
    have "\<exists>c cn. dv_connector (rn_dev e) c = Some cn \<and> mode k \<in> set (dc_modes cn)" using set_mode_listed m True by blast
    then have g: "hdisplay (mode k) \<noteq> 0" "vdisplay (mode k) \<noteq> 0" "\<And>i. grants (ma_fbs ?a i) ?w ?h"
      using assms(2) unfolding modes_granted_def by blast+
    have size: "0 < ?w" "?w \<le> 65535" "0 < ?h" "?h \<le> 65535"
      using g(1,2) uint_bounded [of "hdisplay (mode k)"] uint_bounded [of "vdisplay (mode k)"]
      by (simp_all only: of_nat_0_less_iff unat_gt_0) simp_all
    obtain fbs d2 where f: "realloc_fbs [0, 1] (ma_fbs ?a) ?w ?h (sv_fbs s) d = (True, fbs, d2)" "length fbs = 2" "\<forall>fb \<in> set fbs. fb_good fb"
      using realloc_good [where a = "ma_fbs ?a" and fbs = "sv_fbs s" and d = d, OF g(3) less_imp_le [OF size(1)] size(2) less_imp_le [OF size(3)] size(4)]
        sv_invD(5) [OF assms(1)] unfolding fbs_ok_def by blast
    let ?m = "clamp_cursor ?w ?h (sv_wm s)"
    let ?s3 = "s\<lparr>sv_kms := k, sv_fbs := fbs, sv_drm := d2, sv_wm := ?m\<rparr>"
    have on: "0 \<le> cursor_x (sv_wm s)" "0 \<le> cursor_y (sv_wm s)" using sv_invD(2) [OF assms(1)] by (auto simp: wm_inv_def)
    have "moving ?m = moving (sv_wm s)" "move_id ?m = move_id (sv_wm s)" by (simp_all add: clamp_cursor_def Let_def)
    then have "wm_inv (?m, sv_stack s)" "screen_ok ?m"
      using sv_invD(2) [OF assms(1)] clamp_cursor_on_screen [OF on size(1,3)] size by (simp_all add: wm_inv_def screen_ok_def)
    then have "sv_inv ?s3"
      using assms(1) f(2,3) by (simp add: sv_inv_def tenants_ok_def fbs_ok_def sv_stack_def)
    then have "sv_inv (put_stack (fit_desktops ?w ?h (sv_stack s)) ?s3)"
      by (rule put_px_inv) (simp add: sv_stack_def same_px_fit)
    then have "sv_inv (xp_call (transport_broadcast_screen ?w ?h) (put_stack (fit_desktops ?w ?h (sv_stack s)) ?s3))"
      using tells_broadcast by (rule xp_call_inv)
    then show ?thesis
      unfolding apply_mode_cb_def Let_def m prod.case using True f(1) by (simp add: sv_stack_def)
  qed
qed

lemma control_inv:
  assumes "sv_inv s" "modes_granted e"
  shows "sv_inv (fst (control_process sv_kms (rn_dev e) (Some (apply_mode_cb (rn_dev e) (rn_mode e))) cs (s, k)))"
  using assms(1)
proof (induction cs arbitrary: s k)
  case (Cons c cs)
  let ?ap = "Some (apply_mode_cb (rn_dev e) (rn_mode e))"
  let ?go = "conn_n c \<ge> int offsetof_output \<and> rq_magic (conn_request c) = GLCTL_MAGIC"
  obtain s1 k1 where a: "(if ?go then control_answer sv_kms (rn_dev e) ?ap (cc_fd c) (conn_request c) (s, k) else (s, k)) = (s1, k1)"
    by (meson surj_pair)
  have "sv_inv s1"
    using a Cons.prems apply_mode_inv [OF Cons.prems assms(2)]
    by (auto simp: control_answer_def Let_def split: if_splits prod.splits) (metis snd_conv)
  from Cons.IH [OF this] a show ?case by (simp add: Let_def)
qed simp

lemma ctl_step_inv:
  assumes "sv_inv s" "modes_granted e" shows "sv_inv (ctl_step e s)"
proof (cases "sv_ctl s")
  case (Some k)
  obtain s1 k1 where c: "control_process sv_kms (rn_dev e) (Some (apply_mode_cb (rn_dev e) (rn_mode e))) (rn_ctl e) (s, k) = (s1, k1)"
    by (meson surj_pair)
  with control_inv [OF assms, of "rn_ctl e" k] Some show ?thesis by (simp add: ctl_step_def)
qed (use assms(1) in \<open>simp add: ctl_step_def\<close>)

section \<open>Rounds\<close>

lemma sync_step_inv:
  assumes "sv_inv s" shows "sv_inv (sync_step s)"
proof -
  let ?s1 = "wl_call (wl_frontend_keyboard_focus (focus_id (sv_stack s))) s"
  let ?s2 = "xp_call (transport_update_focus (focus_id (sv_stack ?s1))) ?s1"
  let ?s3 = "xp_call (transport_notify_geometry (reconfigured_id (sv_wm ?s2))) ?s2"
  have s2: "sv_inv ?s2" by (intro xp_call_inv wl_calls_inv assms) simp_all
  have s3: "sv_inv ?s3" by (rule xp_call_inv [OF s2]) simp
  have "sv_inv (?s3\<lparr>sv_wm := (sv_wm ?s3)\<lparr>reconfigured_id := 0\<rparr>\<rparr>)"
    using s3 by (simp add: sv_inv_def tenants_ok_def wm_inv_def screen_ok_def fbs_ok_def sv_stack_def)
  then show ?thesis using s2 by (simp add: sync_step_def Let_def)
qed

lemma hotplug_step_inv: "sv_inv s \<Longrightarrow> sv_inv (hotplug_step e s)"
  by (simp add: hotplug_step_def)

lemma before_frame:
  assumes "s1 = blank_step e (wake_step e (master_step s))"
  shows "sv_w s1 = sv_w s" "sv_wl s1 = sv_wl s" "sv_wm s1 = sv_wm s" "sv_xport s1 = sv_xport s" "sv_fbs s1 = sv_fbs s" "front s1 = front s"
  unfolding assms by (simp_all add: blank_step_def wake_step_def master_step_def Let_def)

lemma server_round_inv:
  assumes "sv_inv s" "round_ok e s"
  shows "\<exists>s'. server_round e s = Some s' \<and> sv_inv s'"
proof -
  let ?s0 = "blank_step e (wake_step e (master_step s))"
  note same = before_frame [OF refl, of e s]
  have "sv_inv ?s0" using assms(1) sv_inv_cong [OF same(1,4,3,2,5,6)] by simp
  moreover have "frame_ok e ?s0" using assms(2) same by (simp add: round_ok_def frame_ok_def sv_stack_def)
  ultimately obtain s1 where s1: "draw_frame e ?s0 = Some s1" "sv_inv s1" using draw_frame_inv by blast
  let ?s2 = "input_step e (seat_step e s1)"
  have ok: "xp_ok e ?s2" "wl_round_ok e (xp_step e ?s2)" "modes_granted e"
    using assms(2) s1(1) by (simp_all add: round_ok_def after_frame_def Let_def)
  have "sv_inv (xp_step e ?s2)" using s1(2) ok(1) by (intro xp_step_inv input_step_inv seat_step_inv)
  then obtain s3 where s3: "wl_step_all e (xp_step e ?s2) = Some s3" "sv_inv s3" using wl_part_inv ok(2) by blast
  have "sv_inv (sync_step (hotplug_step e (ctl_step e s3)))"
    using s3(2) ok(3) by (intro sync_step_inv hotplug_step_inv ctl_step_inv)
  then show ?thesis using s1 s3(1) by (simp add: server_round_def)
qed

text \<open>Runs of the main loop as a guarded machine; a stopped server stays as it is.\<close>

definition sv_exec :: "round_env \<Rightarrow> server option \<Rightarrow> server option" where
  "sv_exec e x = (case x of None \<Rightarrow> None | Some s \<Rightarrow> if running s then server_round e s else Some s)"

definition sv_good :: "server option \<Rightarrow> round_env \<Rightarrow> bool" where
  "sv_good x e = (case x of None \<Rightarrow> False | Some s \<Rightarrow> running s \<longrightarrow> round_ok e s)"

definition sv_safe :: "server option \<Rightarrow> bool" where
  "sv_safe x = (case x of None \<Rightarrow> False | Some s \<Rightarrow> sv_inv s)"

interpretation sv_machine: guarded_machine sv_exec sv_good sv_safe
proof
  fix x e assume "sv_safe x" "sv_good x e"
  then obtain s where "x = Some s" "sv_inv s" "running s \<Longrightarrow> round_ok e s"
    by (auto simp: sv_safe_def sv_good_def split: option.splits)
  with server_round_inv [of s e] show "sv_safe (sv_exec e x)" by (auto simp: sv_safe_def sv_exec_def)
qed

lemma exec_None: "fold sv_exec es None = None"
  by (induction es) (simp_all add: sv_exec_def)

lemma exec_stopped: "\<not> running s \<Longrightarrow> fold sv_exec es (Some s) = Some s"
  by (induction es) (simp_all add: sv_exec_def)

lemma exec_running: "running s \<Longrightarrow> sv_exec e (Some s) = server_round e s"
  by (simp add: sv_exec_def)

lemma server_loop_exec: "server_loop es s = fold sv_exec es (Some s)"
proof (induction es s rule: server_loop.induct)
  case (2 e es s)
  show ?case
  proof (cases "running s")
    case True
    with 2 show ?thesis by (cases "server_round e s") (simp_all add: exec_running exec_None)
  next
    case False
    have "sv_exec e (Some s) = Some s" using False by (simp add: sv_exec_def)
    with False show ?thesis by (simp add: exec_stopped)
  qed
qed simp

text \<open>What a window points to, and where it lives.\<close>

definition pixels_live :: "server \<Rightarrow> window \<Rightarrow> bool" where
  "pixels_live s v \<longleftrightarrow>
     (case buf v of
        None \<Rightarrow> True
      | Some (Mapping a) \<Rightarrow> maps (ker (sv_w s)) a \<noteq> None
      | Some (Content c) \<Rightarrow> (\<exists>f bs. sv_wl s = Some f \<and> contents f c = Some bs \<and> int (length bs) = buf_stride v * buf_h v))"

lemma sv_inv_pixels:
  assumes "sv_inv s" "v \<in> set (windows (sv_stack s))"
  shows "pixels_live s v"
proof -
  have id: "window_by_id (sv_stack s) (win_id v) = Some v"
    using sv_invD(6) [OF assms(1)] assms(2) by (simp add: window_by_id_iff)
  note ten = sv_invD(1) [OF assms(1)]
  show ?thesis
  proof (cases "buf v")
    case (Some p)
    show ?thesis
    proof (cases p)
      case (Mapping a)
      have "px (sv_stack s) (win_id v) = Some (Mapping a, buf_w v, buf_h v, buf_stride v)"
        using id Some Mapping by (simp add: px_def)
      then have "committed (maps (ker (sv_w s))) a (buf_w v, buf_h v, buf_stride v)"
        using ten unfolding tenants_ok_def all_committed_def by blast
      with Some Mapping show ?thesis by (auto simp: pixels_live_def committed_def)
    next
      case (Content c)
      have "cview (sv_stack s) (win_id v) \<noteq> None" using id Some Content by (simp add: cview_def shown_def)
      then obtain f where f: "sv_wl s = Some f" using ten by (cases "sv_wl s") (auto simp: tenants_ok_def)
      then have "wl_inv (f\<lparr>wl_stack := sv_stack s\<rparr>)" using ten by (simp add: tenants_ok_def wayland_inv_def)
      from wl_content [OF this, of "win_id v" v c] id Some Content f show ?thesis by (auto simp: pixels_live_def)
    qed
  qed (simp add: pixels_live_def)
qed

end
