(* ===== verification/Rendezvous.thy ===== *)
theory Rendezvous
  imports Control_Spec Transport_Spec
begin

text \<open>
  The rendezvous socket of the transport: \<open>transport_listen\<close> and the accessors of
  \<open>src/src/transport.c\<close>, next to the control socket's.
\<close>

definition transport_listen :: "listen_answers \<Rightarrow> bool \<Rightarrow> string option \<Rightarrow> string option \<Rightarrow> string option \<Rightarrow> world \<Rightarrow> int \<times> world" where
  "transport_listen a epoll_ok path override rt w =
     (let resolved = (case path of Some p \<Rightarrow> snprintf_s SUN_PATH_LEN p
                      | None \<Rightarrow> cl_default_socket_path override rt SUN_PATH_LEN)
      in case la_socket a of
           None \<Rightarrow> (-1, w)
         | Some f \<Rightarrow>
             (let k1 = kcall (K_Unlink resolved) (ker w)
              in if \<not> la_bind a \<or> \<not> la_listen a then (-1, w\<lparr>ker := k_close f k1\<rparr>)
                 else let k2 = kcall (K_Epoll_Add f) k1
                 in if \<not> epoll_ok then (-1, w\<lparr>ker := k_close f k2\<rparr>)
                    else (0, w\<lparr>xp := (xp w)\<lparr>x_listen := f, x_path := resolved\<rparr>, ker := k2\<rparr>)))"

definition transport_fd :: "world \<Rightarrow> fd" where
  "transport_fd w = x_epoll (xp w)"

definition transport_socket_path :: "world \<Rightarrow> string" where
  "transport_socket_path w = x_path (xp w)"

definition transport_cursor :: "world \<Rightarrow> cl_cursor" where
  "transport_cursor w = x_cursor (xp w)"

text \<open>
  Listening is all or nothing: if any step fails the socket is closed and the transport is
  as before; if all succeed the path fits the address, is the one clients are told, and
  resolves by the same rule as the clients' own.
\<close>

lemma transport_listen_result:
  assumes "transport_listen a e path override rt w = (r, w')"
  shows "if r = 0
    then la_socket a = Some (x_listen (xp w')) \<and> closed (trace (ker w')) = closed (trace (ker w)) \<and>
      length (transport_socket_path w') < SUN_PATH_LEN \<and>
      (path = None \<longrightarrow> transport_socket_path w' = cl_default_socket_path override rt SUN_PATH_LEN) \<and>
      clients (xp w') = clients (xp w) \<and> stk w' = stk w
    else r = -1 \<and> xp w' = xp w \<and> stk w' = stk w \<and>
      closed (trace (ker w')) = closed (trace (ker w)) @ (case la_socket a of None \<Rightarrow> [] | Some f \<Rightarrow> [f])"
  using assms
  by (auto simp: transport_listen_def cl_default_socket_path_def transport_socket_path_def Let_def snprintf_s_def
      split: option.splits if_splits)

end
