(* ===== verification/Process.thy ===== *)
theory Process
  imports Rendezvous "HOL-Library.Monad_Syntax"
begin

text \<open>
  Processes as \<open>src/src/shell.c\<close> and the child of \<open>spawn_terminal\<close> handle them: fork, exec,
  wait, the environment, standard output. A process is what a program it starts inherits;
  starting one is recorded with the arguments and the state it starts in.
\<close>

section \<open>State\<close>

text \<open>\<open>fdt\<close>: the file each open descriptor refers to, by path.\<close>

record proc =
  pr_env :: "string \<rightharpoonup> string"
  fdt :: "fd \<rightharpoonup> string"
  sigchld_ignored :: bool
  session_leader :: bool

record system =
  sy_self :: proc
  progs :: "(string list \<times> proc) list"
  ticks :: nat
  naps :: nat

text \<open>
  What the machine does: whether a fork at a time succeeds, which programs \<open>execvp\<close> finds,
  which files can be accessed at a time, the descriptor \<open>open\<close> gives for a path, and what
  \<open>waitpid\<close> answers, call by call, for the command started at a time.
\<close>

datatype wait_answer = W_Eintr | W_Error | W_Status "int option"

record machine =
  fork_ok :: "nat \<Rightarrow> bool"
  on_path :: "string \<Rightarrow> bool"
  accessible :: "nat \<Rightarrow> string \<Rightarrow> bool"
  open_log :: "string \<Rightarrow> fd option"
  waits :: "nat \<Rightarrow> wait_answer list"

definition tick :: "system \<Rightarrow> system" where
  "tick s = s\<lparr>ticks := Suc (ticks s)\<rparr>"

definition started :: "string list \<Rightarrow> proc \<Rightarrow> system \<Rightarrow> system" where
  "started argv p s = s\<lparr>progs := progs s @ [(argv, p)]\<rparr>"

text \<open>\<open>execvp\<close> returns only when it fails: false.\<close>

definition execlp :: "machine \<Rightarrow> string list \<Rightarrow> proc \<Rightarrow> system \<Rightarrow> bool \<times> system" where
  "execlp m argv p s = (if on_path m (hd argv) then (True, started argv p s) else (False, s))"

definition setsid :: "proc \<Rightarrow> proc" where
  "setsid p = p\<lparr>session_leader := True\<rparr>"

text \<open>
  Standard output and error into a log file; a descriptor above 2 is closed again, and a
  file that cannot be opened leaves them alone.
\<close>

definition log_output :: "machine \<Rightarrow> string \<Rightarrow> proc \<Rightarrow> proc" where
  "log_output m path p =
     (case open_log m path of
        None \<Rightarrow> p
      | Some f \<Rightarrow>
          (let t = (fdt p)(f \<mapsto> path); t1 = t(1 := t f); t2 = t1(2 := t1 f)
           in p\<lparr>fdt := if f > 2 then t2(f := None) else t2\<rparr>))"

text \<open>\<open>while (waitpid(pid, &status, 0) < 0 && errno == EINTR);\<close> with \<open>status\<close> 0 before it.\<close>

fun wait_loop :: "wait_answer list \<Rightarrow> int option option" where
  "wait_loop [] = None"
| "wait_loop (W_Eintr # ws) = wait_loop ws"
| "wait_loop (W_Error # ws) = Some (Some 0)"
| "wait_loop (W_Status st # ws) = Some st"

definition show_int :: "int \<Rightarrow> string" where
  "show_int i = (if i < 0 then ''-'' @ show_nat (nat (- i)) else show_nat (nat i))"

lemma tick_sel [simp]:
  "sy_self (tick s) = sy_self s" "progs (tick s) = progs s" "ticks (tick s) = Suc (ticks s)" "naps (tick s) = naps s"
  by (simp_all add: tick_def)

lemma started_sel [simp]:
  "sy_self (started a p s) = sy_self s" "progs (started a p s) = progs s @ [(a, p)]" "ticks (started a p s) = ticks s" "naps (started a p s) = naps s"
  by (simp_all add: started_def)

lemma log_output_sel [simp]:
  "pr_env (log_output m path p) = pr_env p" "sigchld_ignored (log_output m path p) = sigchld_ignored p"
  "session_leader (log_output m path p) = session_leader p"
  by (simp_all add: log_output_def Let_def split: option.split)

lemma log_output_std:
  "open_log m path = Some f \<Longrightarrow> 0 \<le> f \<Longrightarrow> fdt (log_output m path p) 1 = Some path \<and> fdt (log_output m path p) 2 = Some path"
  by (auto simp: log_output_def Let_def)

lemma log_output_no_leak:
  "open_log m path = Some f \<Longrightarrow> f > 2 \<Longrightarrow> fdt p f = None \<Longrightarrow> dom (fdt (log_output m path p)) \<subseteq> insert 1 (insert 2 (dom (fdt p)))"
  by (auto simp: log_output_def Let_def split: if_splits)

section \<open>Terminals\<close>

text \<open>The candidates in the order they are tried; \<open>$GLACIER_TERMINAL\<close> goes first.\<close>

definition terminals_tried :: "(string \<rightharpoonup> string) \<Rightarrow> string list" where
  "terminals_tried e =
     (case e ''GLACIER_TERMINAL'' of None \<Rightarrow> [] | Some t \<Rightarrow> if t \<noteq> [] then [t] else []) @
     [''foot'', ''weston-terminal'', ''alacritty'', ''kitty'', ''gnome-terminal'', ''xterm'']"

text \<open>\<open>execlp\<close> after \<open>execlp\<close>, until one does not return.\<close>

fun exec_first :: "machine \<Rightarrow> string list \<Rightarrow> proc \<Rightarrow> system \<Rightarrow> bool \<times> system" where
  "exec_first m [] p s = (False, s)"
| "exec_first m (t # ts) p s = (let (ok, s1) = execlp m [t] p s in if ok then (True, s1) else exec_first m ts p s1)"

definition home_dir :: "(string \<rightharpoonup> string) \<Rightarrow> string" where
  "home_dir e = (case e ''HOME'' of None \<Rightarrow> ''/tmp'' | Some h \<Rightarrow> if h \<noteq> [] then h else ''/tmp'')"

text \<open>The child \<open>spawn_terminal\<close> forks, from \<open>setsid\<close> to its \<open>exec\<close>; \<open>sock\<close> is the Wayland socket.\<close>

definition terminal_child :: "machine \<Rightarrow> string option \<Rightarrow> system \<Rightarrow> bool \<times> system" where
  "terminal_child m sock s =
     (let p = setsid (sy_self s);
          p1 = (case sock of None \<Rightarrow> p | Some d \<Rightarrow> p\<lparr>pr_env := (pr_env p)(''WAYLAND_DISPLAY'' \<mapsto> d)\<rparr>);
          p2 = log_output m (snprintf_s 512 (home_dir (pr_env p1) @ ''/glacier-terminal.log'')) p1
      in exec_first m (terminals_tried (pr_env p2)) p2 (s\<lparr>sy_self := p2\<rparr>))"

lemma exec_first_find:
  "exec_first m ts p s = (case find (on_path m) ts of None \<Rightarrow> (False, s) | Some t \<Rightarrow> (True, started [t] p s))"
  by (induction ts) (simp_all add: execlp_def)

end
