(* ===== verification/Shell.thy ===== *)
theory Shell
  imports Process "HOL-Library.While_Combinator"
begin

text \<open>
  The launcher of the Wine desktop, \<open>src/src/shell.c\<close>: the audio stack and its bounded
  wait, the preparation of the Wine prefix, and the desktop itself. A command that never
  ends leaves the launcher's child waiting: the result is then \<open>None\<close>.
\<close>

section \<open>Commands\<close>

text \<open>\<open>run_wait\<close>: the child runs the command, or exits with 127; the parent waits for it.\<close>

definition run_wait :: "machine \<Rightarrow> string list \<Rightarrow> system \<Rightarrow> (int \<times> system) option" where
  "run_wait m argv s =
     (let s1 = tick s
      in if \<not> fork_ok m (ticks s) then Some (-1, s1)
         else do {
           st \<leftarrow> wait_loop (waits m (ticks s));
           Some (case st of Some code \<Rightarrow> code | None \<Rightarrow> -1, snd (execlp m argv (sy_self s) s1))
         })"

definition getenv :: "string \<Rightarrow> system \<Rightarrow> string option" where
  "getenv x s = pr_env (sy_self s) x"

definition can_access :: "machine \<Rightarrow> string \<Rightarrow> system \<Rightarrow> bool" where
  "can_access m path s = accessible m (ticks s) path"

text \<open>A command whose result is not looked at.\<close>

definition run_cmd :: "machine \<Rightarrow> string list \<Rightarrow> system \<Rightarrow> system option" where
  "run_cmd m argv s = map_option snd (run_wait m argv s)"

section \<open>Preparing the prefix\<close>

definition ensure_wine_prefix :: "machine \<Rightarrow> system \<Rightarrow> system option" where
  "ensure_wine_prefix m s =
     (case getenv ''HOME'' s of
        None \<Rightarrow> Some s
      | Some home \<Rightarrow>
          if can_access m (snprintf_s 512 (home @ ''/.wine/system.reg'')) s then Some s
          else run_cmd m [''wineboot'', ''--init''] s)"

definition ensure_prefix_media :: "machine \<Rightarrow> system \<Rightarrow> system option" where
  "ensure_prefix_media m s =
     (case getenv ''HOME'' s of
        None \<Rightarrow> Some s
      | Some home \<Rightarrow>
          (let media_dir = snprintf_s 512 (home @ ''/.wine/drive_c/windows/Media'');
               probe = snprintf_s 600 (media_dir @ ''/ding.wav'')
           in if can_access m probe s then Some s
              else run_cmd m [''python3'', ''/usr/lib/yetios/gen-media.py'', media_dir] s))"

text \<open>The preferences file to import: glacier's, else the older one, if it can be read.\<close>

definition prefs_file :: "machine \<Rightarrow> system \<Rightarrow> string option" where
  "prefs_file m s =
     (case getenv ''HOME'' s of
        None \<Rightarrow> None
      | Some home \<Rightarrow>
          (let p0 = snprintf_s 512 (home @ ''/.glacier_prefs.reg'');
               p1 = (if \<not> can_access m p0 s then snprintf_s 512 (home @ ''/.frostedglass_prefs.reg'') else p0)
           in if can_access m p1 s then Some p1 else None))"

definition reg_add_cmd :: "string list" where
  "reg_add_cmd = [''wine'', ''reg'', ''add'', ''HKCU'' @ CHR 0x5c # ''Software'' @ CHR 0x5c # ''Wine'' @ CHR 0x5c # ''Drivers'', ''/v'', ''Graphics'', ''/t'', ''REG_SZ'', ''/d'', ''drm'', ''/f'']"

definition configure_registry :: "machine \<Rightarrow> system \<Rightarrow> system option" where
  "configure_registry m s = do {
     s1 \<leftarrow> run_cmd m reg_add_cmd s;
     s2 \<leftarrow> (case prefs_file m s1 of
              None \<Rightarrow> Some s1
            | Some p \<Rightarrow> run_cmd m [''wine'', ''regedit'', ''/s'', p] s1);
     run_cmd m [''wineserver'', ''--kill''] s2
   }"

section \<open>Audio\<close>

text \<open>A daemon is forked and not waited for. The result is whether there is a child.\<close>

definition spawn_daemon :: "machine \<Rightarrow> string \<Rightarrow> string \<Rightarrow> system \<Rightarrow> bool \<times> system" where
  "spawn_daemon m bin logpath s =
     (let s1 = tick s
      in if \<not> fork_ok m (ticks s) then (False, s1)
         else (True, snd (execlp m [bin] (log_output m logpath (setsid (sy_self s))) s1)))"

text \<open>The wait for PipeWire's socket: at most 60 looks, 50 ms apart.\<close>

definition audio_wait :: "machine \<Rightarrow> string \<Rightarrow> system \<Rightarrow> (nat \<times> bool \<times> system) option" where
  "audio_wait m sock s =
     while_option (\<lambda>(i, ready, s). i < 60 \<and> \<not> ready)
       (\<lambda>(i, ready, s). if can_access m sock s then (Suc i, True, s) else (Suc i, False, (tick s)\<lparr>naps := Suc (naps s)\<rparr>))
       (0, False, s)"

definition shell_start_audio :: "machine \<Rightarrow> system \<Rightarrow> system option" where
  "shell_start_audio m s =
     (let rt = (case getenv ''XDG_RUNTIME_DIR'' s of None \<Rightarrow> ''/tmp'' | Some d \<Rightarrow> d);
          base = home_dir (pr_env (sy_self s));
          sock = snprintf_s 512 (rt @ ''/pipewire-0'');
          log = (\<lambda>name. snprintf_s 512 (base @ ''/glacier-'' @ name @ ''.log''))
      in if can_access m sock s then Some s
         else let (ok, s1) = spawn_daemon m ''pipewire'' (log ''pipewire'') s
         in if \<not> ok then Some s1
            else do {
              (i, ready, s2) \<leftarrow> audio_wait m sock s1;
              if \<not> ready then Some s2
              else let s3 = snd (spawn_daemon m ''wireplumber'' (log ''wireplumber'') s2)
                   in Some (snd (spawn_daemon m ''pipewire-pulse'' (log ''pipewire-pulse'') s3))
            })"

section \<open>The desktop\<close>

definition CL_SOCKET_ENV :: string where [simp]: "CL_SOCKET_ENV = ''GLACIER_SOCKET''"

text \<open>The child's surroundings, from \<open>setsid\<close> to the redirection of its output.\<close>

definition child_setup :: "machine \<Rightarrow> string option \<Rightarrow> proc \<Rightarrow> proc" where
  "child_setup m cl_socket_path p0 =
     (let p = (setsid p0)\<lparr>sigchld_ignored := False\<rparr>;
          e = (case cl_socket_path of
                 None \<Rightarrow> pr_env p
               | Some path \<Rightarrow> if path \<noteq> [] then (pr_env p)(CL_SOCKET_ENV \<mapsto> path) else pr_env p);
          p1 = p\<lparr>pr_env := e(''WAYLAND_DISPLAY'' := None, ''DISPLAY'' := None)\<rparr>
      in log_output m (snprintf_s 512 (home_dir (pr_env p1) @ ''/glacier-wine.log'')) p1)"

definition desktop_arg :: "int \<Rightarrow> int \<Rightarrow> string" where
  "desktop_arg w h = snprintf_s 64 (''/desktop=shell,'' @ show_int w @ ''x'' @ show_int h)"

text \<open>The end of the child: the wallpaper as a sibling, then itself the explorer. \<open>execlp\<close> false: exit 127.\<close>

definition launch_desktop :: "machine \<Rightarrow> int \<Rightarrow> int \<Rightarrow> system \<Rightarrow> bool \<times> system" where
  "launch_desktop m w h s =
     (let s1 = tick s;
          s2 = (if fork_ok m (ticks s) then snd (execlp m [''wine'', ''desktop.exe''] (setsid (sy_self s)) s1) else s1)
      in execlp m [''wine'', ''explorer'', desktop_arg w h] (sy_self s2) s2)"

definition shell_child :: "machine \<Rightarrow> int \<Rightarrow> int \<Rightarrow> string option \<Rightarrow> system \<Rightarrow> (bool \<times> system) option" where
  "shell_child m w h path s0 = do {
     let s = s0\<lparr>sy_self := child_setup m path (sy_self s0)\<rparr>;
     s1 \<leftarrow> ensure_wine_prefix m s;
     s2 \<leftarrow> ensure_prefix_media m s1;
     s3 \<leftarrow> configure_registry m s2;
     Some (launch_desktop m w h s3)
   }"

text \<open>\<open>shell_launch\<close>: the server's side, and the child if there is one.\<close>

definition shell_launch :: "machine \<Rightarrow> int \<Rightarrow> int \<Rightarrow> string option \<Rightarrow> system \<Rightarrow> system \<times> (bool \<times> system) option option" where
  "shell_launch m w h path s =
     (let s1 = tick s
      in if \<not> fork_ok m (ticks s) then (s1, None) else (s1, Some (shell_child m w h path s1)))"

section \<open>The wait for audio ends\<close>

text \<open>The socket as the loop sees it: at look \<open>j\<close> it has slept \<open>j\<close> times.\<close>

definition napped :: "nat \<Rightarrow> system \<Rightarrow> system" where
  "napped j s = s\<lparr>ticks := ticks s + j, naps := naps s + j\<rparr>"

definition appears :: "machine \<Rightarrow> string \<Rightarrow> system \<Rightarrow> nat \<Rightarrow> bool" where
  "appears m sock s j \<longleftrightarrow> accessible m (ticks s + j) sock"

lemma nap_step: "(tick (napped j s))\<lparr>naps := Suc (naps (napped j s))\<rparr> = napped (Suc j) s"
  by (simp add: tick_def napped_def)

lemma napped_0 [simp]: "napped 0 s = s"
  by (simp add: napped_def)

lemma audio_wait_from:
  assumes "j \<le> 60" "\<forall>k < j. \<not> appears m sock s k"
  shows "while_option (\<lambda>(i, ready, s). i < 60 \<and> \<not> ready)
       (\<lambda>(i, ready, s). if can_access m sock s then (Suc i, True, s) else (Suc i, False, (tick s)\<lparr>naps := Suc (naps s)\<rparr>))
       (j, False, napped j s) =
     (if \<exists>k < 60. appears m sock s k
      then (let k = (LEAST k. appears m sock s k) in Some (Suc k, True, napped k s))
      else Some (60, False, napped 60 s))"
    (is "while_option ?b ?c _ = _")
  using assms
proof (induction "60 - j" arbitrary: j)
  case 0
  then have "j = 60" by simp
  with 0 show ?case by (auto simp: while_option_unfold)
next
  case (Suc n)
  then have j: "j < 60" by simp
  show ?case
  proof (cases "appears m sock s j")
    case True
    then have "(LEAST k. appears m sock s k) = j"
      using Suc.prems(2) by (intro Least_equality) (auto simp: not_less [symmetric])
    moreover have "\<exists>k < 60. appears m sock s k" using True j by blast
    moreover have "can_access m sock (napped j s)" using True by (simp add: can_access_def appears_def napped_def)
    ultimately show ?thesis
      using j by (subst while_option_unfold) (simp add: while_option_unfold [of _ _ "(Suc j, True, _)"] Let_def)
  next
    case False
    then have next': "\<forall>k < Suc j. \<not> appears m sock s k" using Suc.prems(2) less_Suc_eq by auto
    have "\<not> can_access m sock (napped j s)" using False by (simp add: can_access_def appears_def napped_def)
    then have "while_option ?b ?c (j, False, napped j s) = while_option ?b ?c (Suc j, False, napped (Suc j) s)"
      using j by (subst while_option_unfold) (simp add: nap_step)
    with Suc.hyps(1) [of "Suc j"] Suc.hyps(2) j next' show ?thesis by simp
  qed
qed

lemma audio_wait_result:
  "audio_wait m sock s =
     (if \<exists>k < 60. appears m sock s k
      then (let k = (LEAST k. appears m sock s k) in Some (Suc k, True, napped k s))
      else Some (60, False, napped 60 s))"
  using audio_wait_from [of 0 m sock s] by (simp add: audio_wait_def)

end
