(* ===== verification/Shell_Spec.thy ===== *)
theory Shell_Spec
  imports Shell
begin

text \<open>
  What the launcher promises: the wait for audio ends, the shell's programs come up in the
  right order, and they find the server that launched them.
\<close>

section \<open>Commands in order\<close>

text \<open>A machine on which forks work, programs are installed and commands end.\<close>

definition healthy :: "machine \<Rightarrow> bool" where
  "healthy m \<longleftrightarrow> (\<forall>n. fork_ok m n) \<and> (\<forall>p. on_path m p) \<and> (\<forall>n. wait_loop (waits m n) \<noteq> None)"

text \<open>What was started since, by a process that did not change.\<close>

definition started_by :: "system \<Rightarrow> (string list \<times> proc) list \<Rightarrow> system \<Rightarrow> bool" where
  "started_by s ps s' \<longleftrightarrow> progs s' = progs s @ ps \<and> sy_self s' = sy_self s"

lemma started_by_trans: "started_by s ps s' \<Longrightarrow> started_by s' qs s'' \<Longrightarrow> started_by s (ps @ qs) s''"
  by (simp add: started_by_def)

lemma started_by_refl [simp]: "started_by s [] s"
  by (simp add: started_by_def)

lemma run_cmd_started:
  "run_cmd m argv s = Some s' \<Longrightarrow> \<exists>ps. started_by s ps s' \<and> set ps \<subseteq> {(argv, sy_self s)}"
  by (auto simp: run_cmd_def run_wait_def execlp_def started_by_def Let_def split: if_splits bind_splits)

lemma run_cmd_healthy:
  assumes "healthy m"
  shows "\<exists>s'. run_cmd m argv s = Some s' \<and> started_by s [(argv, sy_self s)] s'"
proof -
  have "wait_loop (waits m (ticks s)) \<noteq> None" using assms by (simp add: healthy_def)
  then obtain st where "wait_loop (waits m (ticks s)) = Some st" by blast
  with assms show ?thesis by (simp add: run_cmd_def run_wait_def execlp_def started_by_def healthy_def Let_def)
qed

text \<open>The commands each step runs, when it needs any.\<close>

definition prefix_cmds :: "machine \<Rightarrow> system \<Rightarrow> string list list" where
  "prefix_cmds m s =
     (case getenv ''HOME'' s of
        None \<Rightarrow> []
      | Some home \<Rightarrow> if can_access m (snprintf_s 512 (home @ ''/.wine/system.reg'')) s then [] else [[''wineboot'', ''--init'']])"

definition media_cmds :: "machine \<Rightarrow> system \<Rightarrow> string list list" where
  "media_cmds m s =
     (case getenv ''HOME'' s of
        None \<Rightarrow> []
      | Some home \<Rightarrow>
          (let dir = snprintf_s 512 (home @ ''/.wine/drive_c/windows/Media'')
           in if can_access m (snprintf_s 600 (dir @ ''/ding.wav'')) s then []
              else [[''python3'', ''/usr/lib/yetios/gen-media.py'', dir]]))"

definition prefs_cmds :: "machine \<Rightarrow> system \<Rightarrow> string list list" where
  "prefs_cmds m s = (case prefs_file m s of None \<Rightarrow> [] | Some p \<Rightarrow> [[''wine'', ''regedit'', ''/s'', p]])"

text \<open>All programs run with the state of the child, the wallpaper in a session of its own.\<close>

definition started_as :: "proc \<Rightarrow> string list list \<Rightarrow> system \<Rightarrow> system \<Rightarrow> bool" where
  "started_as q cmds s s' \<longleftrightarrow> started_by s (map (\<lambda>a. (a, q)) cmds) s'"

lemma ensure_wine_prefix_healthy:
  "healthy m \<Longrightarrow> \<exists>s'. ensure_wine_prefix m s = Some s' \<and> started_as (sy_self s) (prefix_cmds m s) s s'"
  using run_cmd_healthy [of m "[''wineboot'', ''--init'']" s]
  by (auto simp: ensure_wine_prefix_def prefix_cmds_def started_as_def split: option.split)

lemma ensure_prefix_media_healthy:
  "healthy m \<Longrightarrow> \<exists>s'. ensure_prefix_media m s = Some s' \<and> started_as (sy_self s) (media_cmds m s) s s'"
  using run_cmd_healthy [of m _ s]
  by (auto simp: ensure_prefix_media_def media_cmds_def started_as_def Let_def split: option.split)

lemma started_as_trans: "started_as q as s s' \<Longrightarrow> started_as q bs s' s'' \<Longrightarrow> started_as q (as @ bs) s s''"
  by (simp add: started_as_def started_by_def)

lemma started_as_self: "started_as q as s s' \<Longrightarrow> sy_self s' = sy_self s"
  by (simp add: started_as_def started_by_def)

lemma run_cmd_as: "healthy m \<Longrightarrow> \<exists>s'. run_cmd m argv s = Some s' \<and> started_as (sy_self s) [argv] s s'"
  using run_cmd_healthy [of m argv s] by (auto simp: started_as_def)

lemma configure_registry_healthy:
  assumes "healthy m"
  shows "\<exists>s' pr. configure_registry m s = Some s' \<and> (\<exists>s1. pr = prefs_cmds m s1 \<and> sy_self s1 = sy_self s) \<and>
    started_as (sy_self s) ([reg_add_cmd] @ pr @ [[''wineserver'', ''--kill'']]) s s'"
proof -
  obtain s1 where s1: "run_cmd m reg_add_cmd s = Some s1" "started_as (sy_self s) [reg_add_cmd] s s1"
    using run_cmd_as [OF assms] by blast
  note self1 = started_as_self [OF s1(2)]
  have "\<exists>s2. (case prefs_file m s1 of None \<Rightarrow> Some s1 | Some p \<Rightarrow> run_cmd m [''wine'', ''regedit'', ''/s'', p] s1) = Some s2 \<and>
      started_as (sy_self s) (prefs_cmds m s1) s1 s2"
  proof (cases "prefs_file m s1")
    case None
    then show ?thesis by (simp add: prefs_cmds_def started_as_def)
  next
    case (Some p)
    with run_cmd_as [OF assms, of "[''wine'', ''regedit'', ''/s'', p]" s1] self1 show ?thesis by (simp add: prefs_cmds_def)
  qed
  then obtain s2 where s2: "(case prefs_file m s1 of None \<Rightarrow> Some s1 | Some p \<Rightarrow> run_cmd m [''wine'', ''regedit'', ''/s'', p] s1) = Some s2"
      "started_as (sy_self s) (prefs_cmds m s1) s1 s2" by blast
  obtain s3 where s3: "run_cmd m [''wineserver'', ''--kill''] s2 = Some s3" "started_as (sy_self s) [[''wineserver'', ''--kill'']] s2 s3"
    using run_cmd_as [OF assms, of _ s2] started_as_self [OF s2(2)] self1 by auto
  have "configure_registry m s = Some s3" using s1(1) s2(1) s3(1) by (simp add: configure_registry_def)
  moreover have "started_as (sy_self s) ([reg_add_cmd] @ prefs_cmds m s1 @ [[''wineserver'', ''--kill'']]) s s3"
    using s1(2) s2(2) s3(2) by (blast intro: started_as_trans)
  ultimately show ?thesis using self1 by blast
qed

section \<open>What every program inherits\<close>

definition inherits :: "system \<Rightarrow> system \<Rightarrow> bool" where
  "inherits s s' \<longleftrightarrow> sy_self s' = sy_self s \<and> (\<exists>ps. progs s' = progs s @ ps \<and> (\<forall>x \<in> set ps. snd x = sy_self s))"

lemma inherits_refl [simp]: "inherits s s"
  by (simp add: inherits_def)

lemma inherits_trans: "inherits s s' \<Longrightarrow> inherits s' s'' \<Longrightarrow> inherits s s''"
  by (auto simp: inherits_def)

lemma inherits_run: "run_cmd m argv s = Some s' \<Longrightarrow> inherits s s'"
  using run_cmd_started [of m argv s s'] by (fastforce simp: inherits_def started_by_def)

lemma inherits_steps:
  "ensure_wine_prefix m s = Some s' \<Longrightarrow> inherits s s'"
  "ensure_prefix_media m s = Some s' \<Longrightarrow> inherits s s'"
  by (auto simp: ensure_wine_prefix_def ensure_prefix_media_def Let_def inherits_run split: option.splits if_splits)

lemma inherits_registry:
  assumes "configure_registry m s = Some s'" shows "inherits s s'"
proof -
  obtain s1 s2 where s: "run_cmd m reg_add_cmd s = Some s1" "run_cmd m [''wineserver'', ''--kill''] s2 = Some s'"
      "(case prefs_file m s1 of None \<Rightarrow> Some s1 | Some p \<Rightarrow> run_cmd m [''wine'', ''regedit'', ''/s'', p] s1) = Some s2"
    using assms by (auto simp: configure_registry_def split: bind_splits)
  have "inherits s1 s2" using s(3) by (auto simp: inherits_run split: option.splits)
  with s(1,2) show ?thesis using inherits_run inherits_trans by blast
qed

text \<open>Every program of the child runs as the child, the wallpaper in its own session (the child already is a leader).\<close>

lemma child_progs:
  assumes "shell_child m w h path s0 = Some (ok, s)" "(argv, p) \<in> set (progs s)"
  shows "(argv, p) \<in> set (progs s0) \<or> p = child_setup m path (sy_self s0)"
proof -
  let ?q = "child_setup m path (sy_self s0)"
  let ?s = "s0\<lparr>sy_self := ?q\<rparr>"
  obtain s1 s2 s3 where s: "ensure_wine_prefix m ?s = Some s1" "ensure_prefix_media m s1 = Some s2" "configure_registry m s2 = Some s3"
      "launch_desktop m w h s3 = (ok, s)"
    using assms(1) by (auto simp: shell_child_def Let_def split: bind_splits)
  have "inherits ?s s3" using s(1-3) inherits_steps inherits_registry inherits_trans by meson
  then have i: "sy_self s3 = ?q" "(argv, p) \<in> set (progs s3) \<Longrightarrow> (argv, p) \<in> set (progs s0) \<or> p = ?q"
    by (fastforce simp: inherits_def)+
  have "setsid ?q = ?q" by (simp add: child_setup_def setsid_def log_output_def Let_def split: option.split)
  with i s(4) assms(2) show ?thesis by (auto simp: launch_desktop_def execlp_def Let_def split: if_splits)
qed

lemma child_setup_env:
  "pr_env (child_setup m path p) =
     (case path of None \<Rightarrow> pr_env p | Some x \<Rightarrow> if x \<noteq> [] then (pr_env p)(CL_SOCKET_ENV \<mapsto> x) else pr_env p)
       (''WAYLAND_DISPLAY'' := None, ''DISPLAY'' := None)"
  "\<not> sigchld_ignored (child_setup m path p)" "session_leader (child_setup m path p)"
  by (simp_all add: child_setup_def setsid_def Let_def split: option.split)

text \<open>A server that listens by itself has a path that is not empty.\<close>

lemma c_str_ne: "c_str x \<noteq> [] \<longleftrightarrow> x \<noteq> [] \<and> hd x \<noteq> CHR 0x00"
  by (cases x) (simp_all add: c_str_def)

lemma snprintf_ne: "1 < n \<Longrightarrow> c_str s \<noteq> [] \<Longrightarrow> snprintf_s n s \<noteq> []"
  by (simp add: snprintf_s_def)

lemma c_str_append_ne: "c_str x \<noteq> [] \<Longrightarrow> c_str (c_str x @ y) \<noteq> []"
  using c_str_no_nul [of x] by (cases "c_str x") (auto simp: c_str_ne)

lemma default_path_ne: "1 < n \<Longrightarrow> cl_default_socket_path override rt n \<noteq> []"
proof -
  have "c_str (''/tmp/'' @ CL_SOCKET_NAME) \<noteq> []" by (simp add: c_str_ne)
  then show "1 < n \<Longrightarrow> ?thesis"
    using snprintf_ne [of n] c_str_append_ne by (auto simp: cl_default_socket_path_def simp del: CL_SOCKET_NAME_def split: option.split)
qed

lemma listening_path:
  assumes "transport_listen a e None override rt w = (0, w')"
  shows "transport_socket_path w' \<noteq> []" "length (transport_socket_path w') < SUN_PATH_LEN"
    "CHR 0x00 \<notin> set (transport_socket_path w')"
proof -
  have p: "transport_socket_path w' = cl_default_socket_path override rt SUN_PATH_LEN" "length (transport_socket_path w') < SUN_PATH_LEN"
    using transport_listen_result [OF assms] unfolding if_P [OF refl] by blast+
  show "length (transport_socket_path w') < SUN_PATH_LEN" by (rule p(2))
  show "transport_socket_path w' \<noteq> []" unfolding p(1) by (rule default_path_ne) simp
  show "CHR 0x00 \<notin> set (transport_socket_path w')"
    unfolding p(1) cl_default_socket_path_def using snprintf_s_no_nul by (simp split: option.split)
qed

definition demo_machine :: machine where
  "demo_machine = \<lparr>fork_ok = (\<lambda>_. True), on_path = (\<lambda>_. True), accessible = (\<lambda>n _. 3 < n), open_log = (\<lambda>_. Some 9),
     waits = (\<lambda>_. [W_Eintr, W_Status (Some 0)])\<rparr>"

definition demo_proc :: proc where
  "demo_proc = \<lparr>pr_env = [''HOME'' \<mapsto> ''/h'', ''DISPLAY'' \<mapsto> '':0''], fdt = Map.empty, sigchld_ignored = True, session_leader = False\<rparr>"

definition demo_system :: system where
  "demo_system = \<lparr>sy_self = demo_proc, progs = [], ticks = 0, naps = 0\<rparr>"

lemma demo_healthy: "healthy demo_machine"
  by (simp add: healthy_def demo_machine_def)

section \<open>The order of things\<close>

lemma launch_desktop_healthy:
  assumes "healthy m"
  shows "\<exists>s'. launch_desktop m w h s = (True, s') \<and>
    progs s' = progs s @ [([''wine'', ''desktop.exe''], setsid (sy_self s)), ([''wine'', ''explorer'', desktop_arg w h], sy_self s)]"
  using assms by (simp add: launch_desktop_def execlp_def healthy_def Let_def)

lemma shell_comes_up:
  assumes "healthy m"
  shows "\<exists>s s1 s2 s3. shell_child m w h path s0 = Some (True, s) \<and>
    map fst (progs s) = map fst (progs s0) @ prefix_cmds m s1 @ media_cmds m s2 @ [reg_add_cmd] @ prefs_cmds m s3 @
      [[''wineserver'', ''--kill''], [''wine'', ''desktop.exe''], [''wine'', ''explorer'', desktop_arg w h]] \<and>
    (\<forall>t \<in> {s1, s2, s3}. pr_env (sy_self t) = pr_env (child_setup m path (sy_self s0)))"
proof -
  let ?q = "child_setup m path (sy_self s0)"
  let ?s = "s0\<lparr>sy_self := ?q\<rparr>"
  obtain s1 where s1: "ensure_wine_prefix m ?s = Some s1" "started_as ?q (prefix_cmds m ?s) ?s s1"
    using ensure_wine_prefix_healthy [OF assms, of ?s] by auto
  then have q1: "sy_self s1 = ?q" using started_as_self by fastforce
  obtain s2 where s2: "ensure_prefix_media m s1 = Some s2" "started_as ?q (media_cmds m s1) s1 s2"
    using ensure_prefix_media_healthy [OF assms, of s1] q1 by auto
  then have q2: "sy_self s2 = ?q" using started_as_self q1 by fastforce
  obtain s3 t where s3: "configure_registry m s2 = Some s3" "sy_self t = ?q"
      "started_as ?q ([reg_add_cmd] @ prefs_cmds m t @ [[''wineserver'', ''--kill'']]) s2 s3"
    using configure_registry_healthy [OF assms, of s2] q2 by auto
  obtain s4 where s4: "launch_desktop m w h s3 = (True, s4)"
      "map fst (progs s4) = map fst (progs s3) @ [[''wine'', ''desktop.exe''], [''wine'', ''explorer'', desktop_arg w h]]"
    using launch_desktop_healthy [OF assms, of w h s3] by auto
  have "shell_child m w h path s0 = Some (True, s4)" using s1(1) s2(1) s3(1) s4(1) by (simp add: shell_child_def Let_def)
  moreover have "map fst (progs s3) = map fst (progs s0) @ prefix_cmds m ?s @ media_cmds m s1 @ [reg_add_cmd] @ prefs_cmds m t @ [[''wineserver'', ''--kill'']]"
    using s1(2) s2(2) s3(3) by (simp add: started_as_def started_by_def comp_def)
  ultimately show ?thesis
    using s4(2) q1 s3(2) by (intro exI [of _ s4] exI [of _ ?s] exI [of _ s1] exI [of _ t]) simp
qed

text \<open>
  C25: On a machine whose forks work, whose programs are installed and whose commands end, the
  launcher brings the desktop up, in this order: the Wine prefix and its sounds, if they are
  missing; the graphics driver; the user's preferences, if there are any; the registry
  flushed; and only then the wallpaper and, as the last, the explorer of the screen's size,
  which the child itself becomes.
\<close>

theorem shell_brings_up_desktop:
  assumes "healthy m"
  shows "\<exists>s s1 s2 s3. shell_child m w h path s0 = Some (True, s) \<and>
    map fst (progs s) = map fst (progs s0) @ prefix_cmds m s1 @ media_cmds m s2 @ [reg_add_cmd] @ prefs_cmds m s3 @
      [[''wineserver'', ''--kill''], [''wine'', ''desktop.exe''], [''wine'', ''explorer'', desktop_arg w h]] \<and>
    (\<forall>t \<in> {s1, s2, s3}. pr_env (sy_self t) = pr_env (child_setup m path (sy_self s0)))"
  using assms by (rule shell_comes_up)

text \<open>With the file system above, all but the preferences are missing at first.\<close>

theorem shell_brings_up_desktop_witness:
  "\<exists>s. shell_child demo_machine 800 600 None demo_system = Some (True, s) \<and>
     (\<exists>xs. map fst (progs s) = xs @ [[''wine'', ''explorer'', desktop_arg 800 600]])"
  using shell_brings_up_desktop [OF demo_healthy, of 800 600 None demo_system] by force

section \<open>The desktop finds its server\<close>

text \<open>
  C15: The desktop finds its server: every program the launcher starts, the wine commands that
  prepare the prefix included, resolves by the rule of the clients to the path the server
  listens on, whatever the server's own environment said; no \<open>DISPLAY\<close> or
  \<open>WAYLAND_DISPLAY\<close> lures it elsewhere, every other variable is the server's, and it can
  wait for its own children, which the server itself cannot.
\<close>

theorem shell_meets_server:
  assumes "transport_listen a e None override rt w = (0, w')"
    and "shell_child m wd ht (Some (transport_socket_path w')) s0 = Some (ok, s)" "progs s0 = []" "(argv, p) \<in> set (progs s)"
  shows "cl_default_socket_path (pr_env p CL_SOCKET_ENV) (pr_env p ''XDG_RUNTIME_DIR'') SUN_PATH_LEN = transport_socket_path w' \<and>
    pr_env p ''DISPLAY'' = None \<and> pr_env p ''WAYLAND_DISPLAY'' = None \<and>
    (\<forall>x. x \<in> - {CL_SOCKET_ENV, ''DISPLAY'', ''WAYLAND_DISPLAY''} \<longrightarrow> pr_env p x = pr_env (sy_self s0) x) \<and>
    \<not> sigchld_ignored p"
proof -
  note path = listening_path [OF assms(1)]
  have p: "p = child_setup m (Some (transport_socket_path w')) (sy_self s0)"
    using child_progs [OF assms(2,4)] assms(3) by simp
  have "snprintf_s SUN_PATH_LEN (transport_socket_path w') = transport_socket_path w'"
    using path(2,3) by (rule snprintf_s_short [rotated])
  then show ?thesis
    using path by (simp add: p child_setup_env cl_default_socket_path_def c_str_id)
qed

definition shell_world :: world where
  "shell_world = \<lparr>xp = \<lparr>x_sw = 2, x_sh = 1, x_epoll = 3, x_listen = -1, x_path = [], clients = [], orphans = [],
     focused_server_id = 0, next_token = 0, x_cursor = no_cursor\<rparr>, stk = window_stack_init,
     ker = \<lparr>maps = Map.empty, next_map = 0, trace = []\<rparr>\<rparr>"

lemma shell_explorer:
  assumes "healthy m"
  shows "\<exists>s p. shell_child m w h path s0 = Some (True, s) \<and> ([''wine'', ''explorer'', desktop_arg w h], p) \<in> set (progs s)"
proof -
  obtain s xs where s: "shell_child m w h path s0 = Some (True, s)" "map fst (progs s) = xs @ [[''wine'', ''explorer'', desktop_arg w h]]"
    using shell_comes_up [OF assms, of w h path s0] by (metis append.assoc append_Cons append_Nil)
  then have "[''wine'', ''explorer'', desktop_arg w h] \<in> set (map fst (progs s))" by (simp only: set_append list.set) blast
  then obtain p where "([''wine'', ''explorer'', desktop_arg w h], p) \<in> set (progs s)" by (auto simp only: set_map image_iff)
      (metis prod.collapse)
  with s(1) show ?thesis by blast
qed

theorem shell_meets_server_witness:
  "\<exists>w' s p. transport_listen \<lparr>la_socket = Some 4, la_bind = True, la_listen = True\<rparr> True None None (Some ''/run'') shell_world = (0, w') \<and>
     shell_child demo_machine 800 600 (Some (transport_socket_path w')) demo_system = Some (True, s) \<and>
     ([''wine'', ''explorer'', desktop_arg 800 600], p) \<in> set (progs s) \<and>
     cl_default_socket_path (pr_env p CL_SOCKET_ENV) (pr_env p ''XDG_RUNTIME_DIR'') SUN_PATH_LEN = transport_socket_path w'"
proof -
  let ?a = "\<lparr>la_socket = Some 4, la_bind = True, la_listen = True\<rparr>"
  obtain w' where w': "transport_listen ?a True None None (Some ''/run'') shell_world = (0, w')"
    by (simp add: transport_listen_def shell_world_def Let_def)
  obtain s p where s: "shell_child demo_machine 800 600 (Some (transport_socket_path w')) demo_system = Some (True, s)"
      and p: "([''wine'', ''explorer'', desktop_arg 800 600], p) \<in> set (progs s)"
    using shell_explorer [OF demo_healthy] by blast
  have "progs demo_system = []" by (simp add: demo_system_def)
  from shell_meets_server [OF w' s this p] have "cl_default_socket_path (pr_env p CL_SOCKET_ENV) (pr_env p ''XDG_RUNTIME_DIR'') SUN_PATH_LEN =
      transport_socket_path w'" by blast
  with w' s p show ?thesis by blast
qed

section \<open>Audio\<close>

lemma spawn_daemon_self: "sy_self (snd (spawn_daemon m b l s)) = sy_self s" "naps (snd (spawn_daemon m b l s)) = naps s"
  by (simp_all add: spawn_daemon_def execlp_def Let_def)

lemma spawn_daemon_progs:
  "map fst (progs (snd (spawn_daemon m b l s))) = map fst (progs s) @ (if fork_ok m (ticks s) \<and> on_path m b then [[b]] else [])"
  "fst (spawn_daemon m b l s) = fork_ok m (ticks s)" "ticks (snd (spawn_daemon m b l s)) = Suc (ticks s)"
  by (simp_all add: spawn_daemon_def execlp_def Let_def)

definition pipewire_socket :: "system \<Rightarrow> string" where
  "pipewire_socket s = snprintf_s 512 ((case getenv ''XDG_RUNTIME_DIR'' s of None \<Rightarrow> ''/tmp'' | Some d \<Rightarrow> d) @ ''/pipewire-0'')"

abbreviation audio_log :: "system \<Rightarrow> string \<Rightarrow> string" where
  "audio_log s name \<equiv> snprintf_s 512 (home_dir (pr_env (sy_self s)) @ ''/glacier-'' @ name @ ''.log'')"

abbreviation pipewire_started :: "machine \<Rightarrow> system \<Rightarrow> system" where
  "pipewire_started m s \<equiv> snd (spawn_daemon m ''pipewire'' (audio_log s ''pipewire'') s)"

lemma start_audio_steps:
  assumes "\<not> can_access m (pipewire_socket s) s"
  shows "shell_start_audio m s =
    (if \<not> fork_ok m (ticks s) then Some (pipewire_started m s)
     else do {
       (i, ready, s2) \<leftarrow> audio_wait m (pipewire_socket s) (pipewire_started m s);
       if \<not> ready then Some s2
       else let s3 = snd (spawn_daemon m ''wireplumber'' (audio_log s ''wireplumber'') s2)
            in Some (snd (spawn_daemon m ''pipewire-pulse'' (audio_log s ''pipewire-pulse'') s3))
     })"
proof (cases "spawn_daemon m ''pipewire'' (audio_log s ''pipewire'') s")
  case (Pair ok s1)
  with spawn_daemon_progs(2) [of m "''pipewire''" "audio_log s ''pipewire''" s] have "ok = fork_ok m (ticks s)" by simp
  with Pair assms show ?thesis unfolding shell_start_audio_def pipewire_socket_def Let_def by simp
qed

lemma appears_started: "appears m sock (pipewire_started m s) = appears m sock (tick s)"
  by (simp add: appears_def fun_eq_iff spawn_daemon_progs)

lemma audio_timeout:
  assumes "\<not> can_access m (pipewire_socket s) s" "fork_ok m (ticks s)" "\<not> (\<exists>k < 60. appears m (pipewire_socket s) (tick s) k)"
  shows "shell_start_audio m s = Some (napped 60 (pipewire_started m s))"
  using assms unfolding start_audio_steps [OF assms(1)] audio_wait_result appears_started if_not_P [OF assms(3)] by simp

lemma audio_comes_up:
  fixes m s
  defines "n \<equiv> LEAST k. appears m (pipewire_socket s) (tick s) k"
  assumes "\<not> can_access m (pipewire_socket s) s" "fork_ok m (ticks s)" "\<exists>k < 60. appears m (pipewire_socket s) (tick s) k"
  shows "\<exists>s'. shell_start_audio m s = Some s' \<and> naps s' = naps s + n \<and> sy_self s' = sy_self s \<and> n < 60 \<and>
    map fst (progs s') = map fst (progs (pipewire_started m s)) @
      (if fork_ok m (Suc (ticks s) + n) \<and> on_path m ''wireplumber'' then [[''wireplumber'']] else []) @
      (if fork_ok m (Suc (Suc (ticks s)) + n) \<and> on_path m ''pipewire-pulse'' then [[''pipewire-pulse'']] else [])"
proof -
  let ?s3 = "snd (spawn_daemon m ''wireplumber'' (audio_log s ''wireplumber'') (napped n (pipewire_started m s)))"
  have "shell_start_audio m s = Some (snd (spawn_daemon m ''pipewire-pulse'' (audio_log s ''pipewire-pulse'') ?s3))"
    using assms(3) unfolding start_audio_steps [OF assms(2)] audio_wait_result appears_started if_P [OF assms(4)]
    by (simp add: n_def Let_def)
  moreover have "n < 60" using assms(4) unfolding n_def by (meson LeastI_ex Least_le le_less_trans)
  ultimately show ?thesis by (simp add: spawn_daemon_self spawn_daemon_progs napped_def)
qed

lemma shell_start_audio_returns: "\<exists>s'. shell_start_audio m s = Some s'"
  by (cases "can_access m (pipewire_socket s) s"; cases "\<exists>k < 60. appears m (pipewire_socket s) (tick s) k"; cases "fork_ok m (ticks s)")
    (use audio_timeout [of m s] audio_comes_up [of m s] in \<open>auto simp: start_audio_steps\<close>,
     simp_all add: shell_start_audio_def pipewire_socket_def Let_def)

text \<open>
  C20: Bringing up audio always ends, so it cannot keep the server from coming up: it sleeps at
  most 60 times 50 ms. If PipeWire runs already nothing is started; else PipeWire is, and
  the session manager and the PulseAudio shim exactly if its socket appears at one of the
  60 looks, after as many naps as looks before.
\<close>

theorem shell_start_audio_ends:
  "\<exists>s'. shell_start_audio m s = Some s' \<and> naps s' \<le> naps s + 60 \<and> sy_self s' = sy_self s \<and>
    (let sock = pipewire_socket s; up = (\<exists>k < 60. appears m sock (tick s) k); n = (LEAST k. appears m sock (tick s) k)
     in if can_access m sock s then s' = s
        else if \<not> fork_ok m (ticks s) then progs s' = progs s \<and> naps s' = naps s
        else naps s' = naps s + (if up then n else 60) \<and>
          map fst (progs s') = map fst (progs s) @ filter (\<lambda>a. on_path m (hd a)) ([''pipewire''] #
            (if up then (if fork_ok m (Suc (ticks s) + n) then [[''wireplumber'']] else []) @
                        (if fork_ok m (Suc (Suc (ticks s)) + n) then [[''pipewire-pulse'']] else []) else [])))"
proof -
  let ?sock = "pipewire_socket s" and ?log = "audio_log s ''pipewire''"
  note d = spawn_daemon_self [of m "''pipewire''" ?log s] spawn_daemon_progs [of m "''pipewire''" ?log s]
  consider (running) "can_access m ?sock s" | (no_fork) "\<not> can_access m ?sock s" "\<not> fork_ok m (ticks s)"
    | (silent) "\<not> can_access m ?sock s" "fork_ok m (ticks s)" "\<not> (\<exists>k < 60. appears m ?sock (tick s) k)"
    | (up) "\<not> can_access m ?sock s" "fork_ok m (ticks s)" "\<exists>k < 60. appears m ?sock (tick s) k"
    by blast
  then show ?thesis
  proof cases
    case running
    then show ?thesis by (simp add: shell_start_audio_def pipewire_socket_def Let_def)
  next
    case no_fork
    then have "progs (pipewire_started m s) = progs s" by (simp add: spawn_daemon_def Let_def)
    with no_fork start_audio_steps [OF no_fork(1)] d show ?thesis by (simp add: Let_def)
  next
    case silent
    with audio_timeout [OF silent] d show ?thesis unfolding Let_def if_not_P [OF silent(3)] by (simp add: napped_def)
  next
    case up
    with audio_comes_up [OF up] d show ?thesis by (auto simp: Let_def)
  qed
qed

section \<open>Signals of daemons and terminals\<close>

text \<open>
  Unlike the launcher's child, daemons and terminals are started with SIGCHLD still ignored,
  as the server has it: an ignored signal stays ignored across \<open>exec\<close>.
\<close>

lemma daemon_keeps_sigchld:
  assumes "x \<in> set (progs (snd (spawn_daemon m b l s)))" "x \<notin> set (progs s)"
  shows "sigchld_ignored (snd x) = sigchld_ignored (sy_self s)"
  using assms by (auto simp: spawn_daemon_def execlp_def setsid_def Let_def split: if_splits)

text \<open>
  Ctrl+Alt+T: the terminal started is the first one installed, \<open>$GLACIER_TERMINAL\<close> first;
  it is pointed at the server's own Wayland socket and has a session of its own, and it is
  started with SIGCHLD still ignored.
\<close>

theorem terminal_first_installed:
  "let e = (case sock of None \<Rightarrow> pr_env (sy_self s) | Some d \<Rightarrow> (pr_env (sy_self s))(''WAYLAND_DISPLAY'' \<mapsto> d));
       (ok, s') = terminal_child m sock s
   in case find (on_path m) (terminals_tried e) of
        None \<Rightarrow> \<not> ok \<and> progs s' = progs s
      | Some t \<Rightarrow> ok \<and> (\<exists>p. progs s' = progs s @ [([t], p)] \<and> pr_env p = e \<and> session_leader p \<and>
          sigchld_ignored p = sigchld_ignored (sy_self s))"
  by (cases sock; cases "find (on_path m) (terminals_tried (case sock of None \<Rightarrow> pr_env (sy_self s) | Some d \<Rightarrow> (pr_env (sy_self s))(''WAYLAND_DISPLAY'' \<mapsto> d)))")
    (auto simp: terminal_child_def exec_first_find setsid_def Let_def)

end
