(* ===== verification/Server_Boot.thy ===== *)
theory Server_Boot
  imports Server_Safe Shell_Spec
begin

text \<open>
  \<open>server_run\<close> between the display and the main loop: the window stack, the window manager,
  the transport, the Wine shell, the Wayland frontend and the control socket, each but the
  first two best-effort; and what the loop then starts from.
\<close>

section \<open>Starting the components\<close>

text \<open>
  What the start meets: the environment and the machine the launched programs run on, what
  the kernel answers to the set-up of each socket, how the creation of the Wayland frontend
  goes, the memory \<open>struct wm\<close> is in, and the clock.
\<close>

record boot_env =
  bo_env :: "string \<rightharpoonup> string"
  bo_machine :: machine
  bo_fdt :: "fd \<rightharpoonup> string"
  bo_epoll :: fd
  bo_listen :: listen_answers
  bo_epoll_ok :: bool
  bo_os :: os
  bo_display :: bool
  bo_shm :: bool
  bo_wl_socket :: bool
  bo_xkb :: "bool \<times> bool \<times> bool"
  bo_memfd :: "fd option"
  bo_memfd_write :: bool
  bo_globals :: bool
  bo_ctl :: bool
  bo_ctl_listen :: listen_answers
  bo_wm :: wm
  bo_seat :: bool
  bo_now :: int

definition first_stack :: "boot_env \<Rightarrow> int \<Rightarrow> int \<Rightarrow> window_stack" where
  "first_stack b w h =
     (let want_shell = (bo_env b ''GLACIER_NO_SHELL'' = None)
      in if \<not> want_shell then seed_windows w h window_stack_init else window_stack_init)"

text \<open>The transport, or none: one that cannot listen is destroyed again.\<close>

definition no_kernel :: "'m kern" where
  "no_kernel = \<lparr>maps = Map.empty, next_map = 0, trace = []\<rparr>"

definition no_transport :: transport where
  "no_transport = \<lparr>x_sw = 0, x_sh = 0, x_epoll = -1, x_listen = -1, x_path = [],
     clients = replicate CL_MAX_CLIENTS no_client, orphans = replicate CL_MAX_CLIENTS no_orphan,
     focused_server_id = 0, next_token = 0, x_cursor = no_cursor\<rparr>"

definition start_transport :: "boot_env \<Rightarrow> int \<Rightarrow> int \<Rightarrow> window_stack \<Rightarrow> bool \<times> world" where
  "start_transport b w h st =
     (case transport_create w h (bo_epoll b) of
        None \<Rightarrow> (False, \<lparr>xp = no_transport, stk = st, ker = no_kernel\<rparr>)
      | Some x \<Rightarrow>
          (let (r, w1) = transport_listen (bo_listen b) (bo_epoll_ok b) None (bo_env b ''GLACIER_SOCKET'') (bo_env b ''XDG_RUNTIME_DIR'')
                 \<lparr>xp = x, stk = st, ker = no_kernel\<rparr>
           in if r \<noteq> 0 then (False, transport_destroy (bo_os b) w1) else (True, w1)))"

text \<open>The server as the process that starts programs; \<open>signal(SIGCHLD, SIG_IGN)\<close> came first.\<close>

definition server_system :: "boot_env \<Rightarrow> system" where
  "server_system b = \<lparr>sy_self = \<lparr>pr_env = bo_env b, fdt = bo_fdt b, sigchld_ignored = True, session_leader = False\<rparr>,
     progs = [], ticks = 0, naps = 0\<rparr>"

text \<open>The shell is launched only into a transport that listens; the child is the last component.\<close>

definition start_shell :: "boot_env \<Rightarrow> int \<Rightarrow> int \<Rightarrow> bool \<times> world \<Rightarrow> (system \<times> (bool \<times> system) option option) option" where
  "start_shell b w h xw =
     (let want_shell = (bo_env b ''GLACIER_NO_SHELL'' = None)
      in if \<not> want_shell then Some (server_system b, None)
         else do {
           s \<leftarrow> shell_start_audio (bo_machine b) (server_system b);
           Some (if fst xw then shell_launch (bo_machine b) w h (Some (transport_socket_path (snd xw))) s else (s, None))
         })"

definition start_wayland :: "boot_env \<Rightarrow> window_stack \<Rightarrow> fd list \<times> wl_frontend option" where
  "start_wayland b st =
     (let (ctx_ok, map_ok, str_ok) = bo_xkb b
      in wl_frontend_create (bo_display b) (bo_shm b) (bo_wl_socket b)
           (build_keymap ctx_ok map_ok str_ok (bo_memfd b) (bo_memfd_write b)) (bo_globals b) st)"

definition start_control :: "boot_env \<Rightarrow> glctl_reply kern option" where
  "start_control b =
     (case control_create (bo_ctl b) of
        None \<Rightarrow> None
      | Some c \<Rightarrow>
          (let (r, c1, k1) = control_listen (bo_ctl_listen b) None (bo_env b ''GLACIER_CTL_SOCKET'') (bo_env b ''XDG_RUNTIME_DIR'') c no_kernel
           in if r \<noteq> 0 then None else Some k1))"

text \<open>The loop's first state, with the programs the server started and the shell's child.\<close>

definition server_boot :: "boot_env \<Rightarrow> kms \<Rightarrow> dumb_fb list \<Rightarrow> drm \<Rightarrow> (server \<times> system \<times> (bool \<times> system) option option) option" where
  "server_boot b k fbs d =
     (let w = int (unat (hdisplay (mode k))); h = int (unat (vdisplay (mode k)));
          st = first_stack b w h; m = wm_init (bo_wm b) w h;
          xw = start_transport b w h st
      in do {
        (sys, child) \<leftarrow> start_shell b w h xw;
        let wl = snd (start_wayland b st);
        Some (\<lparr>sv_w = snd xw, sv_xport = fst xw, sv_wm = m, sv_wl = wl, sv_ctl = start_control b,
                sv_kms = k, sv_fbs = fbs, sv_drm = d, sv_commits = [], seat_active = bo_seat b,
                sv_dirty = True, sv_activity = False, ctrl_held = False, alt_held = False, running = True, terminals = 0,
                master = False, need_modeset = False, front = 0, last_activity = bo_now b, blanked = False\<rparr>, sys, child)
      })"

section \<open>The first stack\<close>

lemma px_init: "px window_stack_init = (\<lambda>_. None)"
  by (simp add: px_def window_stack_init_def window_by_id_def window_index_def fun_eq_iff)

lemma init_room: "\<not> ids_exhausted window_stack_init"
  by (simp add: ids_exhausted_def window_stack_init_def)

lemma few_room: "next_id s = 2 \<Longrightarrow> \<not> ids_exhausted s" "next_id s = 3 \<Longrightarrow> \<not> ids_exhausted s"
  by (simp_all add: ids_exhausted_def)

lemma seeded_bare: "stack_wf (seed_windows w h window_stack_init) \<and> px (seed_windows w h window_stack_init) = (\<lambda>_. None)"
proof -
  obtain i1 s1 where s1: "window_create window_stack_init WIN_DESKTOP 0 0 w h 0x00204060 (Some ''desktop'') = (i1, s1)" by fastforce
  obtain i2 s2 where s2: "window_create s1 WIN_NORMAL (w sdiv 6) (h sdiv 6) 520 360 0x00d8d8d8 (Some ''Window A'') = (i2, s2)" by fastforce
  obtain i3 s3 where s3: "window_create s2 WIN_NORMAL (w sdiv 3) (h sdiv 3) 480 320 0x00eeeeee (Some ''Window B'') = (i3, s3)" by fastforce
  have seed: "seed_windows w h window_stack_init = window_focus s3 i3" by (simp add: seed_windows_def s1 s2 s3 Let_def)
  have n: "next_id s1 = 2" "next_id s2 = 3"
    using s1 s2 by (auto simp: window_create_def window_stack_init_def Let_def)
  have wf1: "stack_wf s1" using stack_wf_create [OF stack_wf_init] s1 by (metis snd_conv init_room)
  have wf2: "stack_wf s2" using stack_wf_create [OF wf1] s2 n by (metis snd_conv few_room(1))
  have wf3: "stack_wf s3" using stack_wf_create [OF wf2] s3 n by (metis snd_conv few_room(2))
  have "px s3 = (\<lambda>_. None)" using px_create [OF stack_wf_init s1] px_create [OF wf1 s2] px_create [OF wf2 s3] px_init by simp
  then show ?thesis using wf3 same_px_ops(2) [of s3 i3] by (simp add: seed same_px_def stack_wf_focus)
qed

section \<open>The invariant holds at the start\<close>

lemma bare_stack:
  assumes "stack_wf s" "px s = (\<lambda>_. None)"
  shows "cview s = (\<lambda>_. None)" "no_mappings s"
proof -
  have none: "buf v = None" if v: "v \<in> set (windows s)" for v
  proof -
    have "window_by_id s (win_id v) = Some v" using assms(1) v by (simp add: window_by_id_iff)
    with fun_cong [OF assms(2), of "win_id v"] show ?thesis by (cases "buf v") (simp_all add: px_def)
  qed
  show "no_mappings s" using none by (simp add: no_mappings_def list_all_iff)
  show "cview s = (\<lambda>_. None)"
    using px_cview [of s window_stack_init] assms(2) px_init by (simp add: cview_def fun_eq_iff window_stack_init_def window_by_id_def window_index_def)
qed

lemma first_stack_bare: "stack_wf (first_stack b w h) \<and> px (first_stack b w h) = (\<lambda>_. None)"
  using seeded_bare [of w h] stack_wf_init px_init by (simp add: first_stack_def)

text \<open>A transport with no clients yet has nothing to drop or reap.\<close>

lemma destroy_empty:
  assumes "clients (xp w) = replicate CL_MAX_CLIENTS no_client" "orphans (xp w) = replicate CL_MAX_CLIENTS no_orphan"
  shows "stk (transport_destroy e w) = stk w" "maps (ker (transport_destroy e w)) = maps (ker w)"
    "x_cursor (xp (transport_destroy e w)) = x_cursor (xp w)"
proof -
  have "fold (drop_live e) is w = w" if "set is \<subseteq> {0..<16}" for "is"
    using that by (induction "is") (simp_all add: drop_live_def assms no_client_def)
  moreover have "fold reap_parked is w = w" if "set is \<subseteq> {0..<16}" for "is"
    using that by (induction "is") (simp_all add: reap_parked_def assms no_orphan_def)
  ultimately have "fold (drop_live e) [0..<CL_MAX_CLIENTS] w = w" "fold reap_parked [0..<CL_MAX_CLIENTS] w = w"
    by (simp_all del: upt_rec_numeral)
  then show "stk (transport_destroy e w) = stk w" "maps (ker (transport_destroy e w)) = maps (ker w)"
    "x_cursor (xp (transport_destroy e w)) = x_cursor (xp w)"
    by (simp_all add: transport_destroy_def Let_def del: upt_rec_numeral CL_MAX_CLIENTS_def)
qed

lemma listen_keeps:
  assumes "transport_listen a e path ov rt w = (r, w')"
  shows "stk w' = stk w" "maps (ker w') = maps (ker w)" "clients (xp w') = clients (xp w)" "orphans (xp w') = orphans (xp w)"
    "x_cursor (xp w') = x_cursor (xp w)"
  using assms by (auto simp: transport_listen_def Let_def split: option.splits if_splits)

lemma transport_start_inv:
  assumes "stack_wf st" "px st = (\<lambda>_. None)" "start_transport b w h st = (up, wd)"
  shows "stk wd = st" "maps (ker wd) = Map.empty" "cursor_ok (x_cursor (xp wd))" "up \<Longrightarrow> xport_inv wd st"
proof -
  have "stk wd = st \<and> maps (ker wd) = Map.empty \<and> cursor_ok (x_cursor (xp wd)) \<and> (up \<longrightarrow> xport_inv wd st)"
  proof (cases "transport_create w h (bo_epoll b)")
    case None
    with assms(3) show ?thesis by (auto simp: start_transport_def no_kernel_def no_transport_def cursor_ok_initial)
  next
    case (Some x)
    let ?w0 = "\<lparr>xp = x, stk = st, ker = no_kernel\<rparr>"
    have x: "clients x = replicate CL_MAX_CLIENTS no_client" "orphans x = replicate CL_MAX_CLIENTS no_orphan" "x_cursor x = no_cursor"
      using Some by (auto simp: transport_create_def split: if_splits)
    obtain r w1 where l: "transport_listen (bo_listen b) (bo_epoll_ok b) None (bo_env b ''GLACIER_SOCKET'') (bo_env b ''XDG_RUNTIME_DIR'') ?w0 = (r, w1)"
      by fastforce
    note keep = listen_keeps [OF l, simplified]
    have inv0: "x_inv ?w0"
      using x_inv_init [OF Some assms(1) bare_stack(2) [OF assms(1,2)], of no_kernel] by (simp add: no_kernel_def)
    have "next_map (ker w1) = next_map no_kernel"
      using l by (auto simp: transport_listen_def Let_def no_kernel_def split: option.splits if_splits)
    then have "x_inv w1" using keep by (intro x_inv_trace [OF inv0]) simp_all
    moreover have "w1\<lparr>stk := st\<rparr> = w1" using keep(1) by simp
    ultimately have "xport_inv w1 st" by (simp add: xport_inv_def all_committed_def assms(2))
    then show ?thesis
      using assms(3) Some l keep x destroy_empty [of w1 "bo_os b"] cursor_ok_initial
      by (auto simp: start_transport_def Let_def no_kernel_def split: if_splits)
  qed
  then show "stk wd = st" "maps (ker wd) = Map.empty" "cursor_ok (x_cursor (xp wd))" "up \<Longrightarrow> xport_inv wd st" by blast+
qed

lemma wayland_start_inv:
  assumes "stack_wf st" "px st = (\<lambda>_. None)" "start_wayland b st = (cl, Some f)"
  shows "wayland_inv f st"
proof -
  have z: "wl_inv (wl_zero st)" using wl_inv_zero assms(1) bare_stack(1) [OF assms(1,2)] by blast
  have "same_core (wl_zero st) f"
    using assms(3) by (auto simp: start_wayland_def wl_frontend_create_def build_keymap_def same_core_def Let_def split: if_splits option.splits prod.splits)
  moreover from this have "f\<lparr>wl_stack := st\<rparr> = f" by (intro wl_stack_id) (simp add: same_core_def wl_zero_def)
  ultimately show ?thesis using wl_inv_same [OF z] by (simp add: wayland_inv_def)
qed

lemma wm_start_inv:
  assumes "stack_wf st" "0 < w" "w \<le> 65535" "0 < h" "h \<le> 65535"
  shows "wm_inv (wm_init m w h, st)" "screen_ok (wm_init m w h)"
  using assms int_div_less_self [of w 2] int_div_less_self [of h 2] by (simp_all add: wm_inv_def wm_init_def screen_ok_def sdiv_2)

lemma boot_inv:
  assumes "server_boot b k fbs d = Some (s, sys, child)" "length fbs = 2" "\<forall>fb \<in> set fbs. fb_good fb"
    and "hdisplay (mode k) \<noteq> 0" "vdisplay (mode k) \<noteq> 0"
  shows "sv_inv s"
proof -
  let ?w = "int (unat (hdisplay (mode k)))" and ?h = "int (unat (vdisplay (mode k)))"
  let ?st = "first_stack b ?w ?h"
  obtain up wd where t: "start_transport b ?w ?h ?st = (up, wd)" by fastforce
  obtain cl wl where f: "start_wayland b ?st = (cl, wl)" by fastforce
  have s: "sv_w s = wd" "sv_xport s = up" "sv_wm s = wm_init (bo_wm b) ?w ?h" "sv_wl s = wl" "sv_fbs s = fbs" "front s = 0"
    using assms(1) t f by (auto simp: server_boot_def Let_def split: bind_splits)
  note bare = conjunct1 [OF first_stack_bare [of b ?w ?h]] conjunct2 [OF first_stack_bare [of b ?w ?h]]
  note tr = transport_start_inv [OF bare t]
  have size: "0 < ?w" "?w \<le> 65535" "0 < ?h" "?h \<le> 65535"
    using assms(4,5) uint_bounded [of "hdisplay (mode k)"] uint_bounded [of "vdisplay (mode k)"]
    by (simp_all only: of_nat_0_less_iff unat_gt_0) simp_all
  note wm = wm_start_inv [OF bare(1) size, of "bo_wm b"]
  have "all_committed ?st (maps (ker wd))" using bare(2) by (simp add: all_committed_def)
  then have "tenants_ok s ?st"
    using s tr bare bare_stack(1) [OF bare] wayland_start_inv [OF bare, of b cl] f unfolding tenants_ok_def
    by (auto split: option.split)
  then show ?thesis using s tr wm assms(2,3) by (simp add: sv_inv_def fbs_ok_def sv_stack_def)
qed

lemma boot_returns: "\<exists>s sys child. server_boot b k fbs d = Some (s, sys, child)"
proof -
  let ?w = "int (unat (hdisplay (mode k)))" and ?h = "int (unat (vdisplay (mode k)))"
  obtain a where "shell_start_audio (bo_machine b) (server_system b) = Some a" using shell_start_audio_returns by blast
  then have "start_shell b ?w ?h (start_transport b ?w ?h (first_stack b ?w ?h)) \<noteq> None" by (simp add: start_shell_def)
  then obtain x where "start_shell b ?w ?h (start_transport b ?w ?h (first_stack b ?w ?h)) = Some x" by blast
  then show ?thesis by (cases x) (simp add: server_boot_def Let_def)
qed

text \<open>The display as \<open>display_start\<close> leaves it, where the kernel grants memory for the frames.\<close>

definition panel_granted :: "kms \<Rightarrow> fb_answers \<Rightarrow> fb_answers \<Rightarrow> bool" where
  "panel_granted k a0 a1 \<longleftrightarrow> hdisplay (mode k) \<noteq> 0 \<and> vdisplay (mode k) \<noteq> 0 \<and>
     grants a0 (int (unat (hdisplay (mode k)))) (int (unat (vdisplay (mode k)))) \<and>
     grants a1 (int (unat (hdisplay (mode k)))) (int (unat (vdisplay (mode k))))"

lemma display_good:
  assumes "display_start dv ok blob a0 a1 d0 = Some (Some (k, fbs), d)" "panel_granted k a0 a1"
  shows "length fbs = 2 \<and> (\<forall>fb \<in> set fbs. fb_good fb)"
proof -
  let ?w = "int (unat (hdisplay (mode k)))" and ?h = "int (unat (vdisplay (mode k)))"
  have size: "0 \<le> ?w" "?w \<le> 65535" "0 \<le> ?h" "?h \<le> 65535"
    using uint_bounded [of "hdisplay (mode k)"] uint_bounded [of "vdisplay (mode k)"] by simp_all
  obtain d1 where d1: "create_fbs [a0, a1] ?w ?h [] d1 = (0, fbs, d)"
    using assms(1) by (auto simp: display_start_def Let_def simp del: create_fbs.simps split: option.splits if_splits prod.splits)
  have g: "grants a0 ?w ?h" "grants a1 ?w ?h" using assms(2) by (simp_all add: panel_granted_def)
  obtain fb0 d2 where c0: "dumb_fb_create a0 ?w ?h d1 = (0, fb0, d2)" "fb_good fb0"
    using granted_fb [OF g(1) size, of d1] by blast
  obtain fb1 d3 where c1: "dumb_fb_create a1 ?w ?h d2 = (0, fb1, d3)" "fb_good fb1"
    using granted_fb [OF g(2) size, of d2] by blast
  from d1 c0 c1 have "fbs = [fb0, fb1]" by (simp add: Let_def)
  with c0 c1 show ?thesis by simp
qed

section \<open>The server never faults\<close>

text \<open>
  C1: From a display that came up with both framebuffers granted, the server always comes up,
  whatever fails on the way, and under the conditions below it runs any number of rounds
  without a fault: no round reads or writes memory it should not, and after them the window
  stack is well-formed, the cursor is on the screen, and every window's pixels are a live
  mapping of its client or a pixel copy of exactly its size.

  The conditions (\<open>panel_granted\<close> and, asked of each round while the server runs,
  \<open>round_ok\<close>) are what the code relies on without checking it:
  \<^item> the kernel grants the framebuffers, with a pitch of whole pixels and a mapping that
    covers them, at the start and at every mode the connector offers (\<open>Server_Mode\<close>
    shows the fault when a framebuffer is refused at a change of the mode);
  \<^item> the rectangle of each mapped window stays within \<open>int\<close>, and one that the server
    decorates is at least as high as its title bar (\<open>Compositor_Scene.geometry_overflow_faults\<close>);
  \<^item> a row of each buffer that a client of the transport has committed is no longer than its
    stride (\<open>Compositor_Scene.short_stride_faults\<close>), and the memory files of the clients cover
    their mappings;
  \<^item> the cursor less its hotspot, which a client sets, stays within \<open>int\<close>;
  \<^item> Wayland clients destroy their objects and buffers in the order of the protocol
    (\<open>Wayland_Spec.surface_first_uses_freed\<close>, \<open>Wayland_Spec.dropped_buffer_used\<close>);
  \<^item> the descriptors the system hands out are not negative, and fewer than 2^32 windows have
    been made (\<open>Window_Spec.window_create_id_wraps\<close>).
\<close>

theorem server_never_faults:
  assumes "display_start dv ok blob a0 a1 d0 = Some (Some (k, fbs), d)" "panel_granted k a0 a1"
  shows "\<exists>s0 sys child. server_boot b k fbs d = Some (s0, sys, child) \<and>
    (\<forall>es. guarded_run sv_exec sv_good es (Some s0) \<longrightarrow>
      (\<exists>s. server_loop es s0 = Some s \<and> stack_wf (sv_stack s) \<and>
        0 \<le> cursor_x (sv_wm s) \<and> cursor_x (sv_wm s) < screen_w (sv_wm s) \<and>
        0 \<le> cursor_y (sv_wm s) \<and> cursor_y (sv_wm s) < screen_h (sv_wm s) \<and>
        (\<forall>v \<in> set (windows (sv_stack s)). pixels_live s v)))"
proof -
  obtain s0 sys child where boot: "server_boot b k fbs d = Some (s0, sys, child)" using boot_returns by blast
  have "sv_inv s0" using boot_inv [OF boot] display_good [OF assms] assms(2) by (simp add: panel_granted_def)
  then have start: "sv_safe (Some s0)" by (simp add: sv_safe_def)
  have "\<exists>s. server_loop es s0 = Some s \<and> sv_inv s" if "guarded_run sv_exec sv_good es (Some s0)" for es
    using sv_machine.run_inv [OF start that] by (simp add: server_loop_exec sv_safe_def split: option.splits)
  then show ?thesis
    using boot sv_invD(2,6) sv_inv_pixels unfolding wm_inv_def by blast
qed

definition demo_boot :: boot_env where
  "demo_boot = \<lparr>bo_env = [''GLACIER_NO_SHELL'' \<mapsto> ''1''], bo_machine = demo_machine, bo_fdt = Map.empty, bo_epoll = 3,
     bo_listen = \<lparr>la_socket = Some 4, la_bind = True, la_listen = True\<rparr>, bo_epoll_ok = True, bo_os = demo_os, bo_display = True, bo_shm = True,
     bo_wl_socket = True, bo_xkb = (True, True, True), bo_memfd = Some 6, bo_memfd_write = True, bo_globals = True, bo_ctl = True,
     bo_ctl_listen = \<lparr>la_socket = Some 7, la_bind = True, la_listen = True\<rparr>, bo_wm = tiny_wm, bo_seat = True, bo_now = 0\<rparr>"

text \<open>Memory for 1920 by 1080 pixels, and a round with nothing new in it: it draws the demo scene.\<close>

definition full_hd :: "u32 \<Rightarrow> fb_answers" where
  "full_hd i = \<lparr>an_dumb = Some (i, 7680, 8294400), an_fb = Some i, an_offset = True, an_mmap = True\<rparr>"

definition first_round :: round_env where
  "first_round = quiet_env\<lparr>rn_dev := demo_dev\<lparr>dv_connector := (\<lambda>_. None)\<rparr>\<rparr>"

lemma seeded_polite: "\<forall>v \<in> set (windows (seed_windows 1920 1080 window_stack_init)). polite v"
  by (simp add: seed_windows_def window_create_def window_stack_init_def window_focus_def window_index_def window_by_id_def
      window_raise_def move_to_top_def polite_def geom_ok_def in_int_def window_has_ssd_def Let_def signed_divide_int_def)

lemma first_round_ok:
  assumes "server_boot demo_boot k fbs d = Some (s, sys, child)" "mode k = mode_60"
  shows "round_ok first_round s"
proof -
  have size: "int (unat (hdisplay (mode k))) = 1920" "int (unat (vdisplay (mode k))) = 1080" by (simp_all add: assms(2) mode_60_def)
  obtain up wd where t: "start_transport demo_boot 1920 1080 (seed_windows 1920 1080 window_stack_init) = (up, wd)" by fastforce
  note tr = transport_start_inv [OF conjunct1 [OF seeded_bare] conjunct2 [OF seeded_bare] t]
  have st: "first_stack demo_boot 1920 1080 = seed_windows 1920 1080 window_stack_init" by (simp add: first_stack_def demo_boot_def)
  have s: "sv_w s = wd" "sv_wm s = wm_init (bo_wm demo_boot) 1920 1080"
    using assms(1) t unfolding server_boot_def size by (auto simp: Let_def st split: bind_splits)
  have x: "x_cursor (xp wd) = no_cursor"
    using t by (simp add: start_transport_def demo_boot_def transport_create_def transport_listen_def Let_def split: if_splits) auto
  have "frame_ok first_round s"
    using seeded_polite tr(1,2) by (simp add: frame_ok_def sv_stack_def s hotspot_ok_def x no_cursor_def wm_init_def sdiv_2 origin_fits_def in_int_def)
  moreover have "modes_granted first_round" by (simp add: modes_granted_def first_round_def)
  ultimately show ?thesis by (simp add: round_ok_def xp_ok_def wl_round_ok_def first_round_def quiet_env_def Let_def)
qed

theorem server_never_faults_witness:
  "\<exists>k fbs d s0 sys child s. display_start demo_dev True (Some 3) (full_hd 5) (full_hd 6) no_drm = Some (Some (k, fbs), d) \<and>
     server_boot demo_boot k fbs d = Some (s0, sys, child) \<and> server_loop [first_round] s0 = Some s \<and> stack_wf (sv_stack s)"
proof -
  obtain k d1 where k: "kms_setup demo_dev True (Some 3) no_drm = Some (0, k, d1)" "mode k = mode_60" using demo_setup by blast
  obtain fbs d where start: "display_start demo_dev True (Some 3) (full_hd 5) (full_hd 6) no_drm = Some (Some (k, fbs), d)"
    using k by (simp add: display_start_def dumb_fb_create_def full_hd_def Let_def)
  have granted: "panel_granted k (full_hd 5) (full_hd 6)"
    by (simp add: panel_granted_def grants_def full_hd_def k(2) mode_60_def)
  from server_never_faults [OF start granted, of demo_boot] obtain s0 sys child where
      boot: "server_boot demo_boot k fbs d = Some (s0, sys, child)" and
      run: "\<And>es. guarded_run sv_exec sv_good es (Some s0) \<Longrightarrow> \<exists>s. server_loop es s0 = Some s \<and> stack_wf (sv_stack s)"
    by blast
  have "guarded_run sv_exec sv_good [first_round] (Some s0)" using first_round_ok [OF boot k(2)] by (simp add: sv_good_def)
  from run [OF this] start boot show ?thesis by blast
qed

end
