(* ===== verification/Display_Objects.thy ===== *)
theory Display_Objects
  imports Server_Start Compositor_Scene
begin

text \<open>
  The display objects a program holds in the kernel: a mode blob and up to two framebuffers
  on top of what was there before it started. Setting up takes them, drawing leaves them
  alone, and the cleanup gives exactly them back.
\<close>

section \<open>What a program holds\<close>

text \<open>A framebuffer is either complete or, after a change that failed, empty.\<close>

definition held :: "dumb_fb \<Rightarrow> bool" where
  "held fb \<longleftrightarrow> fb_handle fb \<noteq> 0 \<and> fb_id fb \<noteq> 0 \<and> fb_map fb \<noteq> None"

definition bare :: "dumb_fb \<Rightarrow> bool" where
  "bare fb \<longleftrightarrow> fb_handle fb = 0 \<and> fb_id fb = 0 \<and> fb_map fb = None"

definition with_fb :: "dumb_fb \<Rightarrow> drm \<Rightarrow> drm" where
  "with_fb fb d =
     (if held fb
      then d\<lparr>d_handles := insert (fb_handle fb) (d_handles d), d_fbs := insert (fb_id fb) (d_fbs d), d_maps := insert (fb_handle fb) (d_maps d)\<rparr>
      else d)"

definition foreign :: "dumb_fb \<Rightarrow> drm \<Rightarrow> bool" where
  "foreign fb d \<longleftrightarrow> (held fb \<longrightarrow> fb_handle fb \<notin> d_handles d \<and> fb_handle fb \<notin> d_maps d \<and> fb_id fb \<notin> d_fbs d)"

definition holds :: "drm \<Rightarrow> u32 \<Rightarrow> dumb_fb list \<Rightarrow> drm \<Rightarrow> bool" where
  "holds d0 b fbs d \<longleftrightarrow> b \<noteq> 0 \<and> b \<notin> d_blobs d0 \<and>
     (\<exists>x y. fbs = [x, y] \<and> (held x \<or> bare x) \<and> (held y \<or> bare y) \<and> foreign x d0 \<and> foreign y (with_fb x d0) \<and>
        d = with_fb y (with_fb x (d0\<lparr>d_blobs := insert b (d_blobs d0)\<rparr>)))"

lemma with_fb_bare [simp]: "bare x \<Longrightarrow> with_fb x d = d"
  by (simp add: with_fb_def held_def bare_def)

lemma bare_zero [simp]: "bare zero_fb"
  by (simp add: bare_def zero_fb_def)

lemma foreign_bare [simp]: "bare x \<Longrightarrow> foreign x d"
  by (simp add: foreign_def held_def bare_def)

lemma with_fb_swap: "with_fb x (with_fb y d) = with_fb y (with_fb x d)"
  by (cases d) (simp add: with_fb_def insert_commute)

lemma foreign_swap: "foreign x d \<Longrightarrow> foreign y (with_fb x d) \<Longrightarrow> foreign x (with_fb y d)"
  by (auto simp: foreign_def with_fb_def split: if_splits)

lemma foreign_less: "foreign y (with_fb x d) \<Longrightarrow> foreign y d"
  by (auto simp: foreign_def with_fb_def split: if_splits)

lemma holds_swap: "holds d0 b [x, y] d \<longleftrightarrow> holds d0 b [y, x] d"
proof -
  have "holds d0 b [v, u] d" if h: "holds d0 b [u, v] d" for u v
  proof -
    have "foreign v d0" "foreign u (with_fb v d0)" using h foreign_less [of v u d0] foreign_swap [of u d0 v] by (auto simp: holds_def)
    with h with_fb_swap [of u v] show ?thesis by (simp add: holds_def)
  qed
  then show ?thesis by blast
qed

section \<open>Framebuffers come and go\<close>

lemma destroy_gives_back:
  assumes "held x \<or> bare x" "foreign x d"
  shows "dumb_fb_destroy x (with_fb x d) = (zero_fb, d)"
  using assms by (cases d) (auto simp: dumb_fb_destroy_def with_fb_def held_def bare_def foreign_def Let_def)

lemma create_takes:
  assumes "fresh_answers a d" "dumb_fb_create a w h d = (r, fb, d')"
  shows "(held fb \<or> bare fb) \<and> foreign fb d \<and> d' = with_fb fb d"
  using assms
  by (cases d) (auto simp: dumb_fb_create_def fresh_answers_def dumb_fb_destroy_def with_fb_def held_def bare_def foreign_def zero_fb_def Let_def
      split: option.splits if_splits prod.splits)

lemma foreign_blob [simp]: "foreign x (d\<lparr>d_blobs := s\<rparr>) = foreign x d"
  by (simp add: foreign_def)

lemma with_fb_blob: "with_fb x (d\<lparr>d_blobs := s\<rparr>) = (with_fb x d)\<lparr>d_blobs := s\<rparr>"
  by (cases d) (simp add: with_fb_def)

section \<open>Drawing\<close>

text \<open>Drawing changes pixels, not objects.\<close>

lemma drawn_same:
  assumes "same_object x fb"
  shows "held fb = held x" "bare fb = bare x" "foreign fb d = foreign x d" "with_fb fb d = with_fb x d"
  using assms by (simp_all add: same_object_def held_def bare_def foreign_def with_fb_def)

lemma holds_drawn:
  assumes "holds d0 b fbs d" "i < 2" "same_object (fbs ! i) fb"
  shows "holds d0 b (fbs[i := fb]) d"
proof -
  obtain x y where xy: "fbs = [x, y]" using assms(1) by (auto simp: holds_def)
  have "i = 0 \<or> i = 1" using assms(2) by auto
  then show ?thesis using assms(1,3) xy drawn_same by (auto simp: holds_def)
qed

section \<open>Start and cleanup\<close>

lemma start_holds:
  assumes "display_start dv ok blob a0 a1 d0 = Some (Some (k, fbs), d)"
    and "\<And>b. blob = Some b \<Longrightarrow> b \<noteq> 0 \<and> b \<notin> d_blobs d0" "fresh_answers a0 d0"
    and "\<And>b w h fb d1. dumb_fb_create a0 w h (d0\<lparr>d_blobs := b\<rparr>) = (0, fb, d1) \<Longrightarrow> fresh_answers a1 d1"
  shows "holds d0 (mode_blob k) fbs d"
proof -
  let ?w = "int (unat (hdisplay (mode k)))" and ?h = "int (unat (vdisplay (mode k)))"
  obtain d1 where ks: "kms_setup dv ok blob d0 = Some (0, k, d1)" and f: "create_fbs [a0, a1] ?w ?h [] d1 = (0, fbs, d)"
    using assms(1) by (auto simp: display_start_def Let_def simp del: create_fbs.simps split: option.splits if_splits prod.splits)
  have b: "blob = Some (mode_blob k)" "d1 = d0\<lparr>d_blobs := insert (mode_blob k) (d_blobs d0)\<rparr>" using setup_sound [OF ks] by auto
  obtain r0 fb0 d2 where c0: "dumb_fb_create a0 ?w ?h d1 = (r0, fb0, d2)" using prod_cases3 by blast
  obtain r1 fb1 d3 where c1: "dumb_fb_create a1 ?w ?h d2 = (r1, fb1, d3)" using prod_cases3 by blast
  have r: "r0 = 0" "fbs = [fb0, fb1]" "d = d3" using f c0 c1 by (auto simp: Let_def split: if_splits)
  have "fresh_answers a0 d1" using assms(3) unfolding b(2) by (cases d0) (simp add: fresh_answers_def cong: option.case_cong)
  moreover have "fresh_answers a1 d2" using assms(4) c0 r(1) unfolding b(2) by blast
  ultimately show ?thesis
    using create_takes [OF _ c0] create_takes [OF _ c1] assms(2) b r by (auto simp: holds_def with_fb_blob)
qed

lemma cleanup_gives_back:
  assumes "holds d0 (mode_blob k) fbs d" shows "display_cleanup k fbs d = d0"
proof -
  obtain x y where xy: "fbs = [x, y]" using assms by (auto simp: holds_def)
  let ?d = "d0\<lparr>d_blobs := insert (mode_blob k) (d_blobs d0)\<rparr>"
  have x: "held x \<or> bare x" "foreign x (with_fb y d0)" "d = with_fb x (with_fb y ?d)" and y: "held y \<or> bare y" "foreign y d0"
      and b: "mode_blob k \<noteq> 0" "mode_blob k \<notin> d_blobs d0"
    using assms xy foreign_swap [of x d0 y] foreign_less [of y x d0] with_fb_swap by (auto simp: holds_def)
  have "dumb_fb_destroy x d = (zero_fb, with_fb y ?d)" using destroy_gives_back [of x "with_fb y ?d"] x by (simp add: with_fb_blob)
  moreover have "dumb_fb_destroy y (with_fb y ?d) = (zero_fb, ?d)" using destroy_gives_back [of y ?d] y by simp
  ultimately show ?thesis using b by (simp add: xy display_cleanup_def kms_finish_def destroy_blob_def)
qed

end
