(* ===== verification/Server_Display.thy ===== *)
theory Server_Display
  imports Server_Boot Display_Objects
begin

text \<open>
  The display objects the server holds in the kernel over its whole life: the mode blob and
  the two framebuffers, through any number of frames and resolution changes, those that fail
  half way included. They are exactly what the cleanup at the end gives back.
\<close>

section \<open>Replacing a framebuffer\<close>

text \<open>Replacing the second framebuffer; the first is the same by symmetry.\<close>

lemma replace_second:
  assumes "holds d0 b [x, y] d" "dumb_fb_destroy y d = (z, d1)" "fresh_answers a d1" "dumb_fb_create a w h d1 = (r, y', d2)"
  shows "holds d0 b [x, y'] d2"
proof -
  let ?d = "with_fb x (d0\<lparr>d_blobs := insert b (d_blobs d0)\<rparr>)"
  have h: "b \<noteq> 0" "b \<notin> d_blobs d0" "held x \<or> bare x" "held y \<or> bare y" "foreign x d0" "foreign y (with_fb x d0)" "d = with_fb y ?d"
    using assms(1) by (auto simp: holds_def)
  then have "d1 = ?d" using destroy_gives_back [of y ?d] assms(2) by (simp add: with_fb_blob)
  with create_takes [OF assms(3,4)] h show ?thesis by (auto simp: holds_def with_fb_blob)
qed

lemma replace_first:
  assumes "holds d0 b [x, y] d" "dumb_fb_destroy x d = (z, d1)" "fresh_answers a d1" "dumb_fb_create a w h d1 = (r, x', d2)"
  shows "holds d0 b [x', y] d2"
  using replace_second [OF _ assms(2-4)] assms(1) holds_swap by blast

text \<open>The kernel hands out ids that are free at the time it does.\<close>

fun fresh_fbs :: "nat list \<Rightarrow> (nat \<Rightarrow> fb_answers) \<Rightarrow> int \<Rightarrow> int \<Rightarrow> dumb_fb list \<Rightarrow> drm \<Rightarrow> bool" where
  "fresh_fbs [] a nw nh fbs d = True"
| "fresh_fbs (i # is) a nw nh fbs d =
     (let (_, d1) = dumb_fb_destroy (fbs ! i) d; (r, fb, d2) = dumb_fb_create (a i) nw nh d1
      in fresh_answers (a i) d1 \<and> (r = 0 \<longrightarrow> fresh_fbs is a nw nh (fbs[i := fb]) d2))"

lemma realloc_holds:
  assumes "holds d0 b fbs d" "fresh_fbs [0, 1] a nw nh fbs d" "realloc_fbs [0, 1] a nw nh fbs d = (ok, fbs', d')"
  shows "holds d0 b fbs' d'"
proof -
  obtain x y where xy: "fbs = [x, y]" using assms(1) by (auto simp: holds_def)
  obtain z d1 where z: "dumb_fb_destroy x d = (z, d1)" by fastforce
  obtain r x' d2 where x': "dumb_fb_create (a 0) nw nh d1 = (r, x', d2)" using prod_cases3 by blast
  have h: "holds d0 b [x', y] d2" using replace_first [OF assms(1) [unfolded xy] z _ x'] assms(2) xy z x' by simp
  obtain z2 d3 where z2: "dumb_fb_destroy y d2 = (z2, d3)" by fastforce
  obtain r2 y' d4 where y': "dumb_fb_create (a 1) nw nh d3 = (r2, y', d4)" using prod_cases3 by blast
  show ?thesis
  proof (cases "r = 0")
    case False
    with h assms(3) xy z x' show ?thesis by simp
  next
    case True
    have "holds d0 b [x', y'] d4" using replace_second [OF h z2 _ y'] assms(2) xy z x' z2 y' True by simp
    with assms(3) xy z x' z2 y' True show ?thesis by (auto simp: Let_def split: if_splits)
  qed
qed

section \<open>Mode changes\<close>

definition objects_held :: "drm \<Rightarrow> server \<Rightarrow> bool" where
  "objects_held d0 s \<longleftrightarrow> holds d0 (mode_blob (sv_kms s)) (sv_fbs s) (sv_drm s)"

definition fresh_change :: "round_env \<Rightarrow> server \<Rightarrow> bool" where
  "fresh_change e s \<longleftrightarrow>
     (let a = rn_mode e (sv_drm s)
      in (\<forall>b. ma_blob a = Some b \<longrightarrow> b \<noteq> 0 \<and> b \<notin> d_blobs (sv_drm s)) \<and>
         (\<forall>w h refresh k d. kms_set_mode_wh (rn_dev e) (ma_blob a) (sv_kms s) w h refresh (sv_drm s) = (0, k, d) \<longrightarrow>
            fresh_fbs [0, 1] (ma_fbs a) (int (unat (hdisplay (mode k)))) (int (unat (vdisplay (mode k)))) (sv_fbs s) d))"

lemma new_mode_holds:
  assumes "holds d0 (mode_blob k) fbs d" "\<And>b. blob = Some b \<Longrightarrow> b \<noteq> 0 \<and> b \<notin> d_blobs d"
    and "kms_set_mode_wh dv blob k w h refresh d = (r, k', d')"
  shows "holds d0 (mode_blob k') fbs d'"
proof -
  obtain x y where xy: "fbs = [x, y]" "mode_blob k \<noteq> 0" "mode_blob k \<notin> d_blobs d0"
      "d = with_fb y (with_fb x (d0\<lparr>d_blobs := insert (mode_blob k) (d_blobs d0)\<rparr>))"
    using assms(1) by (auto simp: holds_def)
  then have blobs: "d_blobs d = insert (mode_blob k) (d_blobs d0)" by (simp add: with_fb_blob)
  show ?thesis
  proof (cases "mode_blob k' = mode_blob k \<and> d' = d")
    case True
    with assms(1) show ?thesis by simp
  next
    case False
    then obtain b where b: "blob = Some b" "mode_blob k' = b" "d' = d\<lparr>d_blobs := insert b (d_blobs d) - {mode_blob k}\<rparr>"
      using assms(3) xy(2)
      by (auto simp: kms_set_mode_wh_def create_blob_def destroy_blob_def split: option.splits prod.splits)
    then have "b \<noteq> 0" "b \<notin> d_blobs d0" "insert b (d_blobs d) - {mode_blob k} = insert b (d_blobs d0)"
      using assms(2) [of b] blobs xy(3) by auto
    then show ?thesis using assms(1) b xy by (auto simp: holds_def with_fb_blob)
  qed
qed

lemma apply_mode_holds:
  assumes "objects_held d0 s" "fresh_change e s"
  shows "objects_held d0 (snd (apply_mode_cb (rn_dev e) (rn_mode e) w h refresh s))"
proof -
  let ?a = "rn_mode e (sv_drm s)"
  obtain r k d where m: "kms_set_mode_wh (rn_dev e) (ma_blob ?a) (sv_kms s) w h refresh (sv_drm s) = (r, k, d)" using prod_cases3 by blast
  have hold: "holds d0 (mode_blob k) (sv_fbs s) d"
    using new_mode_holds [OF assms(1) [unfolded objects_held_def] _ m] assms(2) unfolding fresh_change_def Let_def by blast
  show ?thesis
  proof (cases "r = 0")
    case False
    with hold m show ?thesis by (simp add: apply_mode_cb_def objects_held_def Let_def)
  next
    case True
    let ?w = "int (unat (hdisplay (mode k)))" and ?h = "int (unat (vdisplay (mode k)))"
    obtain ok fbs d2 where f: "realloc_fbs [0, 1] (ma_fbs ?a) ?w ?h (sv_fbs s) d = (ok, fbs, d2)" using prod_cases3 by blast
    have "fresh_fbs [0, 1] (ma_fbs ?a) ?w ?h (sv_fbs s) d" using assms(2) m True unfolding fresh_change_def Let_def by blast
    from realloc_holds [OF hold this f] have "holds d0 (mode_blob k) fbs d2" .
    then show ?thesis
      unfolding apply_mode_cb_def Let_def m prod.case using True f
      by (simp add: objects_held_def xp_call_def put_stack_def)
  qed
qed

section \<open>Rounds\<close>

text \<open>The display state a step does not touch.\<close>

definition disp :: "server \<Rightarrow> kms \<times> dumb_fb list \<times> drm \<times> nat" where
  "disp s = (sv_kms s, sv_fbs s, sv_drm s, front s)"

definition frame_held :: "drm \<Rightarrow> server \<Rightarrow> bool" where
  "frame_held d0 s \<longleftrightarrow> objects_held d0 s \<and> front s \<le> 1"

lemma held_disp: "disp s' = disp s \<Longrightarrow> frame_held d0 s' = frame_held d0 s"
  by (simp add: disp_def objects_held_def frame_held_def)

lemma disp_calls [simp]:
  "disp (put_stack st s) = disp s" "disp (wm_call g s) = disp s" "disp (wl_call h s) = disp s" "disp (xp_call f s) = disp s"
  by (simp_all add: disp_def put_stack_def wm_call_def wl_call_def xp_call_def Let_def split: option.split prod.split)

lemma disp_flags [simp]:
  "disp (s\<lparr>sv_dirty := b\<rparr>) = disp s" "disp (s\<lparr>sv_activity := b\<rparr>) = disp s" "disp (s\<lparr>running := b\<rparr>) = disp s"
  "disp (s\<lparr>ctrl_held := b\<rparr>) = disp s" "disp (s\<lparr>alt_held := b\<rparr>) = disp s" "disp (s\<lparr>terminals := n\<rparr>) = disp s"
  "disp (s\<lparr>master := b\<rparr>) = disp s" "disp (s\<lparr>need_modeset := b\<rparr>) = disp s" "disp (s\<lparr>blanked := b\<rparr>) = disp s"
  "disp (s\<lparr>last_activity := i\<rparr>) = disp s" "disp (s\<lparr>seat_active := b\<rparr>) = disp s" "disp (s\<lparr>sv_commits := cs\<rparr>) = disp s"
  "disp (s\<lparr>sv_wm := m\<rparr>) = disp s" "disp (s\<lparr>sv_w := w\<rparr>) = disp s" "disp (s\<lparr>sv_wl := f\<rparr>) = disp s" "disp (s\<lparr>sv_ctl := c\<rparr>) = disp s"
  by (simp_all add: disp_def)

lemma disp_fold: "(\<And>x s. disp (f x s) = disp s) \<Longrightarrow> disp (fold f xs s) = disp s"
  by (induction xs arbitrary: s) simp_all

lemma disp_key: "disp (on_key ev s) = disp s"
  by (simp add: on_key_def track_modifiers_def spawn_terminal_def route_key_def Let_def split: prod.split)

lemma disp_input: "disp (on_input ev s) = disp s"
  by (simp add: on_input_def route_motion_def route_button_def disp_key Let_def split: input_kind.split)

lemma disp_steps [simp]:
  "disp (input_step e s) = disp s" "disp (seat_step e s) = disp s" "disp (xp_step e s) = disp s" "disp (sync_step s) = disp s"
  "disp (hotplug_step e s) = disp s" "disp (master_step s) = disp s" "disp (wake_step e s) = disp s" "disp (blank_step e s) = disp s"
  by (simp_all add: input_step_def seat_step_def xp_step_def sync_step_def hotplug_step_def master_step_def wake_step_def blank_step_def
      disp_fold disp_input Let_def split: option.split prod.split)

lemma disp_wl: "wl_step_all e s = Some s' \<Longrightarrow> disp s' = disp s"
  by (auto simp: wl_step_all_def wl_frontend_dispatch_def Let_def split: option.splits)

lemma draw_frame_holds:
  assumes "frame_held d0 s" "draw_frame e s = Some s'"
  shows "frame_held d0 s'"
proof (cases "master s \<and> sv_dirty s \<and> \<not> blanked s")
  case True
  let ?b = "1 - front s"
  obtain fb where fb: "composite (scene_memory e s) (sv_wm s) (sv_stack s) (the_cursor s) (sv_fbs s ! ?b) = Some fb"
      "sv_kms s' = sv_kms s" "sv_drm s' = sv_drm s" "sv_fbs s' = (sv_fbs s)[?b := fb]" "front s' = ?b"
    using assms(2) True by (auto simp: draw_frame_def Let_def split: option.splits)
  have "same_object (sv_fbs s ! ?b) (sv_fbs s ! ?b)" by (simp add: same_object_def)
  from object_drawing.composite [OF this fb(1)] have "same_object (sv_fbs s ! ?b) fb" .
  with holds_drawn [of d0 _ "sv_fbs s" _ ?b fb] assms(1) fb show ?thesis by (simp add: objects_held_def frame_held_def)
qed (use assms in \<open>auto simp: draw_frame_def\<close>)

text \<open>Every mode change of a round meets a kernel that hands out fresh ids.\<close>

fun fresh_requests :: "round_env \<Rightarrow> ctl_conn list \<Rightarrow> server \<times> glctl_reply kern \<Rightarrow> bool" where
  "fresh_requests e [] sk = True"
| "fresh_requests e (c # cs) sk =
     (fresh_change e (fst sk) \<and>
      fresh_requests e cs (control_process sv_kms (rn_dev e) (Some (apply_mode_cb (rn_dev e) (rn_mode e))) [c] sk))"

lemma control_holds:
  assumes "objects_held d0 (fst sk)" "fresh_requests e cs sk"
  shows "objects_held d0 (fst (control_process sv_kms (rn_dev e) (Some (apply_mode_cb (rn_dev e) (rn_mode e))) cs sk))"
  using assms
proof (induction cs arbitrary: sk)
  case (Cons c cs)
  let ?ap = "Some (apply_mode_cb (rn_dev e) (rn_mode e))"
  let ?sk1 = "control_process sv_kms (rn_dev e) ?ap [c] sk"
  have "objects_held d0 (snd (apply_mode_cb (rn_dev e) (rn_mode e) w h refresh (fst sk)))" for w h refresh
    using apply_mode_holds Cons.prems by simp
  then have "objects_held d0 (fst ?sk1)"
    using Cons.prems(1) by (simp add: control_answer_def Let_def case_prod_unfold)
  from Cons.IH [OF this] Cons.prems(2) show ?case by (simp add: Let_def)
qed simp

definition before_ctl :: "round_env \<Rightarrow> server \<Rightarrow> server option" where
  "before_ctl e s =
     (case after_frame e s of None \<Rightarrow> None
      | Some s1 \<Rightarrow> if \<not> rn_poll_ok e then None else wl_step_all e (xp_step e (input_step e (seat_step e s1))))"

definition round_fresh :: "round_env \<Rightarrow> server \<Rightarrow> bool" where
  "round_fresh e s \<longleftrightarrow> (\<forall>s1 k. before_ctl e s = Some s1 \<and> sv_ctl s1 = Some k \<longrightarrow> fresh_requests e (rn_ctl e) (s1, k))"

lemma apply_mode_front: "front (snd (apply_mode_cb dv ans w h refresh s)) = front s"
proof -
  have "front (xp_call f (put_stack st s)) = front s" for f st s by (simp add: xp_call_def put_stack_def)
  then show ?thesis by (simp add: apply_mode_cb_def Let_def case_prod_unfold)
qed

lemma control_front:
  "front (fst (control_process sv_kms dv (Some (apply_mode_cb dv ans)) cs sk)) = front (fst sk)"
  by (induction cs arbitrary: sk) (simp_all add: control_answer_def apply_mode_front Let_def case_prod_unfold)

lemma ctl_step_holds:
  assumes "frame_held d0 s" "\<And>k. sv_ctl s = Some k \<Longrightarrow> fresh_requests e (rn_ctl e) (s, k)"
  shows "frame_held d0 (ctl_step e s)"
proof (cases "sv_ctl s")
  case (Some k)
  let ?sk = "control_process sv_kms (rn_dev e) (Some (apply_mode_cb (rn_dev e) (rn_mode e))) (rn_ctl e) (s, k)"
  have "frame_held d0 (fst ?sk)"
    using control_holds [of d0 "(s, k)" e "rn_ctl e"] assms Some control_front by (simp add: frame_held_def)
  moreover have "ctl_step e s = (fst ?sk)\<lparr>sv_ctl := Some (snd ?sk)\<rparr>" using Some by (simp add: ctl_step_def case_prod_unfold Let_def)
  ultimately show ?thesis by (simp add: held_disp [OF disp_flags(16)])
qed (use assms(1) in \<open>simp add: ctl_step_def\<close>)

lemma round_holds:
  assumes "frame_held d0 s" "round_fresh e s" "server_round e s = Some s'"
  shows "frame_held d0 s'"
proof -
  let ?s0 = "blank_step e (wake_step e (master_step s))"
  have "frame_held d0 ?s0" using assms(1) held_disp [of ?s0 s] by simp
  moreover obtain s1 where s1: "draw_frame e ?s0 = Some s1" using assms(3) by (auto simp: server_round_def split: option.splits)
  ultimately have h1: "frame_held d0 s1" using draw_frame_holds by blast
  show ?thesis
  proof (cases "rn_poll_ok e")
    case False
    then show ?thesis using assms(3) s1 h1 held_disp [OF disp_flags(3)] by (auto simp: server_round_def)
  next
    case True
    then obtain s2 where s2: "wl_step_all e (xp_step e (input_step e (seat_step e s1))) = Some s2"
        "s' = sync_step (hotplug_step e (ctl_step e s2))"
      using assms(3) s1 by (auto simp: server_round_def split: option.splits)
    then have "disp s2 = disp s1" using disp_wl by fastforce
    then have "frame_held d0 s2" using held_disp h1 by blast
    moreover have "before_ctl e s = Some s2" using s1 s2(1) True by (simp add: before_ctl_def after_frame_def)
    ultimately have "frame_held d0 (ctl_step e s2)" using assms(2) ctl_step_holds by (simp add: round_fresh_def)
    then show ?thesis using held_disp [of s' "ctl_step e s2"] s2(2) by simp
  qed
qed

definition fresh_good :: "server option \<Rightarrow> round_env \<Rightarrow> bool" where
  "fresh_good x e = (case x of None \<Rightarrow> True | Some s \<Rightarrow> running s \<longrightarrow> round_fresh e s)"

definition all_held :: "drm \<Rightarrow> server option \<Rightarrow> bool" where
  "all_held d0 x = (case x of None \<Rightarrow> True | Some s \<Rightarrow> frame_held d0 s)"

interpretation display_machine: guarded_machine sv_exec fresh_good "all_held d0" for d0
  by unfold_locales (auto simp: all_held_def fresh_good_def sv_exec_def split: option.splits intro: round_holds)

section \<open>From the start to the end\<close>

text \<open>
  The end of \<open>server_run\<close>: master dropped, the control socket, the Wayland frontend and the
  transport destroyed, then the display given back. The input devices and the seat, which
  end between and after these, share no state with them; they are in \<open>Input_Life\<close> and
  \<open>Input\<close>.
\<close>

definition server_teardown :: "os \<Rightarrow> control option \<Rightarrow> server \<Rightarrow> server" where
  "server_teardown a ctl s =
     (let s1 = s\<lparr>master := False\<rparr>;
          s2 = s1\<lparr>sv_ctl := map_option (control_destroy ctl) (sv_ctl s1)\<rparr>;
          s3 = s2\<lparr>sv_wl := None\<rparr>;
          s4 = (xp_call (transport_destroy a) s3)\<lparr>sv_xport := False\<rparr>
      in s4\<lparr>sv_drm := display_cleanup (sv_kms s4) (sv_fbs s4) (sv_drm s4)\<rparr>)"

text \<open>
  C4: The server gives the display back as it found it: however many frames it drew and however
  often the resolution was changed, with success or with any of its steps refused, at the
  end no mode blob, no framebuffer, no buffer handle and no mapping of it is left in the
  kernel, and nothing that was there before is gone.
\<close>

theorem server_returns_display:
  assumes "display_start dv ok blob a0 a1 d0 = Some (Some (k, fbs), d)"
    and "\<And>b. blob = Some b \<Longrightarrow> b \<noteq> 0 \<and> b \<notin> d_blobs d0" "fresh_answers a0 d0"
    and "\<And>b w h fb d1. dumb_fb_create a0 w h (d0\<lparr>d_blobs := b\<rparr>) = (0, fb, d1) \<Longrightarrow> fresh_answers a1 d1"
    and "server_boot b k fbs d = Some (s0, sys, child)" "guarded_run sv_exec fresh_good es (Some s0)" "server_loop es s0 = Some s"
  shows "sv_drm (server_teardown a ctl s) = d0"
proof -
  have "sv_kms s0 = k" "sv_fbs s0 = fbs" "sv_drm s0 = d" "front s0 = 0"
    using assms(5) by (auto simp: server_boot_def Let_def split: bind_splits)
  then have "all_held d0 (Some s0)" using start_holds [OF assms(1-4)] by (simp add: all_held_def frame_held_def objects_held_def)
  from display_machine.run_inv [OF this assms(6)] have "holds d0 (mode_blob (sv_kms s)) (sv_fbs s) (sv_drm s)"
    using assms(7) by (simp add: server_loop_exec all_held_def frame_held_def objects_held_def)
  from cleanup_gives_back [OF this] show ?thesis
    by (auto simp: server_teardown_def xp_call_def Let_def split: option.split)
qed

lemma demo_boot_runs:
  "\<exists>k fbs d s0 sys child s. display_start demo_dev True (Some 3) (full_hd 5) (full_hd 6) no_drm = Some (Some (k, fbs), d) \<and>
     server_boot demo_boot k fbs d = Some (s0, sys, child) \<and> server_loop [first_round] s0 = Some s"
proof -
  obtain k d1 where k: "kms_setup demo_dev True (Some 3) no_drm = Some (0, k, d1)" "mode k = mode_60" using demo_setup by blast
  obtain fbs d where start: "display_start demo_dev True (Some 3) (full_hd 5) (full_hd 6) no_drm = Some (Some (k, fbs), d)"
    using k by (simp add: display_start_def dumb_fb_create_def full_hd_def Let_def)
  have granted: "panel_granted k (full_hd 5) (full_hd 6)" by (simp add: panel_granted_def grants_def full_hd_def k(2) mode_60_def)
  obtain s0 sys child where boot: "server_boot demo_boot k fbs d = Some (s0, sys, child)" using boot_returns by blast
  have inv: "sv_inv s0" using boot_inv [OF boot] display_good [OF start granted] granted by (simp add: panel_granted_def)
  obtain s where "server_round first_round s0 = Some s" using server_round_inv [OF inv first_round_ok [OF boot k(2)]] by blast
  then have "\<exists>s. server_loop [first_round] s0 = Some s" by (cases "running s0") simp_all
  with start boot show ?thesis by blast
qed

theorem server_returns_display_witness:
  "\<exists>k fbs d s0 sys child s. display_start demo_dev True (Some 3) (full_hd 5) (full_hd 6) no_drm = Some (Some (k, fbs), d) \<and>
     server_boot demo_boot k fbs d = Some (s0, sys, child) \<and> server_loop [first_round] s0 = Some s \<and>
     sv_drm (server_teardown demo_os None s) = no_drm"
proof -
  obtain k fbs d s0 sys child s where run:
      "display_start demo_dev True (Some 3) (full_hd 5) (full_hd 6) no_drm = Some (Some (k, fbs), d)"
      "server_boot demo_boot k fbs d = Some (s0, sys, child)" "server_loop [first_round] s0 = Some s"
    using demo_boot_runs by blast
  have blob: "b \<noteq> 0 \<and> b \<notin> d_blobs no_drm" if "Some 3 = Some b" for b :: u32 using that by (auto simp: no_drm_def)
  have first: "fresh_answers (full_hd 5) no_drm" by (simp add: fresh_answers_def full_hd_def no_drm_def)
  have second: "fresh_answers (full_hd 6) d1" if "dumb_fb_create (full_hd 5) w h (no_drm\<lparr>d_blobs := b\<rparr>) = (0, fb, d1)" for w h b fb d1
    using that by (auto simp: dumb_fb_create_def full_hd_def no_drm_def fresh_answers_def Let_def)
  have good: "guarded_run sv_exec fresh_good [first_round] (Some s0)"
    by (simp add: fresh_good_def round_fresh_def first_round_def quiet_env_def)
  have "sv_drm (server_teardown demo_os None s) = no_drm"
    by (rule server_returns_display [OF run(1) _ first _ run(2) good run(3)]) (erule blob, erule second)
  with run show ?thesis by blast
qed

end
