(* ===== verification/Client.thy ===== *)
theory Client
  imports Protocol
begin

text \<open>
  The native test client, \<open>src/src/client.c\<close>: it connects, shakes hands, creates one
  application window, fills a shared-memory buffer with a gradient, commits it and then
  reports the server's events until it is closed or disconnected.

  The socket is a blocking one. A call that has not returned when the answers of the
  kernel run out makes the whole operation \<open>None\<close>.
\<close>

section \<open>State\<close>

text \<open>What the client writes to \<open>stderr\<close>, by the format string it uses.\<close>

datatype client_line =
    Perror string | Connect_Failed string | Connected string | Handshake_Failed
  | Welcomed u32 u32 u32 | Committed | Disconnected | Event string u32

text \<open>A message as the kernel carries it: the datagram's bytes and the descriptors with it.\<close>

type_synonym post = "u8 list \<times> fd list"

record client =
  cl_kern :: "post kern"
  cl_files :: "fd \<rightharpoonup> u32 list"
  cl_lines :: "client_line list"
  cl_buf :: "u8 list"
  cl_peer :: "string option"

text \<open>
  What the kernel answers. The four \<open>sendmsg\<close> fields are the outcomes of the attempts at
  each message, and \<open>ans_inbox\<close> is what the successive \<open>recvmsg\<close> calls return.
\<close>

record client_answers =
  ans_override :: "string option"
  ans_runtime :: "string option"
  ans_socket :: fd
  ans_connect :: bool
  ans_memfd :: fd
  ans_truncate :: bool
  ans_mmap :: bool
  ans_hello :: "errno option list"
  ans_create :: "errno option list"
  ans_title :: "errno option list"
  ans_commit :: "errno option list"
  ans_inbox :: "recvmsg list"

definition client_say :: "client_line \<Rightarrow> client \<Rightarrow> client" where
  "client_say l c = c\<lparr>cl_lines := cl_lines c @ [l]\<rparr>"

definition client_sys :: "(post kern \<Rightarrow> post kern) \<Rightarrow> client \<Rightarrow> client" where
  "client_sys f c = c\<lparr>cl_kern := f (cl_kern c)\<rparr>"

section \<open>Connecting\<close>

definition sizeof_sun_path :: nat where [simp]: "sizeof_sun_path = 108"

definition connect_server :: "client_answers \<Rightarrow> client \<Rightarrow> fd \<times> client" where
  "connect_server a c =
     (let path = cl_default_socket_path (ans_override a) (ans_runtime a) sizeof_sun_path;
          fd = ans_socket a
      in if fd < 0 then (-1, client_say (Perror ''socket'') c)
         else (let sun_path = snprintf_s sizeof_sun_path path
               in if \<not> ans_connect a then (-1, client_sys (k_close fd) (client_say (Connect_Failed path) c))
                  else (fd, client_say (Connected path) (c\<lparr>cl_peer := Some sun_path\<rparr>))))"

section \<open>The buffer\<close>

definition WIN_W :: int where [simp]: "WIN_W = 480"
definition WIN_H :: int where [simp]: "WIN_H = 320"

definition gradient_pixel :: "int \<Rightarrow> int \<Rightarrow> u32" where
  "gradient_pixel x y =
     (let r = word_of_int (x * 255 div WIN_W) :: u8;
          g = word_of_int (y * 255 div WIN_H) :: u8;
          b = 0x80 :: u8;
          edge = (x < 2 \<or> y < 2 \<or> x \<ge> WIN_W - 2 \<or> y \<ge> WIN_H - 2)
      in if edge then 0x00ffffff else push_bit 16 (ucast r) OR push_bit 8 (ucast g) OR ucast b)"

definition gradient_row :: "int \<Rightarrow> u32 list \<Rightarrow> u32 list" where
  "gradient_row y = fold (\<lambda>x px. px[nat (y * WIN_W + x) := gradient_pixel x y]) [0..WIN_W - 1]"

definition gradient_fill :: "u32 list \<Rightarrow> u32 list" where
  "gradient_fill = fold gradient_row [0..WIN_H - 1]"

text \<open>
  The memory file starts as \<open>size\<close> zero bytes. The mapping is shared, so what is written
  through it is the file's content.
\<close>

definition make_buffer :: "client_answers \<Rightarrow> client \<Rightarrow> (fd \<times> int option) \<times> client" where
  "make_buffer a c =
     (let stride = WIN_W * 4; size = nat (stride * WIN_H); mfd = ans_memfd a
      in if mfd < 0 \<or> \<not> ans_truncate a then ((-1, None), client_say (Perror ''memfd'') c)
         else (let c1 = c\<lparr>cl_files := (cl_files c)(mfd \<mapsto> replicate (size div 4) 0)\<rparr>;
                   (base, k) = k_mmap mfd size (ans_mmap a) (cl_kern c1);
                   c2 = c1\<lparr>cl_kern := k\<rparr>
               in case base of
                    None \<Rightarrow> ((-1, None), client_sys (k_close mfd) (client_say (Perror ''mmap'') c2))
                  | Some px \<Rightarrow>
                      (let c3 = c2\<lparr>cl_files := (cl_files c2)(mfd \<mapsto> gradient_fill (the (cl_files c2 mfd)))\<rparr>
                       in ((mfd, Some stride), client_sys (k_munmap px size) c3))))"

section \<open>Messages\<close>

text \<open>Sending: whether it worked, or \<open>None\<close> while every attempt was interrupted.\<close>

definition client_send :: "fd \<Rightarrow> cl_request \<Rightarrow> fd list \<Rightarrow> errno option list \<Rightarrow> client \<Rightarrow> (int \<times> client) option" where
  "client_send fd m fds outcomes c =
     (case cl_send (int (length fds)) outcomes of
        None \<Rightarrow> None
      | Some r \<Rightarrow> Some (r, if r = 0 then client_sys (k_send fd (encode_request m, fds)) c else c))"

text \<open>
  Receiving into the 256 bytes of \<open>buf\<close>: what is beyond the datagram stays there from
  before. The descriptors that came with it are not looked at.
\<close>

definition client_recv :: "recvmsg list \<Rightarrow> client \<Rightarrow> (nat option \<times> recvmsg list \<times> client) option" where
  "client_recv rs c =
     (if \<forall>r \<in> set rs. r = Recv_Err EINTR then None
      else (case cl_recv 256 rs (cl_kern c) of
              (Ret_Err e, rest, k) \<Rightarrow> Some (None, rest, c\<lparr>cl_kern := k\<rparr>)
            | (Ret_Data d fds, rest, k) \<Rightarrow>
                Some (Some (length d), rest, c\<lparr>cl_kern := k, cl_buf := d @ drop (length d) (cl_buf c)\<rparr>)))"

definition type_name :: "u32 \<Rightarrow> string" where
  "type_name t =
     (if t = type_code CL_WELCOME then ''WELCOME''
      else if t = type_code CL_CONFIGURE then ''CONFIGURE''
      else if t = type_code CL_FOCUS then ''FOCUS''
      else if t = type_code CL_CLOSE then ''CLOSE''
      else if t = type_code CL_INPUT then ''INPUT''
      else ''?'')"

lemma client_recv_shrinks:
  "client_recv rs c = Some (Some n, rest, c') \<Longrightarrow> length rest < length rs"
  by (auto simp: client_recv_def split: if_splits prod.splits recv_ret.splits dest: cl_recv_rest)

text \<open>The event loop; it returns when the link drops or the window is to close.\<close>

function client_events :: "recvmsg list \<Rightarrow> client \<Rightarrow> client option" where
  "client_events rs c =
     (case client_recv rs c of
        None \<Rightarrow> None
      | Some (None, rest, c1) \<Rightarrow> Some (client_say Disconnected c1)
      | Some (Some n, rest, c1) \<Rightarrow>
          if n = 0 then Some (client_say Disconnected c1)
          else (let t = rd32 (cl_buf c1) 0; c2 = client_say (Event (type_name t) t) c1
                in if t = type_code CL_CLOSE then Some c2 else client_events rest c2))"
  by pat_completeness auto
termination
  by (relation "measure (length \<circ> fst)") (auto dest: client_recv_shrinks)

declare client_events.simps [simp del]

section \<open>The program\<close>

definition sizeof_welcome :: nat where [simp]: "sizeof_welcome = 24"

definition client_hello :: cl_request where
  "client_hello = Hello \<lparr>he_magic = CL_MAGIC, he_version = CL_VERSION, he_min_version = CL_MIN_VERSION, he_reconnect_token = 0\<rparr>"

definition client_wid1 :: u32 where "client_wid1 = 1"

definition client_create :: cl_request where
  "client_create = Create_Window \<lparr>cr_wid = client_wid1, cr_role = 0, cr_x = 240, cr_y = 180,
     cr_w = word_of_int WIN_W, cr_h = word_of_int WIN_H\<rparr>"

definition title_text :: string where "title_text = ''CrystallineLattice test client''"

text \<open>\<open>snprintf\<close> into the zeroed title array.\<close>

definition client_title :: cl_request where
  "client_title = Set_Title \<lparr>ti_wid = client_wid1,
     ti_title = (let t = map (\<lambda>ch. of_nat (of_char ch)) (snprintf_s CL_TITLE_MAX title_text)
                 in t @ replicate (CL_TITLE_MAX - length t) 0)\<rparr>"

definition client_commit :: "int \<Rightarrow> cl_request" where
  "client_commit stride = Commit \<lparr>co_wid = client_wid1, co_buffer =
     \<lparr>b_kind = CL_BUF_SHM, b_width = word_of_int WIN_W, b_height = word_of_int WIN_H, b_stride = word_of_int stride,
      b_format = CL_FORMAT_XRGB8888, b_modifier = 0, b_has_fence = 0, b_pad = 0\<rparr>\<rparr>"

text \<open>After the handshake: the buffer, the window, its title and the commit, then the events.\<close>

definition client_show :: "client_answers \<Rightarrow> fd \<Rightarrow> recvmsg list \<Rightarrow> client \<Rightarrow> (int \<times> client) option" where
  "client_show a fd rest c =
     (case make_buffer a c of
        ((bfd, None), c1) \<Rightarrow> Some (1, c1)
      | ((bfd, Some stride), c1) \<Rightarrow>
          Option.bind (client_send fd client_create [] (ans_create a) c1) (\<lambda>(_, c2).
          Option.bind (client_send fd client_title [] (ans_title a) c2) (\<lambda>(_, c3).
          Option.bind (client_send fd (client_commit stride) [bfd] (ans_commit a) c3) (\<lambda>(r, c4).
            if r \<noteq> 0 then Some (1, client_say (Perror ''commit'') c4)
            else Option.bind (client_events rest (client_say Committed (client_sys (k_close bfd) c4))) (\<lambda>c5.
                 Some (0, client_sys (k_close fd) c5))))))"

definition client_main :: "client_answers \<Rightarrow> client \<Rightarrow> (int \<times> client) option" where
  "client_main a c =
     (let (fd, c1) = connect_server a c
      in if fd < 0 then Some (1, c1)
         else Option.bind (client_send fd client_hello [] (ans_hello a) c1) (\<lambda>(_, c2).
              Option.bind (client_recv (ans_inbox a) c2) (\<lambda>(n, rest, c3).
                if (case n of None \<Rightarrow> True | Some n \<Rightarrow> n < sizeof_welcome) \<or> rd32 (cl_buf c3) 0 \<noteq> type_code CL_WELCOME
                then Some (1, client_say Handshake_Failed c3)
                else (let w = get_welcome (cl_buf c3)
                      in client_show a fd rest (client_say (Welcomed (we_version w) (we_screen_w w) (we_screen_h w)) c3)))))"

end
