(* ===== verification/Client_Spec.thy ===== *)
theory Client_Spec
  imports Client Transport_Place Compositor_Spec
begin

text \<open>
  What the test client puts on the screen: the content of its buffer, the messages it
  sends, and what the server makes of them.
\<close>

section \<open>The gradient\<close>

lemma fold_update_nth:
  assumes "i < length a" "\<And>x. x \<in> set xs \<Longrightarrow> f x = i \<Longrightarrow> g x = v"
  shows "fold (\<lambda>x a. a[f x := g x]) xs a ! i = (if i \<in> f ` set xs then v else a ! i)"
  using assms
proof (induction xs arbitrary: a)
  case (Cons x xs)
  have "fold (\<lambda>x a. a[f x := g x]) xs (a[f x := g x]) ! i = (if i \<in> f ` set xs then v else a[f x := g x] ! i)"
    using Cons.prems by (intro Cons.IH) auto
  then show ?case using Cons.prems by (auto simp: nth_list_update)
qed simp

lemma fold_update_length [simp]: "length (fold (\<lambda>x a. a[f x := g x]) xs a) = length a"
  by (induction xs arbitrary: a) simp_all

lemma row_col_unique:
  assumes "0 \<le> x" "x < 480" "0 \<le> x'" "x' < 480" "y * 480 + x = y' * 480 + (x' :: int)"
  shows "y = y' \<and> x = x'"
proof -
  have "(y * 480 + x) div 480 = y" "(y' * 480 + x') div 480 = y'" using assms(1-4) by simp_all
  with assms(5) show ?thesis by simp
qed

lemma gradient_row_nth:
  assumes "0 \<le> x" "x < 480" "0 \<le> y" "0 \<le> y'" "nat (y * 480 + x) < length px"
  shows "gradient_row y' px ! nat (y * 480 + x) = (if y = y' then gradient_pixel x y else px ! nat (y * 480 + x))"
proof -
  have hit: "nat (y' * 480 + x') = nat (y * 480 + x) \<longleftrightarrow> y' = y \<and> x' = x" if "x' \<in> {0..479}" for x'
  proof -
    have "nat (y' * 480 + x') = nat (y * 480 + x) \<longleftrightarrow> y' * 480 + x' = y * 480 + x" using that assms by (simp add: eq_nat_nat_iff)
    then show ?thesis using row_col_unique [of x' x y' y] that assms by auto
  qed
  have "nat (y * 480 + x) \<in> (\<lambda>x'. nat (y' * 480 + x')) ` set [0..479] \<longleftrightarrow> y = y'"
    using hit assms by (force simp: image_iff)
  then show ?thesis unfolding gradient_row_def
    using assms hit
    by (subst fold_update_nth [where v = "gradient_pixel x y"]) auto
qed

lemma gradient_row_length [simp]: "length (gradient_row y px) = length px"
  by (simp add: gradient_row_def)

lemma gradient_fold_length [simp]: "length (fold gradient_row ys px) = length px"
  by (induction ys arbitrary: px) simp_all

text \<open>The loops leave the gradient in every cell.\<close>

lemma gradient_fill_nth:
  assumes "0 \<le> x" "x < WIN_W" "0 \<le> y" "y < WIN_H" "length px = nat (WIN_W * WIN_H)"
  shows "gradient_fill px ! nat (y * WIN_W + x) = gradient_pixel x y"
proof -
  have "fold gradient_row ys px ! nat (y * 480 + x) = (if y \<in> set ys then gradient_pixel x y else px ! nat (y * 480 + x))"
    if "length px = 153600" "\<forall>y' \<in> set ys. 0 \<le> y'" for ys px
    using that
  proof (induction ys arbitrary: px)
    case (Cons y' ys)
    have "nat (y * 480 + x) < length px" using assms Cons.prems(1) by simp
    with gradient_row_nth [of x y y' px] assms Cons show ?case by auto
  qed simp
  from this [of px "[0..WIN_H - 1]"] assms show ?thesis by (simp add: gradient_fill_def)
qed

lemma gradient_fill_length: "length (gradient_fill px) = length px"
  by (simp add: gradient_fill_def)

section \<open>The messages\<close>

definition gradient_file :: "u32 list" where
  "gradient_file = gradient_fill (replicate 153600 0)"

definition sends_return :: "client_answers \<Rightarrow> bool" where
  "sends_return a \<longleftrightarrow> (\<forall>out \<in> {ans_hello a, ans_create a, ans_title a, ans_commit a}. retry_eintr out = Some 0)"

text \<open>The datagrams of a run, in order, with the descriptors they carry.\<close>

definition client_posts :: "client_answers \<Rightarrow> post list" where
  "client_posts a =
     [(encode_request client_hello, []), (encode_request client_create, []), (encode_request client_title, []),
      (encode_request (client_commit 1920), [ans_memfd a])]"

lemma client_send_ok:
  "retry_eintr out = Some 0 \<Longrightarrow> length fds \<le> 2 \<Longrightarrow>
   client_send fd m fds out c = Some (0, client_sys (k_send fd (encode_request m, fds)) c)"
  by (simp add: client_send_def cl_send_def)

lemma sys_sel [simp]: "cl_kern (client_sys f c) = f (cl_kern c)" "cl_files (client_sys f c) = cl_files c" "cl_buf (client_sys f c) = cl_buf c"
  by (simp_all add: client_sys_def)

lemma say_sel [simp]: "cl_kern (client_say l c) = cl_kern c" "cl_files (client_say l c) = cl_files c" "cl_buf (client_say l c) = cl_buf c"
  by (simp_all add: client_say_def)

lemma cl_recv_sent: "cl_recv cap rs k = (r, rest, k') \<Longrightarrow> sent (trace k') = sent (trace k)"
  by (induction cap rs k rule: cl_recv.induct) (auto simp: Let_def split: if_splits)

lemma client_recv_sel:
  "client_recv rs c = Some (n, rest, c') \<Longrightarrow> sent (trace (cl_kern c')) = sent (trace (cl_kern c)) \<and> cl_files c' = cl_files c"
  by (auto simp: client_recv_def split: if_splits prod.splits recv_ret.splits dest: cl_recv_sent)

lemma client_events_sel:
  "client_events rs c = Some c' \<Longrightarrow> sent (trace (cl_kern c')) = sent (trace (cl_kern c)) \<and> cl_files c' = cl_files c"
proof (induction "length rs" arbitrary: rs c rule: less_induct)
  case less
  obtain n rest c1 where r: "client_recv rs c = Some (n, rest, c1)"
    using less.prems by (subst (asm) client_events.simps) (auto split: option.splits)
  note one = client_recv_sel [OF r]
  show ?case
  proof (cases n)
    case None
    with less.prems r one show ?thesis by (subst (asm) client_events.simps) auto
  next
    case (Some m)
    with client_recv_shrinks r have "length rest < length rs" by blast
    note more = less.hyps [OF this]
    from Some less.prems r one show ?thesis
      by (subst (asm) client_events.simps) (auto simp: Let_def split: if_splits dest!: more)
  qed
qed

lemma connect_sel:
  "connect_server a c = (fd, c') \<Longrightarrow> 0 \<le> fd \<Longrightarrow> fd = ans_socket a \<and> cl_kern c' = cl_kern c \<and> cl_files c' = cl_files c"
  by (auto simp: connect_server_def Let_def split: if_splits)

lemma make_buffer_sel:
  "make_buffer a c = ((bfd, Some stride), c') \<Longrightarrow> bfd = ans_memfd a \<and> stride = 1920 \<and>
     sent (trace (cl_kern c')) = sent (trace (cl_kern c)) \<and> cl_files c' bfd = Some gradient_file"
  by (auto simp: make_buffer_def k_mmap_def gradient_file_def Let_def split: if_splits prod.splits)

lemma client_show_sent:
  assumes "client_show a fd rest c = Some (0, c')" "sends_return a"
  shows "sent (trace (cl_kern c')) = sent (trace (cl_kern c)) @ map (Pair fd) (tl (client_posts a)) \<and>
    cl_files c' (ans_memfd a) = Some gradient_file"
proof -
  obtain bfd st c1 where mb: "make_buffer a c = ((bfd, st), c1)" using prod_cases3 by (metis surj_pair)
  with assms(1) obtain stride where st: "st = Some stride" by (cases st) (auto simp: client_show_def)
  note m = make_buffer_sel [OF mb [unfolded st]]
  have out: "retry_eintr (ans_create a) = Some 0" "retry_eintr (ans_title a) = Some 0" "retry_eintr (ans_commit a) = Some 0"
    using assms(2) by (simp_all add: sends_return_def)
  obtain c4 c5 where c5: "client_events rest c4 = Some c5" "c' = client_sys (k_close fd) c5"
      "sent (trace (cl_kern c4)) = sent (trace (cl_kern c1)) @ map (Pair fd) (tl (client_posts a))" "cl_files c4 = cl_files c1"
    using assms(1) m out unfolding client_show_def mb st by (auto simp: client_send_ok client_posts_def split: bind_splits)
  from client_events_sel [OF c5(1)] c5 m show ?thesis by auto
qed

lemma client_main_sent:
  assumes "client_main a c0 = Some (0, c)" "sends_return a"
  shows "sent (trace (cl_kern c)) = sent (trace (cl_kern c0)) @ map (Pair (ans_socket a)) (client_posts a) \<and>
    cl_files c (ans_memfd a) = Some gradient_file"
proof -
  obtain fd c1 where cn: "connect_server a c0 = (fd, c1)" by fastforce
  have fd: "0 \<le> fd" using assms(1) cn by (auto simp: client_main_def split: if_splits)
  note c = connect_sel [OF cn fd]
  have "retry_eintr (ans_hello a) = Some 0" using assms(2) by (simp add: sends_return_def)
  then obtain n rest c3 l where r: "client_recv (ans_inbox a) (client_sys (k_send fd (encode_request client_hello, [])) c1) = Some (n, rest, c3)"
      "client_show a fd rest (client_say l c3) = Some (0, c)"
    using assms(1) fd cn unfolding client_main_def
    by (auto simp: client_send_ok Let_def split: bind_splits if_splits)
  from client_show_sent [OF r(2) assms(2)] client_recv_sel [OF r(1)] c show ?thesis by (simp add: client_posts_def)
qed

section \<open>The server's side\<close>

text \<open>A message as the server's \<open>recvmsg\<close> gives it; \<open>r\<close> is the server's number for each descriptor.\<close>

fun received :: "(fd \<Rightarrow> fd) \<Rightarrow> post \<Rightarrow> recvmsg" where
  "received r (bs, fds) =
     Recv \<lparr>dg_data = bs, dg_cmsgs = (if fds = [] then [] else [(True, map r fds)]), dg_ctrunc = False\<rparr>"

lemma readable_post:
  assumes "bs \<noteq> []" "length bs \<le> 256" "length fds \<le> 2" "dispatch e ci bs (map r fds) w = (True, d, w2)"
  shows "client_readable e ci (received r (bs, fds) # rest) dirty w = client_readable e ci rest (dirty \<or> d) w2"
proof -
  have "w\<lparr>ker := ker w\<rparr> = w" by simp
  then show ?thesis using assms by (subst client_readable.simps) (cases fds; simp add: Let_def)
qed

lemma readable_end: "client_readable e ci [] dirty w = (dirty, w)"
  by (subst client_readable.simps) simp

lemma wins_empty:
  assumes "used (c_wins c) = {#}" "length (c_wins c) = 64"
  shows "win_alloc c = Some 0" "wid \<noteq> 0 \<Longrightarrow> win_find c wid = None"
proof -
  have free: "free_win cw" if "cw \<in> set (c_wins c)" for cw
    using assms(1) that by (auto simp: used_def filter_mset_eq_conv)
  have "c_wins c ! 0 \<in> set (c_wins c)" using assms(2) by simp
  with free assms(2) show "win_alloc c = Some 0"
    unfolding win_alloc_def free_slot_def by (intro find_index_SomeI) auto
  show "win_find c wid = None" if "wid \<noteq> 0"
    using free that by (auto simp: win_find_def find_index_None_iff free_win_def)
qed

lemma hello_served:
  assumes "x_inv w" "ci < 16" "\<not> c_hello (clients (xp w) ! ci)" "0 \<le> c_fd (clients (xp w) ! ci)"
  shows "\<exists>w1. dispatch e ci (encode_request client_hello) [] w = (True, True, w1) \<and> x_inv w1 \<and> stk w1 = stk w \<and>
    c_hello (clients (xp w1) ! ci) \<and> c_wins (clients (xp w1) ! ci) = c_wins (clients (xp w) ! ci)"
proof -
  let ?bs = "encode_request client_hello"
  have h: "length ?bs = 20" "rd32 ?bs 0 = 1" "get_hello ?bs = \<lparr>he_magic = CL_MAGIC, he_version = CL_VERSION, he_min_version = CL_MIN_VERSION, he_reconnect_token = 0\<rparr>"
    using decode_words [where w = 1 and ws = "[CL_MAGIC, CL_VERSION, CL_MIN_VERSION, 0]" and r = "[]"]
    by (simp_all add: client_hello_def get_hello_def del: le_words_simps)
  have ok: "hello_ok (get_hello ?bs)" by (simp add: h hello_ok_def)
  have len: "ci < length (clients (xp w))" using x_invD(1) [OF assms(1)] assms(2) by simp
  have disp: "dispatch e ci ?bs [] w = dispatch_hello ci ?bs [] w" using assms(3) h by (simp add: dispatch_def)
  have "x_inv (snd (snd (dispatch_hello ci ?bs [] w)))" using x_inv_hello [OF assms(1,2,4,3)] .
  then show ?thesis unfolding disp using h ok len
    by (simp add: dispatch_hello_def client_reclaim_def assign_token_def send_welcome_def Let_def set_client_def)
qed

lemma decodeD:
  "decode_request b = Some (Create_Window m) \<Longrightarrow> rd32 b 0 = 2 \<and> 28 \<le> length b \<and> get_create_window b = m"
  "decode_request b = Some (Set_Title t) \<Longrightarrow> rd32 b 0 = 3 \<and> 72 \<le> length b \<and> get_set_title b = t"
  "decode_request b = Some (Commit c) \<Longrightarrow> rd32 b 0 = 4 \<and> 48 \<le> length b \<and> get_commit b = c"
  by (auto simp: decode_request_def Let_def split: if_splits)

lemma encodedD:
  "wf_request (Create_Window m) \<Longrightarrow> rd32 (encode_request (Create_Window m)) 0 = 2 \<and> 28 \<le> length (encode_request (Create_Window m)) \<and>
     get_create_window (encode_request (Create_Window m)) = m"
  "wf_request (Set_Title t) \<Longrightarrow> rd32 (encode_request (Set_Title t)) 0 = 3 \<and> 72 \<le> length (encode_request (Set_Title t)) \<and>
     get_set_title (encode_request (Set_Title t)) = t"
  "wf_request (Commit c) \<Longrightarrow> rd32 (encode_request (Commit c)) 0 = 4 \<and> 48 \<le> length (encode_request (Commit c)) \<and>
     get_commit (encode_request (Commit c)) = c"
  using decode_encode [of _ "[]"] decodeD by (metis append_Nil2)+

text \<open>A request of a client that has shaken hands reaches its handler.\<close>

lemma request_served:
  assumes "c_hello (clients (xp w) ! ci)"
  shows "wf_request (Create_Window m) \<Longrightarrow> dispatch e ci (encode_request (Create_Window m)) [] w = (True, True, on_create_window ci m w)"
    "wf_request (Set_Title t) \<Longrightarrow> dispatch e ci (encode_request (Set_Title t)) [] w = (True, False, on_set_title ci t w)"
    "wf_request (Commit c) \<Longrightarrow> dispatch e ci (encode_request (Commit c)) fds w = (True, True, on_commit e ci c fds w)"
proof -
  have same: "close_all [] w' = w'" for w' by (simp add: close_all_def)
  show "wf_request (Create_Window m) \<Longrightarrow> dispatch e ci (encode_request (Create_Window m)) [] w = (True, True, on_create_window ci m w)"
    using assms encodedD(1) [of m] unfolding dispatch_def dispatch_request_def Let_def same
    by (simp del: encode_request.simps wf_request.simps)
  show "wf_request (Set_Title t) \<Longrightarrow> dispatch e ci (encode_request (Set_Title t)) [] w = (True, False, on_set_title ci t w)"
    using assms encodedD(2) [of t] unfolding dispatch_def dispatch_request_def Let_def same
    by (simp del: encode_request.simps wf_request.simps)
  show "wf_request (Commit c) \<Longrightarrow> dispatch e ci (encode_request (Commit c)) fds w = (True, True, on_commit e ci c fds w)"
    using assms encodedD(3) [of c] unfolding dispatch_def dispatch_request_def Let_def
    by (simp del: encode_request.simps wf_request.simps)
qed

lemma char_byte: "char_of (unat (of_nat (of_char ch) :: u8)) = ch"
proof -
  have "(of_char ch :: nat) < 256" by simp
  then have "unat (of_nat (of_char ch) :: u8) = of_char ch" by (simp add: unat_of_nat)
  then show ?thesis by simp
qed

lemma title_text_read: "title_of_bytes (ti_title (case client_title of Set_Title m \<Rightarrow> m)) = title_text"
proof -
  let ?n = "CL_TITLE_MAX - length title_text"
  have nul: "CHR 0x00 \<notin> set title_text" "length title_text < CL_TITLE_MAX" "length title_text < TITLE_CAP"
    by (simp_all add: title_text_def)
  let ?bs = "map (\<lambda>ch. of_nat (of_char ch)) title_text @ replicate ?n (0 :: u8)"
  have "?bs[CL_TITLE_MAX - 1 := 0] = ?bs"
    using nul(2) by (simp add: list_update_append list_update_same_conv)
  moreover have "map (\<lambda>b :: u8. char_of (unat b)) ?bs = title_text @ replicate ?n (CHR 0x00)"
    by (simp add: comp_def char_byte) (simp add: char_of_def)
  moreover have "c_str (title_text @ replicate ?n (CHR 0x00)) = title_text"
    unfolding c_str_def using nul(1) by (subst takeWhile_append2) auto
  ultimately have "title_of_bytes ?bs = title_text" using nul(3) by (simp add: title_of_bytes_def snprintf_s_def)
  then show ?thesis using nul(1,2) by (simp add: client_title_def snprintf_s_short Let_def)
qed

lemma find_first: "cws \<noteq> [] \<Longrightarrow> client_wid (cws ! 0) = wid \<Longrightarrow> find_index (\<lambda>cw. client_wid cw = wid) cws = Some 0"
  by (rule find_index_SomeI) auto

text \<open>The window, its title and its buffer, in a client's empty table.\<close>

lemma window_served:
  assumes "x_inv w" "ci < 16" "c_hello (clients (xp w) ! ci)" "used (c_wins (clients (xp w) ! ci)) = {#}"
    and "\<not> ids_exhausted (stk w)" "length (windows (stk w)) < 64" "i = next_id (stk w)"
    and "cr_wid m \<noteq> 0" "cr_role m = 0" "ti_wid t = cr_wid m" "co_wid c = cr_wid m" "co_buffer c = b"
    and "b_has_fence b = 0" "b_kind b = CL_BUF_SHM" "buffer_ok b" "\<And>n. os_map_ok e n"
    and "w' = on_commit e ci c [f] (on_set_title ci t (on_create_window ci m w))"
  shows "\<exists>v a. window_by_id (stk w') i = Some (attach_buffer b a (v\<lparr>title := title_of_bytes (ti_title t)\<rparr>)) \<and>
    maps (ker w') a = Some (buffer_len b) \<and> focus_id (stk w') = i \<and> role v = WIN_NORMAL \<and> app_decorated v \<and>
    (win_x v, win_y v) = (cr_x m, cr_y m)"
proof -
  have row: "length (c_wins (clients (xp w) ! ci)) = 64" using x_invD(3) [OF assms(1,2)] by (simp add: client_ok_def row_ok_def)
  note empty = wins_empty [OF assms(4) row]
  have none: "win_find (clients (xp w) ! ci) (cr_wid m) = None" using empty(2) assms(8) .
  let ?w2 = "on_create_window ci m w"
  note sl = created_slot [OF assms(1,2,5) none empty(1) assms(6) refl assms(7) refl]
  obtain v where v: "window_by_id (stk ?w2) i = Some v" "role v = WIN_NORMAL" "app_decorated v" "(win_x v, win_y v) = (cr_x m, cr_y m)"
      "focus_id (stk ?w2) = i"
    using created_normal [OF assms(1,2,5) none empty(1) assms(6) _ refl assms(7)] assms(9) by (auto simp: role_from_wire_def)
  have inv2: "x_inv ?w2" using x_inv_create_window [OF assms(1-3,5)] .
  have find2: "win_find (clients (xp ?w2) ! ci) (cr_wid m) = Some 0"
    using sl(2,4) assms(8) find_first [of "c_wins (clients (xp ?w2) ! ci)"] by (auto simp: win_find_def the_win_def)
  let ?w3 = "on_set_title ci t ?w2"
  have w3: "?w3 = ?w2\<lparr>stk := window_modify (stk ?w2) i (\<lambda>v. v\<lparr>title := title_of_bytes (ti_title t)\<rparr>)\<rparr>"
    using find2 assms(10) sl(3) by (simp add: on_set_title_def)
  have inv3: "x_inv ?w3" using inv2 by (rule x_inv_set_title)
  have look: "window_by_id (stk ?w3) i = Some (v\<lparr>title := title_of_bytes (ti_title t)\<rparr>)"
    using v(1) by (simp add: w3 by_id_modify)
  have find3: "win_find (clients (xp ?w3) ! ci) (co_wid c) = Some 0" "i = server_id (the_win ci 0 ?w3)" "focus_id (stk ?w3) = i"
    using find2 assms(11) sl(3) v(5) by (simp_all add: w3 the_win_def)
  from commit_shows [OF inv3 assms(2) find3(1) assms(12-16) assms(17) find3(2) look refl] v(2-4) find3(3)
  show ?thesis by auto
qed

text \<open>The bytes of the file, read the way the compositor reads a buffer.\<close>

lemma gradient_read:
  assumes "mem p = Some (le_words gradient_file)" "buf_stride v = 1920" "0 \<le> x" "x < WIN_W" "0 \<le> y" "y < WIN_H"
  shows "buf_pixel mem v p cy (win_x v + x) (win_y v + cy + y) = Some (gradient_pixel x y)"
proof -
  let ?i = "nat (y * WIN_W + x)"
  have len: "length gradient_file = 153600" by (simp add: gradient_file_def gradient_fill_length)
  have off: "(win_y v + cy + y - (win_y v + cy)) * buf_stride v + 4 * (win_x v + x - win_x v) = int (4 * ?i)" "4 * ?i + 4 \<le> 4 * 153600"
    using assms(2-6) by (simp_all add: nat_add_distrib nat_mult_distrib)
  have "mem_load mem p (int n) = Some (rd32 (le_words gradient_file) n)" if "n + 4 \<le> 4 * 153600" for n
    using that len by (simp add: mem_load_def assms(1))
  from this [OF off(2)] have "mem_load mem p (int (4 * ?i)) = Some (rd32 (le_words gradient_file) (4 * ?i))" .
  moreover have "rd32 (le_words gradient_file) (4 * ?i) = gradient_file ! ?i"
    using rd32_le_words [of ?i gradient_file "[]"] len off(2) by simp
  moreover have "gradient_file ! ?i = gradient_pixel x y"
    unfolding gradient_file_def by (rule gradient_fill_nth [OF assms(3-6)]) simp
  ultimately show ?thesis by (simp only: buf_pixel_def off(1))
qed

section \<open>From the client's program to the window\<close>

lemma posts_fit:
  "encode_request client_hello \<noteq> [] \<and> length (encode_request client_hello) \<le> 256"
  "encode_request client_create \<noteq> [] \<and> length (encode_request client_create) \<le> 256"
  "encode_request client_title \<noteq> [] \<and> length (encode_request client_title) \<le> 256"
  "encode_request (client_commit 1920) \<noteq> [] \<and> length (encode_request (client_commit 1920)) \<le> 256"
  by (simp_all add: client_hello_def client_create_def client_title_def client_commit_def Let_def title_text_def le32_def snprintf_s_short)

lemma create_keeps_hello:
  "ci < length (clients (xp w)) \<Longrightarrow> c_hello (clients (xp (on_create_window ci m w)) ! ci) = c_hello (clients (xp w) ! ci)"
  by (cases rule: create_cases [of w ci m]) (simp_all add: created_def set_win_def Let_def)

text \<open>
  C10: A run of the test client that succeeds puts its window on the desktop: when the server
  drains the hello and then the other three datagrams, with room in its tables, the
  newest window is an application window at the requested place, has the focus and the
  client's title and no title bar of the server, and shows a mapping of exactly the file
  the client filled, so that every pixel the compositor reads of it is the gradient's.
\<close>

theorem client_window_appears:
  assumes "client_main a c0 = Some (0, c)" "sends_return a" "sent (trace (cl_kern c0)) = []"
    and "posts = map snd (sent (trace (cl_kern c)))"
    and "x_inv w" "ci < 16" "\<not> c_hello (clients (xp w) ! ci)" "0 \<le> c_fd (clients (xp w) ! ci)"
    and "\<not> ids_exhausted (stk w)" "length (windows (stk w)) < WIN_MAX" "\<And>n. os_map_ok e n"
    and "client_readable e ci (map (received r) (take 1 posts)) False w = (d1, w1)"
    and "client_readable e ci (map (received r) (drop 1 posts)) False w1 = (d2, w2)"
  shows "\<exists>v b. window_by_id (stk w2) (next_id (stk w)) = Some v \<and> role v = WIN_NORMAL \<and> focus_id (stk w2) = next_id (stk w) \<and>
    title v = title_text \<and> \<not> window_has_ssd v \<and> (win_x v, win_y v) = (240, 180) \<and> (buf_w v, buf_h v) = (WIN_W, WIN_H) \<and>
    buf v = Some (Mapping b) \<and> maps (ker w2) b = Some (4 * length (the (cl_files c (ans_memfd a)))) \<and>
    (\<forall>mem x y cy. mem (Mapping b) = Some (le_words (the (cl_files c (ans_memfd a)))) \<longrightarrow> x \<in> {0..<WIN_W} \<longrightarrow> y \<in> {0..<WIN_H} \<longrightarrow>
       buf_pixel mem v (Mapping b) cy (win_x v + x) (win_y v + cy + y) = Some (gradient_pixel x y))"
proof -
  note sent = client_main_sent [OF assms(1,2)]
  have posts: "posts = client_posts a" using sent assms(3,4) by (simp add: comp_def)
  have made: "cl_files c (ans_memfd a) = Some gradient_file" "4 * length gradient_file = 614400"
    using sent by (simp_all add: gradient_file_def gradient_fill_length)
  obtain w1' where h: "dispatch e ci (encode_request client_hello) [] w = (True, True, w1')" "x_inv w1'" "stk w1' = stk w"
      "c_hello (clients (xp w1') ! ci)" "c_wins (clients (xp w1') ! ci) = c_wins (clients (xp w) ! ci)"
    using hello_served [OF assms(5-8)] by blast
  have w1: "w1 = w1'"
    using assms(12) h(1) posts_fit(1) by (simp add: posts client_posts_def readable_post readable_end del: received.simps)
  obtain m t cm where msg: "client_create = Create_Window m" "client_title = Set_Title t" "client_commit 1920 = Commit cm"
    by (simp add: client_create_def client_title_def client_commit_def)
  let ?w3 = "on_set_title ci t (on_create_window ci m w1')"
  have wf: "wf_request (Create_Window m)" "wf_request (Set_Title t)" "wf_request (Commit cm)"
    using msg by (auto simp: client_create_def client_title_def client_commit_def in_int_def title_text_def Let_def snprintf_s_short)
  have len: "ci < length (clients (xp w1'))" using x_invD(1) [OF h(2)] assms(6) by simp
  have hello: "c_hello (clients (xp (on_create_window ci m w1')) ! ci)" "c_hello (clients (xp ?w3) ! ci)"
    using create_keeps_hello [OF len] h(4) by (simp_all add: on_set_title_def split: option.split)
  have d: "dispatch e ci (encode_request client_create) (map r []) w1' = (True, True, on_create_window ci m w1')"
      "dispatch e ci (encode_request client_title) (map r []) (on_create_window ci m w1') = (True, False, ?w3)"
      "dispatch e ci (encode_request (client_commit 1920)) (map r [ans_memfd a]) ?w3 = (True, True, on_commit e ci cm [r (ans_memfd a)] ?w3)"
    unfolding msg using request_served(1) [OF h(4) wf(1)] request_served(2) [OF hello(1) wf(2)] request_served(3) [OF hello(2) wf(3)] by simp_all
  have w2: "w2 = on_commit e ci cm [r (ans_memfd a)] ?w3"
    using assms(13) posts_fit(2-4) d [THEN readable_post [rotated 3]] unfolding w1
    by (simp add: posts client_posts_def readable_end del: received.simps)
  have fields: "cr_wid m = 1" "cr_role m = 0" "(cr_x m, cr_y m) = (240, 180)" "ti_wid t = 1" "co_wid cm = 1"
      "ti_title t = ti_title (case client_title of Set_Title m \<Rightarrow> m)"
    using msg by (auto simp: client_create_def client_title_def client_commit_def client_wid1_def)
  let ?b = "co_buffer cm"
  have b: "b_has_fence ?b = 0" "b_kind ?b = CL_BUF_SHM" "buffer_ok ?b" "buffer_len ?b = 614400"
      "(int_of_u32 (b_width ?b), int_of_u32 (b_height ?b), int_of_u32 (b_stride ?b)) = (480, 320, 1920)"
    using msg(3) by (auto simp: client_commit_def buffer_ok_def buffer_len_def int_of_u32_def)
  have none: "used (c_wins (clients (xp w1') ! ci)) = {#}"
    using x_invD(3) [OF assms(5,6)] assms(7) h(5) by (simp add: client_ok_def)
  obtain v base where v: "window_by_id (stk w2) (next_id (stk w)) = Some (attach_buffer ?b base (v\<lparr>title := title_text\<rparr>))"
      "maps (ker w2) base = Some 614400" "focus_id (stk w2) = next_id (stk w)" "role v = WIN_NORMAL" "app_decorated v"
      "(win_x v, win_y v) = (240, 180)"
    using window_served [OF h(2) assms(6) h(4) none _ _ refl _ fields(2) _ _ refl b(1-3) assms(11) w2] assms(9,10) fields b(4) h(3)
    by (auto simp: title_text_read)
  let ?v = "attach_buffer ?b base (v\<lparr>title := title_text\<rparr>)"
  have "buf_stride ?v = 1920" using b(5) by (simp add: attach_buffer_def)
  note read = gradient_read [OF _ this, of _ "Mapping base"]
  show ?thesis
    by (intro exI [of _ ?v] exI [of _ base]) (use v b(5) made read in \<open>auto simp: attach_buffer_def window_has_ssd_def\<close>)
qed

section \<open>The client returns\<close>

text \<open>The kernel's answers end with an error that is not an interruption, as when the server hangs up.\<close>

definition inbox_ends :: "recvmsg list \<Rightarrow> bool" where
  "inbox_ends rs \<longleftrightarrow> (\<exists>pre e. rs = pre @ [Recv_Err e] \<and> e \<noteq> EINTR)"

lemma inbox_ends_Cons: "inbox_ends (r # rs) \<longleftrightarrow> inbox_ends rs \<or> rs = [] \<and> (\<exists>e. r = Recv_Err e \<and> e \<noteq> EINTR)"
  unfolding inbox_ends_def Cons_eq_append_conv by auto

lemma cl_recv_ends:
  "inbox_ends rs \<Longrightarrow> cl_recv cap rs k = (r, rest, k') \<Longrightarrow> (case r of Ret_Data d fds \<Rightarrow> inbox_ends rest | Ret_Err e \<Rightarrow> True)"
  by (induction cap rs k rule: cl_recv.induct) (auto simp: inbox_ends_Cons Let_def split: if_splits)

lemma client_recv_ends:
  assumes "inbox_ends rs"
  shows "\<exists>n rest c'. client_recv rs c = Some (n, rest, c') \<and> (n \<noteq> None \<longrightarrow> inbox_ends rest)"
proof -
  obtain r rest k where r: "cl_recv 256 rs (cl_kern c) = (r, rest, k)" using prod_cases3 by blast
  have "\<exists>x \<in> set rs. x \<noteq> Recv_Err EINTR" using assms by (auto simp: inbox_ends_def)
  with r cl_recv_ends [OF assms r] show ?thesis by (cases r) (auto simp: client_recv_def)
qed

lemma client_events_end: "inbox_ends rs \<Longrightarrow> \<exists>c'. client_events rs c = Some c'"
proof (induction "length rs" arbitrary: rs c rule: less_induct)
  case less
  obtain n rest c1 where r: "client_recv rs c = Some (n, rest, c1)" "n \<noteq> None \<longrightarrow> inbox_ends rest"
    using client_recv_ends [OF less.prems] by blast
  show ?case
  proof (cases n)
    case None
    with r show ?thesis by (subst client_events.simps) simp
  next
    case (Some m)
    with client_recv_shrinks r have "length rest < length rs" by blast
    from less.hyps [OF this] r Some show ?thesis by (subst client_events.simps) (simp add: Let_def)
  qed
qed

text \<open>
  The test client always comes back: when none of its sends is interrupted for ever and
  the link ends some day, it returns, with status 0 or 1, whatever messages arrive before.
\<close>

theorem client_returns:
  assumes "\<forall>out \<in> {ans_hello a, ans_create a, ans_title a, ans_commit a}. retry_eintr out \<noteq> None"
    and "inbox_ends (ans_inbox a)"
  shows "\<exists>r c. client_main a c0 = Some (r, c) \<and> r \<in> {0, 1}"
proof -
  have send: "\<exists>r c'. client_send fd m fds out c = Some (r, c')" if "retry_eintr out \<noteq> None" for fd m fds out c
    using that by (auto simp: client_send_def cl_send_def)
  have shown: "\<exists>r c'. client_show a fd rest c = Some (r, c') \<and> r \<in> {0, 1}" if "inbox_ends rest" for fd rest c
  proof -
    note ends = client_events_end [OF that]
    obtain bfd st c1 where mb: "make_buffer a c = ((bfd, st), c1)" using prod_cases3 by (metis surj_pair)
    show ?thesis
    proof (cases st)
      case None
      with mb show ?thesis by (simp add: client_show_def)
    next
      case (Some stride)
      obtain r2 c2 r3 c3 r4 c4 where s: "client_send fd client_create [] (ans_create a) c1 = Some (r2, c2)"
          "client_send fd client_title [] (ans_title a) c2 = Some (r3, c3)"
          "client_send fd (client_commit stride) [bfd] (ans_commit a) c3 = Some (r4, c4)"
        using send assms(1) by (metis insertCI)
      obtain c5 where "client_events rest (client_say Committed (client_sys (k_close bfd) c4)) = Some c5" using ends by blast
      with s mb Some show ?thesis by (simp add: client_show_def)
    qed
  qed
  obtain fd c1 where cn: "connect_server a c0 = (fd, c1)" by fastforce
  obtain r2 c2 where s: "client_send fd client_hello [] (ans_hello a) c1 = Some (r2, c2)" using send assms(1) by (metis insertCI)
  obtain n rest c3 where rc: "client_recv (ans_inbox a) c2 = Some (n, rest, c3)" "n \<noteq> None \<longrightarrow> inbox_ends rest"
    using client_recv_ends [OF assms(2)] by blast
  show ?thesis
  proof (cases "(case n of None \<Rightarrow> True | Some n \<Rightarrow> n < sizeof_welcome) \<or> rd32 (cl_buf c3) 0 \<noteq> type_code CL_WELCOME")
    case True
    then show ?thesis using cn s rc by (simp add: client_main_def)
  next
    case False
    then have "inbox_ends rest" using rc(2) by (auto split: option.splits)
    from shown [OF this] False cn s rc(1) show ?thesis by (cases "fd < 0") (simp_all add: client_main_def Let_def)
  qed
qed

section \<open>A run\<close>

definition demo_welcome :: cl_event where
  "demo_welcome = Welcome \<lparr>we_magic = CL_MAGIC, we_version = 2, we_screen_w = 1920, we_screen_h = 1080, we_reconnect_token = 1\<rparr>"

text \<open>The server welcomes the client, and later hangs up.\<close>

definition demo_machine :: client_answers where
  "demo_machine =
     \<lparr>ans_override = None, ans_runtime = Some ''/run'', ans_socket = 3, ans_connect = True, ans_memfd = 5, ans_truncate = True,
      ans_mmap = True, ans_hello = [None], ans_create = [Some EINTR, None], ans_title = [None], ans_commit = [None],
      ans_inbox = [Recv \<lparr>dg_data = encode_event demo_welcome, dg_cmsgs = [], dg_ctrunc = False\<rparr>, Recv_Err E_Other]\<rparr>"

definition idle_client :: client where
  "idle_client = \<lparr>cl_kern = \<lparr>maps = Map.empty, next_map = 0, trace = []\<rparr>, cl_files = Map.empty, cl_lines = [], cl_buf = [], cl_peer = None\<rparr>"

theorem client_returns_witness: "\<exists>r c. client_main demo_machine idle_client = Some (r, c) \<and> r \<in> {0, 1}"
proof (rule client_returns)
  show "inbox_ends (ans_inbox demo_machine)" by (simp add: demo_machine_def inbox_ends_Cons)
qed (simp add: demo_machine_def)

lemma demo_main: "\<exists>c. client_main demo_machine idle_client = Some (0, c)"
proof -
  let ?bs = "encode_event demo_welcome"
  have bs: "length ?bs = 24" "rd32 ?bs 0 = 128"
    using decode_words(1) [where r = "[]"] by (simp_all add: demo_welcome_def del: le_words_simps)
  then have ne: "?bs \<noteq> []" by auto
  obtain c1 where cn: "connect_server demo_machine idle_client = (3, c1)" by (simp add: connect_server_def demo_machine_def Let_def)
  have "cl_buf c1 = []" using cn by (auto simp: connect_server_def demo_machine_def idle_client_def client_say_def Let_def)
  then obtain c3 where rc: "client_recv (ans_inbox demo_machine) (client_sys (k_send 3 (encode_request client_hello, [])) c1) = Some (Some 24, [Recv_Err E_Other], c3)"
      "cl_buf c3 = ?bs"
    using bs ne by (simp add: client_recv_def demo_machine_def Let_def)
  have "\<exists>c'. client_show demo_machine 3 [Recv_Err E_Other] c = Some (0, c')" for c
  proof -
    obtain c1 where mb: "make_buffer demo_machine c = ((5, Some 1920), c1)"
      by (simp add: make_buffer_def demo_machine_def k_mmap_def Let_def)
    show ?thesis
      unfolding client_show_def mb
      by (subst client_events.simps) (simp add: client_send_ok client_recv_def demo_machine_def)
  qed
  then show ?thesis using cn rc bs by (simp add: client_main_def client_send_ok demo_machine_def Let_def)
qed

lemma fresh_inv: "x_inv fresh_world"
  unfolding fresh_world_def
proof (rule x_inv_update_client)
  show "x_inv (empty_world window_stack_init)" by (rule x_inv_empty_world [OF stack_wf_init]) (simp add: no_mappings_def window_stack_init_def)
qed (use none_ok(1) in \<open>simp_all add: client_ok_def empty_world_def transport_create_def\<close>)

theorem client_window_appears_witness:
  "\<exists>c posts w1 w2 v. client_main demo_machine idle_client = Some (0, c) \<and> posts = map snd (sent (trace (cl_kern c))) \<and>
     w1 = snd (client_readable demo_os 0 (map (received id) (take 1 posts)) False fresh_world) \<and>
     w2 = snd (client_readable demo_os 0 (map (received id) (drop 1 posts)) False w1) \<and>
     window_by_id (stk w2) 1 = Some v \<and> title v = title_text \<and> focus_id (stk w2) = 1"
proof -
  obtain c where c: "client_main demo_machine idle_client = Some (0, c)" using demo_main by blast
  let ?posts = "map snd (sent (trace (cl_kern c)))"
  obtain d1 w1 where w1: "client_readable demo_os 0 (map (received id) (take 1 ?posts)) False fresh_world = (d1, w1)" by fastforce
  obtain d2 w2 where w2: "client_readable demo_os 0 (map (received id) (drop 1 ?posts)) False w1 = (d2, w2)" by fastforce
  have a: "sends_return demo_machine" "sent (trace (cl_kern idle_client)) = []"
    by (simp_all add: sends_return_def demo_machine_def idle_client_def)
  have f: "\<not> c_hello (clients (xp fresh_world) ! 0)" "0 \<le> c_fd (clients (xp fresh_world) ! 0)" "\<not> ids_exhausted (stk fresh_world)"
      "length (windows (stk fresh_world)) < WIN_MAX" "next_id (stk fresh_world) = 1"
    by (simp_all add: fresh_world_def empty_world_def transport_create_def no_client_def window_stack_init_def ids_exhausted_def)
  from client_window_appears [OF c a refl fresh_inv _ f(1-4) _ w1 w2] obtain v where
      "window_by_id (stk w2) 1 = Some v" "title v = title_text" "focus_id (stk w2) = 1"
    unfolding f(5) by (auto simp: demo_os_def)
  with c w1 w2 show ?thesis by (metis snd_conv)
qed

end
