(* ===== verification/Diag.thy ===== *)
theory Diag
  imports Compositor Server_Start
begin

text \<open>
  The display diagnostics: \<open>diag_firstlight\<close>, \<open>diag_pageflip\<close>, \<open>diag_seat\<close> and
  \<open>diag_gl\<close> of \<open>src/src/\<close>. Each drives the display alone: it opens a device, sets it
  up, shows something and gives everything back.

  What the machine answers is an argument. \<open>None\<close> is an access outside a framebuffer, an
  undefined shift in the set-up, or a loop whose end the answers do not reach.
\<close>

section \<open>The machine\<close>

datatype commit_flags = Test_Only | Modeset | Flip

record diag_env =
  dx_path :: "card option"
  dx_cards :: "card list"
  dx_dev :: "fd \<Rightarrow> drm_dev"
  dx_master :: bool
  dx_calloc :: bool
  dx_blob :: "u32 option"
  dx_fb :: "nat \<Rightarrow> fb_answers"
  dx_add :: bool
  dx_commit :: "nat \<Rightarrow> bool"

text \<open>
  What the program has done to it: the descriptors closed, the objects alive, whether it is
  master, and the commits with their success. \<open>dg_shown\<close> is the framebuffer on the screen,
  \<open>dg_queued\<close> the one of an accepted flip whose event has not come yet.
\<close>

record display =
  dy_kern :: "unit kern"
  dy_drm :: drm
  dy_master :: bool
  dy_commits :: "(commit_flags \<times> atomic_req \<times> bool) list"
  dy_shown :: "u32 option"
  dy_queued :: "u32 option"

definition atomic_commit :: "diag_env \<Rightarrow> commit_flags \<Rightarrow> u32 \<Rightarrow> atomic_req \<Rightarrow> display \<Rightarrow> bool \<times> display" where
  "atomic_commit e fl i req s =
     (let ok = dx_commit e (length (dy_commits s));
          s1 = s\<lparr>dy_commits := dy_commits s @ [(fl, req, ok)]\<rparr>
      in (ok, if \<not> ok then s1
              else case fl of Test_Only \<Rightarrow> s1 | Modeset \<Rightarrow> s1\<lparr>dy_shown := Some i\<rparr> | Flip \<Rightarrow> s1\<lparr>dy_queued := Some i\<rparr>))"

text \<open>How each of them begins: the device, the master lock (a failure is only logged), the target.\<close>

definition diag_target :: "diag_env \<Rightarrow> display \<Rightarrow> ((fd \<times> kms) option \<times> display) option" where
  "diag_target e s =
     (let (f, kr) = drm_open (dx_path e) (dx_cards e) (dy_kern s); s1 = s\<lparr>dy_kern := kr\<rparr>
      in if f < 0 then Some (None, s1)
         else (let s2 = s1\<lparr>dy_master := dx_master e\<rparr>
               in case kms_setup (dx_dev e f) (dx_calloc e) (dx_blob e) (dy_drm s2) of
                    None \<Rightarrow> None
                  | Some (r, k, d) \<Rightarrow> Some (if r \<noteq> 0 then None else Some (f, k), s2\<lparr>dy_drm := d\<rparr>)))"

definition diag_fb :: "diag_env \<Rightarrow> nat \<Rightarrow> kms \<Rightarrow> display \<Rightarrow> int \<times> dumb_fb \<times> display" where
  "diag_fb e i k s =
     (let (r, fb, d) = dumb_fb_create (dx_fb e i) (int (unat (hdisplay (mode k)))) (int (unat (vdisplay (mode k)))) (dy_drm s)
      in (r, fb, s\<lparr>dy_drm := d\<rparr>))"

definition diag_unfb :: "dumb_fb \<Rightarrow> display \<Rightarrow> display" where
  "diag_unfb fb s = s\<lparr>dy_drm := snd (dumb_fb_destroy fb (dy_drm s))\<rparr>"

definition diag_close :: "fd \<Rightarrow> kms \<Rightarrow> display \<Rightarrow> display" where
  "diag_close f k s = s\<lparr>dy_drm := snd (kms_finish k (dy_drm s)), dy_master := False, dy_kern := k_close f (dy_kern s)\<rparr>"

text \<open>The two halves of the modeset request; their results are checked by the first diagnostic only.\<close>

definition modeset_request :: "diag_env \<Rightarrow> kms \<Rightarrow> u32 \<Rightarrow> int \<times> atomic_req" where
  "modeset_request e k i =
     (let (r1, req1) = kms_atomic_modeset (dx_add e) k []; (r2, req2) = kms_atomic_plane (dx_add e) k i req1
      in (r1 OR r2, req2))"

section \<open>First light\<close>

definition fill_solid :: "u32 \<Rightarrow> dumb_fb \<Rightarrow> dumb_fb option" where
  "fill_solid xrgb fb = foldM (\<lambda>y. foldM (\<lambda>x fb. fb_store fb x y xrgb) [0..fb_w fb - 1]) [0..fb_h fb - 1] fb"

definition diag_firstlight :: "diag_env \<Rightarrow> display \<Rightarrow> (int \<times> display) option" where
  "diag_firstlight e s =
     (case diag_target e s of
        None \<Rightarrow> None
      | Some (None, s1) \<Rightarrow> Some (1, s1)
      | Some (Some (f, k), s1) \<Rightarrow>
          (let (r, fb, s2) = diag_fb e 0 k s1
           in if r \<noteq> 0 then Some (1, s2)
              else case fill_solid 0x00104080 fb of
                     None \<Rightarrow> None
                   | Some fb1 \<Rightarrow>
                       (let (rb, req) = modeset_request e k (fb_id fb1)
                        in if rb \<noteq> 0 then Some (1, s2)
                           else let (ok1, s3) = atomic_commit e Test_Only (fb_id fb1) req s2
                        in if \<not> ok1 then Some (1, s3)
                           else let (ok2, s4) = atomic_commit e Modeset (fb_id fb1) req s3
                        in if \<not> ok2 then Some (1, s4)
                           else Some (0, diag_close f k (diag_unfb fb1 s4)))))"

section \<open>Page flipping\<close>

text \<open>One \<open>poll\<close> of the wait for a flip event: nothing, an event of the device, a \<open>SIGINT\<close>.\<close>

datatype flip_poll = Poll_Nothing | Poll_Event bool | Poll_Signal

text \<open>\<open>on_flip\<close> clears \<open>pending\<close>; the event means the queued framebuffer is on the screen.\<close>

definition on_flip :: "bool \<times> display \<Rightarrow> bool \<times> display" where
  "on_flip ps = (False, (snd ps)\<lparr>dy_shown := dy_queued (snd ps), dy_queued := None\<rparr>)"

text \<open>\<open>while (flip.pending && running)\<close>: the result is \<open>running\<close> and the display.\<close>

fun flip_wait :: "flip_poll list \<Rightarrow> bool \<Rightarrow> bool \<times> display \<Rightarrow> (bool \<times> display) option" where
  "flip_wait ps run (pending, s) =
     (if \<not> (pending \<and> run) then Some (run, s)
      else case ps of
             [] \<Rightarrow> None
           | Poll_Nothing # ps \<Rightarrow> flip_wait ps run (pending, s)
           | Poll_Signal # ps \<Rightarrow> flip_wait ps False (pending, s)
           | Poll_Event flip # ps \<Rightarrow> flip_wait ps run (if flip then on_flip (pending, s) else (pending, s)))"

declare flip_wait.simps [simp del]

text \<open>The picture of one frame: a rectangle of 240 by 200 at column \<open>rx\<close>, half way down.\<close>

definition flip_color :: "int \<Rightarrow> int \<Rightarrow> int \<Rightarrow> int \<Rightarrow> u32" where
  "flip_color h rx x y =
     (let rw = 240; rh = 200; ry = h div 2 - rh div 2; in_y = (y \<ge> ry \<and> y < ry + rh)
      in if in_y \<and> x \<ge> rx \<and> x < rx + rw then 0x00ff7a18 else 0x00101820)"

definition flip_frame :: "int \<Rightarrow> dumb_fb \<Rightarrow> dumb_fb option" where
  "flip_frame rx fb =
     foldM (\<lambda>y. foldM (\<lambda>x f. fb_store f x y (flip_color (fb_h fb) rx x y)) [0..fb_w fb - 1]) [0..fb_h fb - 1] fb"

record flipper =
  fl_fbs :: "dumb_fb list"
  fl_front :: nat
  fl_rx :: int
  fl_dir :: int
  fl_running :: bool
  fl_display :: display

text \<open>A round: a \<open>SIGINT\<close> before its test, the polls of its wait, and the seconds since the start at its end.\<close>

record flip_round =
  rd_signal :: bool
  rd_polls :: "flip_poll list"
  rd_elapsed :: int

text \<open>The motion: bounce off the left and right edges.\<close>

definition flip_move :: "int \<Rightarrow> int \<times> int \<Rightarrow> int \<times> int" where
  "flip_move w p = (let rx = fst p + snd p in (rx, if rx \<le> 0 \<or> rx + 240 \<ge> w then - snd p else snd p))"

text \<open>The body of the loop; the boolean is false when the commit failed and the loop is left.\<close>

definition flip_body :: "diag_env \<Rightarrow> kms \<Rightarrow> flip_round \<Rightarrow> flipper \<Rightarrow> (bool \<times> flipper) option" where
  "flip_body e k r p =
     (let back = 1 - fl_front p;
          (rx, dir) = flip_move (fb_w (fl_fbs p ! back)) (fl_rx p, fl_dir p)
      in case flip_frame rx (fl_fbs p ! back) of
           None \<Rightarrow> None
         | Some fb \<Rightarrow>
             (let p1 = p\<lparr>fl_rx := rx, fl_dir := dir, fl_fbs := (fl_fbs p)[back := fb]\<rparr>;
                  (_, req) = atomic_add (dx_add e) (plane_id k) (plane_props k) ''FB_ID'' (ucast (fb_id fb)) [];
                  (ok, s) = atomic_commit e Flip (fb_id fb) req (fl_display p1)
              in if \<not> ok then Some (False, p1\<lparr>fl_display := s\<rparr>)
                 else case flip_wait (rd_polls r) (fl_running p1) (True, s) of
                        None \<Rightarrow> None
                      | Some (run, s1) \<Rightarrow>
                          Some (True, p1\<lparr>fl_display := s1, fl_front := back, fl_running := (if rd_elapsed r \<ge> 15 then False else run)\<rparr>)))"

fun flip_loop :: "diag_env \<Rightarrow> kms \<Rightarrow> flip_round list \<Rightarrow> flipper \<Rightarrow> flipper option" where
  "flip_loop e k [] p = (if fl_running p then None else Some p)"
| "flip_loop e k (r # rs) p =
     (let p0 = (if rd_signal r then p\<lparr>fl_running := False\<rparr> else p)
      in if \<not> fl_running p0 then Some p0
         else case flip_body e k r p0 of
                None \<Rightarrow> None
              | Some (goes_on, p1) \<Rightarrow> if goes_on then flip_loop e k rs p1 else Some p1)"

text \<open>Up to the first modeset, which shows buffer 0; then the loop and the cleanup.\<close>

definition flip_start :: "diag_env \<Rightarrow> display \<Rightarrow> ((fd \<times> kms \<times> flipper) option \<times> display) option" where
  "flip_start e s =
     (case diag_target e s of
        None \<Rightarrow> None
      | Some (None, s1) \<Rightarrow> Some (None, s1)
      | Some (Some (f, k), s1) \<Rightarrow>
          (let (r0, fb0, s2) = diag_fb e 0 k s1
           in if r0 \<noteq> 0 then Some (None, s2)
              else let (r1, fb1, s3) = diag_fb e 1 k s2
           in if r1 \<noteq> 0 then Some (None, s3)
              else case flip_frame 0 fb0 of
                     None \<Rightarrow> None
                   | Some fb \<Rightarrow>
                       (let (_, req) = modeset_request e k (fb_id fb);
                            (ok, s4) = atomic_commit e Modeset (fb_id fb) req s3
                        in Some (if \<not> ok then None
                                 else Some (f, k, \<lparr>fl_fbs = [fb, fb1], fl_front = 0, fl_rx = 0, fl_dir = 6, fl_running = True, fl_display = s4\<rparr>), s4))))"

definition diag_pageflip :: "diag_env \<Rightarrow> flip_round list \<Rightarrow> display \<Rightarrow> (int \<times> display) option" where
  "diag_pageflip e rs s =
     (case flip_start e s of
        None \<Rightarrow> None
      | Some (None, s1) \<Rightarrow> Some (1, s1)
      | Some (Some (f, k, p0), s1) \<Rightarrow>
          (case flip_loop e k rs p0 of
             None \<Rightarrow> None
           | Some p \<Rightarrow> Some (0, diag_close f k (fold diag_unfb (fl_fbs p) (fl_display p)))))"

section \<open>The seat\<close>

record painter =
  pt_active :: bool
  pt_painted :: bool
  pt_fd :: fd
  pt_kms :: "kms option"
  pt_fb :: "dumb_fb option"
  pt_acks :: nat
  pt_display :: display

text \<open>
  \<open>on_enable\<close> and \<open>on_disable\<close>; a disable is acknowledged at once, and with that the
  screen belongs to another session, which may show anything: \<open>dy_shown\<close> is forgotten.
\<close>

definition painter_event :: "bool \<Rightarrow> painter \<Rightarrow> painter" where
  "painter_event on p =
     (if on then p\<lparr>pt_active := True\<rparr>
      else p\<lparr>pt_active := False, pt_acks := Suc (pt_acks p), pt_display := (pt_display p)\<lparr>dy_shown := None\<rparr>\<rparr>)"

text \<open>\<open>paint\<close>: the set-up and the framebuffer are made on the first call that gets that far and then kept.\<close>

definition paint_kms :: "diag_env \<Rightarrow> painter \<Rightarrow> (kms option \<times> painter) option" where
  "paint_kms e p =
     (case pt_kms p of
        Some k \<Rightarrow> Some (Some k, p)
      | None \<Rightarrow>
          (case kms_setup (dx_dev e (pt_fd p)) (dx_calloc e) (dx_blob e) (dy_drm (pt_display p)) of
             None \<Rightarrow> None
           | Some (r, k, d) \<Rightarrow>
               (let p1 = p\<lparr>pt_display := (pt_display p)\<lparr>dy_drm := d\<rparr>\<rparr>
                in Some (if r \<noteq> 0 then (None, p1) else (Some k, p1\<lparr>pt_kms := Some k\<rparr>)))))"

definition paint_fb :: "diag_env \<Rightarrow> kms \<Rightarrow> painter \<Rightarrow> (dumb_fb option \<times> painter) option" where
  "paint_fb e k p =
     (case pt_fb p of
        Some fb \<Rightarrow> Some (Some fb, p)
      | None \<Rightarrow>
          (let (r, fb, s) = diag_fb e 0 k (pt_display p); p1 = p\<lparr>pt_display := s\<rparr>
           in if r \<noteq> 0 then Some (None, p1)
              else case fill_solid 0x00207040 fb of
                     None \<Rightarrow> None
                   | Some fb1 \<Rightarrow> Some (Some fb1, p1\<lparr>pt_fb := Some fb1\<rparr>)))"

definition paint :: "diag_env \<Rightarrow> bool \<Rightarrow> painter \<Rightarrow> (int \<times> painter) option" where
  "paint e set_master p =
     (let p0 = (if set_master then p\<lparr>pt_display := (pt_display p)\<lparr>dy_master := True\<rparr>\<rparr> else p)
      in case paint_kms e p0 of
           None \<Rightarrow> None
         | Some (None, p1) \<Rightarrow> Some (-1, p1)
         | Some (Some k, p1) \<Rightarrow>
             (case paint_fb e k p1 of
                None \<Rightarrow> None
              | Some (None, p2) \<Rightarrow> Some (-1, p2)
              | Some (Some fb, p2) \<Rightarrow>
                  (let (_, req) = modeset_request e k (fb_id fb);
                       (ok, s) = atomic_commit e Modeset (fb_id fb) req (pt_display p2);
                       p3 = p2\<lparr>pt_display := s\<rparr>
                   in Some (if \<not> ok then (-1, p3) else (0, p3\<lparr>pt_painted := True\<rparr>)))))"

text \<open>A round: a \<open>SIGINT\<close> before its test, whether the master lock is granted, the callbacks of its dispatch.\<close>

record seat_round =
  sr_signal :: bool
  sr_master :: bool
  sr_events :: "bool list"

text \<open>The body up to the wait; the boolean is false when painting failed and the loop is left.\<close>

definition seat_body :: "diag_env \<Rightarrow> seat_round \<Rightarrow> painter \<Rightarrow> (bool \<times> painter) option" where
  "seat_body e r p =
     (if pt_active p \<and> \<not> pt_painted p then
        (case paint e (sr_master r) p of None \<Rightarrow> None | Some (x, p1) \<Rightarrow> Some (x = 0, p1))
      else if \<not> pt_active p \<and> pt_painted p then
        Some (True, p\<lparr>pt_display := (pt_display p)\<lparr>dy_master := False\<rparr>, pt_painted := False\<rparr>)
      else Some (True, p))"

text \<open>Without further rounds the loop has not ended: only a signal or a failed paint ends it.\<close>

fun seat_loop :: "diag_env \<Rightarrow> seat_round list \<Rightarrow> painter \<Rightarrow> painter option" where
  "seat_loop e [] p = None"
| "seat_loop e (r # rs) p =
     (if sr_signal r then Some p
      else case seat_body e r p of
             None \<Rightarrow> None
           | Some (goes_on, p1) \<Rightarrow> if goes_on then seat_loop e rs (fold painter_event (sr_events r) p1) else Some p1)"

text \<open>The pump until the seat is active: each dispatch has a result and makes callbacks; \<open>None\<close> is a \<open>SIGINT\<close>.\<close>

fun seat_wait :: "(int \<times> bool list) option list \<Rightarrow> painter \<Rightarrow> (bool \<times> bool \<times> painter) option" where
  "seat_wait ds p =
     (if pt_active p then Some (True, True, p)
      else case ds of
             [] \<Rightarrow> None
           | None # ds \<Rightarrow> Some (True, False, p)
           | Some (r, cbs) # ds \<Rightarrow>
               (let p1 = fold painter_event cbs p in if r < 0 then Some (False, True, p1) else seat_wait ds p1))"

declare seat_wait.simps [simp del]

text \<open>
  \<open>diag_seat\<close>: the answers are whether the seat opens, the pump, what opening the device
  gives, its capabilities and the rounds. The result lists the device ids closed.
\<close>

definition diag_seat :: "diag_env \<Rightarrow> bool \<Rightarrow> (int \<times> bool list) option list \<Rightarrow> int \<times> fd \<Rightarrow> int \<Rightarrow> seat_round list \<Rightarrow>
    display \<Rightarrow> (int \<times> int list \<times> painter) option" where
  "diag_seat e seat_ok ds opened_dev caps rs s =
     (let p = \<lparr>pt_active = False, pt_painted = False, pt_fd = -1, pt_kms = None, pt_fb = None, pt_acks = 0, pt_display = s\<rparr>
      in if \<not> seat_ok then Some (1, [], p)
         else case seat_wait ds p of
                None \<Rightarrow> None
              | Some (pumped, run, p1) \<Rightarrow>
                  if \<not> pumped then Some (1, [], p1)
                  else case seat_open_device opened_dev of
                         None \<Rightarrow> Some (1, [], p1)
                       | Some (dev, f) \<Rightarrow>
                           if caps \<noteq> 0 then Some (1, [], p1\<lparr>pt_fd := f\<rparr>)
                           else case (if run then seat_loop e rs (p1\<lparr>pt_fd := f\<rparr>) else Some (p1\<lparr>pt_fd := f\<rparr>)) of
                                  None \<Rightarrow> None
                                | Some p2 \<Rightarrow>
                                    (let s1 = (case pt_fb p2 of None \<Rightarrow> pt_display p2 | Some fb \<Rightarrow> diag_unfb fb (pt_display p2));
                                         s2 = (case pt_kms p2 of None \<Rightarrow> s1 | Some k \<Rightarrow> s1\<lparr>dy_drm := snd (kms_finish k (dy_drm s1))\<rparr>)
                                     in Some (0, [dev], p2\<lparr>pt_display := s2\<rparr>)))"

end
