(* ===== verification/Diag_Spec.thy ===== *)
theory Diag_Spec
  imports Diag Display_Objects Server_Boot
begin

text \<open>
  What the display diagnostics show, that they never draw on what is shown, and that they
  give back what they took.
\<close>

section \<open>Painting a framebuffer\<close>

text \<open>The loop all of them use: every pixel gets the colour of its place.\<close>

lemma rows_render:
  "renders fb0 (foldM (\<lambda>y. foldM (\<lambda>x fb. fb_store fb x y (c x y)) [0..fb_w fb0 - 1]) [0..fb_h fb0 - 1])
     (apply_on (screen fb0) (\<lambda>x y _. c x y))"
proof -
  have row: "renders fb0 (foldM (\<lambda>x fb. fb_store fb x y (c x y)) [0..fb_w fb0 - 1])
      (apply_on (\<Union>x \<in> set [0..fb_w fb0 - 1]. {(x, y)}) (\<lambda>x y _. c x y))" if "y \<in> set [0..fb_h fb0 - 1]" for y
    using that by (intro fbuf.draws_loop fbuf.draws_store) (auto simp: screen_def)
  have "renders fb0 (foldM (\<lambda>y. foldM (\<lambda>x fb. fb_store fb x y (c x y)) [0..fb_w fb0 - 1]) [0..fb_h fb0 - 1])
      (apply_on (\<Union>y \<in> set [0..fb_h fb0 - 1]. \<Union>x \<in> set [0..fb_w fb0 - 1]. {(x, y)}) (\<lambda>x y _. c x y))"
    by (intro fbuf.draws_loop row) auto
  moreover have "(\<Union>y \<in> set [0..fb_h fb0 - 1]. \<Union>x \<in> set [0..fb_w fb0 - 1]. {(x, y)}) = screen fb0"
    by (auto simp: screen_def)
  ultimately show ?thesis by simp
qed

lemma solid_renders: "renders fb0 (fill_solid col) (apply_on (screen fb0) (\<lambda>_ _ _. col))"
  by (rule renders_size [OF _ rows_render [of fb0 "\<lambda>_ _. col"]]) (simp add: fill_solid_def)

lemma frame_renders: "renders fb0 (flip_frame rx) (apply_on (screen fb0) (\<lambda>x y _. flip_color (fb_h fb0) rx x y))"
  by (rule renders_size [OF _ rows_render [of fb0 "flip_color (fb_h fb0) rx"]]) (simp add: flip_frame_def)

lemma painted:
  assumes "fb_good fb"
  shows "\<exists>fb'. fill_solid col fb = Some fb' \<and> fb_like fb fb' \<and> picture fb' = apply_on (screen fb) (\<lambda>_ _ _. col) (picture fb)"
    and "\<exists>fb'. flip_frame rx fb = Some fb' \<and> fb_like fb fb' \<and>
      picture fb' = apply_on (screen fb) (\<lambda>x y _. flip_color (fb_h fb) rx x y) (picture fb)"
  using solid_renders [of fb col] frame_renders [of fb rx] fb_like_refl [OF assms] by (simp_all add: draws_def)

context drawing
begin

lemma solid: "P fb \<Longrightarrow> fill_solid col fb = Some fb' \<Longrightarrow> P fb'"
  unfolding fill_solid_def by (erule foldM_inv [of P, rotated]) (auto elim: stores)

lemma frame:
  assumes "P fb" "flip_frame rx fb = Some fb'" shows "P fb'"
proof -
  have row: "P f \<Longrightarrow> foldM (\<lambda>x f. fb_store f x y (c x)) xs f = Some f' \<Longrightarrow> P f'" for y c xs f f'
    by (rule foldM_inv [of P]) (rule store)
  show ?thesis using foldM_inv [of P, OF row assms(1) assms(2) [unfolded flip_frame_def]] .
qed

end

section \<open>Taking and giving back\<close>

text \<open>The kernel hands out free, non-zero ids for the blob and the two framebuffers.\<close>

definition fresh_env :: "diag_env \<Rightarrow> drm \<Rightarrow> bool" where
  "fresh_env e d \<longleftrightarrow> (\<forall>b. dx_blob e = Some b \<longrightarrow> b \<noteq> 0 \<and> b \<notin> d_blobs d) \<and> fresh_answers (dx_fb e 0) d \<and>
     (\<forall>b w h fb d1. dumb_fb_create (dx_fb e 0) w h (d\<lparr>d_blobs := b\<rparr>) = (0, fb, d1) \<longrightarrow> fresh_answers (dx_fb e 1) d1)"

lemma target_took:
  assumes "diag_target e s = Some (Some (f, k), s1)"
  shows "kms_setup (dx_dev e f) (dx_calloc e) (dx_blob e) (dy_drm s) = Some (0, k, dy_drm s1)"
    "dy_commits s1 = dy_commits s" "dy_shown s1 = dy_shown s" "dy_queued s1 = dy_queued s"
  using assms by (auto simp: diag_target_def Let_def split: prod.splits if_splits option.splits)

lemma diag_fb_took:
  assumes "diag_fb e i k s = (r, fb, s')"
  shows "dumb_fb_create (dx_fb e i) (int (unat (hdisplay (mode k)))) (int (unat (vdisplay (mode k)))) (dy_drm s) = (r, fb, dy_drm s')"
    "dy_commits s' = dy_commits s" "dy_shown s' = dy_shown s" "dy_queued s' = dy_queued s"
  using assms by (auto simp: diag_fb_def Let_def split: prod.splits)

lemma commit_sel [simp]:
  "dy_drm (snd (atomic_commit e fl i req s)) = dy_drm s" "dy_kern (snd (atomic_commit e fl i req s)) = dy_kern s"
  "dy_master (snd (atomic_commit e fl i req s)) = dy_master s"
  by (cases fl; simp add: atomic_commit_def Let_def)+

lemma diag_cleanup: "dy_drm (diag_close f k (fold diag_unfb fbs s)) = display_cleanup k fbs (dy_drm s)"
proof -
  have "dy_drm (fold diag_unfb fbs s) = fold (\<lambda>fb d. snd (dumb_fb_destroy fb d)) fbs (dy_drm s)"
    by (induction fbs arbitrary: s) (simp_all add: diag_unfb_def)
  then show ?thesis by (simp add: diag_close_def display_cleanup_def)
qed

section \<open>Page flipping\<close>

lemma flip_wait_result:
  "flip_wait ps run (pending, s) = Some (run', s') \<Longrightarrow>
   dy_drm s' = dy_drm s \<and> dy_commits s' = dy_commits s \<and> (run' \<longrightarrow> run \<and> s' = (if pending then s\<lparr>dy_shown := dy_queued s, dy_queued := None\<rparr> else s))"
proof (induction ps arbitrary: run pending s)
  case Nil
  then show ?case by (subst (asm) flip_wait.simps) (auto split: if_splits)
next
  case (Cons q ps)
  show ?case
  proof (cases "pending \<and> run")
    case False
    with Cons.prems show ?thesis by (subst (asm) flip_wait.simps) auto
  next
    case True
    with Cons.prems Cons.IH [of run pending s] Cons.IH [of False pending s] Cons.IH [of run False "s\<lparr>dy_shown := dy_queued s, dy_queued := None\<rparr>"]
    show ?thesis by (subst (asm) flip_wait.simps) (auto simp: on_flip_def split: flip_poll.splits if_splits)
  qed
qed

text \<open>The motion: steps of 6 between the edges, turning round at both.\<close>

definition moving :: "int \<Rightarrow> int \<times> int \<Rightarrow> bool" where
  "moving w p \<longleftrightarrow> snd p \<in> {6, -6} \<and> 0 \<le> fst p \<and> 6 dvd fst p \<and> fst p + 240 < max w 241 + 6 \<and>
     (fst p = 0 \<longrightarrow> snd p = 6) \<and> (fst p > 0 \<longrightarrow> fst p + 240 \<ge> w \<longrightarrow> snd p = -6)"

lemma moving_start: "0 \<le> w \<Longrightarrow> moving w (0, 6)"
  by (simp add: moving_def)

lemma moving_step: "moving w p \<Longrightarrow> moving w (flip_move w p)"
proof -
  assume m: "moving w p"
  obtain rx dir where p: "p = (rx, dir)" by fastforce
  obtain q where q: "rx = 6 * q" "0 \<le> q" using m p by (auto simp: moving_def elim!: dvdE)
  from m show ?thesis unfolding p q(1) using q(2) by (auto simp: moving_def flip_move_def Let_def)
qed

text \<open>What holds at the head of the loop.\<close>

definition flip_inv :: "drm \<Rightarrow> kms \<Rightarrow> flipper \<Rightarrow> bool" where
  "flip_inv d0 k p \<longleftrightarrow> holds d0 (mode_blob k) (fl_fbs p) (dy_drm (fl_display p)) \<and> fl_front p \<le> 1 \<and>
     (\<forall>fb \<in> set (fl_fbs p). fb_good fb \<and> fb_w fb = int (unat (hdisplay (mode k))) \<and> fb_h fb = int (unat (vdisplay (mode k)))) \<and>
     fb_id (fl_fbs p ! 0) \<noteq> fb_id (fl_fbs p ! 1) \<and> moving (int (unat (hdisplay (mode k)))) (fl_rx p, fl_dir p) \<and>
     (fl_running p \<longrightarrow> dy_queued (fl_display p) = None \<and> dy_shown (fl_display p) = Some (fb_id (fl_fbs p ! fl_front p)))"

lemma two_fbs: "holds d0 b fbs d \<Longrightarrow> i \<le> 1 \<Longrightarrow> fbs ! i \<in> set fbs \<and> length fbs = 2 \<and> (i = 0 \<or> i = 1)"
  by (cases i) (auto simp: holds_def)

text \<open>A frame drawn into one of the two framebuffers.\<close>

lemma frame_drawn:
  assumes "holds d0 b fbs d" "i \<le> 1" "\<forall>fb \<in> set fbs. fb_good fb \<and> fb_w fb = w \<and> fb_h fb = h"
  shows "\<exists>fb. flip_frame rx (fbs ! i) = Some fb \<and> holds d0 b (fbs[i := fb]) d \<and>
    (\<forall>fb' \<in> set (fbs[i := fb]). fb_good fb' \<and> fb_w fb' = w \<and> fb_h fb' = h) \<and> fb_id fb = fb_id (fbs ! i) \<and>
    picture fb = (\<lambda>x y. if (x, y) \<in> screen fb then flip_color h rx x y else 0)"
proof -
  have x: "fb_good (fbs ! i)" "fb_w (fbs ! i) = w" "fb_h (fbs ! i) = h" using two_fbs [OF assms(1,2)] assms(3) by auto
  obtain fb where fb: "flip_frame rx (fbs ! i) = Some fb" "fb_like (fbs ! i) fb"
      "picture fb = apply_on (screen (fbs ! i)) (\<lambda>x y _. flip_color (fb_h (fbs ! i)) rx x y) (picture (fbs ! i))"
    using painted(2) [OF x(1)] by blast
  have same: "same_object (fbs ! i) fb" using object_drawing.frame [of "fbs ! i", OF _ fb(1)] by (simp add: same_object_def)
  have like: "fb_good fb" "fb_w fb = w" "fb_h fb = h" "screen fb = screen (fbs ! i)" using fb(2) x fb_like_sel fb_like_good by auto
  moreover have "picture fb = (\<lambda>x y. if (x, y) \<in> screen fb then flip_color h rx x y else 0)"
    by (simp add: fb(3) like(4) apply_on_def fun_eq_iff x(3)) (simp add: picture_def)
  ultimately show ?thesis
    using fb(1) holds_drawn [OF assms(1) _ same] assms(2,3) same
    by (auto simp: same_object_def dest!: set_update_subset_insert [THEN subsetD])
qed

lemma flip_body_inv:
  assumes "flip_inv d0 k p" "fl_running p"
  shows "\<exists>fb. flip_frame (fst (flip_move (int (unat (hdisplay (mode k)))) (fl_rx p, fl_dir p))) (fl_fbs p ! (1 - fl_front p)) = Some fb"
    and "flip_body e k r p = Some (goes_on, p') \<Longrightarrow> flip_inv d0 k p'"
proof -
  let ?w = "int (unat (hdisplay (mode k)))" and ?h = "int (unat (vdisplay (mode k)))" and ?b = "1 - fl_front p"
  have inv: "holds d0 (mode_blob k) (fl_fbs p) (dy_drm (fl_display p))" "fl_front p \<le> 1"
      "\<forall>fb \<in> set (fl_fbs p). fb_good fb \<and> fb_w fb = ?w \<and> fb_h fb = ?h" "fb_id (fl_fbs p ! 0) \<noteq> fb_id (fl_fbs p ! 1)"
      "moving ?w (fl_rx p, fl_dir p)" "dy_queued (fl_display p) = None" "dy_shown (fl_display p) = Some (fb_id (fl_fbs p ! fl_front p))"
    using assms by (simp_all add: flip_inv_def)
  obtain rx dir where mv: "flip_move ?w (fl_rx p, fl_dir p) = (rx, dir)" by fastforce
  have bk: "?b \<le> 1" by simp
  obtain fb where fb: "flip_frame rx (fl_fbs p ! ?b) = Some fb" "holds d0 (mode_blob k) ((fl_fbs p)[?b := fb]) (dy_drm (fl_display p))"
      "\<forall>fb' \<in> set ((fl_fbs p)[?b := fb]). fb_good fb' \<and> fb_w fb' = ?w \<and> fb_h fb' = ?h" "fb_id fb = fb_id (fl_fbs p ! ?b)"
    using frame_drawn [OF inv(1) bk inv(3)] by blast
  then show "\<exists>fb. flip_frame (fst (flip_move ?w (fl_rx p, fl_dir p))) (fl_fbs p ! ?b) = Some fb" unfolding mv fst_conv by blast
  assume step: "flip_body e k r p = Some (goes_on, p')"
  have w: "fb_w (fl_fbs p ! ?b) = ?w" using two_fbs [OF inv(1) bk] inv(3) by blast
  obtain z req where add: "atomic_add (dx_add e) (plane_id k) (plane_props k) ''FB_ID'' (ucast (fb_id fb)) [] = (z, req)" by fastforce
  obtain ok s where c: "atomic_commit e Flip (fb_id fb) req (fl_display p) = (ok, s)" by fastforce
  have s: "dy_drm s = dy_drm (fl_display p)" "dy_shown s = dy_shown (fl_display p)"
      "dy_queued s = (if ok then Some (fb_id fb) else dy_queued (fl_display p))"
    using c commit_sel(1) [of e Flip "fb_id fb" req "fl_display p"] by (auto simp: atomic_commit_def Let_def)
  have mv2: "moving ?w (rx, dir)" using moving_step [OF inv(5)] unfolding mv .
  have len: "length (fl_fbs p) = 2" "fl_front p = 0 \<or> fl_front p = 1" using two_fbs [OF inv(1,2)] by auto
  have ids: "fb_id ((fl_fbs p)[?b := fb] ! 0) \<noteq> fb_id ((fl_fbs p)[?b := fb] ! 1)"
      "fb_id ((fl_fbs p)[?b := fb] ! fl_front p) = fb_id (fl_fbs p ! fl_front p)" "fb_id ((fl_fbs p)[?b := fb] ! ?b) = fb_id fb"
    using len fb(4) inv(4) by auto
  have body: "flip_body e k r p =
      (let p1 = p\<lparr>fl_rx := rx, fl_dir := dir, fl_fbs := (fl_fbs p)[?b := fb]\<rparr>
       in if \<not> ok then Some (False, p1\<lparr>fl_display := s\<rparr>)
          else case flip_wait (rd_polls r) (fl_running p) (True, s) of
                 None \<Rightarrow> None
               | Some (run, s1) \<Rightarrow>
                   Some (True, p1\<lparr>fl_display := s1, fl_front := ?b, fl_running := (if rd_elapsed r \<ge> 15 then False else run)\<rparr>))"
    unfolding flip_body_def Let_def w mv prod.case fb(1) option.case by (simp add: add c)
  show "flip_inv d0 k p'"
  proof (cases ok)
    case False
    with step body s fb inv mv2 ids show ?thesis by (auto simp: flip_inv_def Let_def)
  next
    case True
    then obtain run s1 where wt: "flip_wait (rd_polls r) (fl_running p) (True, s) = Some (run, s1)"
        "p' = p\<lparr>fl_rx := rx, fl_dir := dir, fl_fbs := (fl_fbs p)[?b := fb], fl_display := s1, fl_front := ?b,
           fl_running := (if rd_elapsed r \<ge> 15 then False else run)\<rparr>"
      using step body by (auto simp: Let_def split: option.splits)
    from flip_wait_result [OF wt(1)] wt(2) True s fb inv mv2 ids show ?thesis by (auto simp: flip_inv_def)
  qed
qed

text \<open>The kernel grants framebuffers of the mode's size.\<close>

definition granted :: "diag_env \<Rightarrow> kms \<Rightarrow> bool" where
  "granted e k \<longleftrightarrow> (\<forall>i \<in> {0, 1}. grants (dx_fb e i) (int (unat (hdisplay (mode k)))) (int (unat (vdisplay (mode k)))))"

lemma granted_create:
  assumes "granted e k" "i \<in> {0, 1}" "dumb_fb_create (dx_fb e i) (int (unat (hdisplay (mode k)))) (int (unat (vdisplay (mode k)))) d = (r, fb, d')"
  shows "r = 0 \<and> fb_good fb"
proof -
  have b: "int (unat u) \<le> 65535" for u :: u16 using uint_lt2p [of u] by simp
  have "grants (dx_fb e i) (int (unat (hdisplay (mode k)))) (int (unat (vdisplay (mode k))))" using assms(1,2) by (auto simp: granted_def)
  from granted_fb [OF this _ b _ b, of d] assms(3) show ?thesis by auto
qed

lemma create_size: "dumb_fb_create a w h d = (r, fb, d') \<Longrightarrow> r = 0 \<Longrightarrow> fb_w fb = w \<and> fb_h fb = h"
  by (auto simp: dumb_fb_create_def zero_fb_def Let_def split: option.splits if_splits prod.splits)

lemma flip_start_inv:
  assumes "flip_start e s = Some (Some (f, k, p0), s1)" "fresh_env e (dy_drm s)" "granted e k" "dy_queued s = None"
  shows "flip_inv (dy_drm s) k p0 \<and> fl_running p0"
proof -
  let ?w = "int (unat (hdisplay (mode k)))" and ?h = "int (unat (vdisplay (mode k)))"
  obtain t0 where t0: "diag_target e s = Some (Some (f, k), t0)"
    using assms(1) by (auto simp: flip_start_def Let_def split: option.splits prod.splits if_splits)
  obtain r0 x t1 where c0: "diag_fb e 0 k t0 = (r0, x, t1)" using prod_cases3 by blast
  obtain r1 y t2 where c1: "diag_fb e 1 k t1 = (r1, y, t2)" using prod_cases3 by blast
  note tg = target_took [OF t0] and d0 = diag_fb_took [OF c0] and d1 = diag_fb_took [OF c1]
  have g: "r0 = 0" "fb_good x" "r1 = 0" "fb_good y" using granted_create [OF assms(3) _ d0(1)] granted_create [OF assms(3) _ d1(1)] by auto
  obtain fb where fb: "flip_frame 0 x = Some fb" using painted(2) [OF g(2)] by blast
  obtain z req ok s4 where req: "modeset_request e k (fb_id fb) = (z, req)" "atomic_commit e Modeset (fb_id fb) req t2 = (ok, s4)" by fastforce
  have p0: "ok" "p0 = \<lparr>fl_fbs = [fb, y], fl_front = 0, fl_rx = 0, fl_dir = 6, fl_running = True, fl_display = s4\<rparr>"
    using assms(1) t0 c0 c1 g(1,3) fb req by (auto simp: flip_start_def split: if_splits)
  have s4: "dy_drm s4 = dy_drm t2" "dy_queued s4 = None" "dy_shown s4 = Some (fb_id fb)"
    using req(2) p0(1) commit_sel(1) [of e Modeset "fb_id fb" req t2] assms(4) tg d0 d1 by (auto simp: atomic_commit_def Let_def)
  have "display_start (dx_dev e f) (dx_calloc e) (dx_blob e) (dx_fb e 0) (dx_fb e 1) (dy_drm s) = Some (Some (k, [x, y]), dy_drm t2)"
    unfolding display_start_def tg(1) option.case prod.case create_fbs.simps d0(1) d1(1) Let_def g by simp
  from start_holds [OF this] assms(2) have h0: "holds (dy_drm s) (mode_blob k) [x, y] (dy_drm t2)" by (auto simp: fresh_env_def)
  have same: "same_object x fb" using object_drawing.frame [of x, OF _ fb] by (simp add: same_object_def)
  from holds_drawn [OF h0, of 0] same have h: "holds (dy_drm s) (mode_blob k) [fb, y] (dy_drm t2)" by simp
  have held: "held x" "held y" using h0 g(2,4) by (auto simp: holds_def bare_def fb_good_def)
  then have ids: "fb_id fb \<noteq> fb_id y" using h0 same by (auto simp: holds_def foreign_def with_fb_def same_object_def)
  have size: "fb_w x = ?w" "fb_h x = ?h" "fb_w y = ?w" "fb_h y = ?h" using create_size [OF d0(1)] create_size [OF d1(1)] g(1,3) by simp_all
  obtain fb' where "flip_frame 0 x = Some fb'" "fb_like x fb'" using painted(2) [OF g(2)] by blast
  then have like: "fb_good fb" "fb_w fb = ?w" "fb_h fb = ?h" using fb fb_like_good fb_like_sel size by auto
  show ?thesis unfolding flip_inv_def p0(2) using h s4 ids like size g(4) moving_start [of ?w] by simp
qed

text \<open>It starts when the set-up finds a target, the kernel grants the framebuffers and takes the first commit.\<close>

lemma flip_start_ok:
  assumes "diag_target e s = Some (Some (f, k), t0)" "granted e k" "\<And>n. dx_commit e n"
  shows "\<exists>p0 s1. flip_start e s = Some (Some (f, k, p0), s1)"
proof -
  obtain r0 x t1 where c0: "diag_fb e 0 k t0 = (r0, x, t1)" using prod_cases3 by blast
  obtain r1 y t2 where c1: "diag_fb e 1 k t1 = (r1, y, t2)" using prod_cases3 by blast
  have g: "r0 = 0" "fb_good x" "r1 = 0"
    using granted_create [OF assms(2) _ diag_fb_took(1) [OF c0]] granted_create [OF assms(2) _ diag_fb_took(1) [OF c1]] by auto
  obtain fb where "flip_frame 0 x = Some fb" using painted(2) [OF g(2)] by blast
  with assms(1,3) c0 c1 g show ?thesis by (simp add: flip_start_def atomic_commit_def Let_def split: prod.split)
qed

section \<open>A machine\<close>

definition demo_diag :: diag_env where
  "demo_diag = \<lparr>dx_path = Some (demo_card 7 1), dx_cards = [], dx_dev = (\<lambda>_. demo_dev), dx_master = True, dx_calloc = True, dx_blob = Some 3,
     dx_fb = (\<lambda>i. full_hd (of_nat i + 5)), dx_add = True, dx_commit = (\<lambda>_. True)\<rparr>"

definition dark_display :: display where
  "dark_display = \<lparr>dy_kern = \<lparr>maps = Map.empty, next_map = 0, trace = []\<rparr>, dy_drm = no_drm, dy_master = False, dy_commits = [],
     dy_shown = None, dy_queued = None\<rparr>"

lemma demo_fresh: "fresh_env demo_diag no_drm"
proof -
  have "fresh_answers (full_hd 6) d1" if "dumb_fb_create (full_hd 5) w h (no_drm\<lparr>d_blobs := b\<rparr>) = (0, fb, d1)" for w h b fb d1
    using that by (auto simp: dumb_fb_create_def full_hd_def no_drm_def fresh_answers_def Let_def)
  then show ?thesis by (auto simp: fresh_env_def demo_diag_def fresh_answers_def full_hd_def no_drm_def)
qed

lemma demo_granted: "hdisplay (mode k) = 1920 \<Longrightarrow> vdisplay (mode k) = 1080 \<Longrightarrow> granted demo_diag k"
  by (auto simp: granted_def demo_diag_def grants_def full_hd_def)

lemma demo_target:
  "\<exists>k t. diag_target demo_diag dark_display = Some (Some (7, k), t) \<and> granted demo_diag k"
proof -
  obtain k d where k: "kms_setup demo_dev True (Some 3) no_drm = Some (0, k, d)" "mode k = mode_60" using demo_setup by blast
  have "drm_open (dx_path demo_diag) (dx_cards demo_diag) kr = (7, kr)" for kr :: "unit kern"
    by (simp add: demo_diag_def drm_open_def demo_card_def card_caps_def drm_set_caps_def)
  then have "\<exists>t. diag_target demo_diag dark_display = Some (Some (7, k), t)"
    using k(1) by (simp add: diag_target_def Let_def) (simp add: demo_diag_def dark_display_def)
  moreover have "granted demo_diag k" using demo_granted [of k] k(2) by (simp add: mode_60_def)
  ultimately show ?thesis by blast
qed

lemma demo_start: "\<exists>k p0 s1. flip_start demo_diag dark_display = Some (Some (7, k, p0), s1) \<and> granted demo_diag k"
proof -
  obtain k t where t: "diag_target demo_diag dark_display = Some (Some (7, k), t)" "granted demo_diag k" using demo_target by blast
  have "dx_commit demo_diag n" for n by (simp add: demo_diag_def)
  from flip_start_ok [OF t this] t(2) show ?thesis by blast
qed

section \<open>Runs\<close>

text \<open>The states at the head of the loop, over any rounds.\<close>

inductive flips :: "diag_env \<Rightarrow> kms \<Rightarrow> flipper \<Rightarrow> flipper \<Rightarrow> bool" for e k p0 where
  flips_start: "flips e k p0 p0"
| flips_round: "flips e k p0 p \<Longrightarrow> fl_running p \<Longrightarrow> flip_body e k r p = Some (True, p') \<Longrightarrow> flips e k p0 p'"

lemma flips_inv: "flips e k p0 p \<Longrightarrow> flip_inv d0 k p0 \<Longrightarrow> flip_inv d0 k p"
  by (induction rule: flips.induct) (blast intro: flip_body_inv(2))+

lemma flip_loop_inv: "flip_loop e k rs p = Some p' \<Longrightarrow> flip_inv d0 k p \<Longrightarrow> flip_inv d0 k p'"
proof (induction rs arbitrary: p)
  case (Cons r rs)
  let ?p = "if rd_signal r then p\<lparr>fl_running := False\<rparr> else p"
  have inv: "flip_inv d0 k ?p" using Cons.prems(2) by (auto simp: flip_inv_def)
  show ?case
  proof (cases "fl_running ?p")
    case False
    with Cons.prems inv show ?thesis by (simp add: Let_def)
  next
    case True
    then obtain b p1 where b: "flip_body e k r ?p = Some (b, p1)" "if b then flip_loop e k rs p1 = Some p' else p' = p1"
      using Cons.prems(1) by (auto simp: Let_def split: option.splits if_splits)
    from flip_body_inv(2) [OF inv True b(1)] b(2) Cons.IH show ?thesis by (cases b) auto
  qed
qed (simp split: if_splits)

text \<open>A round draws into the buffer it flips to and leaves the other one alone.\<close>

lemma flip_body_draws:
  assumes "flip_inv d0 k p" "flip_body e k r p = Some (b, p1)"
    and "flip_frame (fst (flip_move (int (unat (hdisplay (mode k)))) (fl_rx p, fl_dir p))) (fl_fbs p ! (1 - fl_front p)) = Some fb"
  shows "fl_fbs p1 = (fl_fbs p)[1 - fl_front p := fb]"
proof -
  let ?w = "int (unat (hdisplay (mode k)))" and ?b = "1 - fl_front p"
  have w: "fb_w (fl_fbs p ! ?b) = ?w"
    using assms(1) two_fbs [of d0 "mode_blob k" "fl_fbs p" "dy_drm (fl_display p)" ?b] by (auto simp: flip_inv_def)
  obtain rx dir where mv: "flip_move ?w (fl_rx p, fl_dir p) = (rx, dir)" by fastforce
  show ?thesis
    using assms(2) unfolding flip_body_def Let_def w mv prod.case assms(3) [unfolded mv fst_conv] option.case
    by (auto split: prod.splits if_splits option.splits)
qed

text \<open>
  C18: The page-flip diagnostic draws no frame the viewer sees being drawn: at the start of every
  round no flip is pending and the buffer it draws into is not the one on the screen; the
  drawing succeeds, leaves exactly the frame's picture and touches no other buffer; and the
  rectangle has moved one step, in the direction it turns to at the edges, and is on the
  screen but for at most five columns.
\<close>

theorem pageflip_safe:
  assumes "flip_start e s = Some (Some (f, k, p0), s1)" "fresh_env e (dy_drm s)" "granted e k" "dy_queued s = None"
    and "flips e k p0 p" "fl_running p" "W = int (unat (hdisplay (mode k)))" "back_fb = fl_fbs p ! (1 - fl_front p)"
  shows "dy_queued (fl_display p) = None \<and> dy_shown (fl_display p) \<noteq> Some (fb_id back_fb) \<and>
    (\<exists>rx fb. rx = fst (flip_move W (fl_rx p, fl_dir p)) \<and> flip_frame rx back_fb = Some fb \<and>
       picture fb = (\<lambda>x y. if (x, y) \<in> screen fb then flip_color (fb_h fb) rx x y else 0) \<and>
       (\<forall>r b p1. flip_body e k r p = Some (b, p1) \<longrightarrow> fl_fbs p1 = (fl_fbs p)[1 - fl_front p := fb]) \<and>
       \<bar>rx - fl_rx p\<bar> = 6 \<and> 0 \<le> rx \<and> rx + 240 \<le> max W 241 + 5)"
proof -
  have flip: "flip_inv (dy_drm s) k p" using flips_inv [OF assms(5)] flip_start_inv [OF assms(1-4)] by blast
  from flip have inv: "holds (dy_drm s) (mode_blob k) (fl_fbs p) (dy_drm (fl_display p))" "fl_front p \<le> 1"
      "\<forall>fb \<in> set (fl_fbs p). fb_good fb \<and> fb_w fb = W \<and> fb_h fb = int (unat (vdisplay (mode k)))"
      "fb_id (fl_fbs p ! 0) \<noteq> fb_id (fl_fbs p ! 1)" "moving W (fl_rx p, fl_dir p)"
      "dy_queued (fl_display p) = None" "dy_shown (fl_display p) = Some (fb_id (fl_fbs p ! fl_front p))"
    using assms(6) unfolding flip_inv_def assms(7) by blast+
  obtain rx dir where mv: "flip_move W (fl_rx p, fl_dir p) = (rx, dir)" by fastforce
  have "1 - fl_front p \<le> 1" by simp
  from frame_drawn [OF inv(1) this inv(3)] obtain fb where fb: "flip_frame rx back_fb = Some fb"
      "picture fb = (\<lambda>x y. if (x, y) \<in> screen fb then flip_color (int (unat (vdisplay (mode k)))) rx x y else 0)"
      "\<forall>fb' \<in> set ((fl_fbs p)[1 - fl_front p := fb]). fb_h fb' = int (unat (vdisplay (mode k)))"
    unfolding assms(8) by blast
  have "fb \<in> set ((fl_fbs p)[1 - fl_front p := fb])" using inv(1) by (intro set_update_memI) (auto simp: holds_def)
  then have h: "fb_h fb = int (unat (vdisplay (mode k)))" using fb(3) by blast
  have rx: "\<bar>rx - fl_rx p\<bar> = 6 \<and> 0 \<le> rx \<and> rx + 240 \<le> max W 241 + 5"
    using moving_step [OF inv(5)] inv(5) mv by (auto simp: moving_def flip_move_def Let_def)
  have "fl_front p = 0 \<or> fl_front p = 1" using inv(2) by auto
  then have ids: "fb_id (fl_fbs p ! fl_front p) \<noteq> fb_id back_fb" using inv(4) assms(8) by auto
  have "picture fb = (\<lambda>x y. if (x, y) \<in> screen fb then flip_color (fb_h fb) rx x y else 0)" unfolding h by (rule fb(2))
  moreover have "\<forall>r b p1. flip_body e k r p = Some (b, p1) \<longrightarrow> fl_fbs p1 = (fl_fbs p)[1 - fl_front p := fb]"
    using flip_body_draws [OF flip, of e] fb(1) mv unfolding assms(7,8) by simp
  ultimately have "\<exists>fb. flip_frame rx back_fb = Some fb \<and> picture fb = (\<lambda>x y. if (x, y) \<in> screen fb then flip_color (fb_h fb) rx x y else 0) \<and>
      (\<forall>r b p1. flip_body e k r p = Some (b, p1) \<longrightarrow> fl_fbs p1 = (fl_fbs p)[1 - fl_front p := fb])"
    using fb(1) by blast
  then show ?thesis unfolding mv fst_conv using inv(6,7) ids rx by auto
qed

theorem pageflip_safe_witness:
  "\<exists>k p0 s1. flip_start demo_diag dark_display = Some (Some (7, k, p0), s1) \<and>
     dy_shown (fl_display p0) \<noteq> Some (fb_id (fl_fbs p0 ! (1 - fl_front p0)))"
proof -
  obtain k p0 s1 where st: "flip_start demo_diag dark_display = Some (Some (7, k, p0), s1)" "granted demo_diag k" using demo_start by blast
  have d: "fresh_env demo_diag (dy_drm dark_display)" "dy_queued dark_display = None" using demo_fresh by (simp_all add: dark_display_def)
  have "fl_running p0" using flip_start_inv [OF st(1) d(1) st(2) d(2)] by blast
  from pageflip_safe [OF st(1) d(1) st(2) d(2) flips_start this refl refl] st(1) show ?thesis by blast
qed

text \<open>The wait ends with a flip event or a signal; the loop with a signal, the clock, or a refused commit.\<close>

definition wait_ends :: "flip_poll list \<Rightarrow> bool" where
  "wait_ends ps \<longleftrightarrow> Poll_Event True \<in> set ps \<or> Poll_Signal \<in> set ps"

lemma flip_wait_ends: "wait_ends ps \<Longrightarrow> \<exists>x. flip_wait ps run (pending, s) = Some x"
proof (induction ps arbitrary: run pending s)
  case (Cons q ps)
  have stop: "\<exists>x. flip_wait ps run' (pending', s') = Some x" if "\<not> (run' \<and> pending')" for ps run' pending' s'
    using that by (subst flip_wait.simps) auto
  from Cons stop show ?case
    by (subst flip_wait.simps) (auto simp: wait_ends_def on_flip_def split: flip_poll.split)
qed (simp add: wait_ends_def)

lemma flip_body_ends:
  assumes "flip_inv d0 k p" "fl_running p" "wait_ends (rd_polls r)"
  shows "\<exists>b p'. flip_body e k r p = Some (b, p') \<and> (rd_elapsed r \<ge> 15 \<longrightarrow> b \<longrightarrow> \<not> fl_running p')"
proof -
  let ?w = "int (unat (hdisplay (mode k)))" and ?b = "1 - fl_front p"
  obtain fb where fb: "flip_frame (fst (flip_move ?w (fl_rx p, fl_dir p))) (fl_fbs p ! ?b) = Some fb"
    using flip_body_inv(1) [OF assms(1,2)] by blast
  have w: "fb_w (fl_fbs p ! ?b) = ?w"
    using assms(1) two_fbs [of d0 "mode_blob k" "fl_fbs p" "dy_drm (fl_display p)" ?b] by (auto simp: flip_inv_def)
  obtain rx dir where mv: "flip_move ?w (fl_rx p, fl_dir p) = (rx, dir)" by fastforce
  obtain z req where req: "atomic_add (dx_add e) (plane_id k) (plane_props k) ''FB_ID'' (ucast (fb_id fb)) [] = (z, req)" by fastforce
  obtain ok s where c: "atomic_commit e Flip (fb_id fb) req (fl_display p) = (ok, s)" by fastforce
  obtain run s1 where wt: "flip_wait (rd_polls r) (fl_running p) (True, s) = Some (run, s1)"
    using flip_wait_ends [OF assms(3)] by fastforce
  show ?thesis
    unfolding flip_body_def Let_def w mv prod.case fb [unfolded mv fst_conv] option.case by (cases ok) (auto simp: req c wt)
qed

lemma flip_loop_stopped: "\<not> fl_running p \<Longrightarrow> \<exists>p'. flip_loop e k rs p = Some p'"
  by (cases rs) (simp_all add: Let_def)

lemma flip_loop_ends:
  "flip_inv d0 k p \<Longrightarrow> \<forall>r \<in> set rs. wait_ends (rd_polls r) \<Longrightarrow> \<exists>r \<in> set rs. rd_signal r \<or> rd_elapsed r \<ge> 15 \<Longrightarrow>
   \<exists>p'. flip_loop e k rs p = Some p'"
proof (induction rs arbitrary: p)
  case (Cons r rs)
  let ?p = "if rd_signal r then p\<lparr>fl_running := False\<rparr> else p"
  show ?case
  proof (cases "fl_running ?p")
    case False
    then show ?thesis by (simp add: Let_def)
  next
    case True
    then have sig: "\<not> rd_signal r" "fl_running p" by (auto split: if_splits)
    obtain b p1 where b: "flip_body e k r p = Some (b, p1)" "rd_elapsed r \<ge> 15 \<longrightarrow> b \<longrightarrow> \<not> fl_running p1"
      using flip_body_ends [OF Cons.prems(1) sig(2)] Cons.prems(2) by fastforce
    have inv: "flip_inv d0 k p1" using flip_body_inv(2) [OF Cons.prems(1) sig(2) b(1)] .
    have "\<exists>p'. flip_loop e k rs p1 = Some p'" if b
    proof (cases "rd_elapsed r \<ge> 15")
      case True
      with b(2) that show ?thesis using flip_loop_stopped by blast
    next
      case False
      with Cons.IH [OF inv] Cons.prems(2,3) sig show ?thesis by auto
    qed
    with b(1) sig show ?thesis by (cases b) (simp_all add: Let_def)
  qed
qed simp

text \<open>
  C21: The page-flip diagnostic ends and gives the display back, once it has set up: it found
  a target, both framebuffers were granted and the first modeset was accepted. Then, if every wait
  gets a flip event or a signal, and some day a signal comes or the clock reaches 15
  seconds, it returns 0; the blob, both framebuffers and their mappings are gone,
  nothing else is, and it is not master any more. Nothing is said of the early returns
  with 1 before that (no framebuffer, or the first modeset refused): those leave the blob, and
  the framebuffers made so far, to the end of the process.
\<close>

theorem pageflip_ends:
  assumes "flip_start e s = Some (Some (f, k, p0), s1)" "fresh_env e (dy_drm s)" "granted e k" "dy_queued s = None"
    and "\<forall>r \<in> set rs. wait_ends (rd_polls r)" "\<exists>r \<in> set rs. rd_signal r \<or> rd_elapsed r \<ge> 15"
  shows "\<exists>s'. diag_pageflip e rs s = Some (0, s') \<and> dy_drm s' = dy_drm s \<and> \<not> dy_master s'"
proof -
  have inv: "flip_inv (dy_drm s) k p0" using flip_start_inv [OF assms(1-4)] by blast
  obtain p where p: "flip_loop e k rs p0 = Some p" using flip_loop_ends [OF inv assms(5,6)] by blast
  then have "holds (dy_drm s) (mode_blob k) (fl_fbs p) (dy_drm (fl_display p))"
    using flip_loop_inv [OF p inv] by (simp add: flip_inv_def)
  from cleanup_gives_back [OF this] have "dy_drm (diag_close f k (fold diag_unfb (fl_fbs p) (fl_display p))) = dy_drm s"
    by (simp add: diag_cleanup)
  then show ?thesis using assms(1) p by (simp add: diag_pageflip_def) (simp add: diag_close_def)
qed

theorem pageflip_ends_witness:
  "\<exists>s'. diag_pageflip demo_diag [\<lparr>rd_signal = False, rd_polls = [Poll_Nothing, Poll_Event True], rd_elapsed = 0\<rparr>,
       \<lparr>rd_signal = False, rd_polls = [Poll_Event True], rd_elapsed = 15\<rparr>] dark_display = Some (0, s') \<and> dy_drm s' = no_drm"
proof -
  obtain k p0 s1 where st: "flip_start demo_diag dark_display = Some (Some (7, k, p0), s1)" "granted demo_diag k" using demo_start by blast
  have d: "fresh_env demo_diag (dy_drm dark_display)" "dy_queued dark_display = None" "dy_drm dark_display = no_drm"
    using demo_fresh by (simp_all add: dark_display_def)
  let ?rs = "[\<lparr>rd_signal = False, rd_polls = [Poll_Nothing, Poll_Event True], rd_elapsed = 0\<rparr>,
       \<lparr>rd_signal = False, rd_polls = [Poll_Event True], rd_elapsed = 15\<rparr>]"
  have "\<forall>r \<in> set ?rs. wait_ends (rd_polls r)" "\<exists>r \<in> set ?rs. rd_signal r \<or> rd_elapsed r \<ge> 15" by (simp_all add: wait_ends_def)
  from pageflip_ends [OF st(1) d(1) st(2) d(2) this] d(3) show ?thesis by auto
qed

section \<open>First light\<close>

text \<open>
  The first diagnostic tests the request before it commits the very same one, and gives
  everything back.
\<close>

lemma firstlight_restores:
  assumes "diag_firstlight e s = Some (0, s')" "fresh_env e (dy_drm s)"
  shows "dy_drm s' = dy_drm s \<and> \<not> dy_master s' \<and>
    (\<exists>req. dy_commits s' = dy_commits s @ [(Test_Only, req, True), (Modeset, req, True)])"
proof -
  obtain f k s1 where tg: "diag_target e s = Some (Some (f, k), s1)"
    using assms(1) by (auto simp: diag_firstlight_def split: option.splits prod.splits)
  obtain r fb s2 where c: "diag_fb e 0 k s1 = (r, fb, s2)" using prod_cases3 by blast
  note t = target_took [OF tg] and cr = diag_fb_took [OF c]
  let ?d = "(dy_drm s)\<lparr>d_blobs := insert (mode_blob k) (d_blobs (dy_drm s))\<rparr>"
  have blob: "dx_blob e = Some (mode_blob k)" "dy_drm s1 = ?d" using setup_sound [OF t(1)] by auto
  then have b: "mode_blob k \<noteq> 0" "mode_blob k \<notin> d_blobs (dy_drm s)" using assms(2) by (auto simp: fresh_env_def)
  have "fresh_answers (dx_fb e 0) ?d"
    using assms(2) by (cases "dy_drm s") (simp add: fresh_env_def fresh_answers_def cong: option.case_cong)
  from create_takes [OF this cr(1) [unfolded blob(2)]] have x: "held fb \<or> bare fb" "foreign fb (dy_drm s)" "dy_drm s2 = with_fb fb ?d"
    by simp_all
  obtain fb1 where fill: "fill_solid 0x00104080 fb = Some fb1"
    using assms(1) tg c by (auto simp: diag_firstlight_def Let_def split: if_splits option.splits)
  have same: "same_object fb fb1" using object_drawing.solid [of fb, OF _ fill] by (simp add: same_object_def)
  obtain z req where req: "modeset_request e k (fb_id fb1) = (z, req)" by fastforce
  obtain ok1 s3 where c1: "atomic_commit e Test_Only (fb_id fb1) req s2 = (ok1, s3)" by fastforce
  obtain ok2 s4 where c2: "atomic_commit e Modeset (fb_id fb1) req s3 = (ok2, s4)" by fastforce
  have run: "ok1" "ok2" "s' = diag_close f k (diag_unfb fb1 s4)"
    using assms(1) tg c fill req c1 c2 by (auto simp: diag_firstlight_def split: if_splits)
  have d4: "dy_drm s4 = with_fb fb1 ?d" "dy_commits s4 = dy_commits s @ [(Test_Only, req, True), (Modeset, req, True)]"
    using c1 c2 run(1,2) x(3) drawn_same(4) [OF same] t cr by (auto simp: atomic_commit_def Let_def)
  have "held fb1 \<or> bare fb1" "foreign fb1 ?d" using x drawn_same [OF same] by simp_all
  from destroy_gives_back [OF this] show ?thesis
    using d4 b run(3) by (simp add: diag_close_def diag_unfb_def kms_finish_def destroy_blob_def)
qed

end
