(* ===== verification/Diag_Seat.thy ===== *)
theory Diag_Seat
  imports Diag_Spec
begin

text \<open>
  The seat diagnostic over any number of VT switches: it is master only while its seat is
  active, has painted its picture again whenever it waits with the seat active, makes the
  objects it needs once, and gives them back.
\<close>

section \<open>The invariant\<close>

text \<open>The objects made so far on top of \<open>d0\<close>.\<close>

definition made :: "drm \<Rightarrow> kms option \<Rightarrow> dumb_fb option \<Rightarrow> drm \<Rightarrow> bool" where
  "made d0 ko fo d \<longleftrightarrow>
     (case ko of
        None \<Rightarrow> fo = None \<and> d = d0
      | Some k \<Rightarrow> mode_blob k \<noteq> 0 \<and> mode_blob k \<notin> d_blobs d0 \<and>
          (case fo of
             None \<Rightarrow> d = d0\<lparr>d_blobs := insert (mode_blob k) (d_blobs d0)\<rparr>
           | Some fb \<Rightarrow> held fb \<and> foreign fb d0 \<and> d = with_fb fb (d0\<lparr>d_blobs := insert (mode_blob k) (d_blobs d0)\<rparr>)))"

lemma made_gives_back:
  assumes "made d0 ko fo d"
  shows "(case ko of None \<Rightarrow> id | Some k \<Rightarrow> \<lambda>d. snd (kms_finish k d)) (case fo of None \<Rightarrow> d | Some fb \<Rightarrow> snd (dumb_fb_destroy fb d)) = d0"
proof (cases ko)
  case (Some k)
  let ?d = "d0\<lparr>d_blobs := insert (mode_blob k) (d_blobs d0)\<rparr>"
  have "(case fo of None \<Rightarrow> d | Some fb \<Rightarrow> snd (dumb_fb_destroy fb d)) = ?d"
    using assms Some destroy_gives_back [of _ ?d] by (auto simp: made_def split: option.splits)
  with assms Some show ?thesis by (auto simp: made_def kms_finish_def destroy_blob_def)
qed (use assms in \<open>simp add: made_def\<close>)

definition green :: u32 where "green = 0x00207040"

definition solid_picture :: "dumb_fb \<Rightarrow> bool" where
  "solid_picture fb \<longleftrightarrow> fb_good fb \<and> picture fb = (\<lambda>x y. if (x, y) \<in> screen fb then green else 0)"

definition painter_inv :: "diag_env \<Rightarrow> drm \<Rightarrow> painter \<Rightarrow> bool" where
  "painter_inv e d0 p \<longleftrightarrow> made d0 (pt_kms p) (pt_fb p) (dy_drm (pt_display p)) \<and>
     (\<forall>k. pt_kms p = Some k \<longrightarrow> granted e k) \<and> (\<forall>fb. pt_fb p = Some fb \<longrightarrow> solid_picture fb) \<and>
     (\<not> pt_painted p \<longrightarrow> \<not> dy_master (pt_display p)) \<and> (pt_painted p \<longrightarrow> pt_fb p \<noteq> None)"

lemma painter_events: "painter_inv e d0 (fold painter_event evs p) = painter_inv e d0 p"
  by (induction evs arbitrary: p) (simp_all add: painter_event_def painter_inv_def)

text \<open>
  A painted picture is on the screen while the seat is active. One dispatch keeps this up
  to the next test of the loop unless it brings an enable behind a disable.
\<close>

definition on_screen :: "painter \<Rightarrow> bool" where
  "on_screen p \<longleftrightarrow> (\<exists>fb. pt_fb p = Some fb \<and> dy_shown (pt_display p) = Some (fb_id fb))"

definition settled :: "painter \<Rightarrow> bool" where
  "settled p \<longleftrightarrow> (pt_painted p \<longrightarrow> pt_active p \<longrightarrow> on_screen p)"

definition one_way :: "bool list \<Rightarrow> bool" where
  "one_way evs \<longleftrightarrow> sorted_wrt (\<lambda>before after. after \<longrightarrow> before) evs"

lemma events_flags:
  "pt_painted (fold painter_event evs p) = pt_painted p" "pt_fb (fold painter_event evs p) = pt_fb p"
  by (induction evs arbitrary: p) (simp_all add: painter_event_def)

lemma all_disables: "True \<notin> set evs \<Longrightarrow> evs \<noteq> [] \<or> \<not> pt_active p \<Longrightarrow> \<not> pt_active (fold painter_event evs p)"
  by (induction evs arbitrary: p) (auto simp: painter_event_def)

lemma settled_events: "settled p \<Longrightarrow> pt_painted p = pt_active p \<Longrightarrow> one_way evs \<Longrightarrow> settled (fold painter_event evs p)"
proof (induction evs arbitrary: p)
  case (Cons v evs)
  show ?case
  proof (cases v)
    case True
    show ?thesis
    proof (cases "pt_active p")
      case active: True
      then have "painter_event v p = p" using True by (simp add: painter_event_def)
      then show ?thesis using Cons by (simp add: one_way_def)
    next
      case False
      then have "\<not> pt_painted (fold painter_event (v # evs) p)" using Cons.prems(2) False by (simp only: events_flags simp_thms)
      then show ?thesis unfolding settled_def by blast
    qed
  next
    case False
    then have "True \<notin> set evs" using Cons.prems(3) by (auto simp: one_way_def)
    then have "\<not> pt_active (fold painter_event evs (painter_event v p))"
      using all_disables [of evs "painter_event v p"] False by (simp add: painter_event_def)
    then show ?thesis by (simp add: settled_def)
  qed
qed simp

lemma solid_painted:
  assumes "fb_good fb" shows "\<exists>fb'. fill_solid green fb = Some fb' \<and> solid_picture fb' \<and> same_object fb fb'"
proof -
  obtain fb' where fb: "fill_solid green fb = Some fb'" "fb_like fb fb'" "picture fb' = apply_on (screen fb) (\<lambda>_ _ _. green) (picture fb)"
    using painted(1) [OF assms] by blast
  have "same_object fb fb'" using object_drawing.solid [of fb, OF _ fb(1)] by (simp add: same_object_def)
  moreover have "screen fb' = screen fb" "fb_good fb'" using fb(2) fb_like_sel fb_like_good by blast+
  ultimately show ?thesis using fb(1,3) by (auto simp: solid_picture_def apply_on_def fun_eq_iff) (simp add: picture_def)
qed

section \<open>Painting\<close>

text \<open>Whatever target the set-up finds, the kernel grants a framebuffer of its mode's size.\<close>

definition panel_ok :: "diag_env \<Rightarrow> bool" where
  "panel_ok e \<longleftrightarrow> (\<forall>f d k d'. kms_setup (dx_dev e f) (dx_calloc e) (dx_blob e) d = Some (0, k, d') \<longrightarrow> granted e k)"

lemma paint_kms_made:
  assumes "made d0 (pt_kms p) (pt_fb p) (dy_drm (pt_display p))" "fresh_env e d0" "panel_ok e" "\<forall>k. pt_kms p = Some k \<longrightarrow> granted e k"
    and "paint_kms e p = Some (ko, p')"
  shows "made d0 (pt_kms p') (pt_fb p') (dy_drm (pt_display p')) \<and> (\<forall>k. ko = Some k \<longrightarrow> pt_kms p' = Some k) \<and>
    (\<forall>k. pt_kms p' = Some k \<longrightarrow> granted e k) \<and> pt_fb p' = pt_fb p \<and>
    pt_active p' = pt_active p \<and> pt_painted p' = pt_painted p \<and> dy_master (pt_display p') = dy_master (pt_display p)"
proof (cases "pt_kms p")
  case (Some k)
  with assms show ?thesis by (auto simp: paint_kms_def)
next
  case None
  then have d0: "dy_drm (pt_display p) = d0" "pt_fb p = None" using assms(1) by (simp_all add: made_def)
  obtain r k d where ks: "kms_setup (dx_dev e (pt_fd p)) (dx_calloc e) (dx_blob e) d0 = Some (r, k, d)"
    using assms(5) None d0(1) by (auto simp: paint_kms_def split: option.splits)
  note snd = setup_sound [OF ks]
  show ?thesis
  proof (cases "r = 0")
    case True
    then have k: "dx_blob e = Some (mode_blob k)" "d = d0\<lparr>d_blobs := insert (mode_blob k) (d_blobs d0)\<rparr>" using snd by auto
    moreover have "granted e k" using assms(3) ks True unfolding panel_ok_def by blast
    ultimately show ?thesis using assms(2,5) None d0 ks True by (auto simp: paint_kms_def made_def fresh_env_def Let_def)
  next
    case False
    with snd have "d = d0" by simp
    with assms(5) None d0 ks False show ?thesis by (auto simp: paint_kms_def made_def Let_def)
  qed
qed

lemma paint_fb_made:
  assumes "made d0 (Some k) (pt_fb p) (dy_drm (pt_display p))" "pt_kms p = Some k" "fresh_env e d0" "granted e k"
    and "\<forall>fb. pt_fb p = Some fb \<longrightarrow> solid_picture fb"
  shows "\<exists>fb p'. paint_fb e k p = Some (Some fb, p') \<and> pt_fb p' = Some fb \<and> solid_picture fb \<and>
    made d0 (Some k) (Some fb) (dy_drm (pt_display p')) \<and> pt_kms p' = Some k \<and>
    pt_active p' = pt_active p \<and> pt_painted p' = pt_painted p"
proof (cases "pt_fb p")
  case (Some fb)
  with assms show ?thesis by (auto simp: paint_fb_def)
next
  case None
  let ?d = "d0\<lparr>d_blobs := insert (mode_blob k) (d_blobs d0)\<rparr>"
  have d: "dy_drm (pt_display p) = ?d" and blob: "mode_blob k \<noteq> 0" "mode_blob k \<notin> d_blobs d0"
    using assms(1) None by (auto simp: made_def)
  obtain r fb s where c: "diag_fb e 0 k (pt_display p) = (r, fb, s)" using prod_cases3 by blast
  note cr = diag_fb_took(1) [OF c]
  have g: "r = 0" "fb_good fb" using granted_create [OF assms(4) _ cr] by auto
  obtain fb' where fb': "fill_solid green fb = Some fb'" "solid_picture fb'" "same_object fb fb'" using solid_painted [OF g(2)] by blast
  have "fresh_answers (dx_fb e 0) ?d" using assms(3) by (cases d0) (simp add: fresh_env_def fresh_answers_def cong: option.case_cong)
  from create_takes [OF this cr [unfolded d]] have "held fb \<or> bare fb" "foreign fb d0" "dy_drm s = with_fb fb ?d" by simp_all
  moreover from this(1) g(2) have "held fb" by (auto simp: bare_def fb_good_def)
  ultimately have "made d0 (Some k) (Some fb') (dy_drm s)" using blob drawn_same [OF fb'(3)] by (simp add: made_def)
  then show ?thesis using None c g(1) fb' assms(2) by (simp add: paint_fb_def green_def)
qed

lemma paint_inv:
  assumes "painter_inv e d0 p" "fresh_env e d0" "panel_ok e" "paint e m p = Some (x, p')"
  shows "made d0 (pt_kms p') (pt_fb p') (dy_drm (pt_display p')) \<and> pt_active p' = pt_active p \<and> (x = 0 \<longrightarrow> painter_inv e d0 p' \<and> pt_painted p' \<and> on_screen p')"
proof -
  obtain q where q: "q = (if m then p\<lparr>pt_display := (pt_display p)\<lparr>dy_master := True\<rparr>\<rparr> else p)" by simp
  have p: "made d0 (pt_kms q) (pt_fb q) (dy_drm (pt_display q))" "\<forall>k. pt_kms q = Some k \<longrightarrow> granted e k"
      "\<forall>fb. pt_fb q = Some fb \<longrightarrow> solid_picture fb" "pt_active q = pt_active p"
    using assms(1) by (simp_all add: painter_inv_def q)
  have run: "(case paint_kms e q of None \<Rightarrow> None | Some (None, p1) \<Rightarrow> Some (-1, p1)
      | Some (Some k, p1) \<Rightarrow>
          (case paint_fb e k p1 of None \<Rightarrow> None | Some (None, p2) \<Rightarrow> Some (-1, p2)
           | Some (Some fb, p2) \<Rightarrow>
               (let (_, req) = modeset_request e k (fb_id fb);
                    (ok, s) = atomic_commit e Modeset (fb_id fb) req (pt_display p2);
                    p3 = p2\<lparr>pt_display := s\<rparr>
                in Some (if \<not> ok then (-1, p3) else (0, p3\<lparr>pt_painted := True\<rparr>))))) = Some (x, p')"
    using assms(4) unfolding paint_def Let_def q .
  obtain ko p1 where k: "paint_kms e q = Some (ko, p1)" using run by (auto split: option.splits)
  note k1 = paint_kms_made [OF p(1) assms(2,3) p(2) k]
  show ?thesis
  proof (cases ko)
    case None
    with run k k1 p(4) show ?thesis by auto
  next
    case (Some kk)
    then have k2: "pt_kms p1 = Some kk" "granted e kk" "made d0 (Some kk) (pt_fb p1) (dy_drm (pt_display p1))" using k1 by auto
    have "\<forall>fb. pt_fb p1 = Some fb \<longrightarrow> solid_picture fb" using k1 p(3) by simp
    then obtain fb p2 where f: "paint_fb e kk p1 = Some (Some fb, p2)" "pt_fb p2 = Some fb" "solid_picture fb"
        "made d0 (Some kk) (Some fb) (dy_drm (pt_display p2))" "pt_kms p2 = Some kk" "pt_active p2 = pt_active p1"
      using paint_fb_made [OF k2(3,1) assms(2) k2(2)] by blast
    obtain z req where req: "modeset_request e kk (fb_id fb) = (z, req)" by fastforce
    obtain ok s where c: "atomic_commit e Modeset (fb_id fb) req (pt_display p2) = (ok, s)" by fastforce
    have s: "dy_drm s = dy_drm (pt_display p2)" "ok \<Longrightarrow> dy_shown s = Some (fb_id fb)"
      using c commit_sel(1) [of e Modeset "fb_id fb" req "pt_display p2"] by (auto simp: atomic_commit_def Let_def)
    have res: "(x, p') = (if \<not> ok then (-1, p2\<lparr>pt_display := s\<rparr>) else (0, p2\<lparr>pt_display := s, pt_painted := True\<rparr>))"
      using run k Some f(1) req c by (simp add: Let_def split: if_splits)
    show ?thesis using res f s k1 p(4) k2(2) by (cases ok) (auto simp: painter_inv_def on_screen_def)
  qed
qed

section \<open>Rounds\<close>

lemma body_inv:
  assumes "painter_inv e d0 p" "fresh_env e d0" "panel_ok e" "seat_body e r p = Some (b, p')"
  shows "made d0 (pt_kms p') (pt_fb p') (dy_drm (pt_display p')) \<and> pt_active p' = pt_active p \<and>
    (b \<longrightarrow> painter_inv e d0 p' \<and> pt_painted p' = pt_active p' \<and> (settled p \<longrightarrow> settled p'))"
proof (cases "pt_active p \<and> \<not> pt_painted p")
  case True
  then obtain x where "paint e (sr_master r) p = Some (x, p')" "b = (x = 0)"
    using assms(4) by (auto simp: seat_body_def split: option.splits)
  with paint_inv [OF assms(1-3)] True show ?thesis by (auto simp: settled_def)
next
  case False
  with assms(1,4) show ?thesis by (auto simp: seat_body_def painter_inv_def settled_def split: if_splits)
qed

lemma seat_loop_made:
  "seat_loop e rs p = Some p' \<Longrightarrow> painter_inv e d0 p \<Longrightarrow> fresh_env e d0 \<Longrightarrow> panel_ok e \<Longrightarrow>
   made d0 (pt_kms p') (pt_fb p') (dy_drm (pt_display p'))"
proof (induction rs arbitrary: p)
  case (Cons r rs)
  show ?case
  proof (cases "sr_signal r")
    case True
    with Cons.prems show ?thesis by (simp add: painter_inv_def)
  next
    case False
    then obtain b p1 where b: "seat_body e r p = Some (b, p1)"
        "if b then seat_loop e rs (fold painter_event (sr_events r) p1) = Some p' else p' = p1"
      using Cons.prems(1) by (auto split: option.splits if_splits)
    from body_inv [OF Cons.prems(2-4) b(1)] b(2) Cons.IH Cons.prems(3,4) show ?thesis by (cases b) (auto simp: painter_events)
  qed
qed simp

text \<open>
  The states at the waits of the loop. What a dispatch brings is one way: no enable behind
  a disable.
\<close>

inductive waits :: "diag_env \<Rightarrow> painter \<Rightarrow> painter \<Rightarrow> bool" for e p0 where
  waits_first: "seat_body e r p0 = Some (True, p) \<Longrightarrow> waits e p0 p"
| waits_next: "waits e p0 p \<Longrightarrow> one_way evs \<Longrightarrow> seat_body e r (fold painter_event evs p) = Some (True, p') \<Longrightarrow> waits e p0 p'"

lemma waits_inv:
  "waits e p0 p \<Longrightarrow> painter_inv e d0 p0 \<Longrightarrow> settled p0 \<Longrightarrow> fresh_env e d0 \<Longrightarrow> panel_ok e \<Longrightarrow>
   painter_inv e d0 p \<and> pt_painted p = pt_active p \<and> settled p"
proof (induction rule: waits.induct)
  case (waits_first r p)
  with body_inv [OF waits_first(2,4,5,1)] show ?case by blast
next
  case (waits_next p evs r p')
  then have p: "painter_inv e d0 p" "pt_painted p = pt_active p" "settled p" by blast+
  have "painter_inv e d0 (fold painter_event evs p)" using p(1) by (simp add: painter_events)
  from body_inv [OF this waits_next.prems(3,4) waits_next.hyps(3)] settled_events [OF p(3,2) waits_next.hyps(2)] show ?case by blast
qed

text \<open>
  Without that condition: a switch away and back in one dispatch leaves the flag set, the
  loop sees nothing to do, and waits without its picture on the screen.
\<close>

lemma quick_switch_not_repainted:
  assumes "pt_painted p" "pt_active p" "q = fold painter_event [False, True] p"
  shows "seat_body e r q = Some (True, q) \<and> pt_active q \<and> \<not> on_screen q"
  using assms by (simp add: seat_body_def painter_event_def on_screen_def)

text \<open>The pump only runs callbacks.\<close>

lemma seat_wait_pumps:
  "seat_wait ds p = Some (ok, run, p') \<Longrightarrow> \<exists>evs. p' = fold painter_event evs p"
proof (induction ds arbitrary: p)
  case Nil
  then show ?case by (subst (asm) seat_wait.simps) (auto split: if_splits intro: exI [of _ "[]"])
next
  case (Cons q ds)
  show ?case
  proof (cases "pt_active p \<or> q = None")
    case True
    with Cons.prems show ?thesis by (subst (asm) seat_wait.simps) (auto split: if_splits intro!: exI [of _ "[]"])
  next
    case False
    then obtain r cbs where q: "q = Some (r, cbs)" by fastforce
    let ?p = "fold painter_event cbs p"
    show ?thesis
    proof (cases "r < 0")
      case True
      with Cons.prems False q show ?thesis by (subst (asm) seat_wait.simps) (auto simp: Let_def)
    next
      case pos: False
      then have "seat_wait ds ?p = Some (ok, run, p')" using Cons.prems False q by (subst (asm) seat_wait.simps) (simp add: Let_def)
      from Cons.IH [OF this] obtain evs where "p' = fold painter_event (cbs @ evs) p" by auto
      then show ?thesis by blast
    qed
  qed
qed

section \<open>The program\<close>

definition idle_painter :: "display \<Rightarrow> painter" where
  "idle_painter s = \<lparr>pt_active = False, pt_painted = False, pt_fd = -1, pt_kms = None, pt_fb = None, pt_acks = 0, pt_display = s\<rparr>"

lemma idle_inv: "\<not> dy_master s \<Longrightarrow> painter_inv e (dy_drm s) (fold painter_event evs (idle_painter s)\<lparr>pt_fd := f\<rparr>)"
proof -
  assume "\<not> dy_master s"
  then have "painter_inv e (dy_drm s) (fold painter_event evs (idle_painter s))"
    unfolding painter_events by (simp add: painter_inv_def made_def idle_painter_def)
  then show ?thesis by (simp add: painter_inv_def)
qed

text \<open>
  C17: The seat diagnostic coexists with the other sessions. Provided that it is not master when it starts,
  that the kernel gives new ids and grants the framebuffer (\<open>fresh_env\<close>, \<open>panel_ok\<close>), and that no
  dispatch brings an enable behind a disable (\<open>one_way\<close>; \<open>quick_switch_not_repainted\<close>
  shows what goes wrong otherwise), this holds whenever it waits, after any number of VT switches, each of
  which hands the screen to another session: with its seat active, its picture is on the
  screen; without, it is not master; and it has made its mode blob and framebuffer at most once. However it
  returns, the blob and the framebuffer are gone; if it returns 0 it has closed the device, and if
  it returns 1 it has closed none, not even the one it opened when setting the capabilities is what failed.
\<close>

theorem seat_coexists:
  assumes "\<not> dy_master s" "fresh_env e (dy_drm s)" "panel_ok e"
  shows "(\<forall>evs f p. waits e (fold painter_event evs (idle_painter s)\<lparr>pt_fd := f\<rparr>) p \<longrightarrow>
      pt_painted p = pt_active p \<and> (dy_master (pt_display p) \<longrightarrow> pt_active p) \<and> made (dy_drm s) (pt_kms p) (pt_fb p) (dy_drm (pt_display p)) \<and>
      (pt_active p \<longrightarrow> (\<exists>fb. pt_fb p = Some fb \<and> dy_shown (pt_display p) = Some (fb_id fb) \<and>
         picture fb = (\<lambda>x y. if (x, y) \<in> screen fb then green else 0)))) \<and>
    (\<forall>seat_ok ds opened_dev caps rs x devs p. diag_seat e seat_ok ds opened_dev caps rs s = Some (x, devs, p) \<longrightarrow>
      dy_drm (pt_display p) = dy_drm s \<and> (x = 0 \<and> devs = [fst opened_dev] \<or> x = 1 \<and> devs = []))"
proof (intro conjI [of "\<forall>evs f p. _ evs f p"] allI impI)
  fix evs f p assume w: "waits e (fold painter_event evs (idle_painter s)\<lparr>pt_fd := f\<rparr>) p"
  have "settled (fold painter_event evs (idle_painter s)\<lparr>pt_fd := f\<rparr>)" by (simp add: settled_def events_flags idle_painter_def)
  from waits_inv [OF w idle_inv [OF assms(1)] this assms(2,3)]
  show "pt_painted p = pt_active p \<and> (dy_master (pt_display p) \<longrightarrow> pt_active p) \<and> made (dy_drm s) (pt_kms p) (pt_fb p) (dy_drm (pt_display p)) \<and>
      (pt_active p \<longrightarrow> (\<exists>fb. pt_fb p = Some fb \<and> dy_shown (pt_display p) = Some (fb_id fb) \<and>
         picture fb = (\<lambda>x y. if (x, y) \<in> screen fb then green else 0)))"
    by (auto simp: painter_inv_def solid_picture_def settled_def on_screen_def)
next
  fix seat_ok ds opened_dev caps rs x devs p' assume run: "diag_seat e seat_ok ds opened_dev caps rs s = Some (x, devs, p')"
  have made0: "painter_inv e (dy_drm s) (fold painter_event evs (idle_painter s)\<lparr>pt_fd := f\<rparr>)" for evs f by (rule idle_inv [OF assms(1)])
  have idle: "dy_drm (pt_display (fold painter_event evs p)) = dy_drm (pt_display p)" for evs p
    by (induction evs arbitrary: p) (simp_all add: painter_event_def)
  show "dy_drm (pt_display p') = dy_drm s \<and> (x = 0 \<and> devs = [fst opened_dev] \<or> x = 1 \<and> devs = [])"
  proof (cases seat_ok)
    case False
    with run show ?thesis by (auto simp: diag_seat_def Let_def)
  next
    case True
    then obtain ok run' p1 where w: "seat_wait ds (idle_painter s) = Some (ok, run', p1)"
      using run by (auto simp: diag_seat_def idle_painter_def Let_def split: option.splits)
    obtain evs where p1: "p1 = fold painter_event evs (idle_painter s)" using seat_wait_pumps [OF w] by blast
    have d1: "dy_drm (pt_display p1) = dy_drm s" unfolding p1 idle by (simp add: idle_painter_def)
    note body = run [unfolded diag_seat_def idle_painter_def [symmetric] Let_def w option.case prod.case]
    show ?thesis
    proof (cases "ok \<and> seat_open_device opened_dev \<noteq> None \<and> caps = 0")
      case False
      with body True d1 show ?thesis by (auto split: option.splits if_splits)
    next
      case go: True
      then obtain dev f where o: "seat_open_device opened_dev = Some (dev, f)" by fastforce
      with body True go obtain p2 where d: "x = 0" "devs = [dev]"
          "(if run' then seat_loop e rs (p1\<lparr>pt_fd := f\<rparr>) else Some (p1\<lparr>pt_fd := f\<rparr>)) = Some p2"
          "dy_drm (pt_display p') = (case pt_kms p2 of None \<Rightarrow> id | Some k \<Rightarrow> \<lambda>d. snd (kms_finish k d))
             (case pt_fb p2 of None \<Rightarrow> dy_drm (pt_display p2) | Some fb \<Rightarrow> snd (dumb_fb_destroy fb (dy_drm (pt_display p2))))"
        by (auto simp: diag_unfb_def split: if_splits option.splits)
      have inv: "painter_inv e (dy_drm s) (p1\<lparr>pt_fd := f\<rparr>)" unfolding p1 by (rule made0)
      have "made (dy_drm s) (pt_kms p2) (pt_fb p2) (dy_drm (pt_display p2))"
        using d(3) seat_loop_made [OF _ inv assms(2,3)] inv by (auto simp: painter_inv_def split: if_splits)
      from made_gives_back [OF this] d seat_open_SomeD [OF o] show ?thesis by simp
    qed
  qed
qed

section \<open>A machine\<close>

lemma demo_panel: "panel_ok demo_diag"
proof -
  have "granted demo_diag k" if "kms_setup demo_dev True (Some 3) d = Some (0, k, d')" for d k d'
  proof -
    from setup_sound [OF that] obtain c cn where "dv_connector demo_dev c = Some cn" "mode k \<in> set (dc_modes cn)" by auto
    then have "hdisplay (mode k) = 1920" "vdisplay (mode k) = 1080"
      by (auto simp: demo_dev_def demo_connector_def mode_50_def mode_60_def split: if_splits)
    then show ?thesis by (rule demo_granted)
  qed
  then show ?thesis by (simp add: panel_ok_def demo_diag_def)
qed

lemma demo_paints:
  "\<exists>p. waits demo_diag (fold painter_event [True] (idle_painter dark_display)\<lparr>pt_fd := 7\<rparr>) p \<and> pt_active p"
proof -
  let ?p = "fold painter_event [True] (idle_painter dark_display)\<lparr>pt_fd := 7\<rparr>"
  let ?q = "?p\<lparr>pt_display := (pt_display ?p)\<lparr>dy_master := True\<rparr>\<rparr>"
  have idle: "pt_active ?p" "\<not> pt_painted ?p" "pt_display ?p = dark_display" "pt_kms ?p = None" "pt_fb ?p = None"
    by (simp_all add: painter_event_def idle_painter_def)
  have inv: "painter_inv demo_diag no_drm ?p" using idle_inv [where s = dark_display and e = demo_diag and evs = "[True]" and f = 7] by (simp add: dark_display_def)
  obtain k d where k: "kms_setup demo_dev True (Some 3) no_drm = Some (0, k, d)" using demo_setup by blast
  let ?p1 = "?q\<lparr>pt_display := dark_display\<lparr>dy_master := True, dy_drm := d\<rparr>, pt_kms := Some k\<rparr>"
  have pk: "paint_kms demo_diag ?q = Some (Some k, ?p1)"
    using k idle by (simp add: paint_kms_def demo_diag_def dark_display_def Let_def)
  have "made no_drm (pt_kms ?q) (pt_fb ?q) (dy_drm (pt_display ?q))" using idle by (simp add: made_def dark_display_def)
  from paint_kms_made [OF this demo_fresh demo_panel _ pk] idle
  have m: "made no_drm (Some k) (pt_fb ?p1) (dy_drm (pt_display ?p1))" "granted demo_diag k" "pt_fb ?p1 = None" by simp_all
  then obtain fb p2 where f: "paint_fb demo_diag k ?p1 = Some (Some fb, p2)" "pt_active p2 = pt_active ?p1"
    using paint_fb_made [OF m(1) _ demo_fresh m(2)] by fastforce
  obtain z req where req: "modeset_request demo_diag k (fb_id fb) = (z, req)" by fastforce
  have ok: "dx_commit demo_diag n" for n by (simp add: demo_diag_def)
  obtain s where c: "atomic_commit demo_diag Modeset (fb_id fb) req (pt_display p2) = (True, s)"
    using ok by (simp add: atomic_commit_def Let_def)
  obtain p' where p': "paint demo_diag True ?p = Some (0, p')" "pt_active p'"
    unfolding paint_def Let_def if_True pk option.case prod.case f(1) req c using f(2) idle(1) by simp
  have "seat_body demo_diag \<lparr>sr_signal = False, sr_master = True, sr_events = []\<rparr> ?p = Some (True, p')"
    using p'(1) idle(1,2) by (simp add: seat_body_def)
  with p'(2) show ?thesis by (blast intro: waits_first)
qed

theorem seat_coexists_witness:
  "\<exists>p fb. waits demo_diag (fold painter_event [True] (idle_painter dark_display)\<lparr>pt_fd := 7\<rparr>) p \<and> pt_painted p \<and>
     pt_fb p = Some fb \<and> dy_shown (pt_display p) = Some (fb_id fb)"
proof -
  have start: "\<not> dy_master dark_display" "fresh_env demo_diag (dy_drm dark_display)" using demo_fresh by (simp_all add: dark_display_def)
  obtain p where p: "waits demo_diag (fold painter_event [True] (idle_painter dark_display)\<lparr>pt_fd := 7\<rparr>) p" "pt_active p"
    using demo_paints by blast
  from seat_coexists [OF start demo_panel] p show ?thesis by blast
qed

end
