(* ===== verification/Diag_GL.thy ===== *)
theory Diag_GL
  imports Diag
begin

text \<open>
  The GPU diagnostic, \<open>src/src/diag_gl.c\<close>: buffers of a GBM surface that EGL renders into
  and that are shown one after the other. What is modelled is the part the program is
  responsible for: which buffers it holds locked, the framebuffers it wraps them in, and
  the flips. GBM, EGL and GLES are parameters; the calls that only set GL state and the
  rendering itself are left out.
\<close>

section \<open>Buffers\<close>

text \<open>A buffer object is a number; what GBM says of it, one entry per plane.\<close>

record bo_info =
  bi_width :: u32
  bi_height :: u32
  bi_format :: u32
  bi_modifier :: u64
  bi_planes :: "(u32 \<times> u32 \<times> u32) list"

definition DRM_FORMAT_MOD_INVALID :: u64 where [simp]: "DRM_FORMAT_MOD_INVALID = 0x00ffffffffffffff"

text \<open>The arguments of \<open>AddFB2\<close>, the four modifiers being those of the variant that takes them.\<close>

record addfb =
  af_width :: u32
  af_height :: u32
  af_format :: u32
  af_handles :: "u32 list"
  af_strides :: "u32 list"
  af_offsets :: "u32 list"
  af_mods :: "u64 list option"

record gl_env =
  ge_diag :: diag_env
  ge_bo :: "nat \<Rightarrow> bo_info"
  ge_calloc :: bool
  ge_addfb :: "nat \<Rightarrow> addfb \<Rightarrow> u32 option"

text \<open>
  \<open>gp_locked\<close> is what the program has locked of the surface, \<open>gp_cache\<close> the framebuffer
  wrapped around a buffer (its user data), \<open>gp_adds\<close> how often one was asked for.
\<close>

record gl_prog =
  gp_display :: display
  gp_locked :: "nat set"
  gp_cache :: "nat \<rightharpoonup> u32"
  gp_adds :: nat
  gp_prev :: "nat option"
  gp_first :: bool
  gp_running :: bool

definition gp_release :: "nat \<Rightarrow> gl_prog \<Rightarrow> gl_prog" where
  "gp_release bo g = g\<lparr>gp_locked := gp_locked g - {bo}\<rparr>"

text \<open>The arrays have four entries; the entries beyond the planes stay 0.\<close>

definition four :: "'a::zero list \<Rightarrow> 'a list" where
  "four xs = xs @ replicate (4 - length xs) 0"

definition bo_request :: "bo_info \<Rightarrow> bool \<Rightarrow> addfb" where
  "bo_request b with_mods =
     \<lparr>af_width = bi_width b, af_height = bi_height b, af_format = bi_format b,
      af_handles = four (map fst (bi_planes b)), af_strides = four (map (fst \<circ> snd) (bi_planes b)),
      af_offsets = four (map (snd \<circ> snd) (bi_planes b)),
      af_mods = (if with_mods then Some (four (map (\<lambda>_. bi_modifier b) (bi_planes b))) else None)\<rparr>"

text \<open>
  One attempt: the kernel's answer, counted. A new framebuffer is alive in the kernel.
\<close>

definition add_fb :: "gl_env \<Rightarrow> addfb \<Rightarrow> gl_prog \<Rightarrow> u32 option \<times> gl_prog" where
  "add_fb e r g =
     (let ans = ge_addfb e (gp_adds g) r; g1 = g\<lparr>gp_adds := Suc (gp_adds g)\<rparr>;
          s = gp_display g; d = dy_drm s
      in (ans, case ans of None \<Rightarrow> g1 | Some i \<Rightarrow> g1\<lparr>gp_display := s\<lparr>dy_drm := d\<lparr>d_fbs := insert i (d_fbs d)\<rparr>\<rparr>\<rparr>))"

text \<open>\<open>None\<close>: more than four planes run over the arrays, and a failed \<open>calloc\<close> is written to.\<close>

definition fb_for_bo :: "gl_env \<Rightarrow> nat \<Rightarrow> gl_prog \<Rightarrow> (u32 \<times> gl_prog) option" where
  "fb_for_bo e bo g =
     (case gp_cache g bo of
        Some i \<Rightarrow> Some (i, g)
      | None \<Rightarrow>
          (let b = ge_bo e bo
           in if \<not> ge_calloc e \<or> length (bi_planes b) > 4 then None
              else let (r1, g1) = (if bi_modifier b \<noteq> DRM_FORMAT_MOD_INVALID then add_fb e (bo_request b True) g else (None, g));
                       (r2, g2) = (case r1 of Some i \<Rightarrow> (Some i, g1) | None \<Rightarrow> add_fb e (bo_request b False) g1)
                   in case r2 of
                        None \<Rightarrow> Some (0, g2)
                      | Some i \<Rightarrow> Some (i, g2\<lparr>gp_cache := (gp_cache g2)(bo \<mapsto> i)\<rparr>)))"

text \<open>\<open>bo_destroy\<close>, for every buffer with user data when the surface goes.\<close>

definition surface_destroy :: "gl_prog \<Rightarrow> gl_prog" where
  "surface_destroy g =
     (let s = gp_display g; d = dy_drm s
      in g\<lparr>gp_display := s\<lparr>dy_drm := d\<lparr>d_fbs := d_fbs d - {i \<in> ran (gp_cache g). i \<noteq> 0}\<rparr>\<rparr>, gp_cache := Map.empty\<rparr>)"

section \<open>The configuration\<close>

text \<open>
  The first call gives the number of configurations, the second fills at most that many;
  a configuration is its visual. The result indexes the second call's list.
\<close>

definition pick_config :: "int \<Rightarrow> u32 list \<Rightarrow> u32 \<Rightarrow> nat option" where
  "pick_config n visuals fmt =
     (if n \<le> 0 then None
      else let got = take (nat n) visuals
           in case find_index (\<lambda>v. v = fmt) got of
                Some i \<Rightarrow> Some i
              | None \<Rightarrow> if got = [] then None else Some 0)"

section \<open>The loop\<close>

record gl_round =
  gr_signal :: bool
  gr_lock :: "nat option"
  gr_polls :: "flip_poll list"
  gr_late :: bool

text \<open>The body; the boolean is false where the loop is left with \<open>break\<close>.\<close>

definition gl_body :: "gl_env \<Rightarrow> kms \<Rightarrow> gl_round \<Rightarrow> gl_prog \<Rightarrow> (bool \<times> gl_prog) option" where
  "gl_body e k r g =
     (case gr_lock r of
        None \<Rightarrow> Some (False, g)
      | Some bo \<Rightarrow>
     (case fb_for_bo e bo (g\<lparr>gp_locked := insert bo (gp_locked g)\<rparr>) of
        None \<Rightarrow> None
      | Some (i, g1) \<Rightarrow>
          if i = 0 then Some (False, gp_release bo g1)
          else if gp_first g1 then
            (let (_, req) = modeset_request (ge_diag e) k i;
                 (ok, s) = atomic_commit (ge_diag e) Modeset i req (gp_display g1);
                 g2 = g1\<lparr>gp_display := s\<rparr>
             in if \<not> ok then Some (False, g2)
                else Some (True, g2\<lparr>gp_first := False, gp_prev := Some bo, gp_running := (if gr_late r then False else gp_running g2)\<rparr>))
          else
            (let (_, req) = atomic_add (dx_add (ge_diag e)) (plane_id k) (plane_props k) ''FB_ID'' (ucast i) [];
                 (ok, s) = atomic_commit (ge_diag e) Flip i req (gp_display g1);
                 g2 = g1\<lparr>gp_display := s\<rparr>
             in if \<not> ok then Some (False, gp_release bo g2)
                else case flip_wait (gr_polls r) (gp_running g2) (True, s) of
                       None \<Rightarrow> None
                     | Some (run, s1) \<Rightarrow>
                         (let g3 = g2\<lparr>gp_display := s1\<rparr>;
                              g4 = (case gp_prev g3 of None \<Rightarrow> g3 | Some p \<Rightarrow> gp_release p g3)
                          in Some (True, g4\<lparr>gp_prev := Some bo, gp_running := (if gr_late r then False else run)\<rparr>)))))"

fun gl_loop :: "gl_env \<Rightarrow> kms \<Rightarrow> gl_round list \<Rightarrow> gl_prog \<Rightarrow> gl_prog option" where
  "gl_loop e k [] g = (if gp_running g then None else Some g)"
| "gl_loop e k (r # rs) g =
     (let g0 = (if gr_signal r then g\<lparr>gp_running := False\<rparr> else g)
      in if \<not> gp_running g0 then Some g0
         else case gl_body e k r g0 of
                None \<Rightarrow> None
              | Some (goes_on, g1) \<Rightarrow> if goes_on then gl_loop e k rs g1 else Some g1)"

section \<open>The program\<close>

text \<open>How far the set-up of GBM and EGL gets: each step's success, in order.\<close>

record gl_setup =
  gs_gbm :: bool
  gs_surface :: bool
  gs_display :: bool
  gs_init :: bool
  gs_configs :: int
  gs_visuals :: "u32 list"
  gs_context :: bool
  gs_egl_surface :: bool
  gs_current :: bool

definition GBM_FORMAT_XRGB8888 :: u32 where [simp]: "GBM_FORMAT_XRGB8888 = 0x34325258"

definition gl_ready :: "gl_setup \<Rightarrow> bool" where
  "gl_ready s =
     (if \<not> gs_gbm s then False
      else if \<not> gs_surface s then False
      else if \<not> gs_display s \<or> \<not> gs_init s then False
      else if pick_config (gs_configs s) (gs_visuals s) GBM_FORMAT_XRGB8888 = None then False
      else if \<not> gs_context s \<or> \<not> gs_egl_surface s \<or> \<not> gs_current s then False
      else True)"

definition gl_begin :: "display \<Rightarrow> gl_prog" where
  "gl_begin s = \<lparr>gp_display = s, gp_locked = {}, gp_cache = Map.empty, gp_adds = 0, gp_prev = None, gp_first = True, gp_running = True\<rparr>"

text \<open>
  \<open>diag_gl\<close>: its status, the display, and the buffers still locked when the surface is
  destroyed.
\<close>

definition diag_gl :: "gl_env \<Rightarrow> gl_setup \<Rightarrow> gl_round list \<Rightarrow> display \<Rightarrow> (int \<times> nat set \<times> display) option" where
  "diag_gl e st rs s =
     (case diag_target (ge_diag e) s of
        None \<Rightarrow> None
      | Some (None, s1) \<Rightarrow> Some (1, {}, s1)
      | Some (Some (f, k), s1) \<Rightarrow>
          if \<not> gl_ready st then Some (1, {}, s1)
          else case gl_loop e k rs (gl_begin s1) of
                 None \<Rightarrow> None
               | Some g \<Rightarrow>
                   (let g1 = (case gp_prev g of None \<Rightarrow> g | Some p \<Rightarrow> gp_release p g); g2 = surface_destroy g1
                    in Some (0, gp_locked g1, diag_close f k (gp_display g2))))"

end
