(* ===== verification/Diag_GL_Spec.thy ===== *)
theory Diag_GL_Spec
  imports Diag_GL Diag_Spec
begin

text \<open>
  The buffers of the GPU diagnostic: the one on the screen is always locked, so that
  nothing renders into it, every lock is released once, and the framebuffers wrapped around
  the buffers go with the surface.
\<close>

section \<open>What GBM and the kernel promise\<close>

text \<open>
  \<open>gbm_surface_lock_front_buffer\<close> hands out a buffer that is not locked, with at most four
  planes; the kernel's framebuffer ids are non-zero and free.
\<close>

definition lock_ok :: "gl_round \<Rightarrow> gl_prog \<Rightarrow> bool" where
  "lock_ok r g \<longleftrightarrow> (case gr_lock r of None \<Rightarrow> True | Some bo \<Rightarrow> bo \<notin> gp_locked g)"

definition gbm_ok :: "gl_env \<Rightarrow> drm \<Rightarrow> bool" where
  "gbm_ok e d0 \<longleftrightarrow> ge_calloc e \<and> (\<forall>bo. length (bi_planes (ge_bo e bo)) \<le> 4) \<and>
     (\<forall>n r i. ge_addfb e n r = Some i \<longrightarrow> i \<noteq> 0 \<and> i \<notin> d_fbs d0)"

section \<open>Wrapping a buffer\<close>

text \<open>The framebuffers alive are those from before and those in the cache.\<close>

definition wrapped :: "drm \<Rightarrow> gl_prog \<Rightarrow> bool" where
  "wrapped d0 g \<longleftrightarrow> (\<forall>i \<in> ran (gp_cache g). i \<noteq> 0 \<and> i \<notin> d_fbs d0) \<and>
     dy_drm (gp_display g) = d0\<lparr>d_fbs := d_fbs d0 \<union> ran (gp_cache g)\<rparr>"

text \<open>Everything but the cache and the framebuffers.\<close>

definition same_run :: "gl_prog \<Rightarrow> gl_prog \<Rightarrow> bool" where
  "same_run g g' \<longleftrightarrow> gp_locked g' = gp_locked g \<and> gp_prev g' = gp_prev g \<and> gp_first g' = gp_first g \<and> gp_running g' = gp_running g \<and>
     dy_shown (gp_display g') = dy_shown (gp_display g) \<and> dy_queued (gp_display g') = dy_queued (gp_display g) \<and>
     dy_commits (gp_display g') = dy_commits (gp_display g)"

text \<open>The framebuffer an answer adds.\<close>

definition with_id :: "u32 option \<Rightarrow> drm \<Rightarrow> drm" where
  "with_id ans d = (case ans of None \<Rightarrow> d | Some i \<Rightarrow> d\<lparr>d_fbs := insert i (d_fbs d)\<rparr>)"

lemma add_fb_effect:
  assumes "add_fb e r g = (ans, g')"
  shows "gp_cache g' = gp_cache g \<and> same_run g g' \<and> dy_drm (gp_display g') = with_id ans (dy_drm (gp_display g)) \<and>
    ans = ge_addfb e (gp_adds g) r"
  using assms by (auto simp: add_fb_def same_run_def with_id_def Let_def split: option.splits)

lemma fb_for_bo_effect:
  assumes "gbm_ok e d0" "wrapped d0 g"
  shows "\<exists>i g'. fb_for_bo e bo g = Some (i, g') \<and> wrapped d0 g' \<and> (i \<noteq> 0 \<longrightarrow> gp_cache g' bo = Some i) \<and>
    (\<forall>b. b \<noteq> bo \<longrightarrow> gp_cache g' b = gp_cache g b) \<and> same_run g g'"
proof (cases "gp_cache g bo")
  case (Some i)
  with assms(2) show ?thesis by (simp add: fb_for_bo_def same_run_def)
next
  case None
  let ?b = "ge_bo e bo"
  obtain r1 g1 where a1: "(if bi_modifier ?b \<noteq> DRM_FORMAT_MOD_INVALID then add_fb e (bo_request ?b True) g else (None, g)) = (r1, g1)" by fastforce
  obtain r2 g2 where a2: "(case r1 of Some i \<Rightarrow> (Some i, g1) | None \<Rightarrow> add_fb e (bo_request ?b False) g1) = (r2, g2)" by fastforce
  have ok: "ge_calloc e" "\<not> length (bi_planes ?b) > 4" using assms(1) by (simp_all add: gbm_ok_def not_less)
  have fb: "fb_for_bo e bo g = (case r2 of None \<Rightarrow> Some (0, g2) | Some i \<Rightarrow> Some (i, g2\<lparr>gp_cache := (gp_cache g2)(bo \<mapsto> i)\<rparr>))"
    using None ok a1 a2 unfolding fb_for_bo_def Let_def by simp
  have e1: "gp_cache g1 = gp_cache g \<and> same_run g g1 \<and> dy_drm (gp_display g1) = with_id r1 (dy_drm (gp_display g)) \<and>
      (\<forall>i. r1 = Some i \<longrightarrow> i \<noteq> 0 \<and> i \<notin> d_fbs d0)"
    using a1 add_fb_effect [of e "bo_request ?b True" g r1 g1] assms(1)
    by (auto simp: gbm_ok_def same_run_def with_id_def split: if_splits)
  have e2: "gp_cache g2 = gp_cache g \<and> same_run g g2 \<and> dy_drm (gp_display g2) = with_id r2 (dy_drm (gp_display g)) \<and>
      (\<forall>i. r2 = Some i \<longrightarrow> i \<noteq> 0 \<and> i \<notin> d_fbs d0)"
    using a2 e1 add_fb_effect [of e "bo_request ?b False" g1 r2 g2] assms(1)
    by (cases r1) (auto simp: gbm_ok_def same_run_def with_id_def)
  show ?thesis
  proof (cases r2)
    case None
    with fb e2 assms(2) show ?thesis by (simp add: wrapped_def with_id_def)
  next
    case (Some i)
    have "ran ((gp_cache g2)(bo \<mapsto> i)) = insert i (ran (gp_cache g))" using e2 None by simp
    with fb e2 assms(2) Some None show ?thesis by (auto simp: wrapped_def same_run_def with_id_def)
  qed
qed

section \<open>The loop\<close>

text \<open>
  At the head of the loop exactly the buffer on the screen is locked, none before the first
  frame; \<open>c0\<close> are the commits from before.
\<close>

definition gl_inv :: "drm \<Rightarrow> (commit_flags \<times> atomic_req \<times> bool) list \<Rightarrow> gl_prog \<Rightarrow> bool" where
  "gl_inv d0 c0 g \<longleftrightarrow> wrapped d0 g \<and> gp_locked g = set_option (gp_prev g) \<and> (gp_first g \<longleftrightarrow> gp_prev g = None) \<and>
     (if gp_first g then dy_commits (gp_display g) = c0 else \<exists>req cs. dy_commits (gp_display g) = c0 @ (Modeset, req, True) # cs) \<and>
     (gp_running g \<longrightarrow> dy_queued (gp_display g) = None \<and>
        (\<forall>b. gp_prev g = Some b \<longrightarrow> (\<exists>i. gp_cache g b = Some i \<and> dy_shown (gp_display g) = Some i)))"

text \<open>How the loop is left by a \<open>break\<close>: one buffer stays locked if the first modeset was refused.\<close>

definition gl_left :: "drm \<Rightarrow> (commit_flags \<times> atomic_req \<times> bool) list \<Rightarrow> gl_prog \<Rightarrow> bool" where
  "gl_left d0 c0 g \<longleftrightarrow> wrapped d0 g \<and>
     (if \<exists>req. dy_commits (gp_display g) = c0 @ [(Modeset, req, False)]
      then gp_prev g = None \<and> (\<exists>bo. gp_locked g = {bo}) else gp_locked g = set_option (gp_prev g))"

lemma inv_left: "gl_inv d0 c0 g \<Longrightarrow> gl_left d0 c0 g"
  by (auto simp: gl_inv_def gl_left_def split: if_splits)

lemma gl_body_inv:
  assumes "gl_inv d0 c0 g" "gp_running g" "lock_ok r g" "gbm_ok e d0" "gl_body e k r g = Some (b, g')"
  shows "if b then gl_inv d0 c0 g' else gl_left d0 c0 g'"
proof (cases "gr_lock r")
  case None
  with assms(1,5) inv_left show ?thesis by (simp add: gl_body_def)
next
  case (Some bo)
  let ?g = "g\<lparr>gp_locked := insert bo (gp_locked g)\<rparr>"
  have inv: "wrapped d0 ?g" "gp_locked g = set_option (gp_prev g)" "gp_first g \<longleftrightarrow> gp_prev g = None" "dy_queued (gp_display g) = None"
      "\<forall>b. gp_prev g = Some b \<longrightarrow> (\<exists>i. gp_cache g b = Some i \<and> dy_shown (gp_display g) = Some i)"
    using assms(1,2) by (auto simp: gl_inv_def wrapped_def)
  have new: "bo \<notin> gp_locked g" using assms(3) Some by (simp add: lock_ok_def)
  obtain i g1 where f: "fb_for_bo e bo ?g = Some (i, g1)" "wrapped d0 g1" "i \<noteq> 0 \<longrightarrow> gp_cache g1 bo = Some i"
      "\<forall>b. b \<noteq> bo \<longrightarrow> gp_cache g1 b = gp_cache g b" "same_run ?g g1"
    using fb_for_bo_effect [OF assms(4) inv(1), of bo] by auto
  note s1 = f(5) [unfolded same_run_def, simplified]
  have rel: "gp_locked (gp_release bo g1) = set_option (gp_prev g)" using s1 inv(2) new by (auto simp: gp_release_def)
  have cache: "gp_cache g1 b = gp_cache g b" if "gp_prev g = Some b" for b using f(4) that inv(2) new by auto
  have coms: "if gp_first g then dy_commits (gp_display g) = c0 else \<exists>req cs. dy_commits (gp_display g) = c0 @ (Modeset, req, True) # cs"
    using assms(1) by (simp add: gl_inv_def)
  show ?thesis
  proof (cases "i = 0")
    case True
    then have "b = False" "g' = gp_release bo g1" using assms(5) Some f(1) by (simp_all add: gl_body_def)
    moreover have "gl_left d0 c0 (gp_release bo g1)"
      using f(2) rel s1 coms by (auto simp: gl_left_def wrapped_def gp_release_def split: if_splits)
    ultimately show ?thesis by simp
  next
    case i: False
    show ?thesis
    proof (cases "gp_first g")
      case True
      obtain z req where req: "modeset_request (ge_diag e) k i = (z, req)" by fastforce
      obtain ok s where c: "atomic_commit (ge_diag e) Modeset i req (gp_display g1) = (ok, s)" by fastforce
      have s: "dy_drm s = dy_drm (gp_display g1)" "dy_commits s = c0 @ [(Modeset, req, ok)]"
          "ok \<longrightarrow> dy_shown s = Some i \<and> dy_queued s = None"
        using c commit_sel(1) [of "ge_diag e" Modeset i req "gp_display g1"] True coms s1 inv(4) by (auto simp: atomic_commit_def Let_def)
      have res: "(b, g') = (if \<not> ok then (False, g1\<lparr>gp_display := s\<rparr>)
          else (True, g1\<lparr>gp_display := s, gp_first := False, gp_prev := Some bo, gp_running := (if gr_late r then False else gp_running g1)\<rparr>))"
        using assms(5) Some f(1) i True s1 req c by (simp add: gl_body_def Let_def split: if_splits)
      have "gp_prev g = None" using True inv(3) by simp
      with res s f(2,3) i s1 inv(2) show ?thesis by (cases ok) (auto simp: gl_inv_def gl_left_def wrapped_def)
    next
      case False
      obtain z req where req: "atomic_add (dx_add (ge_diag e)) (plane_id k) (plane_props k) ''FB_ID'' (ucast i) [] = (z, req)" by fastforce
      obtain ok s where c: "atomic_commit (ge_diag e) Flip i req (gp_display g1) = (ok, s)" by fastforce
      obtain creq cs where cs: "dy_commits (gp_display g) = c0 @ (Modeset, creq, True) # cs" using coms False by auto
      have s: "dy_drm s = dy_drm (gp_display g1)" "dy_commits s = c0 @ (Modeset, creq, True) # cs @ [(Flip, req, ok)]"
          "dy_queued s = (if ok then Some i else None)" "dy_shown s = dy_shown (gp_display g)"
        using c commit_sel(1) [of "ge_diag e" Flip i req "gp_display g1"] cs s1 inv(4) by (auto simp: atomic_commit_def Let_def)
      obtain p where p: "gp_prev g = Some p" using False inv(3) by auto
      show ?thesis
      proof (cases ok)
        case ok: False
        then have "b = False" "g' = gp_release bo (g1\<lparr>gp_display := s\<rparr>)"
          using assms(5) Some f(1) i False s1 req c by (simp_all add: gl_body_def Let_def)
        moreover have "gl_left d0 c0 (gp_release bo (g1\<lparr>gp_display := s\<rparr>))"
          using f(2) rel s s1 by (auto simp: gl_left_def wrapped_def gp_release_def)
        ultimately show ?thesis by simp
      next
        case ok: True
        obtain run s2 where wt: "flip_wait (gr_polls r) (gp_running g1) (True, s) = Some (run, s2)"
            "g' = (gp_release p (g1\<lparr>gp_display := s2\<rparr>))\<lparr>gp_prev := Some bo, gp_running := (if gr_late r then False else run)\<rparr>" "b"
          using assms(5) Some f(1) i False s1 req c ok p by (auto simp: gl_body_def Let_def split: option.splits)
        note w = flip_wait_result [OF wt(1)]
        have "gp_locked g' = {bo}" using wt(2) s1 inv(2) p new by (auto simp: gp_release_def)
        then show ?thesis using wt w s f(2,3) i s1 ok False by (auto simp: gl_inv_def wrapped_def gp_release_def)
      qed
    qed
  qed
qed

section \<open>Runs\<close>

inductive gl_heads :: "gl_env \<Rightarrow> kms \<Rightarrow> gl_prog \<Rightarrow> gl_prog \<Rightarrow> bool" for e k g0 where
  gl_first: "gl_heads e k g0 g0"
| gl_next: "gl_heads e k g0 g \<Longrightarrow> gp_running g \<Longrightarrow> lock_ok r g \<Longrightarrow> gl_body e k r g = Some (True, g') \<Longrightarrow> gl_heads e k g0 g'"

lemma begin_inv: "dy_queued s = None \<Longrightarrow> gl_inv (dy_drm s) (dy_commits s) (gl_begin s)"
  by (simp add: gl_inv_def gl_begin_def wrapped_def)

lemma heads_inv: "gl_heads e k g0 g \<Longrightarrow> gl_inv d0 c0 g0 \<Longrightarrow> gbm_ok e d0 \<Longrightarrow> gl_inv d0 c0 g"
proof (induction rule: gl_heads.induct)
  case (gl_next g r g')
  then show ?case using gl_body_inv [of d0 c0 g r e k True g'] by simp
qed

text \<open>
  C19: At the head of every round of the GPU diagnostic no flip is pending, the buffer on the
  screen is locked, so that GBM cannot hand it to EGL to render into, and it is the only
  one locked.
\<close>

theorem gl_scanout_locked:
  assumes "gl_heads e k (gl_begin s) g" "gp_running g" "gbm_ok e (dy_drm s)" "dy_queued s = None"
  shows "dy_queued (gp_display g) = None \<and> gp_locked g = set_option (gp_prev g) \<and>
    (\<forall>b. gp_prev g = Some b \<longrightarrow> (\<exists>i. gp_cache g b = Some i \<and> i \<noteq> 0 \<and> dy_shown (gp_display g) = Some i))"
proof -
  have "gl_inv (dy_drm s) (dy_commits s) g" using heads_inv [OF assms(1) begin_inv [OF assms(4)] assms(3)] .
  then show ?thesis using assms(2) by (fastforce simp: gl_inv_def wrapped_def intro: ranI)
qed

text \<open>A surface of two buffers on the machine of the page-flip demonstration.\<close>

definition demo_gl :: gl_env where
  "demo_gl = \<lparr>ge_diag = demo_diag,
     ge_bo = (\<lambda>bo. \<lparr>bi_width = 1920, bi_height = 1080, bi_format = GBM_FORMAT_XRGB8888, bi_modifier = DRM_FORMAT_MOD_INVALID,
        bi_planes = [(of_nat bo + 9, 7680, 0)]\<rparr>),
     ge_calloc = True, ge_addfb = (\<lambda>n r. Some (if n = 0 then 40 else 41))\<rparr>"

definition demo_gl_round :: gl_round where
  "demo_gl_round = \<lparr>gr_signal = False, gr_lock = Some 0, gr_polls = [Poll_Event True], gr_late = False\<rparr>"

lemma demo_gbm: "gbm_ok demo_gl no_drm"
  by (auto simp: gbm_ok_def demo_gl_def no_drm_def)

lemma demo_gl_body: "\<exists>g. gl_body demo_gl k demo_gl_round (gl_begin dark_display) = Some (True, g) \<and> gp_running g \<and> gp_prev g = Some 0"
proof -
  obtain z req where req: "modeset_request demo_diag k 40 = (z, req)" by fastforce
  have ok: "dx_commit demo_diag n" for n by (simp add: demo_diag_def)
  show ?thesis
    by (simp add: gl_body_def gl_begin_def demo_gl_round_def demo_gl_def fb_for_bo_def add_fb_def req atomic_commit_def ok Let_def)
qed

theorem gl_scanout_locked_witness:
  "\<exists>g i. gl_heads demo_gl zero_kms (gl_begin dark_display) g \<and> gp_locked g = {0} \<and> dy_shown (gp_display g) = Some i \<and> i \<noteq> 0"
proof -
  obtain g where g: "gl_body demo_gl zero_kms demo_gl_round (gl_begin dark_display) = Some (True, g)" "gp_running g" "gp_prev g = Some 0"
    using demo_gl_body by blast
  have "lock_ok demo_gl_round (gl_begin dark_display)" by (simp add: lock_ok_def demo_gl_round_def gl_begin_def)
  then have h: "gl_heads demo_gl zero_kms (gl_begin dark_display) g"
    using gl_next [OF gl_first [of demo_gl zero_kms] _ _ g(1)] by (simp add: gl_begin_def)
  have "dy_drm dark_display = no_drm" "dy_queued dark_display = None" by (simp_all add: dark_display_def)
  with gl_scanout_locked [OF h g(2)] demo_gbm g(3) h show ?thesis by auto
qed

text \<open>GBM keeps its promise along the whole run.\<close>

fun locks_ok :: "gl_env \<Rightarrow> kms \<Rightarrow> gl_round list \<Rightarrow> gl_prog \<Rightarrow> bool" where
  "locks_ok e k [] g = True"
| "locks_ok e k (r # rs) g \<longleftrightarrow>
     (\<not> gr_signal r \<longrightarrow> gp_running g \<longrightarrow>
       lock_ok r g \<and> (case gl_body e k r g of Some (True, g') \<Rightarrow> locks_ok e k rs g' | _ \<Rightarrow> True))"

lemma gl_body_returns:
  assumes "gl_inv d0 c0 g" "gbm_ok e d0" "wait_ends (gr_polls r)"
  shows "\<exists>b g'. gl_body e k r g = Some (b, g') \<and> (b \<longrightarrow> gr_late r \<longrightarrow> \<not> gp_running g')"
proof (cases "gr_lock r")
  case (Some bo)
  have "wrapped d0 (g\<lparr>gp_locked := insert bo (gp_locked g)\<rparr>)" using assms(1) by (simp add: gl_inv_def wrapped_def)
  then obtain i g1 where f: "fb_for_bo e bo (g\<lparr>gp_locked := insert bo (gp_locked g)\<rparr>) = Some (i, g1)"
    using fb_for_bo_effect [OF assms(2)] by blast
  have wt: "\<exists>run s'. flip_wait (gr_polls r) (gp_running g1) (True, s) = Some (run, s')" for s
    using flip_wait_ends [OF assms(3)] by fastforce
  obtain z req where req: "atomic_add (dx_add (ge_diag e)) (plane_id k) (plane_props k) ''FB_ID'' (ucast i) [] = (z, req)" by fastforce
  obtain ok s where c: "atomic_commit (ge_diag e) Flip i req (gp_display g1) = (ok, s)" by fastforce
  obtain run s' where w: "flip_wait (gr_polls r) (gp_running g1) (True, s) = Some (run, s')" using wt by blast
  obtain z2 req2 where req2: "modeset_request (ge_diag e) k i = (z2, req2)" by fastforce
  obtain ok2 s2 where c2: "atomic_commit (ge_diag e) Modeset i req2 (gp_display g1) = (ok2, s2)" by fastforce
  show ?thesis
    unfolding gl_body_def Some option.case f prod.case req req2 Let_def c c2 using w by (cases ok; cases ok2) auto
qed (auto simp: gl_body_def)

lemma gl_loop_stopped: "\<not> gp_running g \<Longrightarrow> gl_loop e k rs g = Some g"
  by (cases rs; cases g) (simp_all add: Let_def)

lemma gl_loop_returns:
  "gl_inv d0 c0 g \<Longrightarrow> gbm_ok e d0 \<Longrightarrow> locks_ok e k rs g \<Longrightarrow> \<forall>r \<in> set rs. wait_ends (gr_polls r) \<Longrightarrow>
   \<exists>r \<in> set rs. gr_signal r \<or> gr_late r \<or> \<not> gp_running g \<Longrightarrow> \<exists>g'. gl_loop e k rs g = Some g' \<and> gl_left d0 c0 g'"
proof (induction rs arbitrary: g)
  case (Cons r rs)
  let ?g = "if gr_signal r then g\<lparr>gp_running := False\<rparr> else g"
  have inv: "gl_inv d0 c0 ?g" using Cons.prems(1) by (auto simp: gl_inv_def wrapped_def)
  show ?case
  proof (cases "gp_running ?g")
    case False
    then show ?thesis using inv_left [OF inv] by (simp add: Let_def)
  next
    case True
    then have run: "\<not> gr_signal r" "gp_running g" by (auto split: if_splits)
    have lock: "lock_ok r g" using Cons.prems(3) run by simp
    obtain b g' where b: "gl_body e k r g = Some (b, g')" "b \<longrightarrow> gr_late r \<longrightarrow> \<not> gp_running g'"
      using gl_body_returns [OF Cons.prems(1,2)] Cons.prems(4) by fastforce
    note after = gl_body_inv [OF Cons.prems(1) run(2) lock Cons.prems(2) b(1)]
    show ?thesis
    proof (cases b)
      case False
      with after b(1) run show ?thesis by (simp add: Let_def)
    next
      case on: True
      have inv': "gl_inv d0 c0 g'" and locks: "locks_ok e k rs g'" using after on Cons.prems(3) run b(1) by auto
      have "\<exists>x. gl_loop e k rs g' = Some x \<and> gl_left d0 c0 x"
      proof (cases "gp_running g'")
        case False
        then show ?thesis using inv_left [OF inv'] gl_loop_stopped by blast
      next
        case True
        then have "\<exists>r \<in> set rs. gr_signal r \<or> gr_late r \<or> \<not> gp_running g'" using Cons.prems(5) run b(2) on by auto
        from Cons.IH [OF inv' Cons.prems(2) locks _ this] Cons.prems(4) show ?thesis by simp
      qed
      with b(1) on run show ?thesis by (simp add: Let_def)
    qed
  qed
qed simp

text \<open>
  C27: The GPU diagnostic, once it has a target and GBM and EGL are set up (\<open>gl_ready\<close>), returns
  and gives the display back: when
  every wait ends and a signal comes or the time is up, the mode blob and the
  framebuffers wrapped around the buffers are gone and nothing else is. Every buffer it
  locked it has released by the time the surface is destroyed, with one exception: when
  the first modeset is refused, the buffer it was to show is never released. The
  hypotheses on the environment are that GBM hands out buffers under its documented rules
  (\<open>locks_ok\<close>) and framebuffer ids that are new (\<open>gbm_ok\<close>). Nothing is said of the returns
  with 1 when GBM or EGL cannot be set up: they leave the mode blob, and the objects made so far.
\<close>

theorem gl_gives_back:
  assumes "diag_target (ge_diag e) s = Some (Some (f, k), s1)" "gl_ready st"
    and "\<And>b. dx_blob (ge_diag e) = Some b \<Longrightarrow> b \<noteq> 0 \<and> b \<notin> d_blobs (dy_drm s)" "gbm_ok e (dy_drm s)" "dy_queued s = None"
    and "locks_ok e k rs (gl_begin s1)" "\<forall>r \<in> set rs. wait_ends (gr_polls r)" "\<exists>r \<in> set rs. gr_signal r \<or> gr_late r"
  shows "\<exists>left s'. diag_gl e st rs s = Some (0, left, s') \<and> dy_drm s' = dy_drm s \<and> \<not> dy_master s' \<and>
    (if \<exists>req. dy_commits s' = dy_commits s @ [(Modeset, req, False)] then \<exists>bo. left = {bo} else left = {})"
proof -
  note tg = target_took [OF assms(1)]
  have blob: "dx_blob (ge_diag e) = Some (mode_blob k)" "dy_drm s1 = (dy_drm s)\<lparr>d_blobs := insert (mode_blob k) (d_blobs (dy_drm s))\<rparr>"
    using setup_sound [OF tg(1)] by auto
  then have b: "mode_blob k \<noteq> 0" "mode_blob k \<notin> d_blobs (dy_drm s)" using assms(3) by blast+
  have gbm: "gbm_ok e (dy_drm s1)" using assms(4) blob(2) by (simp add: gbm_ok_def)
  have inv: "gl_inv (dy_drm s1) (dy_commits s) (gl_begin s1)" using begin_inv [of s1] assms(5) tg by simp
  obtain g where g: "gl_loop e k rs (gl_begin s1) = Some g" "gl_left (dy_drm s1) (dy_commits s) g"
    using gl_loop_returns [OF inv gbm assms(6,7)] assms(8) by blast
  let ?g1 = "case gp_prev g of None \<Rightarrow> g | Some p \<Rightarrow> gp_release p g"
  have g1: "gp_cache ?g1 = gp_cache g" "gp_display ?g1 = gp_display g"
      "gp_locked ?g1 = (case gp_prev g of None \<Rightarrow> gp_locked g | Some p \<Rightarrow> gp_locked g - {p})"
    by (simp_all add: gp_release_def split: option.split)
  have w: "dy_drm (gp_display g) = (dy_drm s1)\<lparr>d_fbs := d_fbs (dy_drm s1) \<union> ran (gp_cache g)\<rparr>"
      "\<forall>i \<in> ran (gp_cache g). i \<noteq> 0 \<and> i \<notin> d_fbs (dy_drm s1)"
    using g(2) by (simp_all add: gl_left_def wrapped_def)
  have gone: "dy_drm (gp_display (surface_destroy ?g1)) = dy_drm s1"
  proof -
    have "d_fbs (dy_drm s1) \<union> ran (gp_cache g) - {i \<in> ran (gp_cache g). i \<noteq> 0} = d_fbs (dy_drm s1)" using w(2) by blast
    then show ?thesis by (simp add: surface_destroy_def g1(1,2) w(1) Let_def)
  qed
  let ?s' = "diag_close f k (gp_display (surface_destroy ?g1))"
  have run: "diag_gl e st rs s = Some (0, gp_locked ?g1, ?s')" using assms(1,2) g(1) by (simp add: diag_gl_def Let_def)
  have "dy_drm ?s' = dy_drm s" using gone blob(2) b by (simp add: diag_close_def kms_finish_def destroy_blob_def)
  moreover have "dy_commits ?s' = dy_commits (gp_display g)" by (simp add: diag_close_def surface_destroy_def g1(2) Let_def)
  then have "if \<exists>req. dy_commits ?s' = dy_commits s @ [(Modeset, req, False)] then \<exists>bo. gp_locked ?g1 = {bo} else gp_locked ?g1 = {}"
    using g(2) unfolding g1(3) gl_left_def by (auto split: option.split if_splits)
  moreover have "\<not> dy_master ?s'" by (simp add: diag_close_def)
  ultimately show ?thesis using run by blast
qed

theorem gl_gives_back_witness:
  "\<exists>left s'. diag_gl demo_gl \<lparr>gs_gbm = True, gs_surface = True, gs_display = True, gs_init = True, gs_configs = 1, gs_visuals = [0x34325258],
       gs_context = True, gs_egl_surface = True, gs_current = True\<rparr> [demo_gl_round\<lparr>gr_late := True\<rparr>] dark_display = Some (0, left, s') \<and>
     dy_drm s' = no_drm"
proof -
  let ?st = "\<lparr>gs_gbm = True, gs_surface = True, gs_display = True, gs_init = True, gs_configs = 1, gs_visuals = [0x34325258 :: u32],
       gs_context = True, gs_egl_surface = True, gs_current = True\<rparr>"
  let ?r = "demo_gl_round\<lparr>gr_late := True\<rparr>"
  have dg: "ge_diag demo_gl = demo_diag" by (simp add: demo_gl_def)
  obtain k t where t: "diag_target (ge_diag demo_gl) dark_display = Some (Some (7, k), t)" unfolding dg using demo_target by blast
  have ready: "gl_ready ?st" by (simp add: gl_ready_def pick_config_def)
  have blob: "b \<noteq> 0 \<and> b \<notin> d_blobs (dy_drm dark_display)" if "dx_blob (ge_diag demo_gl) = Some b" for b
    using that by (auto simp: dg demo_diag_def dark_display_def no_drm_def)
  have dark: "dy_drm dark_display = no_drm" "dy_queued dark_display = None" by (simp_all add: dark_display_def)
  have locks: "locks_ok demo_gl k [?r] (gl_begin t)"
    by (simp add: lock_ok_def demo_gl_round_def gl_begin_def split: option.split prod.split bool.split)
  have ends: "\<forall>r \<in> set [?r]. wait_ends (gr_polls r)" "\<exists>r \<in> set [?r]. gr_signal r \<or> gr_late r"
    by (simp_all add: wait_ends_def demo_gl_round_def)
  have gbm: "gbm_ok demo_gl (dy_drm dark_display)" using demo_gbm dark by simp
  from gl_gives_back [OF t ready blob gbm dark(2) locks ends] dark(1) show ?thesis by auto
qed

end
