(* ===== verification/Diag_Enum.thy ===== *)
theory Diag_Enum
  imports Platform_Spec
begin

text \<open>
  The diagnostics that only look: \<open>diag_enumerate\<close> and \<open>diag_hotplug\<close> of \<open>src/src/\<close>, and
  \<open>print_connectors\<close> of \<open>platform.c\<close>. What they print is a list of lines, one constructor
  per format string with the values it is given.
\<close>

section \<open>Names\<close>

text \<open>The connector types of \<open>drm_mode.h\<close>, by their numbers there; \<open>Unknown\<close> is also 0.\<close>

definition conn_names :: "(u32 \<times> string) list" where
  "conn_names =
     [(1, ''VGA''), (2, ''DVI-I''), (3, ''DVI-D''), (4, ''DVI-A''), (5, ''Composite''), (6, ''S-Video''), (7, ''LVDS''),
      (8, ''Component''), (9, ''DIN''), (10, ''DP''), (11, ''HDMI-A''), (12, ''HDMI-B''), (13, ''TV''), (14, ''eDP''),
      (15, ''Virtual''), (16, ''DSI''), (18, ''Writeback'')]"

definition conn_type_name :: "u32 \<Rightarrow> string" where
  "conn_type_name t = (case map_of conn_names t of None \<Rightarrow> ''Unknown'' | Some n \<Rightarrow> n)"

definition plane_type_name :: "u64 \<Rightarrow> string" where
  "plane_type_name t = (if t = 0 then ''OVERLAY'' else if t = 1 then ''PRIMARY'' else if t = 2 then ''CURSOR'' else ''?'')"

definition DRM_MODE_DISCONNECTED :: u32 where [simp]: "DRM_MODE_DISCONNECTED = 2"

definition connector_status :: "u32 \<Rightarrow> string" where
  "connector_status c =
     (if c = DRM_MODE_CONNECTED then ''connected'' else if c = DRM_MODE_DISCONNECTED then ''disconnected'' else ''unknown'')"

text \<open>\<open>%c%c%c%c\<close> of a format's four bytes.\<close>

definition fourcc :: "u32 \<Rightarrow> string" where
  "fourcc f = map (\<lambda>n. char_of (unat (drop_bit n f AND 0xff))) [0, 8, 16, 24]"

section \<open>The device\<close>

text \<open>What the enumeration asks beyond \<open>drm_dev\<close>: limits, CRTCs, blob lengths, formats of a plane.\<close>

record enum_dev =
  ed_dev :: drm_dev
  ed_limits :: "u32 \<times> u32 \<times> u32 \<times> u32"
  ed_crtc :: "u32 \<Rightarrow> (u32 \<times> string option) option"
  ed_blob :: "u32 \<Rightarrow> nat option"
  ed_formats :: "u32 \<Rightarrow> u32 list"
  ed_calloc :: bool

datatype enum_line =
    Device_Line "u32 \<times> u32 \<times> u32 \<times> u32"
  | Connectors_Line nat
  | Connector_Line u32 string u32 string u32 nat
  | Mode_Line nat string u16 u16 u32 bool
  | Crtcs_Line nat
  | Crtc_Line u32 nat bool string
  | Planes_Line nat
  | Plane_Line u32 string u32 "string list"
  | Planes_Error
  | Resources_Error

section \<open>Enumeration\<close>

definition edid_len :: "enum_dev \<Rightarrow> drm_connector \<Rightarrow> nat" where
  "edid_len v c =
     (let (r, pm) = prop_map_load (ed_dev v) (dc_id c) (ed_calloc v)
      in if r \<noteq> 0 then 0
         else case prop_value pm ''EDID'' of
                None \<Rightarrow> 0
              | Some blob \<Rightarrow> if blob = 0 then 0 else (case ed_blob v (ucast blob) of None \<Rightarrow> 0 | Some len \<Rightarrow> len))"

definition mode_line :: "nat \<Rightarrow> drm_mode \<Rightarrow> enum_line" where
  "mode_line m md = Mode_Line m (mo_name md) (hdisplay md) (vdisplay md) (vrefresh md) (mo_type md AND DRM_MODE_TYPE_PREFERRED \<noteq> 0)"

text \<open>The nested conditional of the listing; the hotplug log has \<open>connector_status\<close>.\<close>

definition enum_status :: "u32 \<Rightarrow> string" where
  "enum_status c =
     (if c = DRM_MODE_CONNECTED then ''connected''
      else (if c = DRM_MODE_DISCONNECTED then ''disconnected'' else ''unknown''))"

lemma enum_status_same: "enum_status c = connector_status c"
  by (simp add: enum_status_def connector_status_def)

definition connector_lines :: "enum_dev \<Rightarrow> u32 \<Rightarrow> enum_line list" where
  "connector_lines v i =
     (case dv_connector (ed_dev v) i of
        None \<Rightarrow> []
      | Some c \<Rightarrow>
          Connector_Line (dc_id c) (conn_type_name (dc_type c)) (dc_type_id c) (enum_status (connection c)) (encoder_id c) (edid_len v c)
          # map (\<lambda>m. mode_line m (dc_modes c ! m)) [0..<length (dc_modes c)])"

definition dump_connectors :: "enum_dev \<Rightarrow> u32 list \<Rightarrow> enum_line list" where
  "dump_connectors v conns = Connectors_Line (length conns) # concat (map (connector_lines v) conns)"

definition crtc_lines :: "enum_dev \<Rightarrow> u32 list \<Rightarrow> nat \<Rightarrow> enum_line list" where
  "crtc_lines v crtcs i =
     (case ed_crtc v (crtcs ! i) of
        None \<Rightarrow> []
      | Some (c, m) \<Rightarrow> [Crtc_Line c i (m \<noteq> None) (case m of None \<Rightarrow> ''-'' | Some n \<Rightarrow> n)])"

definition dump_crtcs :: "enum_dev \<Rightarrow> u32 list \<Rightarrow> enum_line list" where
  "dump_crtcs v crtcs = Crtcs_Line (length crtcs) # concat (map (crtc_lines v crtcs) [0..<length crtcs])"

definition plane_lines :: "enum_dev \<Rightarrow> u32 \<Rightarrow> enum_line list" where
  "plane_lines v p =
     (case dv_plane (ed_dev v) p of
        None \<Rightarrow> []
      | Some pl \<Rightarrow>
          (let (r, pm) = prop_map_load (ed_dev v) (pl_id pl) (ed_calloc v);
               t = (if r = 0 then (case prop_value pm ''type'' of Some t \<Rightarrow> t | None \<Rightarrow> 0xff) else 0xff)
           in [Plane_Line (pl_id pl) (plane_type_name t) (pl_possible_crtcs pl) (map fourcc (ed_formats v (pl_id pl)))]))"

definition dump_planes :: "enum_dev \<Rightarrow> enum_line list" where
  "dump_planes v =
     (case dv_planes (ed_dev v) of
        None \<Rightarrow> [Planes_Error]
      | Some ps \<Rightarrow> Planes_Line (length ps) # concat (map (plane_lines v) ps))"

text \<open>\<open>diag_enumerate\<close>: the descriptor, unlike the others', is never closed.\<close>

definition diag_enumerate :: "card option \<Rightarrow> card list \<Rightarrow> (fd \<Rightarrow> enum_dev) \<Rightarrow> 'm kern \<Rightarrow> int \<times> enum_line list \<times> 'm kern" where
  "diag_enumerate path cards dev k =
     (let (f, k1) = drm_open path cards k
      in if f < 0 then (1, [], k1)
         else case dv_res (ed_dev (dev f)) of
                None \<Rightarrow> (1, [Resources_Error], k1)
              | Some (conns, crtcs) \<Rightarrow>
                  (0, Device_Line (ed_limits (dev f)) # dump_connectors (dev f) conns @ dump_crtcs (dev f) crtcs @ dump_planes (dev f), k1))"

section \<open>Hotplug\<close>

text \<open>What the log of a connector has: its id, status and number of modes.\<close>

datatype log_line =
    Connector_Log u32 string nat | Resources_Log | Uevent_Log string string | Topology_Log | Watching_Log | Failed_Log string

fun connector_logs :: "drm_dev \<Rightarrow> u32 list \<Rightarrow> log_line list" where
  "connector_logs dv [] = []"
| "connector_logs dv (i # is) =
     (case dv_connector dv i of
        None \<Rightarrow> connector_logs dv is
      | Some c \<Rightarrow> Connector_Log (dc_id c) (connector_status (connection c)) (length (dc_modes c)) # connector_logs dv is)"

definition print_connectors :: "drm_dev \<Rightarrow> log_line list" where
  "print_connectors dv = (case dv_res dv of None \<Rightarrow> [Resources_Log] | Some (conns, _) \<Rightarrow> connector_logs dv conns)"

text \<open>
  One turn of the loop: a \<open>SIGINT\<close> before its test, a timeout or a failed poll, a wake-up
  without a device, an event with its action and \<open>HOTPLUG\<close> property and the topology by then.
\<close>

datatype hotplug_turn = Hot_Signal | Hot_Nothing | Hot_No_Device | Hot_Event "string option" "string option" drm_dev

fun hotplug_loop :: "hotplug_turn list \<Rightarrow> log_line list option" where
  "hotplug_loop [] = None"
| "hotplug_loop (Hot_Signal # ts) = Some []"
| "hotplug_loop (Hot_Nothing # ts) = hotplug_loop ts"
| "hotplug_loop (Hot_No_Device # ts) = hotplug_loop ts"
| "hotplug_loop (Hot_Event action hotplug dv # ts) =
     map_option (\<lambda>ls. Uevent_Log (case action of None \<Rightarrow> ''?'' | Some a \<Rightarrow> a) (case hotplug of None \<Rightarrow> ''0'' | Some h \<Rightarrow> h)
                      # print_connectors dv @ ls) (hotplug_loop ts)"

definition diag_hotplug ::
  "card option \<Rightarrow> card list \<Rightarrow> bool \<Rightarrow> bool \<Rightarrow> (fd \<Rightarrow> drm_dev) \<Rightarrow> hotplug_turn list \<Rightarrow> 'm kern \<Rightarrow> (int \<times> log_line list \<times> 'm kern) option" where
  "diag_hotplug path cards udev_ok monitor_ok dev ts k =
     (let (f, k1) = drm_open path cards k
      in if f < 0 then Some (1, [], k1)
         else if \<not> udev_ok then Some (1, [Failed_Log ''udev_new failed''], k1)
         else if \<not> monitor_ok then Some (1, [Failed_Log ''udev_monitor_new_from_netlink failed''], k1)
         else map_option (\<lambda>ls. (0, Topology_Log # print_connectors (dev f) @ Watching_Log # ls, k_close f k1)) (hotplug_loop ts))"

section \<open>What they agree on\<close>

text \<open>The connectors a listing shows, with their status and number of modes.\<close>

fun listed :: "enum_line list \<Rightarrow> (u32 \<times> string \<times> nat) list" where
  "listed [] = []"
| "listed (Connector_Line i _ _ st _ _ # ls) =
     (i, st, length (takeWhile (\<lambda>l. case l of Mode_Line _ _ _ _ _ _ \<Rightarrow> True | _ \<Rightarrow> False) ls)) # listed ls"
| "listed (_ # ls) = listed ls"

fun logged :: "log_line list \<Rightarrow> (u32 \<times> string \<times> nat) list" where
  "logged [] = []"
| "logged (Connector_Log i st n # ls) = (i, st, n) # logged ls"
| "logged (_ # ls) = logged ls"

definition no_mode_first :: "enum_line list \<Rightarrow> bool" where
  "no_mode_first ls \<longleftrightarrow> (case ls of Mode_Line _ _ _ _ _ _ # _ \<Rightarrow> False | _ \<Rightarrow> True)"

lemma listed_modes:
  assumes "no_mode_first ls"
  shows "listed (map (\<lambda>m. mode_line m (ms ! m)) js @ ls) = listed ls"
    "length (takeWhile (\<lambda>l. case l of Mode_Line _ _ _ _ _ _ \<Rightarrow> True | _ \<Rightarrow> False) (map (\<lambda>m. mode_line m (ms ! m)) js @ ls)) = length js"
proof -
  show "listed (map (\<lambda>m. mode_line m (ms ! m)) js @ ls) = listed ls" by (induction js) (simp_all add: mode_line_def)
  have "takeWhile (\<lambda>l. case l of Mode_Line _ _ _ _ _ _ \<Rightarrow> True | _ \<Rightarrow> False) ls = []"
    using assms by (auto simp: no_mode_first_def takeWhile_eq_Nil_iff split: list.splits enum_line.splits)
  then show "length (takeWhile (\<lambda>l. case l of Mode_Line _ _ _ _ _ _ \<Rightarrow> True | _ \<Rightarrow> False) (map (\<lambda>m. mode_line m (ms ! m)) js @ ls)) = length js"
    by (induction js) (simp_all add: mode_line_def)
qed

lemma connector_lines_first: "no_mode_first (connector_lines v i @ ls) \<longleftrightarrow> connector_lines v i \<noteq> [] \<or> no_mode_first ls"
  by (auto simp: connector_lines_def no_mode_first_def split: option.split)

lemma listed_connectors:
  "no_mode_first ls \<Longrightarrow>
   no_mode_first (concat (map (connector_lines v) is) @ ls) \<and>
   listed (concat (map (connector_lines v) is) @ ls) = logged (connector_logs (ed_dev v) is) @ listed ls"
proof (induction "is")
  case (Cons i "is")
  note IH = Cons.IH [OF Cons.prems]
  note modes = listed_modes [OF conjunct1 [OF IH]]
  show ?case
  proof (cases "dv_connector (ed_dev v) i")
    case None
    with IH show ?thesis by (simp add: connector_lines_def)
  next
    case (Some c)
    with IH modes show ?thesis by (simp add: connector_lines_def no_mode_first_def enum_status_same)
  qed
qed simp

lemma listed_rest: "listed (dump_crtcs v crtcs @ dump_planes v) = []" "no_mode_first (dump_crtcs v crtcs @ dump_planes v)"
proof -
  have crtcs: "listed (concat (map (crtc_lines v crtcs) is) @ ls) = listed ls" for "is" ls
    by (induction "is") (auto simp: crtc_lines_def split: option.split)
  have planes: "listed (concat (map (plane_lines v) ps)) = []" for ps
    by (induction ps) (auto simp: plane_lines_def Let_def split: option.split prod.split)
  show "listed (dump_crtcs v crtcs @ dump_planes v) = []"
    by (simp add: dump_crtcs_def crtcs) (simp add: dump_planes_def planes split: option.split)
  show "no_mode_first (dump_crtcs v crtcs @ dump_planes v)" by (simp add: dump_crtcs_def no_mode_first_def)
qed

lemma logged_connected: "(\<exists>i n. (i, ''connected'', n) \<in> set (logged (connector_logs dv is))) \<longleftrightarrow> any_connected dv is"
  by (induction "is") (auto simp: connector_status_def split: option.splits if_splits)

text \<open>
  C30: The enumeration and the hotplug log describe the same connectors, with the same status and
  number of modes, in the same order; and they show a connected one exactly when the search
  for a device counts the device as connected.
\<close>

theorem enumerate_like_print:
  assumes "diag_enumerate path cards dev k = (0, ls, k')" "drm_open path cards k = (f, k')"
  shows "listed ls = logged (print_connectors (ed_dev (dev f))) \<and>
    ((\<exists>i n. (i, ''connected'', n) \<in> set (listed ls)) \<longleftrightarrow> drm_has_connected (ed_dev (dev f)))"
proof -
  obtain conns crtcs where r: "dv_res (ed_dev (dev f)) = Some (conns, crtcs)"
      "ls = Device_Line (ed_limits (dev f)) # dump_connectors (dev f) conns @ dump_crtcs (dev f) crtcs @ dump_planes (dev f)"
    using assms by (auto simp: diag_enumerate_def split: if_splits option.splits)
  have "listed ls = logged (connector_logs (ed_dev (dev f)) conns)"
    using listed_connectors [OF listed_rest(2), of "dev f" conns "dev f" crtcs] listed_rest(1) [of "dev f" crtcs]
    by (simp add: r(2) dump_connectors_def)
  with r(1) logged_connected show ?thesis by (simp add: print_connectors_def drm_has_connected_def)
qed

definition demo_enum :: enum_dev where
  "demo_enum = \<lparr>ed_dev = demo_dev, ed_limits = (0, 0, 4096, 4096), ed_crtc = (\<lambda>_. None), ed_blob = (\<lambda>_. None),
     ed_formats = (\<lambda>_. []), ed_calloc = True\<rparr>"

theorem enumerate_like_print_witness:
  "\<exists>ls k'. diag_enumerate (Some (demo_card 7 1)) [] (\<lambda>_. demo_enum) \<lparr>maps = (\<lambda>_. None), next_map = 0, trace = []\<rparr> = (0, ls, k' :: unit kern) \<and>
     listed ls = [(31, ''connected'', 2)] \<and> (\<exists>i n. (i, ''connected'', n) \<in> set (listed ls))"
proof -
  let ?k = "\<lparr>maps = (\<lambda>_. None), next_map = 0, trace = []\<rparr> :: unit kern"
  have op: "drm_open (Some (demo_card 7 1)) [] ?k = (7, ?k)" by (simp add: drm_open_def demo_card_def card_caps_def drm_set_caps_def)
  obtain ls where e: "diag_enumerate (Some (demo_card 7 1)) [] (\<lambda>_. demo_enum) ?k = (0, ls, ?k)"
    using op by (simp add: diag_enumerate_def demo_enum_def demo_dev_def)
  have "logged (print_connectors (ed_dev demo_enum)) = [(31, ''connected'', 2)]" "drm_has_connected (ed_dev demo_enum)"
    by (simp_all add: print_connectors_def demo_enum_def demo_dev_def connector_status_def demo_connector_def drm_has_connected_def)
  with enumerate_like_print [OF e op] e show ?thesis by auto
qed

end
