(* ===== verification/Entry.thy ===== *)
theory Entry
  imports Prelude
begin

text \<open>
  The two ends of the program: \<open>main.c\<close>, which finds the command that was asked for, and
  \<open>log.c\<close>, the logger every part writes through. A command is named by the function of the
  table that runs it; the functions themselves are \<open>server_run\<close> and the \<open>diag\<close> theories'.
  What the logger writes is text; \<open>msg\<close> is the message after \<open>vfprintf\<close> has formatted it.
\<close>

section \<open>main.c\<close>

datatype entry = Server_Run | Diag_Enumerate | Diag_Firstlight | Diag_Pageflip | Diag_GL | Diag_Seat | Diag_Hotplug

definition cmds :: "(string \<times> entry \<times> string) list" where
  "cmds =
     [(''wm'', Server_Run, ''display server: WM + CPU compositor (Phase 2)''),
      (''enum'', Diag_Enumerate, ''diag: resource enumeration (no master)''),
      (''firstlight'', Diag_Firstlight, ''diag: dumb-buffer atomic modeset, solid color''),
      (''flip'', Diag_Pageflip, ''diag: double-buffer page-flip loop (vsync)''),
      (''gl'', Diag_GL, ''diag: GBM/EGL/GLES triangle, scanned out''),
      (''seatd'', Diag_Seat, ''diag: seatd session + VT switching''),
      (''hotplug'', Diag_Hotplug, ''diag: udev DRM hotplug monitor (no master)'')]"

text \<open>\<open>%-11s\<close>: padded to eleven columns, never cut.\<close>

definition pad :: "nat \<Rightarrow> string \<Rightarrow> string" where
  "pad n s = s @ replicate (n - length s) CHR '' ''"

definition usage :: "string \<Rightarrow> int \<times> string" where
  "usage prog =
     (2, ''usage: '' @ prog @ '' <command> [/dev/dri/cardN]\<newline>\<newline>'' @
         concat (map (\<lambda>(name, _, desc). ''  '' @ pad 11 name @ '' '' @ desc @ ''\<newline>'') cmds))"

fun find_cmd :: "string \<Rightarrow> (string \<times> entry \<times> string) list \<Rightarrow> entry option" where
  "find_cmd s [] = None"
| "find_cmd s ((name, run, _) # cs) = (if s = name then Some run else find_cmd s cs)"

text \<open>\<open>main\<close> over its arguments, the program name first (there is one: the program is started by a shell or the greeter); \<open>run\<close> is what the commands' functions return and print.\<close>

definition main_c :: "(entry \<Rightarrow> string list \<Rightarrow> int \<times> string) \<Rightarrow> string list \<Rightarrow> int \<times> string" where
  "main_c run argv =
     (if length argv < 2 then usage (argv ! 0)
      else case find_cmd (argv ! 1) cmds of
             Some e \<Rightarrow> run e (drop 1 argv)
           | None \<Rightarrow> (let (r, out) = usage (argv ! 0) in (r, ''unknown command: '' @ argv ! 1 @ ''\<newline>\<newline>'' @ out)))"

lemma find_cmd_map: "find_cmd s cs = map_of (map (\<lambda>(name, run, _). (name, run)) cs) s"
  by (induction s cs rule: find_cmd.induct) auto

text \<open>Every function of the table is reached, by one name only, with that name as its first argument.\<close>

lemma main_reaches: "\<exists>!name. \<forall>run prog args. main_c run (prog # name # args) = run e (name # args)"
proof -
  have inj: "find_cmd s cmds = Some e \<longleftrightarrow> s = (case e of Server_Run \<Rightarrow> ''wm'' | Diag_Enumerate \<Rightarrow> ''enum'' | Diag_Firstlight \<Rightarrow> ''firstlight''
     | Diag_Pageflip \<Rightarrow> ''flip'' | Diag_GL \<Rightarrow> ''gl'' | Diag_Seat \<Rightarrow> ''seatd'' | Diag_Hotplug \<Rightarrow> ''hotplug'')" (is "_ \<longleftrightarrow> s = ?n") for s
    by (cases e) (auto simp: cmds_def)
  have found: "find_cmd s cmds = Some e" if reach: "\<forall>run prog args. main_c run (prog # s # args) = run e (s # args)" for s
  proof (cases "find_cmd s cmds")
    case None
    have "main_c (\<lambda>_ _. (0, [])) [[], s] = (0, [])" using reach by simp
    with None show ?thesis by (simp add: main_c_def usage_def)
  next
    case (Some e')
    have "main_c (\<lambda>x _. (if x = e then 1 else 0, [])) [[], s] = (1, [])" using reach by simp
    with Some show ?thesis by (simp add: main_c_def split: if_splits)
  qed
  show ?thesis
  proof (rule ex1I [of _ ?n])
    show "\<forall>run prog args. main_c run (prog # ?n # args) = run e (?n # args)"
      by (simp add: main_c_def inj [THEN iffD2, OF refl])
    show "s = ?n" if "\<forall>run prog args. main_c run (prog # s # args) = run e (s # args)" for s
      using found [OF that] inj by simp
  qed
qed

text \<open>Anything else ends with status 2 and the list of commands, and runs nothing.\<close>

lemma main_refuses: "length argv < 2 \<or> find_cmd (argv ! 1) cmds = None \<Longrightarrow> fst (main_c run argv) = 2"
  by (auto simp: main_c_def usage_def)

section \<open>log.c\<close>

text \<open>
  The static variables of the logger, and what has been done with them: the paths \<open>fopen\<close> was
  called with, what went to \<open>stderr\<close> and what went to the file.
\<close>

record logger =
  g_logfile :: bool
  g_logfile_tried :: bool
  lg_fopens :: "string list"
  lg_stderr :: string
  lg_file :: string

definition fresh_logger :: logger where
  "fresh_logger = \<lparr>g_logfile = False, g_logfile_tried = False, lg_fopens = [], lg_stderr = [], lg_file = []\<rparr>"

text \<open>What the machine answers at one call: \<open>HOME\<close>, whether \<open>fopen\<close> succeeds, the formatted local time, the pid.\<close>

record log_env =
  le_home :: "string option"
  le_fopen :: bool
  le_time :: "string option"
  le_pid :: string

definition log_path :: "log_env \<Rightarrow> string" where
  "log_path e =
     take 511 (case le_home e of
                 None \<Rightarrow> ''/tmp/glacier.log''
               | Some home \<Rightarrow> if home \<noteq> [] then home @ ''/glacier.log'' else ''/tmp/glacier.log'')"

definition session_line :: "log_env \<Rightarrow> string" where
  "session_line e =
     ''\<newline>=== glacier session start: '' @ (case le_time e of None \<Rightarrow> ''?'' | Some ts \<Rightarrow> ts) @ '' (pid '' @ le_pid e @ '') ===\<newline>''"

definition logfile :: "log_env \<Rightarrow> logger \<Rightarrow> bool \<times> logger" where
  "logfile e g =
     (if g_logfile g \<or> g_logfile_tried g then (g_logfile g, g)
      else (let g1 = g\<lparr>g_logfile_tried := True, lg_fopens := lg_fopens g @ [log_path e], g_logfile := le_fopen e\<rparr>
            in if \<not> g_logfile g1 then (False, g1)
               else (True, g1\<lparr>lg_file := lg_file g1 @ session_line e\<rparr>)))"

definition log_text :: "string \<Rightarrow> string \<Rightarrow> string" where
  "log_text level msg = ''['' @ level @ ''] '' @ msg @ ''\<newline>''"

definition log_msg :: "log_env \<Rightarrow> string \<Rightarrow> string \<Rightarrow> logger \<Rightarrow> logger" where
  "log_msg e level msg g =
     (let g1 = g\<lparr>lg_stderr := lg_stderr g @ log_text level msg\<rparr>;
          (f, g2) = logfile e g1
      in if f then g2\<lparr>lg_file := lg_file g2 @ log_text level msg\<rparr> else g2)"

definition log_all :: "(log_env \<times> string \<times> string) list \<Rightarrow> logger \<Rightarrow> logger" where
  "log_all = fold (\<lambda>(e, level, msg). log_msg e level msg)"

definition log_lines :: "(log_env \<times> string \<times> string) list \<Rightarrow> string" where
  "log_lines ms = concat (map (\<lambda>(_, level, msg). log_text level msg) ms)"

lemma log_later:
  "g_logfile_tried g \<Longrightarrow>
   log_all ms g = g\<lparr>lg_stderr := lg_stderr g @ log_lines ms, lg_file := (if g_logfile g then lg_file g @ log_lines ms else lg_file g)\<rparr>"
proof (induction ms arbitrary: g)
  case Nil
  then show ?case by (simp add: log_all_def log_lines_def)
next
  case (Cons m ms)
  obtain e level msg where m: "m = (e, level, msg)" by (cases m)
  have one: "log_msg e level msg g =
      g\<lparr>lg_stderr := lg_stderr g @ log_text level msg, lg_file := (if g_logfile g then lg_file g @ log_text level msg else lg_file g)\<rparr>"
    using Cons.prems by (simp add: log_msg_def logfile_def Let_def)
  have "log_all (m # ms) g = log_all ms (log_msg e level msg g)" by (simp add: m log_all_def)
  also have "\<dots> = g\<lparr>lg_stderr := lg_stderr g @ log_lines (m # ms), lg_file := (if g_logfile g then lg_file g @ log_lines (m # ms) else lg_file g)\<rparr>"
    unfolding one by (subst Cons.IH) (use Cons.prems in \<open>auto simp: m log_lines_def\<close>)
  finally show ?case .
qed

text \<open>
  The file is opened once, by the first message and under the \<open>HOME\<close> of that moment; a file that
  cannot be opened is not tried again, so that logging never ends the program. Everything
  goes to \<open>stderr\<close> in order, and the file, when there is one, is a copy of it behind the line
  that starts the session.
\<close>

theorem log_file_copies_stderr:
  "let g = log_all ((e, level, msg) # ms) fresh_logger
   in lg_fopens g = [log_path e] \<and>
      lg_stderr g = log_lines ((e, level, msg) # ms) \<and>
      lg_file g = (if le_fopen e then session_line e @ lg_stderr g else [])"
proof -
  have "log_all ((e, level, msg) # ms) fresh_logger = log_all ms (log_msg e level msg fresh_logger)" by (simp add: log_all_def)
  moreover have "g_logfile_tried (log_msg e level msg fresh_logger)"
    by (simp add: log_msg_def logfile_def fresh_logger_def Let_def)
  ultimately show ?thesis
    by (simp add: log_later) (simp add: log_msg_def logfile_def fresh_logger_def Let_def log_lines_def)
qed

end
