(* ===== verification/Input.thy ===== *)
theory Input
  imports Server_Start Server
begin

text \<open>
  The seat and the input devices: \<open>src/src/seat.c\<close> and \<open>src/src/input.c\<close>.

  libseat, libinput and xkbcommon are the environment: what \<open>libseat_dispatch\<close> calls back,
  what opening a device returns, the events libinput has queued and how the keyboard state
  reads are arguments. The code's own state is the seat, the table of open devices and the
  events it makes.
\<close>

section \<open>The seat\<close>

record seat =
  st_handle :: bool
  st_active :: bool
  st_acks :: nat

text \<open>libseat calls back with true (enable) or false (disable); a disable is acknowledged.\<close>

definition seat_event :: "bool \<Rightarrow> seat \<Rightarrow> seat" where
  "seat_event on s = (if on then s\<lparr>st_active := True\<rparr> else s\<lparr>st_active := False, st_acks := Suc (st_acks s)\<rparr>)"

text \<open>
  The pump of \<open>seat_open\<close>: each call of \<open>libseat_dispatch\<close> returns a code and makes
  callbacks; \<open>None\<close> when it still waits after all the calls given.
\<close>

fun seat_pump :: "(int \<times> bool list) list \<Rightarrow> seat \<Rightarrow> (int \<times> seat) option" where
  "seat_pump ds s =
     (if st_active s then Some (0, s)
      else case ds of
             [] \<Rightarrow> None
           | (r, cbs) # rest \<Rightarrow>
               (let s1 = fold seat_event cbs s in if r < 0 then Some (-1, s1) else seat_pump rest s1))"

declare seat_pump.simps [simp del]

definition seat_open :: "bool \<Rightarrow> (int \<times> bool list) list \<Rightarrow> (int \<times> seat) option" where
  "seat_open handle_ok ds =
     (let s = \<lparr>st_handle = handle_ok, st_active = False, st_acks = 0\<rparr>
      in if \<not> handle_ok then Some (-1, s) else seat_pump ds s)"

definition seat_dispatch :: "int \<times> bool list \<Rightarrow> seat \<Rightarrow> int \<times> seat" where
  "seat_dispatch d s = (fst d, fold seat_event (snd d) s)"

definition seat_close :: "seat \<Rightarrow> seat" where
  "seat_close s = s\<lparr>st_handle := False\<rparr>"

section \<open>The device table\<close>

definition MAX_DEVS :: nat where [simp]: "MAX_DEVS = 64"

text \<open>The open devices (descriptor and seat device id) and the screen bounds.\<close>

record input =
  in_devs :: "(fd \<times> int) list"
  in_width :: int
  in_height :: int

definition open_restricted :: "int \<times> fd \<Rightarrow> input \<Rightarrow> fd \<times> input" where
  "open_restricted ans i =
     (case seat_open_device ans of
        None \<Rightarrow> (-1, i)
      | Some (devid, f) \<Rightarrow>
          (f, if length (in_devs i) < MAX_DEVS then i\<lparr>in_devs := in_devs i @ [(f, devid)]\<rparr> else i))"

text \<open>The device id closed, if one was, and the table with the last entry moved into the gap.\<close>

definition close_restricted :: "fd \<Rightarrow> input \<Rightarrow> int list \<times> input" where
  "close_restricted f i =
     (case find_index (\<lambda>d. fst d = f) (in_devs i) of
        None \<Rightarrow> ([], i)
      | Some k \<Rightarrow>
          (let devs = in_devs i
           in ([snd (devs ! k)], i\<lparr>in_devs := butlast (devs[k := devs ! (length devs - 1)])\<rparr>)))"

section \<open>Events\<close>

text \<open>The keyboard state of xkbcommon, as the code uses it.\<close>

record 'x xkb =
  xk_sym :: "'x \<Rightarrow> u32 \<Rightarrow> u32"
  xk_update :: "u32 \<Rightarrow> bool \<Rightarrow> 'x \<Rightarrow> 'x"
  xk_alt :: "'x \<Rightarrow> bool"
  xk_ctrl :: "'x \<Rightarrow> bool"

datatype li_event =
    Pointer_Motion real real
  | Pointer_Motion_Absolute "int \<Rightarrow> real" "int \<Rightarrow> real"
  | Pointer_Button u32 bool
  | Keyboard_Key u32 bool
  | Other_Event

definition no_event :: "input_kind \<Rightarrow> input_event" where
  "no_event k = \<lparr>ie_kind = k, ie_dx = 0, ie_dy = 0, ie_ax = 0, ie_ay = 0, ie_button = 0, ie_keysym = 0,
     ie_keycode = 0, ie_pressed = False, ie_alt_down = False, ie_ctrl_down = False\<rparr>"

definition emit_pointer_motion :: "real \<Rightarrow> real \<Rightarrow> input_event" where
  "emit_pointer_motion dx dy = (no_event INPUT_MOTION)\<lparr>ie_dx := dx, ie_dy := dy\<rparr>"

definition emit_pointer_motion_abs :: "input \<Rightarrow> (int \<Rightarrow> real) \<Rightarrow> (int \<Rightarrow> real) \<Rightarrow> input_event" where
  "emit_pointer_motion_abs i tx ty =
     (no_event INPUT_MOTION_ABS)\<lparr>ie_ax := tx (in_width i), ie_ay := ty (in_height i)\<rparr>"

definition emit_pointer_button :: "u32 \<Rightarrow> bool \<Rightarrow> input_event" where
  "emit_pointer_button b p = (no_event INPUT_BUTTON)\<lparr>ie_button := b, ie_pressed := p\<rparr>"

definition emit_key :: "'x xkb \<Rightarrow> u32 \<Rightarrow> bool \<Rightarrow> 'x option \<Rightarrow> input_event \<times> 'x option" where
  "emit_key xk code pressed st =
     (let ev = (no_event INPUT_KEY)\<lparr>ie_pressed := pressed, ie_keycode := code\<rparr>
      in case st of
           None \<Rightarrow> (ev\<lparr>ie_keysym := code\<rparr>, None)
         | Some x \<Rightarrow>
             (let xkc = code + 8; ev1 = ev\<lparr>ie_keysym := xk_sym xk x xkc\<rparr>; x1 = xk_update xk xkc pressed x
              in (ev1\<lparr>ie_alt_down := xk_alt xk x1, ie_ctrl_down := xk_ctrl xk x1\<rparr>, Some x1)))"

text \<open>\<open>input_dispatch\<close> calls the handler for each queued event, in order; \<open>cb\<close> acts on its caller's state.\<close>

fun input_dispatch :: "'x xkb \<Rightarrow> input \<Rightarrow> (input_event \<Rightarrow> 's \<Rightarrow> 's) \<Rightarrow> bool \<Rightarrow> li_event list \<Rightarrow> 'x option \<times> 's \<Rightarrow>
    int \<times> 'x option \<times> 's" where
  "input_dispatch xk i cb ok es xs =
     (if \<not> ok then (-1, xs)
      else case es of
             [] \<Rightarrow> (0, xs)
           | e # rest \<Rightarrow>
               (let (x, s) = xs;
                    xs1 = (case e of
                        Pointer_Motion dx dy \<Rightarrow> (x, cb (emit_pointer_motion dx dy) s)
                      | Pointer_Motion_Absolute tx ty \<Rightarrow> (x, cb (emit_pointer_motion_abs i tx ty) s)
                      | Pointer_Button b p \<Rightarrow> (x, cb (emit_pointer_button b p) s)
                      | Keyboard_Key c p \<Rightarrow> (let (ev, x1) = emit_key xk c p x in (x1, cb ev s))
                      | Other_Event \<Rightarrow> (x, s))
                in input_dispatch xk i cb ok rest xs1))"

declare input_dispatch.simps [simp del]

section \<open>What the table promises\<close>

text \<open>The devices the table knows, and the table's own invariant.\<close>

definition dev_map :: "input \<Rightarrow> fd \<rightharpoonup> int" where
  "dev_map i = map_of (in_devs i)"

definition devs_ok :: "input \<Rightarrow> bool" where
  "devs_ok i \<longleftrightarrow> length (in_devs i) \<le> MAX_DEVS \<and> distinct (map fst (in_devs i))"

lemma butlast_swap_set:
  assumes "distinct xs" "k < length xs"
  shows "set (butlast (xs[k := xs ! (length xs - 1)])) = set xs - {xs ! k} \<and> distinct (butlast (xs[k := xs ! (length xs - 1)]))"
proof -
  obtain ys y where xs: "xs = ys @ [y]" using assms(2) by (metis append_butlast_last_id length_0_conv not_less0)
  show ?thesis
  proof (cases "k = length ys")
    case True
    with assms(1) show ?thesis by (auto simp: xs butlast_append)
  next
    case False
    then have k: "k < length ys" using assms(2) xs by simp
    have "butlast (xs[k := xs ! (length xs - 1)]) = ys[k := y]" using k by (simp add: xs list_update_append butlast_append)
    moreover have "distinct ys" "y \<notin> set ys" using assms(1) xs by auto
    moreover have "set (ys[k := y]) = insert y (set ys - {ys ! k})"
      using k \<open>distinct ys\<close> by (auto simp: set_conv_nth nth_list_update distinct_conv_nth)
    ultimately show ?thesis using k assms(1) by (auto simp: xs nth_append distinct_list_update)
  qed
qed

lemma map_of_distinct: "distinct (map fst xs) \<Longrightarrow> map_of xs k = Some v \<longleftrightarrow> (k, v) \<in> set xs"
  by (rule map_of_eq_Some_iff)

lemma map_of_set_eq: "distinct (map fst xs) \<Longrightarrow> distinct (map fst ys) \<Longrightarrow> set xs = set ys \<Longrightarrow> map_of xs = map_of ys"
  by (rule map_of_eqI) auto

lemma close_restricted_spec:
  assumes "devs_ok i"
  shows "devs_ok (snd (close_restricted f i)) \<and> dev_map (snd (close_restricted f i)) = (dev_map i)(f := None) \<and>
    fst (close_restricted f i) = (case dev_map i f of None \<Rightarrow> [] | Some d \<Rightarrow> [d])"
proof (cases "find_index (\<lambda>d. fst d = f) (in_devs i)")
  case None
  then have "dev_map i f = None" by (force simp: dev_map_def find_index_None_iff map_of_eq_None_iff)
  with None assms show ?thesis by (simp add: close_restricted_def fun_upd_idem)
next
  case (Some k)
  let ?xs = "in_devs i"
  let ?ys = "butlast (?xs[k := ?xs ! (length ?xs - 1)])"
  have k: "k < length ?xs" "fst (?xs ! k) = f" using find_index_SomeD [OF Some] by simp_all
  have d: "distinct (map fst ?xs)" and len: "length ?xs \<le> 64" using assms by (simp_all add: devs_ok_def)
  have "distinct ?xs" using d by (simp add: distinct_map)
  note sw = butlast_swap_set [OF this k(1)]
  have dy: "distinct (map fst ?ys)"
    using sw d by (auto simp: distinct_map intro: inj_on_subset)
  have mem: "?xs ! k \<in> set ?xs" using k(1) by simp
  have "map_of ?ys = (map_of ?xs)(f := None)"
  proof
    fix j
    have "map_of ?ys j = Some v \<longleftrightarrow> ((map_of ?xs)(f := None)) j = Some v" for v
    proof -
      have "(j, v) \<in> set ?ys \<longleftrightarrow> (j, v) \<in> set ?xs \<and> (j, v) \<noteq> ?xs ! k" using sw by blast
      also have "\<dots> \<longleftrightarrow> (j, v) \<in> set ?xs \<and> j \<noteq> f"
        using d k mem by (cases "?xs ! k") (force simp: distinct_map inj_on_def)
      finally show ?thesis using map_of_eq_Some_iff [OF dy] map_of_eq_Some_iff [OF d] by (simp add: fun_upd_apply)
    qed
    then show "map_of ?ys j = ((map_of ?xs)(f := None)) j" by (metis not_None_eq)
  qed
  moreover have "map_of ?xs f = Some (snd (?xs ! k))" using d mem k(2) by (metis map_of_eq_Some_iff prod.collapse)
  moreover have "length ?ys \<le> 64" using len by simp
  ultimately show ?thesis
    using Some dy by (simp add: close_restricted_def Let_def dev_map_def devs_ok_def)
qed

text \<open>
  C39: The table of at most 64 devices with its swap-with-the-last removal implements a map
  from descriptors to seat devices. With a free entry, opening a device under a new
  descriptor adds it; a device the seat refuses is not recorded. In any such table, the
  full one included, closing a descriptor gives back exactly the seat device it was opened
  with and forgets it, and closing an unknown descriptor gives nothing back and changes nothing.
\<close>

theorem device_table_refines:
  assumes "devs_ok i"
  shows "(length (in_devs i) < 64 \<and> 0 \<le> devid \<and> 0 \<le> f \<and> dev_map i f = None \<longrightarrow>
      fst (open_restricted (devid, f) i) = f \<and> devs_ok (snd (open_restricted (devid, f) i)) \<and>
      dev_map (snd (open_restricted (devid, f) i)) = (dev_map i)(f \<mapsto> devid)) \<and>
    (devid < 0 \<longrightarrow> fst (open_restricted (devid, f) i) < 0 \<and> snd (open_restricted (devid, f) i) = i) \<and>
    devs_ok (snd (close_restricted g i)) \<and> dev_map (snd (close_restricted g i)) = (dev_map i)(g := None) \<and>
    (case dev_map i g of
       None \<Rightarrow> close_restricted g i = ([], i)
     | Some d \<Rightarrow> fst (close_restricted g i) = [d] \<and> length (in_devs (snd (close_restricted g i))) + 1 = length (in_devs i))"
proof -
  have opened: "fst (open_restricted (devid, f) i) = f \<and> devs_ok (snd (open_restricted (devid, f) i)) \<and>
      dev_map (snd (open_restricted (devid, f) i)) = (dev_map i)(f \<mapsto> devid)"
    if a: "length (in_devs i) < 64" "0 \<le> devid" "0 \<le> f" "dev_map i f = None"
  proof -
    have new: "f \<notin> fst ` set (in_devs i)" using a(4) by (simp add: dev_map_def map_of_eq_None_iff)
    have "open_restricted (devid, f) i = (f, i\<lparr>in_devs := in_devs i @ [(f, devid)]\<rparr>)"
      using a(1-3) by (simp add: open_restricted_def seat_open_device_def)
    moreover have "map_of (in_devs i @ [(f, devid)]) = (map_of (in_devs i))(f \<mapsto> devid)"
      using new by (simp add: map_add_upd_left map_of_eq_None_iff [symmetric] fun_eq_iff map_add_def dom_map_of_conv_image_fst split: option.split)
    ultimately show ?thesis using assms a(1) new by (simp add: devs_ok_def dev_map_def)
  qed
  have refused: "fst (open_restricted (devid, f) i) < 0 \<and> snd (open_restricted (devid, f) i) = i" if "devid < 0"
    using that by (simp add: open_restricted_def seat_open_device_def)
  have known: "find_index (\<lambda>d. fst d = g) (in_devs i) = None \<longleftrightarrow> dev_map i g = None"
    by (force simp: dev_map_def find_index_None_iff map_of_eq_None_iff)
  have closed: "case dev_map i g of None \<Rightarrow> close_restricted g i = ([], i)
     | Some d \<Rightarrow> fst (close_restricted g i) = [d] \<and> length (in_devs (snd (close_restricted g i))) + 1 = length (in_devs i)"
  proof (cases "dev_map i g")
    case None
    with known show ?thesis by (simp add: close_restricted_def)
  next
    case (Some d)
    with known obtain k where k: "find_index (\<lambda>d. fst d = g) (in_devs i) = Some k" by auto
    with find_index_lt [OF k] Some close_restricted_spec [OF assms, of g] show ?thesis
      by (simp add: close_restricted_def Let_def)
  qed
  show ?thesis using opened refused closed close_restricted_spec [OF assms, of g] by blast
qed

text \<open>Opening a third device, and closing the 64th of a full table.\<close>

theorem device_table_refines_witness:
  "dev_map (snd (open_restricted (3, 9) \<lparr>in_devs = [(7, 1), (8, 2)], in_width = 2, in_height = 1\<rparr>)) 9 = Some 3 \<and>
   fst (close_restricted 63 \<lparr>in_devs = map (\<lambda>k. (int k, int k + 100)) [0..<64], in_width = 2, in_height = 1\<rparr>) = [163]"
proof -
  let ?i = "\<lparr>in_devs = [(7, 1), (8, 2)], in_width = 2, in_height = 1\<rparr>"
  let ?j = "\<lparr>in_devs = map (\<lambda>k. (int k, int k + 100)) [0..<64], in_width = 2, in_height = 1\<rparr>"
  have i: "devs_ok ?i" "dev_map ?i 9 = None" by (simp_all add: devs_ok_def dev_map_def)
  have "devs_ok ?j" by (simp add: devs_ok_def comp_def distinct_map inj_on_def)
  moreover from this have "dev_map ?j 63 = Some 163"
    by (auto simp: dev_map_def devs_ok_def map_of_eq_Some_iff image_iff intro!: bexI [of _ "63 :: nat"])
  ultimately show ?thesis
    using device_table_refines [OF i(1), of 3 9 9] device_table_refines [of ?j 3 9 63] i(2) by simp
qed

text \<open>The device that does not fit the table is opened all the same, and never closed.\<close>

lemma untracked_device_leaks:
  assumes "length (in_devs i) = MAX_DEVS" "0 \<le> devid" "0 \<le> f" "dev_map i f = None"
  shows "fst (open_restricted (devid, f) i) = f \<and> fst (close_restricted f (snd (open_restricted (devid, f) i))) = []"
proof -
  have "open_restricted (devid, f) i = (f, i)" using assms(1-3) by (simp add: open_restricted_def seat_open_device_def)
  moreover have "find_index (\<lambda>d. fst d = f) (in_devs i) = None"
    using assms(4) by (auto simp: dev_map_def map_of_eq_None_iff find_index_None_iff rev_image_eqI)
  ultimately show ?thesis by (simp add: close_restricted_def)
qed

text \<open>The pump of \<open>seat_open\<close> ends as soon as the seat is enabled or a dispatch fails, whatever follows.\<close>

lemma seat_pump_ends:
  "(\<exists>d \<in> set ds. fst d < 0) \<Longrightarrow> \<exists>r s'. seat_pump ds s = Some (r, s') \<and> (r = 0 \<longrightarrow> st_active s')"
proof (induction ds arbitrary: s)
  case (Cons d ds)
  obtain r cbs where d: "d = (r, cbs)" by (cases d)
  show ?case
  proof (cases "st_active s \<or> r < 0")
    case True
    then show ?thesis by (subst seat_pump.simps) (auto simp: d Let_def)
  next
    case False
    with Cons.prems d have "\<exists>d \<in> set ds. fst d < 0" by auto
    from Cons.IH [OF this, of "fold seat_event cbs s"] False show ?thesis by (subst seat_pump.simps) (simp add: d Let_def)
  qed
qed simp

end
