(* ===== verification/Input_Life.thy ===== *)
theory Input_Life
  imports Input "HOL-Library.Multiset"
begin

text \<open>
  The life of the input component, \<open>input_create\<close> to \<open>input_destroy\<close> of \<open>src/src/input.c\<close>: the
  library objects it makes and releases, and the seat devices that libinput opens and closes
  through the code's two callbacks. Which calls libinput makes, and when, is its own affair:
  they are a list, and what is documented of them (a descriptor it opens is a new one, it
  closes only what it has open, and all of that by the time it is released) is a premise.
\<close>

section \<open>The interface given to libinput\<close>

datatype li_call = Li_Open "int \<times> fd" | Li_Close fd

text \<open>The component with, for the proofs, what libinput has open and the seat devices opened and closed so far.\<close>

record lib_input =
  li_input :: input
  li_fds :: "fd list"
  li_opened :: "int list"
  li_closed :: "int list"

fun li_iface :: "li_call \<Rightarrow> lib_input \<Rightarrow> lib_input" where
  "li_iface (Li_Open ans) s =
     (let (f, i) = open_restricted ans (li_input s); s1 = s\<lparr>li_input := i\<rparr>
      in if f < 0 then s1 else s1\<lparr>li_fds := f # li_fds s, li_opened := fst ans # li_opened s\<rparr>)"
| "li_iface (Li_Close f) s =
     (let (ids, i) = close_restricted f (li_input s)
      in s\<lparr>li_input := i, li_fds := remove1 f (li_fds s), li_closed := ids @ li_closed s\<rparr>)"

section \<open>Creation and destruction\<close>

datatype lib_obj = Udev | Libinput | Xkb_Context | Xkb_Keymap | Xkb_State

text \<open>Which of the pointers of \<open>struct input\<close> are set.\<close>

record input_objs =
  io_udev :: bool
  io_li :: bool
  io_xkb :: bool
  io_keymap :: bool
  io_state :: bool

text \<open>What the libraries answer: each object made or not, and whether the seat is assigned.\<close>

record input_answers =
  ia_calloc :: bool
  ia_udev :: bool
  ia_li :: bool
  ia_assign :: bool
  ia_xkb :: bool
  ia_keymap :: bool
  ia_state :: bool

definition zero_objs :: input_objs where
  "zero_objs = \<lparr>io_udev = False, io_li = False, io_xkb = False, io_keymap = False, io_state = False\<rparr>"

definition new_input :: "int \<Rightarrow> int \<Rightarrow> lib_input" where
  "new_input w h = \<lparr>li_input = \<lparr>in_devs = [], in_width = w, in_height = h\<rparr>, li_fds = [], li_opened = [], li_closed = []\<rparr>"

text \<open>The objects released, in order; releasing libinput makes it close its devices with \<open>calls\<close>.\<close>

definition input_destroy :: "input_objs \<Rightarrow> li_call list \<Rightarrow> lib_input \<Rightarrow> lib_obj list \<times> lib_input" where
  "input_destroy objs calls s =
     ((if io_state objs then [Xkb_State] else []) @ (if io_keymap objs then [Xkb_Keymap] else []) @
      (if io_xkb objs then [Xkb_Context] else []) @ (if io_li objs then [Libinput] else []) @
      (if io_udev objs then [Udev] else []),
      if io_li objs then fold li_iface calls s else s)"

text \<open>\<open>boot\<close> are the calls libinput makes while the seat is assigned, \<open>unref\<close> those of its release on an error.\<close>

definition input_create ::
  "input_answers \<Rightarrow> li_call list \<Rightarrow> li_call list \<Rightarrow> int \<Rightarrow> int \<Rightarrow> input_objs option \<times> lib_obj list \<times> lib_input" where
  "input_create a boot unref w h =
     (let s0 = new_input w h
      in if \<not> ia_calloc a then (None, [], s0)
         else let o1 = zero_objs\<lparr>io_udev := ia_udev a\<rparr>
      in if \<not> io_udev o1 then (None, input_destroy o1 unref s0)
         else let o2 = o1\<lparr>io_li := ia_li a\<rparr>
      in if \<not> io_li o2 then (None, input_destroy o2 unref s0)
         else let s1 = fold li_iface boot s0
      in if \<not> ia_assign a then (None, input_destroy o2 unref s1)
         else let o3 = o2\<lparr>io_xkb := ia_xkb a\<rparr>;
                  o4 = (if io_xkb o3
                        then (let k = o3\<lparr>io_keymap := ia_keymap a\<rparr> in if io_keymap k then k\<lparr>io_state := ia_state a\<rparr> else k)
                        else o3)
      in (Some o4, [], s1))"

section \<open>Every device goes back\<close>

definition li_ok :: "lib_input \<Rightarrow> li_call \<Rightarrow> bool" where
  "li_ok s c = (case c of Li_Open (_, f) \<Rightarrow> f \<notin> set (li_fds s) \<and> length (li_fds s) < MAX_DEVS | Li_Close f \<Rightarrow> f \<in> set (li_fds s))"

text \<open>The table holds what libinput has open, and the devices opened are those closed and those in the table.\<close>

definition li_inv :: "lib_input \<Rightarrow> bool" where
  "li_inv s \<longleftrightarrow> devs_ok (li_input s) \<and> image_mset fst (mset (in_devs (li_input s))) = mset (li_fds s) \<and>
     mset (li_opened s) = mset (li_closed s) + image_mset snd (mset (in_devs (li_input s)))"

lemma butlast_swap_mset:
  assumes "k < length xs"
  shows "mset (butlast (xs[k := xs ! (length xs - 1)])) = mset xs - {#xs ! k#}"
proof -
  obtain ys y where xs: "xs = ys @ [y]" using assms by (metis append_butlast_last_id length_0_conv not_less0)
  show ?thesis
  proof (cases "k = length ys")
    case False
    then have "k < length ys" using assms xs by simp
    then show ?thesis by (simp add: xs list_update_append butlast_append mset_update nth_append)
  qed (simp add: xs butlast_append)
qed

lemma iface_inv:
  assumes "li_inv s" "li_ok s c"
  shows "li_inv (li_iface c s)"
proof (cases c)
  case (Li_Open ans)
  obtain d f where ans: "ans = (d, f)" by (cases ans)
  have inv: "devs_ok (li_input s)" "image_mset fst (mset (in_devs (li_input s))) = mset (li_fds s)" using assms(1) by (simp_all add: li_inv_def)
  have "fst ` set (in_devs (li_input s)) = set (li_fds s)" using arg_cong [OF inv(2), of set_mset] by simp
  moreover have "length (in_devs (li_input s)) = length (li_fds s)" using arg_cong [OF inv(2), of size] by simp
  ultimately have "f \<notin> fst ` set (in_devs (li_input s))" "length (in_devs (li_input s)) < 64"
    using assms(2) by (simp_all add: Li_Open ans li_ok_def)
  with assms(1) show ?thesis
    by (auto simp: Li_Open ans open_restricted_def seat_open_device_def li_inv_def devs_ok_def)
next
  case (Li_Close f)
  let ?devs = "in_devs (li_input s)"
  have inv: "devs_ok (li_input s)" "image_mset fst (mset ?devs) = mset (li_fds s)"
      "mset (li_opened s) = mset (li_closed s) + image_mset snd (mset ?devs)" using assms(1) by (simp_all add: li_inv_def)
  have "f \<in> fst ` set ?devs" using assms(2) arg_cong [OF inv(2), of set_mset] by (simp add: Li_Close li_ok_def)
  then obtain k where k: "find_index (\<lambda>d. fst d = f) ?devs = Some k"
    by (cases "find_index (\<lambda>d. fst d = f) ?devs") (auto simp: find_index_None_iff)
  then have at: "k < length ?devs" "fst (?devs ! k) = f" using find_index_SomeD [OF k] by simp_all
  obtain i where c: "close_restricted f (li_input s) = ([snd (?devs ! k)], i)" "mset (in_devs i) = mset ?devs - {#?devs ! k#}"
    using k butlast_swap_mset [OF at(1)] by (simp add: close_restricted_def Let_def)
  have elem: "{#?devs ! k#} \<subseteq># mset ?devs" using at(1) by simp
  have "devs_ok i" using close_restricted_spec [OF inv(1), of f] c(1) by simp
  moreover have "image_mset fst (mset (in_devs i)) = mset (remove1 f (li_fds s))"
    using inv(2) at(2) by (simp add: c(2) image_mset_Diff [OF elem])
  moreover have "mset (li_opened s) = add_mset (snd (?devs ! k)) (mset (li_closed s)) + image_mset snd (mset (in_devs i))"
    using inv(3) at(1) by (simp add: c(2) image_mset_Diff [OF elem])
  ultimately show ?thesis by (simp add: Li_Close c(1) li_inv_def)
qed

interpretation li_machine: guarded_machine li_iface li_ok li_inv
  by unfold_locales (rule iface_inv)

lemma new_inv: "li_inv (new_input w h)"
  by (simp add: li_inv_def new_input_def devs_ok_def)

text \<open>When libinput has closed what it had open, every device is closed that was opened, as often.\<close>

lemma all_closed: "li_inv s \<Longrightarrow> li_fds s = [] \<Longrightarrow> in_devs (li_input s) = [] \<and> mset (li_opened s) = mset (li_closed s)"
  by (simp add: li_inv_def)

definition objs_of :: "input_objs \<Rightarrow> lib_obj set" where
  "objs_of p = {x. case x of Udev \<Rightarrow> io_udev p | Libinput \<Rightarrow> io_li p | Xkb_Context \<Rightarrow> io_xkb p | Xkb_Keymap \<Rightarrow> io_keymap p | Xkb_State \<Rightarrow> io_state p}"

lemma destroy_objs: "set (fst (input_destroy p cs s)) = objs_of p" "distinct (fst (input_destroy p cs s))"
proof -
  show "set (fst (input_destroy p cs s)) = objs_of p"
  proof (rule set_eqI)
    fix x show "x \<in> set (fst (input_destroy p cs s)) \<longleftrightarrow> x \<in> objs_of p" by (cases x) (simp_all add: input_destroy_def objs_of_def)
  qed
  show "distinct (fst (input_destroy p cs s))" by (simp add: input_destroy_def)
qed

lemma input_created:
  assumes "input_create a boot unref w h = (Some p, rel, s)"
  shows "io_udev p" "io_li p" "s = fold li_iface boot (new_input w h)"
proof -
  have ok: "ia_calloc a" "ia_udev a" "ia_li a" "ia_assign a"
    using assms unfolding input_create_def Let_def
    by (cases "ia_calloc a"; cases "ia_udev a"; cases "ia_li a"; cases "ia_assign a"; simp)+
  show "io_udev p" "io_li p" "s = fold li_iface boot (new_input w h)"
    using assms by (cases "ia_xkb a"; cases "ia_keymap a"; force simp: ok input_create_def zero_objs_def Let_def)+
qed

text \<open>
  C36: The input component gives back what it took: between its creation and its end, whatever
  devices come and go as long as at most 64 are open at a time (\<open>li_ok\<close>, asked of each call), and
  libinput, as it documents, closes by its release every device it has open, every seat device that was opened has been
  closed as often as it was opened, the table is empty, and every object of the
  libraries has been released once, libinput before the udev context it uses. A 65th
  device is never closed (\<open>Input.untracked_device_leaks\<close>).
\<close>

theorem input_gives_back:
  assumes "input_create a boot unref w h = (Some p, rel, s0)" "guarded_run li_iface li_ok boot (new_input w h)"
    and "guarded_run li_iface li_ok calls s0" "input_destroy p final (fold li_iface calls s0) = (gone, s)"
    and "guarded_run li_iface li_ok final (fold li_iface calls s0)" "li_fds s = []"
  shows "in_devs (li_input s) = [] \<and> mset (li_opened s) = mset (li_closed s) \<and>
    set gone = objs_of p \<and> distinct gone \<and> (\<exists>xs. gone = xs @ [Libinput, Udev])"
proof -
  note made = input_created [OF assms(1)]
  have "li_inv s0" using li_machine.run_inv [OF new_inv assms(2)] made(3) by simp
  from li_machine.run_inv [OF this assms(3)] have "li_inv (fold li_iface calls s0)" .
  from li_machine.run_inv [OF this assms(5)] have "li_inv s" using assms(4) made(2) by (auto simp: input_destroy_def)
  from all_closed [OF this assms(6)] have "in_devs (li_input s) = [] \<and> mset (li_opened s) = mset (li_closed s)" .
  moreover have "\<exists>xs. gone = xs @ [Libinput, Udev]" using assms(4) made(1,2) by (auto simp: input_destroy_def)
  ultimately show ?thesis using destroy_objs [of p final "fold li_iface calls s0"] assms(4) by auto
qed

theorem input_gives_back_witness:
  "\<exists>p s0 gone s. input_create \<lparr>ia_calloc = True, ia_udev = True, ia_li = True, ia_assign = True, ia_xkb = True, ia_keymap = True, ia_state = True\<rparr>
       [Li_Open (1, 7), Li_Open (2, 8)] [] 640 480 = (Some p, [], s0) \<and>
     input_destroy p [Li_Close 9] (fold li_iface [Li_Close 7, Li_Open (3, 9), Li_Close 8] s0) = (gone, s) \<and>
     mset (li_closed s) = {#1, 2, 3#} \<and> set gone = UNIV"
proof -
  let ?a = "\<lparr>ia_calloc = True, ia_udev = True, ia_li = True, ia_assign = True, ia_xkb = True, ia_keymap = True, ia_state = True\<rparr>"
  let ?boot = "[Li_Open (1, 7), Li_Open (2, 8)]" and ?calls = "[Li_Close 7, Li_Open (3, 9), Li_Close 8]"
  let ?first = "fold li_iface ?boot (new_input 640 480)" and ?p = "\<lparr>io_udev = True, io_li = True, io_xkb = True, io_keymap = True, io_state = True\<rparr>"
  let ?s = "fold li_iface ?calls ?first"
  note defs = Let_def new_input_def open_restricted_def seat_open_device_def close_restricted_def
  have c: "input_create ?a ?boot [] 640 480 = (Some ?p, [], ?first)" by (simp add: input_create_def zero_objs_def Let_def del: li_iface.simps)
  have boot: "guarded_run li_iface li_ok ?boot (new_input 640 480)" by (simp add: li_ok_def defs)
  have s0: "?first = \<lparr>li_input = \<lparr>in_devs = [(7, 1), (8, 2)], in_width = 640, in_height = 480\<rparr>, li_fds = [8, 7], li_opened = [2, 1], li_closed = []\<rparr>"
    by (simp add: defs)
  have calls: "guarded_run li_iface li_ok ?calls ?first" unfolding s0 by (simp add: li_ok_def defs)
  have s: "?s = \<lparr>li_input = \<lparr>in_devs = [(9, 3)], in_width = 640, in_height = 480\<rparr>, li_fds = [9], li_opened = [3, 2, 1], li_closed = [2, 1]\<rparr>"
    unfolding s0 by (simp add: defs)
  obtain gone t where d: "input_destroy ?p [Li_Close 9] ?s = (gone, t)" by fastforce
  have fin: "guarded_run li_iface li_ok [Li_Close 9] ?s" unfolding s by (simp add: li_ok_def)
  have t: "t = li_iface (Li_Close 9) ?s" using d by (simp add: input_destroy_def)
  have "li_fds t = []" "li_opened t = [3, 2, 1]" unfolding t s by (simp_all add: defs)
  with input_gives_back [OF c boot calls d fin this(1)]
  have m: "mset [3, 2, 1] = mset (li_closed t)" and g: "set gone = objs_of ?p" by simp_all
  have "mset (li_closed t) = {#1, 2, 3#}" unfolding m [symmetric] by (simp add: add_mset_commute)
  moreover have "set gone = UNIV"
  proof (rule set_eqI)
    fix x show "x \<in> set gone \<longleftrightarrow> x \<in> UNIV" unfolding g by (cases x) (simp_all add: objs_of_def)
  qed
  ultimately show ?thesis using c d by blast
qed

text \<open>A creation that fails, at whatever step, leaves nothing behind either.\<close>

lemma input_create_fails_clean:
  assumes "input_create a boot unref w h = (None, rel, s)" "guarded_run li_iface li_ok boot (new_input w h)"
    and "guarded_run li_iface li_ok unref (fold li_iface boot (new_input w h))" "li_fds (fold li_iface (boot @ unref) (new_input w h)) = []"
  shows "in_devs (li_input s) = [] \<and> mset (li_opened s) = mset (li_closed s) \<and>
    (\<forall>x. x \<in> set rel \<longleftrightarrow> ia_calloc a \<and> ia_udev a \<and> (x = Udev \<or> x = Libinput \<and> ia_li a))"
proof -
  have inv: "li_inv (fold li_iface unref (fold li_iface boot (new_input w h)))"
    using li_machine.run_inv [OF li_machine.run_inv [OF new_inv assms(2)] assms(3)] .
  have fds: "li_fds (fold li_iface unref (fold li_iface boot (new_input w h))) = []" using assms(4) by simp
  have new: "in_devs (li_input (new_input w h)) = []" "li_opened (new_input w h) = []" "li_closed (new_input w h) = []"
    by (simp_all add: new_input_def)
  show ?thesis
    using assms(1) all_closed [OF inv fds] new
    by (cases "ia_calloc a"; cases "ia_udev a"; cases "ia_li a"; cases "ia_assign a"; clarsimp simp: input_create_def input_destroy_def zero_objs_def Let_def; blast?)
qed

end
