(* ===== verification/Spec2Isabelle.thy ===== *)
theory Spec2Isabelle
  imports WM_Spec Transport_Place Transport_Life Transport_Fds Platform_Spec Wayland_Types Control_Spec Server_Keys Server_Frames
    Server_Display Client_Spec Diag_Seat Diag_GL_Spec Diag_Enum Entry Input_Life
begin

text \<open>
  A verification development for glacier, the display server of CrystallineLattice
  (\<open>src/\<close>): a window manager, two client frontends (its own CrystallineLattice transport
  and Wayland), a CPU compositor and a DRM/KMS back end in one single-threaded process.

  \<^bold>\<open>How the parts interact.\<close> All components share one window stack. The main loop
  (\<open>server_run\<close> in \<open>src/src/server.c\<close>) polls the seat, the input devices, the two
  frontends, the control socket and the hotplug monitor. Input goes to the window manager
  first and then, by the stack's focus and hit-test, to the client that owns a window;
  client requests create, move and fill windows of the stack; the compositor draws the
  stack into the framebuffer that is not shown, and an atomic commit shows it.

  \<^bold>\<open>Theories.\<close>

  \<^item> \<open>Prelude\<close>: 32-bit words and C \<open>int\<close>, C strings, searches in arrays, \<open>foldM\<close>.
    \<open>Interfaces\<close>: contracts between components as locales: \<open>handle_store\<close> and
    \<open>handle_alloc\<close> (the window stack as its clients see it; interpreted in
    \<open>Window_Spec\<close>), \<open>slot_table\<close> (the tables of the transport; interpreted in
    \<open>Transport_Run\<close>), \<open>guarded_machine\<close> (invariants of runs; interpreted on the window
    operations, the window manager, the transport, the Wayland frontend and its objects,
    the callbacks of libinput, and the whole server).
  \<^item> \<open>Window\<close>, \<open>Window_Spec\<close>: \<open>window.c\<close> with the array shifts and the modular Alt-Tab
    search written out. The abstract desktop (a map of windows, an order, a focus) is the
    specification and every operation is shown to implement it.
  \<^item> \<open>WM\<close>, \<open>WM_Spec\<close>: \<open>wm.c\<close>: pointer motion, dragging, Aero Snap, the work area, Alt-Tab.
  \<^item> \<open>Kernel\<close>: descriptors, memory mappings and the trace of system calls.
    \<open>Protocol\<close>: \<open>protocol.h\<close> and \<open>protocol.c\<close>, byte layouts included.
  \<^item> \<open>Transport\<close>: \<open>transport.c\<close> over a \<open>world\<close> (transport, stack, kernel).
    \<open>Transport_Own\<close>, \<open>_Inv\<close>, \<open>_Run\<close>: who owns which window and mapping, and that every
    run keeps it so. \<open>_Fds\<close>: descriptors are closed exactly once. \<open>_Spec\<close>: isolation of
    clients, the handshake, shutdown. \<open>_Place\<close>: requests. \<open>_Life\<close>: crashes, reconnection
    and expiry. \<open>_Cursor\<close>: the uploaded cursor stays in its array. \<open>_View\<close>: what the
    transport leaves alone in the shared stack. \<open>Rendezvous\<close>: the listening socket.
  \<^item> \<open>Platform\<close>, \<open>Platform_Spec\<close>: \<open>platform.c\<close>, over what libdrm reports and the objects
    alive in the kernel.
  \<^item> \<open>Compositor\<close>, \<open>Compositor_Spec\<close>, \<open>Compositor_Scene\<close>: the drawing routines of
    \<open>server.c\<close> on explicit memory. The locale \<open>canvas\<close> (interpreted on the framebuffer)
    reads them as operations on pictures, the locale \<open>drawing\<close> carries any relation its
    pixel stores keep through a whole frame (interpreted for the size and the identity of
    the framebuffer), and the frame is shown to be the scene.
  \<^item> \<open>Wayland\<close>, \<open>_Inv\<close>, \<open>_Run\<close>, \<open>_Spec\<close>: \<open>wayland.c\<close>: surfaces, roles, buffers, frame
    callbacks, the seat. A pointer that libwayland keeps can dangle; using it is the
    result \<open>None\<close>. \<open>Wayland_Objects\<close>, \<open>_Types\<close>: every implementation table, the globals
    and their binding, the user data each handler casts. \<open>Wayland_View\<close>: what the
    frontend leaves alone in the shared stack.
  \<^item> \<open>Shared_Stack\<close>: the locale \<open>tenant\<close>, the contract between the users of the one stack
    (an invariant stable under what the others do); interpreted for both frontends here
    and for the pixels of the windows in \<open>Server_Inv\<close>.
  \<^item> \<open>Control\<close>, \<open>Control_Spec\<close>: \<open>control.c\<close>, with the uninitialised memory a short request
    leaves explicit.
  \<^item> \<open>Process\<close>, \<open>Shell\<close>, \<open>Shell_Spec\<close>: processes (environment, descriptors, signals, what
    \<open>exec\<close> keeps) and the launcher of the Wine desktop, \<open>shell.c\<close>; also the terminal of
    \<open>spawn_terminal\<close>.
  \<^item> \<open>Server\<close>: input routing, resolution changes and one round of the main loop.
    \<open>Server_Start\<close>: the device probe, set-up and cleanup of the display. \<open>Server_Boot\<close>:
    the start of all components. \<open>Server_Demo\<close>: concrete servers for examples.
    \<open>Server_Keys\<close>, \<open>_Frames\<close>, \<open>_Mode\<close>: what the loop promises about keys and focus, about
    frames, and about resolution changes. \<open>Server_Inv\<close>, \<open>_Safe\<close>: the invariant of all
    components together and that no round leaves memory that is its own.
    \<open>Display_Objects\<close>, \<open>Server_Display\<close>: the kernel objects behind the framebuffers, from
    the start to the end of the server.
  \<^item> \<open>Input\<close>, \<open>Input_Life\<close>: \<open>seat.c\<close> and \<open>input.c\<close>: the seat, the device table, the events;
    creation and destruction with what libinput opens and closes in between.
  \<^item> \<open>Client\<close>, \<open>Client_Spec\<close>: the test client \<open>client.c\<close>, and its composition with the
    transport: its window appears on the desktop with the pixels it painted.
  \<^item> \<open>Diag\<close>, \<open>Diag_Spec\<close>, \<open>Diag_Seat\<close>, \<open>Diag_GL\<close>, \<open>Diag_GL_Spec\<close>, \<open>Diag_Enum\<close>: the diagnostics
    \<open>diag_*.c\<close>: first light, page flipping, the seat, the GPU, enumeration and hotplug.
    \<open>Entry\<close>: \<open>main.c\<close> and \<open>log.c\<close>.

  \<^bold>\<open>How state corresponds.\<close> A C struct is a record with its field names (prefixed where
  they clash), a pointer into an array an index, the pixels a window points to a name
  (\<open>Mapping\<close> of the transport, \<open>Content\<close> copy of the Wayland frontend). Undefined
  behaviour that the code can reach (an access out of bounds, a freed object, an \<open>int\<close>
  overflow in the compositor) is \<open>None\<close>, so the theorems either exclude it or exhibit it.
  32-bit identifiers and sizes are \<open>32 word\<close>s and wrap as in C; coordinates are \<open>int\<close>,
  with the overflow checked where the compositor computes with client values.

  \<^bold>\<open>The environment\<close> is an argument: what the kernel, libdrm, libseat, libinput,
  libwayland and xkbcommon answer. Where a theorem needs documented behaviour of theirs
  (fresh handles, a connector that stays connected, objects destroyed in protocol order)
  it is a premise, and a witness shows that it can hold.

  \<^bold>\<open>What the theorems rest on.\<close> Some are about a part of the behaviour only, and say so:
  \<^item> the server runs without a fault (\<open>Server_Boot\<close>), and a frame is the scene
    (\<open>Compositor_Scene\<close>), while clients are polite about geometry, strides and hotspots and
    the kernel grants the framebuffers; the code checks none of this, and lemmas beside the
    theorems show the faults that follow;
  \<^item> a key reaches its one client (\<open>Server_Keys\<close>) while both frontends have the same focus, which
    an Alt-Tab breaks until the end of the round;
  \<^item> a change of resolution is told to the clients of the transport, not to Wayland clients;
  \<^item> a crashed shell gets its windows back after any run of the transport in which nobody
    else uses its token, within the 5000 ms of grace (\<open>Transport_Life\<close>);
  \<^item> the diagnostics give the display back once they are set up; some of their early
    returns do not, and a disable and an enable of the seat brought by one dispatch is not
    noticed (\<open>quick_switch_not_repainted\<close>);
  \<^item> at most 64 input devices are open at a time: the 65th is never closed.

  Choices the code makes (the mode of a resolution change, the CRTC of a connector, the
  rectangle of a snap, the place of a new window) are stated over the data they are made
  from, with specification functions of their own next to the theorem, not through the
  functions that model the code. Messages are structs in memory that the code sends and casts:
  \<open>encode_request\<close> of \<open>Protocol\<close> is the image of such a struct, which the test client sends, and
  \<open>decode_request\<close> is a notion of the proofs; neither models a function of the program.

  \<^bold>\<open>Bounds.\<close> No definition uses fuel. Loops run over the arrays and queues the code runs
  over, and the drain loops over the datagrams the kernel has in store. A loop that waits
  for the outside (a reply, a flip event, the end of a child) consumes the list of what
  the outside answers and is \<open>None\<close> when the list ends first; that it returns is proved,
  under the answers that make it so, as a theorem of its own. The wait for the audio
  socket is a \<open>while_option\<close>, shown to end. The capacities (64 windows, 16 clients, 64
  listed modes, 64 devices, 256-byte datagrams) are the code's.

  \<^bold>\<open>Not modelled.\<close> The log messages of the server's components (the logger itself is in
  \<open>Entry\<close>); accessors that only return a field or call one library function (the
  descriptors to poll, \<open>wl_frontend_flush\<close>); the udev monitor and the signal handlers,
  whose effect is an answer of the environment; the GL state and the rendering of
  \<open>diag_gl.c\<close>; the self-tests. A mapped client file is assumed to cover its mapping: one
  that is truncated later raises a signal the code does not handle. Wayland serials and
  time stamps are left out. The effect of a commit on the hardware is its success or
  failure and, in the diagnostics, the framebuffer that is shown.
\<close>

end
